(* ===== verification/Foxbox_Prelude.thy ===== *)
theory Foxbox_Prelude
  imports Main "HOL-Library.AList" "HOL-Library.List_Lexorder" "HOL-Library.Char_ord"
begin

text \<open>
  What every component of the model shares: the outcome of code that may panic, the sequencing
  of fallible steps, and the two containers of the Rust standard library the program keeps its
  state in. A \<^verbatim>\<open>HashMap\<close> and a \<^verbatim>\<open>BTreeMap\<close> are association lists with distinct keys; the list
  order is the iteration order. Of a hash map nothing is assumed about that order, so a theorem
  about an arbitrary list covers every order. A B-tree map iterates in key order and its
  insertion keeps the list sorted. The contract both offer their clients is the locale
  \<open>key_map\<close>, interpreted below on both.
\<close>

named_theorems run_iff \<open>when a sequenced computation succeeds\<close>
named_theorems hm_simps \<open>lookup after the operations of the containers\<close>

section \<open>Panics and results\<close>

text \<open>
  A call either returns or panics (unwinds the thread). \<open>Result<T, E>\<close> is the sum type
  \<open>'e + 't\<close> with \<open>Inl\<close> for \<open>Err\<close>.
\<close>

datatype 'a outcome = Done 'a | Panic

fun bind_outcome :: "'a outcome \<Rightarrow> ('a \<Rightarrow> 'b outcome) \<Rightarrow> 'b outcome" where
  "bind_outcome (Done x) f = f x"
| "bind_outcome Panic f = Panic"

fun try_result :: "'e + 'a \<Rightarrow> ('a \<Rightarrow> 'e + 'b) \<Rightarrow> 'e + 'b" where
  "try_result (Inl e) f = Inl e"
| "try_result (Inr x) f = f x"

fun is_ok :: "'e + 'a \<Rightarrow> bool" where
  "is_ok (Inr _) = True"
| "is_ok (Inl _) = False"

lemma bind_outcome_Done_iff [run_iff]:
  "bind_outcome m f = Done y \<longleftrightarrow> (\<exists>x. m = Done x \<and> f x = Done y)"
  by (cases m) auto

lemma try_result_Inr_iff [run_iff]:
  "try_result m f = Inr y \<longleftrightarrow> (\<exists>x. m = Inr x \<and> f x = Inr y)"
  by (cases m) auto

lemma bind_outcome_cong [fundef_cong]:
  "m = m' \<Longrightarrow> (\<And>x. m' = Done x \<Longrightarrow> f x = g x) \<Longrightarrow> bind_outcome m f = bind_outcome m' g"
  by (cases m') auto

lemma outcome_not_Panic_iff: "m \<noteq> Panic \<longleftrightarrow> (\<exists>x. m = Done x)"
  by (cases m) auto

text \<open>A loop over a list whose body may panic: the first panic ends it.\<close>

fun fold_outcome :: "('a \<Rightarrow> 's \<Rightarrow> 's outcome) \<Rightarrow> 'a list \<Rightarrow> 's \<Rightarrow> 's outcome" where
  "fold_outcome f [] s = Done s"
| "fold_outcome f (x # xs) s = bind_outcome (f x s) (fold_outcome f xs)"

lemma fold_outcome_append:
  "fold_outcome f (xs @ ys) s = bind_outcome (fold_outcome f xs s) (fold_outcome f ys)"
  by (induction xs arbitrary: s) (auto split: outcome.splits simp: bind_outcome_Done_iff
      intro: bind_outcome.elims, (case_tac "f a s"; simp)+)

text \<open>The loop rule: an invariant that holds at the start and that every step keeps
  (without a panic) holds at the end, and the loop does not panic.\<close>

lemma fold_outcome_inv:
  assumes "I s" and "\<And>x s. x \<in> set xs \<Longrightarrow> I s \<Longrightarrow> \<exists>s'. f x s = Done s' \<and> I s'"
  shows "\<exists>s'. fold_outcome f xs s = Done s' \<and> I s'"
  using assms
proof (induction xs arbitrary: s)
  case Nil
  then show ?case by simp
next
  case (Cons x xs)
  from Cons.prems obtain s' where "f x s = Done s'" "I s'" by force
  with Cons.IH [of s'] Cons.prems(2) show ?case by auto
qed

text \<open>What every step keeps, a loop that ends keeps.\<close>

lemma fold_outcome_keeps:
  assumes "fold_outcome f xs s = Done s'" and "P s"
    and "\<And>x s s'. x \<in> set xs \<Longrightarrow> P s \<Longrightarrow> f x s = Done s' \<Longrightarrow> P s'"
  shows "P s'"
  using assms by (induction xs arbitrary: s) (auto simp: bind_outcome_Done_iff)

section \<open>Hash maps\<close>

type_synonym ('k, 'v) hashmap = "('k \<times> 'v) list"

definition hm_ok :: "('k, 'v) hashmap \<Rightarrow> bool" where
  "hm_ok m \<longleftrightarrow> distinct (map fst m)"

abbreviation hm_get :: "('k, 'v) hashmap \<Rightarrow> 'k \<Rightarrow> 'v option" where
  "hm_get m k \<equiv> map_of m k"

abbreviation hm_insert :: "'k \<Rightarrow> 'v \<Rightarrow> ('k, 'v) hashmap \<Rightarrow> ('k, 'v) hashmap" where
  "hm_insert k v m \<equiv> AList.update k v m"

abbreviation hm_remove :: "'k \<Rightarrow> ('k, 'v) hashmap \<Rightarrow> ('k, 'v) hashmap" where
  "hm_remove k m \<equiv> AList.delete k m"

abbreviation hm_keys :: "('k, 'v) hashmap \<Rightarrow> 'k list" where
  "hm_keys m \<equiv> map fst m"

abbreviation hm_values :: "('k, 'v) hashmap \<Rightarrow> 'v list" where
  "hm_values m \<equiv> map snd m"

text \<open>\<open>contains_key\<close>, \<open>Extend::extend\<close> and the modification in place of a stored value.\<close>

definition hm_has :: "('k, 'v) hashmap \<Rightarrow> 'k \<Rightarrow> bool" where
  "hm_has m k \<longleftrightarrow> map_of m k \<noteq> None"

fun hm_extend :: "('k, 'v) hashmap \<Rightarrow> ('k \<times> 'v) list \<Rightarrow> ('k, 'v) hashmap" where
  "hm_extend m [] = m"
| "hm_extend m ((k, v) # kvs) = hm_extend (hm_insert k v m) kvs"

section \<open>The contract of a key-value container\<close>

locale key_map =
  fixes get :: "'m \<Rightarrow> 'k \<Rightarrow> 'v option"
    and put :: "'k \<Rightarrow> 'v \<Rightarrow> 'm \<Rightarrow> 'm"
    and del :: "'k \<Rightarrow> 'm \<Rightarrow> 'm"
    and ok :: "'m \<Rightarrow> bool"
  assumes get_put: "ok m \<Longrightarrow> get (put k v m) = (get m)(k \<mapsto> v)"
    and get_del: "ok m \<Longrightarrow> get (del k m) = (get m)(k := None)"
    and ok_put: "ok m \<Longrightarrow> ok (put k v m)"
    and ok_del: "ok m \<Longrightarrow> ok (del k m)"
begin

lemma ok_fold_del: "ok m \<Longrightarrow> ok (fold del ks m)"
  by (induction ks arbitrary: m) (auto simp: ok_del)

lemma get_fold_del: "ok m \<Longrightarrow> get (fold del ks m) = (\<lambda>k. if k \<in> set ks then None else get m k)"
  by (induction ks arbitrary: m) (auto simp: ok_del get_del fun_eq_iff)

lemma ok_fold_put: "ok m \<Longrightarrow> ok (fold (\<lambda>(k, v). put k v) kvs m)"
  by (induction kvs arbitrary: m) (auto simp: ok_put)

lemma get_fold_put:
  "ok m \<Longrightarrow> get (fold (\<lambda>(k, v). put k v) kvs m) = get m ++ map_of (rev kvs)"
  by (induction kvs arbitrary: m) (auto simp: ok_put get_put fun_eq_iff map_add_def split: option.splits)

text \<open>Undoing the insertion of fresh keys gives back the map, as far as a lookup can tell.\<close>

lemma rollback_fresh:
  assumes "ok m" and "\<And>k. k \<in> fst ` set kvs \<Longrightarrow> get m k = None"
  shows "get (fold del (map fst kvs) (fold (\<lambda>(k, v). put k v) kvs m)) = get m"
proof
  fix k
  have keys: "map_of (rev kvs) k = None" if "k \<notin> fst ` set kvs"
    using that by (auto simp: map_of_eq_None_iff)
  show "get (fold del (map fst kvs) (fold (\<lambda>(k, v). put k v) kvs m)) k = get m k"
    using assms keys by (cases "k \<in> fst ` set kvs")
      (auto simp: get_fold_del ok_fold_put get_fold_put map_add_def)
qed

end

interpretation hm: key_map map_of AList.update AList.delete hm_ok
  by unfold_locales
    (auto simp: hm_ok_def update_conv' delete_conv' distinct_update distinct_delete)

lemma hm_ok_Nil [simp]: "hm_ok []"
  by (simp add: hm_ok_def)

lemmas hm_ok_intros [intro] = hm.ok_put hm.ok_del

lemma hm_get_insert [hm_simps, simp]: "map_of (AList.update k v m) = (map_of m)(k \<mapsto> v)"
  by (rule update_conv')

lemma hm_get_remove [hm_simps, simp]: "map_of (AList.delete k m) = (map_of m)(k := None)"
  by (rule delete_conv')

lemma hm_ok_map_of: "hm_ok m \<Longrightarrow> (k, v) \<in> set m \<longleftrightarrow> map_of m k = Some v"
  by (auto simp: hm_ok_def)

lemma hm_keys_update_set: "set (map fst (AList.update k v m)) = insert k (set (map fst m))"
  by (simp add: dom_update)

lemma hm_insert_fresh: "map_of m k = None \<Longrightarrow> AList.update k v m = m @ [(k, v)]"
  by (induction m) (auto split: if_splits)

lemma hm_remove_absent: "map_of m k = None \<Longrightarrow> AList.delete k m = m"
  by (induction m) (auto split: if_splits)

lemma hm_remove_append: "AList.delete k (m @ m') = AList.delete k m @ AList.delete k m'"
  by (induction m) auto

text \<open>A fresh insertion followed by a removal is the identity even on the iteration order.\<close>

lemma hm_remove_insert_fresh: "map_of m k = None \<Longrightarrow> AList.delete k (AList.update k v m) = m"
  by (simp add: hm_insert_fresh hm_remove_append hm_remove_absent)

lemma hm_ok_extend: "hm_ok m \<Longrightarrow> hm_ok (hm_extend m kvs)"
  by (induction m kvs rule: hm_extend.induct) (auto intro: hm.ok_put)

lemma hm_get_extend: "map_of (hm_extend m kvs) = map_of m ++ map_of (rev kvs)"
  by (induction m kvs rule: hm_extend.induct) (auto simp: fun_eq_iff map_add_def split: option.splits)

section \<open>B-tree maps\<close>

type_synonym 'v btree = "(string \<times> 'v) list"

definition bt_ok :: "(string \<times> 'v) list \<Rightarrow> bool" where
  "bt_ok m \<longleftrightarrow> sorted_wrt (<) (map fst m)"

fun bt_insert :: "string \<Rightarrow> 'v \<Rightarrow> (string \<times> 'v) list \<Rightarrow> (string \<times> 'v) list" where
  "bt_insert k v [] = [(k, v)]"
| "bt_insert k v ((k', v') # m) =
     (if k < k' then (k, v) # (k', v') # m
      else if k = k' then (k, v) # m
      else (k', v') # bt_insert k v m)"

fun bt_collect :: "(string \<times> 'v) list \<Rightarrow> (string \<times> 'v) list" where
  "bt_collect kvs = fold (\<lambda>(k, v). bt_insert k v) kvs []"

lemma bt_get_insert [hm_simps, simp]: "map_of (bt_insert k v m) = (map_of m)(k \<mapsto> v)"
  by (induction k v m rule: bt_insert.induct) (auto simp: fun_eq_iff)

lemma bt_keys_insert: "fst ` set (bt_insert k v m) = insert k (fst ` set m)"
  by (induction k v m rule: bt_insert.induct) auto

lemma bt_ok_insert: "bt_ok m \<Longrightarrow> bt_ok (bt_insert k v m)"
proof (induction k v m rule: bt_insert.induct)
  case (1 k v)
  then show ?case by (simp add: bt_ok_def)
next
  case (2 k v k' v' m)
  have keys: "fst ` set (bt_insert k v m) = insert k (fst ` set m)" by (rule bt_keys_insert)
  have "sorted_wrt (<) (map fst (bt_insert k v m))" if "k' < k"
    using 2 that by (auto simp: bt_ok_def)
  with 2(2) keys show ?case by (auto simp: bt_ok_def)
qed

lemma bt_ok_delete: "bt_ok m \<Longrightarrow> bt_ok (AList.delete k m)"
  by (induction m) (auto simp: bt_ok_def AList.delete_eq)

interpretation bt: key_map map_of bt_insert AList.delete bt_ok
  by unfold_locales (auto simp: bt_ok_insert bt_ok_delete)

lemma bt_ok_Nil [simp]: "bt_ok []"
  by (simp add: bt_ok_def)

lemma bt_ok_collect: "bt_ok (bt_collect kvs)"
  by (simp add: bt.ok_fold_put del: bt_get_insert)

lemma bt_get_collect: "map_of (bt_collect kvs) = map_of (rev kvs)"
  using bt.get_fold_put [of "[]" kvs] by simp

section \<open>Hash sets\<close>

text \<open>A hash set is the list of its members in iteration order. \<open>insert\<close> and \<open>remove\<close>
  return whether they changed the set.\<close>

type_synonym 'a hashset = "'a list"

definition hs_insert :: "'a \<Rightarrow> 'a hashset \<Rightarrow> bool \<times> 'a hashset" where
  "hs_insert x s = (if x \<in> set s then (False, s) else (True, s @ [x]))"

definition hs_remove :: "'a \<Rightarrow> 'a hashset \<Rightarrow> bool \<times> 'a hashset" where
  "hs_remove x s = (x \<in> set s, removeAll x s)"

lemma hs_insert_set [simp]: "set (snd (hs_insert x s)) = insert x (set s)"
  by (auto simp: hs_insert_def)

lemma hs_remove_set [simp]: "set (snd (hs_remove x s)) = set s - {x}"
  by (auto simp: hs_remove_def)

lemma hs_insert_distinct: "distinct s \<Longrightarrow> distinct (snd (hs_insert x s))"
  by (auto simp: hs_insert_def)

lemma hs_remove_distinct: "distinct s \<Longrightarrow> distinct (snd (hs_remove x s))"
  by (auto simp: hs_remove_def distinct_removeAll)

lemma hs_insert_changed: "fst (hs_insert x s) \<longleftrightarrow> x \<notin> set s"
  by (auto simp: hs_insert_def)

lemma hs_remove_changed: "fst (hs_remove x s) \<longleftrightarrow> x \<in> set s"
  by (auto simp: hs_remove_def)

section \<open>Decimal printing\<close>

text \<open>\<open>format!("{}", n)\<close> of an unsigned integer.\<close>

definition digit_char :: "nat \<Rightarrow> char" where
  "digit_char d = char_of (48 + d)"

fun show_nat :: "nat \<Rightarrow> string" where
  "show_nat n = (if n < 10 then [digit_char n] else show_nat (n div 10) @ [digit_char (n mod 10)])"

declare show_nat.simps [simp del]

end
