(* ===== verification/F64.thy ===== *)
theory F64
  imports Complex_Main
begin

text \<open>
  Rust's \<^verbatim>\<open>f64\<close>, as far as the program computes with it: conversion from integers, comparison,
  multiplication and division with rounding to nearest-even, and the cast \<open>as i64\<close>. A finite
  value is the rational it denotes, so the two zeros are one value (they compare equal, and the
  code never tells them apart). Rounding picks the unit in the last place of a 53-bit
  significand, with gradual underflow at \<open>2 ^ -1074\<close>.
\<close>

datatype f64 = Fin rat | Inf bool | NaN \<comment> \<open>\<open>Inf True\<close> is minus infinity\<close>

definition pow2 :: "int \<Rightarrow> rat" where
  "pow2 e = (if 0 \<le> e then 2 ^ nat e else 1 / 2 ^ nat (- e))"

definition round_half_even :: "rat \<Rightarrow> int" where
  "round_half_even x =
     (let f = \<lfloor>x\<rfloor>; r = x - of_int f
      in if r < 1 / 2 then f else if 1 / 2 < r then f + 1 else if even f then f else f + 1)"

text \<open>The position of the leading bit of a positive integer.\<close>

fun ilog2 :: "nat \<Rightarrow> nat" where
  "ilog2 n = (if n \<le> 1 then 0 else Suc (ilog2 (n div 2)))"

declare ilog2.simps [simp del]

text \<open>The exponent of the unit in the last place of a positive rational.\<close>

definition ulp_exp :: "rat \<Rightarrow> int" where
  "ulp_exp q =
     (let (a, b) = quotient_of q; k = int (ilog2 (nat a)) - int (ilog2 (nat b));
          e = (if q < pow2 k then k - 1 else k) - 52
      in max e (- 1074))"

definition round_f64 :: "rat \<Rightarrow> f64" where
  "round_f64 q =
     (if q = 0 then Fin 0
      else let e = ulp_exp \<bar>q\<bar>; v = of_int (round_half_even (\<bar>q\<bar> / pow2 e)) * pow2 e
           in if pow2 1024 \<le> v then Inf (q < 0) else Fin (sgn q * v))"

definition f64_of_int :: "int \<Rightarrow> f64" where
  "f64_of_int i = round_f64 (of_int i)"

fun f64_mult :: "f64 \<Rightarrow> f64 \<Rightarrow> f64" where
  "f64_mult (Fin a) (Fin b) = round_f64 (a * b)"
| "f64_mult NaN _ = NaN"
| "f64_mult _ NaN = NaN"
| "f64_mult (Inf s) (Fin b) = (if b = 0 then NaN else Inf (s \<noteq> (b < 0)))"
| "f64_mult (Fin a) (Inf s) = (if a = 0 then NaN else Inf (s \<noteq> (a < 0)))"
| "f64_mult (Inf s) (Inf t) = Inf (s \<noteq> t)"

text \<open>Division, by a nonzero finite divisor (the only one in the program is \<open>1000\<close>).\<close>

fun f64_div_rat :: "f64 \<Rightarrow> rat \<Rightarrow> f64" where
  "f64_div_rat (Fin a) b = round_f64 (a / b)"
| "f64_div_rat NaN _ = NaN"
| "f64_div_rat (Inf s) b = Inf (s \<noteq> (b < 0))"

text \<open>IEEE comparison: \<open>NaN\<close> is unordered and different from itself.\<close>

fun f64_lt :: "f64 \<Rightarrow> f64 \<Rightarrow> bool" where
  "f64_lt (Fin a) (Fin b) \<longleftrightarrow> a < b"
| "f64_lt NaN _ \<longleftrightarrow> False"
| "f64_lt _ NaN \<longleftrightarrow> False"
| "f64_lt (Inf s) (Fin b) \<longleftrightarrow> s"
| "f64_lt (Fin a) (Inf s) \<longleftrightarrow> \<not> s"
| "f64_lt (Inf s) (Inf t) \<longleftrightarrow> s \<and> \<not> t"

fun f64_eq :: "f64 \<Rightarrow> f64 \<Rightarrow> bool" where
  "f64_eq (Fin a) (Fin b) \<longleftrightarrow> a = b"
| "f64_eq (Inf s) (Inf t) \<longleftrightarrow> s = t"
| "f64_eq _ _ \<longleftrightarrow> False"

text \<open>\<open>as i64\<close>: truncation towards zero, saturating at the bounds of the type, \<open>NaN\<close> to \<open>0\<close>.
  (The compiler of the program's time left the out-of-range case unspecified; later ones
  saturate. The properties below use the cast in range.)\<close>

definition i64_min :: int where "i64_min = - (2 ^ 63)"
definition i64_max :: int where "i64_max = 2 ^ 63 - 1"

definition clamp_i64 :: "int \<Rightarrow> int" where
  "clamp_i64 i = max i64_min (min i64_max i)"

definition trunc_rat :: "rat \<Rightarrow> int" where
  "trunc_rat q = (if 0 \<le> q then \<lfloor>q\<rfloor> else \<lceil>q\<rceil>)"

fun f64_as_i64 :: "f64 \<Rightarrow> int" where
  "f64_as_i64 (Fin q) = clamp_i64 (trunc_rat q)"
| "f64_as_i64 (Inf s) = (if s then i64_min else i64_max)"
| "f64_as_i64 NaN = 0"

section \<open>Facts\<close>

lemma f64_lt_irrefl: "\<not> f64_lt x x"
  by (cases x) auto

lemma f64_lt_trans: "f64_lt x y \<Longrightarrow> f64_lt y z \<Longrightarrow> f64_lt x z"
  by (cases x; cases y; cases z) auto

lemma f64_lt_not_eq: "f64_lt x y \<Longrightarrow> \<not> f64_eq x y"
  by (cases x; cases y) auto

lemma f64_trichotomy: "x \<noteq> NaN \<Longrightarrow> y \<noteq> NaN \<Longrightarrow> f64_lt x y \<or> f64_eq x y \<or> f64_lt y x"
  by (cases x; cases y) auto

lemma f64_as_i64_range: "i64_min \<le> f64_as_i64 x \<and> f64_as_i64 x \<le> i64_max"
  by (cases x) (auto simp: clamp_i64_def i64_min_def i64_max_def)

lemma pow2_pos: "0 < pow2 e"
  by (simp add: pow2_def)

text \<open>Integers of at most 53 bits are represented exactly.\<close>

lemma round_half_even_int: "round_half_even (of_int i) = i"
  by (simp add: round_half_even_def)

lemma pow2_nonneg_exp: "0 \<le> e \<Longrightarrow> pow2 e = 2 ^ nat e"
  by (simp add: pow2_def)

lemma ilog2_bound: "0 < n \<Longrightarrow> 2 ^ ilog2 n \<le> n \<and> n < 2 * 2 ^ ilog2 n"
proof (induction n rule: ilog2.induct)
  case (1 n)
  show ?case
  proof (cases "n \<le> 1")
    case True
    with 1 show ?thesis by (simp add: ilog2.simps [of n])
  next
    case False
    with 1 have "2 ^ ilog2 (n div 2) \<le> n div 2 \<and> n div 2 < 2 * 2 ^ ilog2 (n div 2)" by simp
    with False show ?thesis by (auto simp: ilog2.simps [of n])
  qed
qed


lemma ulp_exp_int:
  assumes "0 < i" "i < 2 ^ 53"
  shows "ulp_exp (of_int i) \<le> 0" and "- 52 \<le> ulp_exp (of_int i)"
proof -
  let ?k = "ilog2 (nat i)"
  have b: "2 ^ ?k \<le> nat i" using ilog2_bound [of "nat i"] assms by simp
  have i: "nat i < 2 ^ 53" using assms by (simp add: nat_less_iff)
  have k: "?k < 53"
  proof (rule ccontr)
    assume "\<not> ?thesis"
    then have "(2::nat) ^ 53 \<le> 2 ^ ?k" by (intro power_increasing) auto
    with b i show False by linarith
  qed
  have "int (2 ^ ?k) \<le> i" using b assms by (simp add: le_nat_iff)
  then have "of_int (2 ^ ?k) \<le> (of_int i :: rat)" by (subst of_int_le_iff) simp
  then have "\<not> of_int i < pow2 (int ?k)" by (simp add: pow2_def)
  moreover have "ilog2 (nat 1) = 0" by (simp add: ilog2.simps)
  ultimately show "ulp_exp (of_int i) \<le> 0" "- 52 \<le> ulp_exp (of_int i)"
    using k by (auto simp: ulp_exp_def Let_def)
qed

lemma pow2_neg_int: "e \<le> 0 \<Longrightarrow> of_int i / pow2 e = of_int (i * 2 ^ nat (- e))"
  by (cases "e = 0") (auto simp: pow2_def)

lemma pow2_large: "q < 2 ^ 53 \<Longrightarrow> q < pow2 1024"
  by (rule less_trans [of _ "2 ^ 53"]) (simp_all add: pow2_def)

text \<open>Evaluating one rounding: the exponent, the significand and the value.\<close>

lemma round_half_evenI:
  assumes "\<bar>x - of_int m\<bar> < 1 / 2"
  shows "round_half_even x = m"
proof (cases "of_int m \<le> x")
  case True
  with assms have "\<lfloor>x\<rfloor> = m" by (auto simp: floor_eq_iff)
  with assms show ?thesis by (auto simp: round_half_even_def Let_def)
next
  case False
  with assms have "\<lfloor>x\<rfloor> = m - 1" by (auto simp: floor_eq_iff abs_if)
  with assms False show ?thesis by (auto simp: round_half_even_def Let_def abs_if)
qed

lemma pow2_powi: "pow2 e = 2 powi e"
  by (simp add: pow2_def power_int_def power_inverse inverse_eq_divide power_one_over)

lemma pow2_less_iff: "pow2 a < pow2 b \<longleftrightarrow> a < b"
proof (cases a b rule: linorder_cases)
  case less
  then show ?thesis by (simp add: pow2_powi power_int_strict_increasing)
next
  case greater
  then have "pow2 b < pow2 a" by (simp add: pow2_powi power_int_strict_increasing)
  with greater show ?thesis by simp
qed simp

lemma pow2_add: "pow2 (a + b) = pow2 a * pow2 b"
  by (simp add: pow2_powi power_int_add)

lemma pow2_nat: "pow2 (int n) = 2 ^ n"
  by (simp add: pow2_def)

lemma pow2_diff: "pow2 (a - b) = pow2 a / pow2 b"
  by (simp add: pow2_powi power_int_diff)

lemma pow2_one: "pow2 1 = 2"
  by (simp add: pow2_def)

text \<open>The exponent is found: a positive rational between \<open>2 ^ (e + 52)\<close> and \<open>2 ^ (e + 53)\<close>.\<close>

lemma ilog2_quotient:
  assumes "0 < q" and q: "quotient_of q = (a, b)"
  defines "k \<equiv> int (ilog2 (nat a)) - int (ilog2 (nat b))"
  shows "pow2 (k - 1) < q" and "q < pow2 (k + 1)"
proof -
  let ?la = "ilog2 (nat a)" and ?lb = "ilog2 (nat b)"
  have b: "0 < b" by (rule quotient_of_denom_pos [OF q])
  have div: "q = of_int a / of_int b" by (rule quotient_of_div [OF q])
  with b \<open>0 < q\<close> have a: "0 < a" by (simp add: zero_less_divide_iff)
  have "int (2 ^ ?la) \<le> int (nat a) \<and> int (nat a) < int (2 * 2 ^ ?la)"
    using ilog2_bound [of "nat a"] a by (simp only: of_nat_le_iff of_nat_less_iff)
  then have la: "2 ^ ?la \<le> a" "a < 2 * 2 ^ ?la" using a by simp_all
  have "int (2 ^ ?lb) \<le> int (nat b) \<and> int (nat b) < int (2 * 2 ^ ?lb)"
    using ilog2_bound [of "nat b"] b by (simp only: of_nat_le_iff of_nat_less_iff)
  then have lb: "2 ^ ?lb \<le> b" "b < 2 * 2 ^ ?lb" using b by simp_all
  have A: "(2::rat) ^ ?la \<le> of_int a" "of_int a < (2::rat) * 2 ^ ?la"
    using la by (metis of_int_le_iff of_int_numeral of_int_power)
      (use la in \<open>metis of_int_less_iff of_int_mult of_int_numeral of_int_power\<close>)
  have B: "(2::rat) ^ ?lb \<le> of_int b" "of_int b < (2::rat) * 2 ^ ?lb"
    using lb by (metis of_int_le_iff of_int_numeral of_int_power)
      (use lb in \<open>metis of_int_less_iff of_int_mult of_int_numeral of_int_power\<close>)
  have pb: "(0::rat) < of_int b" using b by simp
  have "(2::rat) ^ ?la * of_int b < of_int a * (2 * 2 ^ ?lb)"
    by (rule mult_le_less_imp_less [OF A(1) B(2)]) (use pb in simp_all)
  then show "pow2 (k - 1) < q"
    using pb by (simp add: k_def div pow2_diff pow2_add pow2_nat pow2_one field_simps)
  have "of_int a * 2 ^ ?lb < (2 * 2 ^ ?la) * (of_int b :: rat)"
    by (rule mult_less_le_imp_less [OF A(2) B(1)]) (use a in simp_all)
  then show "q < pow2 (k + 1)"
    using pb by (simp add: k_def div pow2_diff pow2_add pow2_nat pow2_one field_simps)
qed

lemma ulp_expI:
  assumes "- 1074 \<le> e" "pow2 (e + 52) \<le> q" "q < pow2 (e + 53)"
  shows "ulp_exp q = e"
proof -
  have "0 < q" using assms(2) pow2_pos [of "e + 52"] by simp
  obtain a b where q: "quotient_of q = (a, b)" by (cases "quotient_of q")
  let ?k = "int (ilog2 (nat a)) - int (ilog2 (nat b))"
  note k = ilog2_quotient [OF \<open>0 < q\<close> q]
  have "pow2 (?k - 1) < pow2 (e + 53)" "pow2 (e + 52) < pow2 (?k + 1)"
    using k assms(2,3) by linarith+
  then have r: "?k < e + 54" "e + 51 < ?k" by (simp_all add: pow2_less_iff)
  have "(if q < pow2 ?k then ?k - 1 else ?k) = e + 52"
  proof (cases "?k = e + 53")
    case True
    with assms(3) show ?thesis by simp
  next
    case False
    with r have "?k = e + 52" by simp
    with assms(2) show ?thesis by simp
  qed
  with assms(1) q show ?thesis by (simp add: ulp_exp_def Let_def split: if_splits)
qed

lemma round_f64_posI:
  assumes "0 < q" "ulp_exp q = e" "\<bar>q / pow2 e - of_int m\<bar> < 1 / 2"
    and "of_int m * pow2 e = v" "v < pow2 1024"
  shows "round_f64 q = Fin v"
  using assms by (simp add: round_f64_def Let_def round_half_evenI)

lemma round_f64_int_pos:
  assumes "0 < i" "i < 2 ^ 53"
  shows "round_f64 (of_int i) = Fin (of_int i)"
proof (rule round_f64_posI [OF _ refl])
  let ?e = "ulp_exp (of_int i)"
  have e: "?e \<le> 0" by (rule ulp_exp_int(1) [OF assms])
  show "\<bar>of_int i / pow2 ?e - of_int (i * 2 ^ nat (- ?e))\<bar> < (1 / 2 :: rat)"
    by (simp only: pow2_neg_int [OF e])
  show "of_int (i * 2 ^ nat (- ?e)) * pow2 ?e = of_int i"
    using pow2_pos [of ?e] by (simp only: pow2_neg_int [OF e, symmetric]) simp
  have "of_int i < (of_int (2 ^ 53) :: rat)" using assms(2) by (subst of_int_less_iff)
  then show "of_int i < pow2 1024" by (intro pow2_large) simp
qed (use assms in simp)

lemma round_f64_minus: "q \<noteq> 0 \<Longrightarrow> round_f64 q = Fin v \<Longrightarrow> round_f64 (- q) = Fin (- v)"
  by (auto simp: round_f64_def Let_def split: if_splits)

lemma round_f64_int:
  assumes "\<bar>i\<bar> < 2 ^ 53"
  shows "round_f64 (of_int i) = Fin (of_int i)"
proof -
  consider "i = 0" | "0 < i" | "0 < - i" by force
  then show ?thesis
  proof cases
    case 1
    then show ?thesis by (simp add: round_f64_def)
  next
    case 2
    with assms show ?thesis by (intro round_f64_int_pos) auto
  next
    case 3
    with assms have "round_f64 (of_int (- i)) = Fin (of_int (- i))"
      by (intro round_f64_int_pos) auto
    from round_f64_minus [OF _ this] 3 show ?thesis by simp
  qed
qed

lemma f64_of_int_exact: "\<bar>i\<bar> < 2 ^ 53 \<Longrightarrow> f64_of_int i = Fin (of_int i)"
  by (simp add: f64_of_int_def round_f64_int)

text \<open>The two roundings of \<open>1.001 * 1000\<close>: the product falls just short of \<open>1001\<close>.\<close>

lemma round_1001_div_1000: "round_f64 (1001 / 1000) = Fin (4508103226997866 / 4503599627370496)"
proof (rule round_f64_posI [where e = "- 52" and m = 4508103226997866])
  show "ulp_exp (1001 / 1000) = - 52" by (rule ulp_expI) (simp_all add: pow2_def)
qed (simp_all add: pow2_def)

lemma round_1001_mult_1000:
  "round_f64 (4508103226997866 / 4503599627370496 * 1000) = Fin (8804889115230207 / 8796093022208)"
proof (rule round_f64_posI [where e = "- 43" and m = 8804889115230207])
  show "ulp_exp (4508103226997866 / 4503599627370496 * 1000) = - 43"
    by (rule ulp_expI) (simp_all add: pow2_def)
qed (simp_all add: pow2_def)

end
