(* ===== verification/Json.thy ===== *)
theory Json
  imports Foxbox_Prelude F64
begin

text \<open>
  \<^verbatim>\<open>components/taxonomy/src/parse.rs\<close>: the JSON tree the program reads and writes, the path
  used in error messages, parse errors, the \<^verbatim>\<open>Parser\<close> trait with its provided methods and its
  instances for the basic types, and \<^verbatim>\<open>ToJSON\<close>.

  A parser maps the path and the JSON value to an error or a result. Parsing consumes its
  argument; what is left of a value after \<^verbatim>\<open>parse\<close> is dropped by every caller, so only the
  field-taking methods (\<^verbatim>\<open>take\<close> and its variants), after which the same object is used again,
  return the remaining object. An object is a B-tree map. The accessors that belong to other
  crates (\<^verbatim>\<open>as_u64\<close> of serde_json, date parsing and printing of chrono) are the fields of the
  record \<open>externals\<close>, an argument of the definitions that use them.
\<close>

section \<open>The JSON tree\<close>

datatype JSON =
    Null
  | Bool bool
  | I64 int
  | U64 nat
  | F64 f64
  | JString string
  | JArray "JSON list"
  | JObject "(string \<times> JSON) list"

record externals =
  json_as_u64 :: "JSON \<Rightarrow> nat option"
  ts_from_str :: "string \<Rightarrow> int option"
  ts_to_rfc3339 :: "int \<Rightarrow> string"
  value_keys :: string \<comment> \<open>the printed names of the value parsers, in the order of a hash map\<close>

text \<open>The documented behaviour of the externals: an unsigned integer reads back as itself, and
  a printed date parses back to the same instant.\<close>

definition externals_ok :: "externals \<Rightarrow> bool" where
  "externals_ok X \<longleftrightarrow>
     (\<forall>n. json_as_u64 X (U64 n) = Some n) \<and>
     (\<forall>t. ts_from_str X (ts_to_rfc3339 X t) = Some t)"

fun as_string :: "JSON \<Rightarrow> string option" where
  "as_string (JString s) = Some s"
| "as_string _ = None"

fun is_object :: "JSON \<Rightarrow> bool" where
  "is_object (JObject _) = True"
| "is_object _ = False"

fun json_find :: "JSON \<Rightarrow> string \<Rightarrow> JSON option" where
  "json_find (JObject obj) k = map_of obj k"
| "json_find _ k = None"

section \<open>Paths\<close>

type_synonym path = string

definition path_index :: "path \<Rightarrow> nat \<Rightarrow> path" where
  "path_index p i = p @ ''['' @ show_nat i @ '']''"

definition path_push :: "path \<Rightarrow> string \<Rightarrow> path" where
  "path_push p s = p @ ''.'' @ s"

text \<open>
  The implementation: one growable buffer shared by all the paths of a parse, each path being
  the length of its prefix. \<open>push_str\<close> appends the suffix to the shared buffer, runs the
  callback with the longer path and truncates the buffer to the length of \<^verbatim>\<open>self\<close>. A callback
  takes the length of its path and the buffer, and returns its result and the buffer.
\<close>

definition Path_push_str ::
    "nat \<Rightarrow> string \<Rightarrow> (nat \<Rightarrow> string \<Rightarrow> 'r \<times> string) \<Rightarrow> string \<Rightarrow> 'r \<times> string" where
  "Path_push_str len suffix cb buf =
     (let buf1 = buf @ suffix; (result, buf2) = cb (length buf1) buf1
      in (result, take len buf2))"

definition Path_push_index ::
    "nat \<Rightarrow> nat \<Rightarrow> (nat \<Rightarrow> string \<Rightarrow> 'r \<times> string) \<Rightarrow> string \<Rightarrow> 'r \<times> string" where
  "Path_push_index len i cb buf = Path_push_str len (''['' @ show_nat i @ '']'') cb buf"

definition Path_push ::
    "nat \<Rightarrow> string \<Rightarrow> (nat \<Rightarrow> string \<Rightarrow> 'r \<times> string) \<Rightarrow> string \<Rightarrow> 'r \<times> string" where
  "Path_push len suffix cb buf = Path_push_str len (''.'' @ suffix) cb buf"

definition Path_to_string :: "nat \<Rightarrow> string \<Rightarrow> string" where
  "Path_to_string len buf = take len buf"

text \<open>A callback over the buffer implements a function of the path when, started on a buffer
  that is exactly its path, it returns that function's value and the buffer as it was.\<close>

definition path_refines :: "(nat \<Rightarrow> string \<Rightarrow> 'r \<times> string) \<Rightarrow> (path \<Rightarrow> 'r) \<Rightarrow> bool" where
  "path_refines cb f \<longleftrightarrow> (\<forall>p. cb (length p) p = (f p, p))"

lemma path_refines_to_string: "path_refines (\<lambda>len buf. (Path_to_string len buf, buf)) (\<lambda>p. p)"
  by (simp add: path_refines_def Path_to_string_def)

lemma path_refines_return: "path_refines (\<lambda>len buf. (r, buf)) (\<lambda>p. r)"
  by (simp add: path_refines_def)

lemma path_refines_push_str:
  "path_refines cb f \<Longrightarrow> path_refines (\<lambda>len. Path_push_str len s cb) (\<lambda>p. f (p @ s))"
  by (simp add: path_refines_def Path_push_str_def Let_def del: append_assoc length_append)

lemma path_refines_push:
  "path_refines cb f \<Longrightarrow> path_refines (\<lambda>len. Path_push len s cb) (\<lambda>p. f (path_push p s))"
  unfolding Path_push_def path_push_def by (rule path_refines_push_str)

lemma path_refines_push_index:
  "path_refines cb f \<Longrightarrow> path_refines (\<lambda>len. Path_push_index len i cb) (\<lambda>p. f (path_index p i))"
  unfolding Path_push_index_def path_index_def by (rule path_refines_push_str)

lemma path_refines_seq:
  "path_refines cb f \<Longrightarrow> (\<And>r. path_refines (k r) (g r)) \<Longrightarrow>
   path_refines (\<lambda>len buf. case cb len buf of (r, buf') \<Rightarrow> k r len buf') (\<lambda>p. g (f p) p)"
  by (simp add: path_refines_def)

section \<open>Parse errors\<close>

datatype ParseError =
    PE_JSON string
  | MissingField string path \<comment> \<open>name, at\<close>
  | UnknownFields "string list" path
  | PE_TypeError string path string \<comment> \<open>name, at, expected\<close>
  | EmptyObject path
  | UnknownConstant path string

definition missing_field :: "string \<Rightarrow> path \<Rightarrow> ParseError" where
  "missing_field name pos = MissingField name pos"

definition type_error :: "string \<Rightarrow> path \<Rightarrow> string \<Rightarrow> ParseError" where
  "type_error name pos expected = PE_TypeError name pos expected"

definition unknown_fields :: "string list \<Rightarrow> path \<Rightarrow> ParseError" where
  "unknown_fields names pos = UnknownFields names pos"

definition unknown_constant :: "string \<Rightarrow> path \<Rightarrow> ParseError" where
  "unknown_constant value pos = UnknownConstant pos value"

definition empty_object :: "path \<Rightarrow> ParseError" where
  "empty_object pos = EmptyObject pos"

lemmas parse_error_defs =
  missing_field_def type_error_def unknown_fields_def unknown_constant_def empty_object_def

definition check_fields :: "path \<Rightarrow> JSON \<Rightarrow> ParseError + unit" where
  "check_fields path json =
     (case json of
        JObject obj \<Rightarrow> if obj = [] then Inr () else Inl (unknown_fields (map fst obj) path)
      | _ \<Rightarrow> Inr ())"

section \<open>The Parser trait\<close>

type_synonym 'a parser = "path \<Rightarrow> JSON \<Rightarrow> ParseError + 'a"

text \<open>\<open>from_str_at\<close>: the reader of serde_json is an argument (its error, or the tree).\<close>

definition from_str_at :: "(string \<Rightarrow> string + JSON) \<Rightarrow> 'a parser \<Rightarrow> path \<Rightarrow> string \<Rightarrow> ParseError + 'a" where
  "from_str_at read parse path source =
     (case read source of Inl err \<Rightarrow> Inl (PE_JSON err) | Inr json \<Rightarrow> parse path json)"

definition take_opt :: "'a parser \<Rightarrow> path \<Rightarrow> JSON \<Rightarrow> string \<Rightarrow> (ParseError + 'a) option \<times> JSON" where
  "take_opt parse path source field_name =
     (case source of
        JObject obj \<Rightarrow>
          (case map_of obj field_name of
             Some v \<Rightarrow> (Some (parse path v), JObject (AList.delete field_name obj))
           | None \<Rightarrow> (None, source))
      | _ \<Rightarrow> (Some (Inl (type_error field_name path ''object'')), source))"

definition take_field :: "'a parser \<Rightarrow> path \<Rightarrow> JSON \<Rightarrow> string \<Rightarrow> (ParseError + 'a) \<times> JSON" where
  "take_field parse path source field_name =
     (case take_opt parse path source field_name of
        (Some result, source') \<Rightarrow> (result, source')
      | (None, source') \<Rightarrow> (Inl (missing_field field_name path), source'))"

text \<open>The loop over the elements of an array, with their index in the path; it stops at the
  first error.\<close>

fun parse_elems :: "'a parser \<Rightarrow> path \<Rightarrow> nat \<Rightarrow> JSON list \<Rightarrow> ParseError + 'a list" where
  "parse_elems parse path i [] = Inr []"
| "parse_elems parse path i (json # rest) =
     (case parse (path_index path i) json of
        Inl error \<Rightarrow> Inl error
      | Inr parsed \<Rightarrow>
          (case parse_elems parse path (Suc i) rest of
             Inl error \<Rightarrow> Inl error
           | Inr result \<Rightarrow> Inr (parsed # result)))"

definition take_vec_opt :: "'a parser \<Rightarrow> path \<Rightarrow> JSON \<Rightarrow> string \<Rightarrow> (ParseError + 'a list) option \<times> JSON" where
  "take_vec_opt parse path source field_name =
     (case source of
        JObject obj \<Rightarrow>
          (case map_of obj field_name of
             Some json \<Rightarrow>
               ((case json of
                   JArray vec \<Rightarrow> Some (parse_elems parse path 0 vec)
                 | _ \<Rightarrow> Some (Inl (type_error field_name path ''array''))),
                JObject (AList.delete field_name obj))
           | None \<Rightarrow> (None, source))
      | _ \<Rightarrow> (Some (Inl (missing_field field_name path)), source))"

definition take_vec :: "'a parser \<Rightarrow> path \<Rightarrow> JSON \<Rightarrow> string \<Rightarrow> (ParseError + 'a list) \<times> JSON" where
  "take_vec parse path source field_name =
     (case take_vec_opt parse path source field_name of
        (Some result, source') \<Rightarrow> (result, source')
      | (None, source') \<Rightarrow> (Inl (missing_field field_name path), source'))"

text \<open>\<^verbatim>\<open>try!(T::take(..))\<close>: an error is returned at once, a result is bound and the rest of
  the function goes on with the remaining object.\<close>

fun try_take :: "(ParseError + 'a) \<times> JSON \<Rightarrow> ('a \<Rightarrow> JSON \<Rightarrow> ParseError + 'b) \<Rightarrow> ParseError + 'b" where
  "try_take (Inl e, source) k = Inl e"
| "try_take (Inr x, source) k = k x source"

section \<open>Instances\<close>

definition parse_f64 :: "f64 parser" where
  "parse_f64 path source =
     (case source of
        I64 val \<Rightarrow> Inr (f64_of_int val)
      | F64 val \<Rightarrow> Inr val
      | U64 val \<Rightarrow> Inr (f64_of_int (int val))
      | _ \<Rightarrow> Inl (type_error ''as float'' path ''number''))"

definition parse_bool :: "bool parser" where
  "parse_bool path source =
     (case source of
        Bool b \<Rightarrow> Inr b
      | U64 n \<Rightarrow> if n = 0 then Inr False else if n = 1 then Inr True
                 else Inl (type_error ''as bool'' path ''boolean'')
      | I64 i \<Rightarrow> if i = 0 then Inr False else if i = 1 then Inr True
                 else Inl (type_error ''as bool'' path ''boolean'')
      | JString str \<Rightarrow> if str = ''true'' then Inr True else if str = ''false'' then Inr False
                 else Inl (type_error ''as bool'' path ''boolean'')
      | _ \<Rightarrow> Inl (type_error ''as bool'' path ''boolean''))"

definition parse_u8 :: "externals \<Rightarrow> nat parser" where
  "parse_u8 X path source =
     (case json_as_u64 X source of
        None \<Rightarrow> Inl (type_error ''as byte'' path ''positive integer'')
      | Some val \<Rightarrow> if 255 < val then Inl (type_error ''as byte'' path ''positive integer'')
                    else Inr val)"

definition parse_vec :: "'a parser \<Rightarrow> 'a list parser" where
  "parse_vec parse path source =
     (case source of
        JArray array \<Rightarrow> parse_elems parse path 0 array
      | Null \<Rightarrow> Inr []
      | _ \<Rightarrow> (case parse path source of Inl e \<Rightarrow> Inl e | Inr single \<Rightarrow> Inr [single]))"

definition parse_string :: "string parser" where
  "parse_string path source =
     (case as_string source of
        Some str \<Rightarrow> Inr str
      | None \<Rightarrow> Inl (type_error ''string'' path ''string''))"

section \<open>ToJSON\<close>

definition pairs_to_json :: "(string \<times> JSON) list \<Rightarrow> JSON" where
  "pairs_to_json kvs = JObject (bt_collect kvs)"

definition vec_to_json :: "('a \<Rightarrow> JSON) \<Rightarrow> 'a list \<Rightarrow> JSON" where
  "vec_to_json to_json xs = JArray (map to_json xs)"

definition option_to_json :: "('a \<Rightarrow> JSON) \<Rightarrow> 'a option \<Rightarrow> JSON" where
  "option_to_json to_json opt = (case opt of None \<Rightarrow> Null | Some result \<Rightarrow> to_json result)"

definition result_map_to_json ::
    "('v \<Rightarrow> JSON) \<Rightarrow> ('e \<Rightarrow> JSON) \<Rightarrow> (string, 'e + 'v) hashmap \<Rightarrow> JSON" where
  "result_map_to_json ok_json err_json m =
     JObject (bt_collect (map (\<lambda>(k, result).
       (k, case result of
             Inr ok \<Rightarrow> ok_json ok
           | Inl err \<Rightarrow> pairs_to_json [(''Error'', err_json err)])) m))"

section \<open>Facts\<close>

text \<open>The element loop only depends on what the parser does on the elements: the congruence
  rule that lets recursive parsers pass themselves to it.\<close>

lemma parse_elems_cong:
  assumes "\<And>p x. x \<in> set xs \<Longrightarrow> f p x = g p x"
  shows "parse_elems f path i xs = parse_elems g path i xs"
  using assms by (induction xs arbitrary: i) (auto split: sum.splits)

lemma parse_vec_cong [fundef_cong]:
  assumes "path = path'" "json = json'"
    and "\<And>p x. x = json' \<or> (\<exists>xs. json' = JArray xs \<and> x \<in> set xs) \<Longrightarrow> f p x = g p x"
  shows "parse_vec f path json = parse_vec g path' json'"
  using assms by (auto simp: parse_vec_def intro: parse_elems_cong split: JSON.splits)

text \<open>A successful loop parses every element, in order.\<close>

lemma parse_elems_Inr_length: "parse_elems f p i xs = Inr ys \<Longrightarrow> length ys = length xs"
  by (induction xs arbitrary: i ys) (auto split: sum.splits)

lemma parse_elems_map:
  assumes "\<And>p x. x \<in> set xs \<Longrightarrow> f p (g x) = Inr (h x)"
  shows "parse_elems f p i (map g xs) = Inr (map h xs)"
  using assms by (induction xs arbitrary: i) auto

lemma parse_elems_first_error:
  "parse_elems f p i xs = Inl e \<longleftrightarrow>
     (\<exists>n < length xs. f (path_index p (i + n)) (xs ! n) = Inl e \<and>
        (\<forall>m < n. is_ok (f (path_index p (i + m)) (xs ! m))))"
proof (induction xs arbitrary: i)
  case Nil
  then show ?case by simp
next
  case (Cons x xs)
  show ?case
  proof (cases "f (path_index p i) x")
    case (Inl e')
    then show ?thesis
      by (auto simp: less_Suc_eq_0_disj)
  next
    case (Inr y)
    then have "parse_elems f p i (x # xs) = Inl e \<longleftrightarrow> parse_elems f p (Suc i) xs = Inl e"
      by (auto split: sum.splits)
    also note Cons.IH [of "Suc i"]
    finally show ?thesis
      by (simp add: Inr Ex_less_Suc2 All_less_Suc2)
  qed
qed

lemma take_opt_present:
  "map_of obj k = Some v \<Longrightarrow>
   take_opt f p (JObject obj) k = (Some (f p v), JObject (AList.delete k obj))"
  by (simp add: take_opt_def)

lemma take_field_present:
  "map_of obj k = Some v \<Longrightarrow> take_field f p (JObject obj) k = (f p v, JObject (AList.delete k obj))"
  by (simp add: take_field_def take_opt_present)

lemma take_opt_absent:
  "map_of obj k = None \<Longrightarrow> take_opt f p (JObject obj) k = (None, JObject obj)"
  by (simp add: take_opt_def)

lemma take_field_absent:
  "map_of obj k = None \<Longrightarrow> take_field f p (JObject obj) k = (Inl (missing_field k p), JObject obj)"
  by (simp add: take_field_def take_opt_absent)

lemmas take_simps =
  take_opt_present take_field_present take_opt_absent take_field_absent

end
