(* ===== verification/Taxonomy_Util.thy ===== *)
theory Taxonomy_Util
  imports Json
begin

text \<open>
  \<^verbatim>\<open>components/taxonomy/src/util.rs\<close>: constraints (\<^verbatim>\<open>Exactly\<close>), identifiers, and the maps of
  results and instructions. An \<^verbatim>\<open>Id<T>\<close> is its string: the type parameter is a phantom marker
  and equality, hashing and printing are those of the string.
\<close>

type_synonym ServiceId = string
type_synonym AdapterId = string
type_synonym TagId = string
type_synonym KindId = string
type_synonym VendorId = string
type_synonym MimeTypeId = string
type_synonym GetterId = string
type_synonym SetterId = string

definition parse_id :: "string parser" where
  "parse_id path source =
     (case source of JString string \<Rightarrow> Inr string | _ \<Rightarrow> Inl (type_error ''id'' path ''string''))"

definition id_to_json :: "string \<Rightarrow> JSON" where
  "id_to_json i = JString i"

definition id_map_to_json :: "('v \<Rightarrow> JSON) \<Rightarrow> (string, 'v) hashmap \<Rightarrow> JSON" where
  "id_map_to_json to_json m = JObject (bt_collect (map (\<lambda>(k, v). (k, to_json v)) m))"

lemma parse_id_to_json [simp]: "parse_id p (id_to_json i) = Inr i"
  by (simp add: parse_id_def id_to_json_def)

lemma parse_id_JString [simp]: "parse_id p (JString i) = Inr i"
  by (simp add: parse_id_def)

section \<open>Exactly\<close>

datatype 'a Exactly = Always | Exactly 'a | Never

definition parse_exactly :: "'a parser \<Rightarrow> 'a Exactly parser" where
  "parse_exactly parse path source =
     (case source of
        Null \<Rightarrow> Inr Always
      | _ \<Rightarrow> (case parse path source of Inl e \<Rightarrow> Inl e | Inr x \<Rightarrow> Inr (Exactly x)))"

fun exactly_and :: "'a Exactly \<Rightarrow> 'a Exactly \<Rightarrow> 'a Exactly" where
  "exactly_and Never _ = Never"
| "exactly_and _ Never = Never"
| "exactly_and Always x = x"
| "exactly_and x Always = x"
| "exactly_and (Exactly x) (Exactly y) = (if x = y then Exactly y else Never)"

fun exactly_is_empty :: "'a Exactly \<Rightarrow> bool" where
  "exactly_is_empty Always = True"
| "exactly_is_empty _ = False"

fun exactly_matches :: "'a Exactly \<Rightarrow> 'a \<Rightarrow> bool" where
  "exactly_matches Always value = True"
| "exactly_matches (Exactly i) value = (i = value)"
| "exactly_matches _ value = False"

text \<open>A conjunction of constraints accepts what both accept; constraints form a semilattice.\<close>

lemma exactly_and_matches:
  "exactly_matches (exactly_and a b) x \<longleftrightarrow> exactly_matches a x \<and> exactly_matches b x"
  by (cases a; cases b) auto

lemma exactly_and_comm: "exactly_and a b = exactly_and b a"
  by (cases a; cases b) auto

lemma exactly_and_assoc: "exactly_and (exactly_and a b) c = exactly_and a (exactly_and b c)"
  by (cases a; cases b; cases c) auto

lemma exactly_and_idem: "exactly_and a a = a"
  by (cases a) auto

lemma exactly_and_Always [simp]: "exactly_and Always a = a" "exactly_and a Always = a"
  by (cases a; simp)+

section \<open>Targetted\<close>

type_synonym ('k, 't, 'e) ResultMap = "('k, 'e + 't) hashmap"

datatype ('k, 't) Targetted = Targetted (select: "'k list") (payload: 't)

type_synonym ('k, 't) TargetMap = "('k, 't) Targetted list"

end
