(* ===== verification/Values.thy ===== *)
theory Values
  imports Taxonomy_Util
begin

text \<open>
  \<^verbatim>\<open>components/taxonomy/src/values.rs\<close>: the types and values the channels carry, ranges of
  values, their partial order, and their JSON form. A \<^verbatim>\<open>TimeStamp\<close> is its instant and a
  \<^verbatim>\<open>Duration\<close> its length, both in nanoseconds, as chrono represents them. Comparing two
  temperatures panics: \<^verbatim>\<open>Temperature::as_c\<close> is \<^verbatim>\<open>unimplemented!()\<close>.
\<close>

section \<open>Types\<close>

datatype Type =
    TyUnit | TyOnOff | TyOpenClosed | TyDoorLocked | TyDuration | TyTimeStamp
  | TyThinkerbellRule | TyWebPushNotify | TyTemperature | TyString | TyColor | TyJson | TyBinary
  | TyExtBool | TyExtNumeric | TyRange

datatype TypeError = TypeError (te_expected: Type) (te_got: Type)

definition parse_type :: "Type parser" where
  "parse_type path source =
     (case source of
        JString string \<Rightarrow>
          if string = ''Unit'' then Inr TyUnit
          else if string = ''OnOff'' then Inr TyOnOff
          else if string = ''OpenClosed'' then Inr TyOpenClosed
          else if string = ''DoorLocked'' then Inr TyDoorLocked
          else if string = ''Duration'' then Inr TyDuration
          else if string = ''TimeStamp'' then Inr TyTimeStamp
          else if string = ''Temperature'' then Inr TyTemperature
          else if string = ''ThinkerbellRule'' then Inr TyThinkerbellRule
          else if string = ''WebPushNotify'' then Inr TyWebPushNotify
          else if string = ''String'' then Inr TyString
          else if string = ''Color'' then Inr TyColor
          else if string = ''Json'' then Inr TyJson
          else if string = ''Binary'' then Inr TyBinary
          else if string = ''ExtBool'' then Inr TyExtBool
          else if string = ''ExtNumeric'' then Inr TyExtNumeric
          else if string = ''Range'' then Inr TyRange
          else Inl (unknown_constant string path)
      | _ \<Rightarrow> Inl (type_error ''Type'' path ''string''))"

fun type_name :: "Type \<Rightarrow> string" where
  "type_name TyUnit = ''Unit''"
| "type_name TyOnOff = ''OnOff''"
| "type_name TyOpenClosed = ''OpenClosed''"
| "type_name TyDoorLocked = ''DoorLocked''"
| "type_name TyDuration = ''Duration''"
| "type_name TyTimeStamp = ''TimeStamp''"
| "type_name TyTemperature = ''Temperature''"
| "type_name TyThinkerbellRule = ''ThinkerbellRule''"
| "type_name TyWebPushNotify = ''WebPushNotify''"
| "type_name TyString = ''String''"
| "type_name TyColor = ''Color''"
| "type_name TyJson = ''Json''"
| "type_name TyBinary = ''Binary''"
| "type_name TyExtBool = ''ExtBool''"
| "type_name TyExtNumeric = ''ExtNumeric''"
| "type_name TyRange = ''Range''"

definition type_to_json :: "Type \<Rightarrow> JSON" where
  "type_to_json t = JString (type_name t)"

fun supports_eq :: "Type \<Rightarrow> bool" where
  "supports_eq TyDuration = False"
| "supports_eq TyTimeStamp = False"
| "supports_eq TyTemperature = False"
| "supports_eq TyExtNumeric = False"
| "supports_eq TyColor = False"
| "supports_eq TyThinkerbellRule = False"
| "supports_eq TyRange = False"
| "supports_eq _ = True"

definition ensure_eq :: "Type \<Rightarrow> Type \<Rightarrow> TypeError + unit" where
  "ensure_eq self other = (if self = other then Inr () else Inl (TypeError self other))"

lemma parse_type_to_json [simp]: "parse_type p (type_to_json t) = Inr t"
  by (cases t) (simp_all add: parse_type_def type_to_json_def)

section \<open>Two-valued states\<close>

datatype OnOff = On | Off
datatype OpenClosed = Open | Closed
datatype DoorLocked = Locked | Unlocked

fun onoff_as_bool :: "OnOff \<Rightarrow> bool" where
  "onoff_as_bool On = True" | "onoff_as_bool Off = False"

fun openclosed_as_bool :: "OpenClosed \<Rightarrow> bool" where
  "openclosed_as_bool Open = True" | "openclosed_as_bool Closed = False"

fun doorlocked_as_bool :: "DoorLocked \<Rightarrow> bool" where
  "doorlocked_as_bool Locked = True" | "doorlocked_as_bool Unlocked = False"

definition parse_onoff :: "OnOff parser" where
  "parse_onoff path source =
     (case as_string source of
        Some str \<Rightarrow> if str = ''On'' then Inr On else if str = ''Off'' then Inr Off
                    else Inl (unknown_constant str path)
      | None \<Rightarrow> Inl (type_error ''OnOff'' path ''string''))"

fun onoff_to_json :: "OnOff \<Rightarrow> JSON" where
  "onoff_to_json On = JString ''On''" | "onoff_to_json Off = JString ''Off''"

definition parse_openclosed :: "OpenClosed parser" where
  "parse_openclosed path source =
     (case as_string source of
        Some str \<Rightarrow> if str = ''Open'' then Inr Open else if str = ''Closed'' then Inr Closed
                    else Inl (unknown_constant str path)
      | None \<Rightarrow> Inl (type_error ''OpenClosed'' path ''string''))"

fun openclosed_to_json :: "OpenClosed \<Rightarrow> JSON" where
  "openclosed_to_json Open = JString ''Open''" | "openclosed_to_json Closed = JString ''Closed''"

definition parse_doorlocked :: "DoorLocked parser" where
  "parse_doorlocked path source =
     (case as_string source of
        Some str \<Rightarrow> if str = ''Locked'' then Inr Locked
                    else if str = ''Unlocked'' then Inr Unlocked
                    else Inl (unknown_constant str path)
      | None \<Rightarrow> Inl (type_error ''DoorLocked'' path ''string''))"

fun doorlocked_to_json :: "DoorLocked \<Rightarrow> JSON" where
  "doorlocked_to_json Locked = JString ''Locked''"
| "doorlocked_to_json Unlocked = JString ''Unlocked''"

section \<open>Structured values\<close>

datatype Temperature = F f64 | C f64

definition parse_temperature :: "Temperature parser" where
  "parse_temperature path source =
     (if \<not> is_object source then Inl (type_error ''Temperature'' path ''object'')
      else case take_opt parse_f64 (path_push path ''F'') source ''F'' of
        (Some result, _) \<Rightarrow> try_result result (\<lambda>x. Inr (F x))
      | (None, source) \<Rightarrow>
          (case take_opt parse_f64 (path_push path ''C'') source ''C'' of
             (Some result, _) \<Rightarrow> try_result result (\<lambda>x. Inr (C x))
           | (None, _) \<Rightarrow> Inl (missing_field ''C|F'' path)))"

fun temperature_to_json :: "Temperature \<Rightarrow> JSON" where
  "temperature_to_json (C val) = JObject [(''C'', F64 val)]"
| "temperature_to_json (F val) = JObject [(''F'', F64 val)]"

datatype Color = HSV f64 f64 f64

definition parse_color :: "Color parser" where
  "parse_color path source =
     try_take (take_field parse_f64 (path_push path ''h'') source ''h'') (\<lambda>h source.
     try_take (take_field parse_f64 (path_push path ''s'') source ''s'') (\<lambda>s source.
     try_take (take_field parse_f64 (path_push path ''v'') source ''v'') (\<lambda>v source.
       if f64_lt s (Fin 0) \<or> f64_lt (Fin 1) s
       then Inl (type_error ''s'' path ''a number in [0, 1]'')
       else if f64_lt v (Fin 0) \<or> f64_lt (Fin 1) v
       then Inl (type_error ''v'' path ''a number in [0, 1]'')
       else Inr (HSV h s v))))"

fun color_to_json :: "Color \<Rightarrow> JSON" where
  "color_to_json (HSV h s v) = JObject (bt_collect [(''h'', F64 h), (''s'', F64 s), (''v'', F64 v)])"

datatype WebPushNotify = WebPushNotify (wpn_resource: string) (wpn_message: string)

definition parse_webpush_notify :: "WebPushNotify parser" where
  "parse_webpush_notify path source =
     try_take (take_field parse_string (path_push path ''resource'') source ''resource'')
       (\<lambda>resource source.
     try_take (take_field parse_string (path_push path ''message'') source ''message'')
       (\<lambda>message source. Inr (WebPushNotify resource message)))"

fun webpush_notify_to_json :: "WebPushNotify \<Rightarrow> JSON" where
  "webpush_notify_to_json (WebPushNotify resource message) =
     pairs_to_json [(''resource'', JString resource), (''message'', JString message)]"

datatype ThinkerbellRule = ThinkerbellRule (tbr_name: string) (tbr_source: string)

definition parse_thinkerbell_rule :: "ThinkerbellRule parser" where
  "parse_thinkerbell_rule path source =
     try_take (take_field parse_string (path_push path ''name'') source ''name'')
       (\<lambda>name source.
     try_take (take_field parse_string (path_push path ''source'') source ''source'')
       (\<lambda>script_source source. Inr (ThinkerbellRule name script_source)))"

fun thinkerbell_rule_to_json :: "ThinkerbellRule \<Rightarrow> JSON" where
  "thinkerbell_rule_to_json (ThinkerbellRule name source) =
     pairs_to_json [(''name'', JString name), (''source'', JString source)]"

datatype 'a ExtValue =
  ExtValue (ext_value: 'a) (ext_vendor: VendorId) (ext_adapter: AdapterId) (ext_kind: KindId)

definition parse_ext_value :: "'a parser \<Rightarrow> 'a ExtValue parser" where
  "parse_ext_value parse path source =
     try_take (take_field parse_id (path_push path ''vendor'') source ''vendor'') (\<lambda>vendor source.
     try_take (take_field parse_id (path_push path ''adapter'') source ''adapter'') (\<lambda>adapter source.
     try_take (take_field parse_id (path_push path ''kind'') source ''kind'') (\<lambda>kind source.
     try_take (take_field parse (path_push path ''value'') source ''value'') (\<lambda>value source.
       Inr (ExtValue value vendor adapter kind)))))"

definition ext_value_to_json :: "('a \<Rightarrow> JSON) \<Rightarrow> 'a ExtValue \<Rightarrow> JSON" where
  "ext_value_to_json to_json x =
     JObject (bt_collect
       [(''value'', to_json (ext_value x)), (''vendor'', JString (ext_vendor x)),
        (''adapter'', JString (ext_adapter x)), (''kind'', JString (ext_kind x))])"

text \<open>Equality and order of extension values ignore the adapter and need the same vendor and
  kind.\<close>

definition ext_value_eq :: "('a \<Rightarrow> 'a \<Rightarrow> bool) \<Rightarrow> 'a ExtValue \<Rightarrow> 'a ExtValue \<Rightarrow> bool" where
  "ext_value_eq eq x y =
     (if ext_vendor x \<noteq> ext_vendor y \<or> ext_kind x \<noteq> ext_kind y then False
      else eq (ext_value x) (ext_value y))"

datatype Binary = Binary (bin_data: "nat list") (bin_mimetype: MimeTypeId)

definition parse_binary :: "externals \<Rightarrow> Binary parser" where
  "parse_binary X path source =
     try_take (take_field (parse_vec (parse_u8 X)) (path_push path ''data'') source ''data'')
       (\<lambda>data source.
     try_take (take_field parse_id (path_push path ''mimetype'') source ''mimetype'')
       (\<lambda>mimetype source. Inr (Binary data mimetype)))"

definition binary_to_json :: "Binary \<Rightarrow> JSON" where
  "binary_to_json b =
     JObject (bt_collect
       [(''data'', JArray (map U64 (bin_data b))), (''mimetype'', JString (bin_mimetype b))])"

section \<open>Time\<close>

definition parse_timestamp :: "externals \<Rightarrow> int parser" where
  "parse_timestamp X path source =
     (case source of
        JString str \<Rightarrow> (case ts_from_str X str of
            Some dt \<Rightarrow> Inr dt
          | None \<Rightarrow> Inl (type_error ''TimeStamp'' path ''date string''))
      | _ \<Rightarrow> Inl (type_error ''TimeStamp'' path ''date string''))"

definition timestamp_to_json :: "externals \<Rightarrow> int \<Rightarrow> JSON" where
  "timestamp_to_json X t = JString (ts_to_rfc3339 X t)"

text \<open>chrono: a number of milliseconds as a duration, and the whole milliseconds of one
  (towards zero).\<close>

definition milliseconds :: "int \<Rightarrow> int" where
  "milliseconds ms = ms * 1000000"

definition num_milliseconds :: "int \<Rightarrow> int" where
  "num_milliseconds d = sgn d * (\<bar>d\<bar> div 1000000)"

definition parse_duration :: "int parser" where
  "parse_duration path source =
     try_result (parse_f64 path source)
       (\<lambda>val. Inr (milliseconds (f64_as_i64 (f64_mult val (Fin 1000)))))"

definition duration_to_json :: "int \<Rightarrow> JSON" where
  "duration_to_json d = F64 (f64_div_rat (f64_of_int (num_milliseconds d)) 1000)"

section \<open>Values and ranges\<close>

datatype Value =
    VUnit
  | VOnOff OnOff
  | VOpenClosed OpenClosed
  | VDoorLocked DoorLocked
  | VTimeStamp int
  | VDuration int
  | VTemperature Temperature
  | VColor Color
  | VString string
  | VThinkerbellRule ThinkerbellRule
  | VWebPushNotify WebPushNotify
  | VExtBool "bool ExtValue"
  | VExtNumeric "f64 ExtValue"
  | VJson JSON
  | VBinary Binary
  | VRange Range
and Range =
    Leq Value
  | Geq Value
  | BetweenEq Value Value \<comment> \<open>min, max\<close>
  | OutOfStrict Value Value \<comment> \<open>min, max\<close>
  | Eq Value

fun value_type :: "Value \<Rightarrow> Type" where
  "value_type VUnit = TyUnit"
| "value_type (VOnOff _) = TyOnOff"
| "value_type (VOpenClosed _) = TyOpenClosed"
| "value_type (VDoorLocked _) = TyDoorLocked"
| "value_type (VString _) = TyString"
| "value_type (VDuration _) = TyDuration"
| "value_type (VTimeStamp _) = TyTimeStamp"
| "value_type (VTemperature _) = TyTemperature"
| "value_type (VColor _) = TyColor"
| "value_type (VJson _) = TyJson"
| "value_type (VBinary _) = TyBinary"
| "value_type (VExtBool _) = TyExtBool"
| "value_type (VExtNumeric _) = TyExtNumeric"
| "value_type (VThinkerbellRule _) = TyThinkerbellRule"
| "value_type (VWebPushNotify _) = TyWebPushNotify"
| "value_type (VRange _) = TyRange"

fun as_timestamp :: "Value \<Rightarrow> TypeError + int" where
  "as_timestamp (VTimeStamp x) = Inr x"
| "as_timestamp v = Inl (TypeError TyTimeStamp (value_type v))"

fun as_duration :: "Value \<Rightarrow> TypeError + int" where
  "as_duration (VDuration x) = Inr x"
| "as_duration v = Inl (TypeError TyDuration (value_type v))"

fun range_type :: "Range \<Rightarrow> TypeError + Type" where
  "range_type (Leq v) = Inr (value_type v)"
| "range_type (Geq v) = Inr (value_type v)"
| "range_type (Eq v) = Inr (value_type v)"
| "range_type (BetweenEq mn mx) =
     (if value_type mn = value_type mx then Inr (value_type mn)
      else Inl (TypeError (value_type mn) (value_type mx)))"
| "range_type (OutOfStrict mn mx) =
     (if value_type mn = value_type mx then Inr (value_type mn)
      else Inl (TypeError (value_type mn) (value_type mx)))"


section \<open>Equality and order\<close>

datatype ordering = OLess | OEqual | OGreater

definition cmp_of :: "'a::linorder \<Rightarrow> 'a \<Rightarrow> ordering" where
  "cmp_of x y = (if x < y then OLess else if x = y then OEqual else OGreater)"

definition f64_partial_cmp :: "f64 \<Rightarrow> f64 \<Rightarrow> ordering option" where
  "f64_partial_cmp x y =
     (if f64_lt x y then Some OLess else if f64_eq x y then Some OEqual
      else if f64_lt y x then Some OGreater else None)"

text \<open>The derived order of a structure: the first field that decides.\<close>

definition then_cmp :: "ordering option \<Rightarrow> ordering option \<Rightarrow> ordering option" where
  "then_cmp c d = (if c = Some OEqual then d else c)"

fun color_partial_cmp :: "Color \<Rightarrow> Color \<Rightarrow> ordering option" where
  "color_partial_cmp (HSV h s v) (HSV h' s' v') =
     then_cmp (f64_partial_cmp h h') (then_cmp (f64_partial_cmp s s') (f64_partial_cmp v v'))"

definition ext_value_partial_cmp ::
    "('a \<Rightarrow> 'a \<Rightarrow> ordering option) \<Rightarrow> 'a ExtValue \<Rightarrow> 'a ExtValue \<Rightarrow> ordering option" where
  "ext_value_partial_cmp cmp x y =
     (if ext_vendor x \<noteq> ext_vendor y \<or> ext_kind x \<noteq> ext_kind y then None
      else cmp (ext_value x) (ext_value y))"

text \<open>\<^verbatim>\<open>Temperature::as_c\<close> panics, so does comparing two temperatures.\<close>

definition temperature_as_c :: "Temperature \<Rightarrow> f64 outcome" where
  "temperature_as_c t = Panic"

definition temperature_partial_cmp :: "Temperature \<Rightarrow> Temperature \<Rightarrow> ordering option outcome" where
  "temperature_partial_cmp x y =
     bind_outcome (temperature_as_c x) (\<lambda>cx.
     bind_outcome (temperature_as_c y) (\<lambda>cy. Done (f64_partial_cmp cx cy)))"

fun value_partial_cmp :: "Value \<Rightarrow> Value \<Rightarrow> ordering option outcome" where
  "value_partial_cmp VUnit other =
     (case other of VUnit \<Rightarrow> Done (Some OEqual)
      | _ \<Rightarrow> Done None)"
| "value_partial_cmp (VOnOff a) other =
     (case other of VOnOff b \<Rightarrow> Done (Some (cmp_of (onoff_as_bool a) (onoff_as_bool b)))
      | _ \<Rightarrow> Done None)"
| "value_partial_cmp (VOpenClosed a) other =
     (case other of VOpenClosed b \<Rightarrow> Done (Some (cmp_of (openclosed_as_bool a) (openclosed_as_bool b)))
      | _ \<Rightarrow> Done None)"
| "value_partial_cmp (VDoorLocked a) other =
     (case other of VDoorLocked b \<Rightarrow> Done (Some (cmp_of (doorlocked_as_bool a) (doorlocked_as_bool b)))
      | _ \<Rightarrow> Done None)"
| "value_partial_cmp (VDuration a) other =
     (case other of VDuration b \<Rightarrow> Done (Some (cmp_of a b))
      | _ \<Rightarrow> Done None)"
| "value_partial_cmp (VTimeStamp a) other =
     (case other of VTimeStamp b \<Rightarrow> Done (Some (cmp_of a b))
      | _ \<Rightarrow> Done None)"
| "value_partial_cmp (VTemperature a) other =
     (case other of VTemperature b \<Rightarrow> temperature_partial_cmp a b
      | _ \<Rightarrow> Done None)"
| "value_partial_cmp (VColor a) other =
     (case other of VColor b \<Rightarrow> Done (color_partial_cmp a b)
      | _ \<Rightarrow> Done None)"
| "value_partial_cmp (VExtBool a) other =
     (case other of VExtBool b \<Rightarrow> Done (ext_value_partial_cmp (\<lambda>x y. Some (cmp_of x y)) a b)
      | _ \<Rightarrow> Done None)"
| "value_partial_cmp (VExtNumeric a) other =
     (case other of VExtNumeric b \<Rightarrow> Done (ext_value_partial_cmp f64_partial_cmp a b)
      | _ \<Rightarrow> Done None)"
| "value_partial_cmp (VString a) other =
     (case other of VString b \<Rightarrow> Done (Some (cmp_of a b))
      | _ \<Rightarrow> Done None)"
| "value_partial_cmp (VJson a) other =
     (case other of VJson b \<Rightarrow> Done None
      | _ \<Rightarrow> Done None)"
| "value_partial_cmp (VThinkerbellRule a) other =
     (case other of VThinkerbellRule b \<Rightarrow> Done (Some (cmp_of (tbr_name a) (tbr_name b)))
      | _ \<Rightarrow> Done None)"
| "value_partial_cmp (VWebPushNotify a) other =
     (case other of VWebPushNotify b \<Rightarrow> Done (Some (cmp_of (wpn_resource a) (wpn_resource b)))
      | _ \<Rightarrow> Done None)"
| "value_partial_cmp (VBinary a) other =
     (case other of VBinary b \<Rightarrow>
          if bin_mimetype a = bin_mimetype b then Done (Some (cmp_of (bin_data a) (bin_data b)))
          else Done None
      | _ \<Rightarrow> Done None)"
| "value_partial_cmp (VRange a) other =
     (case other of VRange b \<Rightarrow> Done None
      | _ \<Rightarrow> Done None)"

definition value_le :: "Value \<Rightarrow> Value \<Rightarrow> bool outcome" where
  "value_le x y =
     bind_outcome (value_partial_cmp x y) (\<lambda>c. Done (c = Some OLess \<or> c = Some OEqual))"

definition value_lt :: "Value \<Rightarrow> Value \<Rightarrow> bool outcome" where
  "value_lt x y = bind_outcome (value_partial_cmp x y) (\<lambda>c. Done (c = Some OLess))"

definition value_ge :: "Value \<Rightarrow> Value \<Rightarrow> bool outcome" where
  "value_ge x y =
     bind_outcome (value_partial_cmp x y) (\<lambda>c. Done (c = Some OGreater \<or> c = Some OEqual))"

text \<open>Structural equality, with the equality of floats (\<open>NaN\<close> differs from itself).\<close>

fun json_eq :: "JSON \<Rightarrow> JSON \<Rightarrow> bool" where
  "json_eq Null Null = True"
| "json_eq (Bool a) (Bool b) = (a = b)"
| "json_eq (I64 a) (I64 b) = (a = b)"
| "json_eq (U64 a) (U64 b) = (a = b)"
| "json_eq (F64 a) (F64 b) = f64_eq a b"
| "json_eq (JString a) (JString b) = (a = b)"
| "json_eq (JArray a) (JArray b) = list_all2 json_eq a b"
| "json_eq (JObject a) (JObject b) = list_all2 (rel_prod (=) json_eq) a b"
| "json_eq _ _ = False"

fun temperature_eq :: "Temperature \<Rightarrow> Temperature \<Rightarrow> bool" where
  "temperature_eq (F a) (F b) = f64_eq a b"
| "temperature_eq (C a) (C b) = f64_eq a b"
| "temperature_eq _ _ = False"

fun color_eq :: "Color \<Rightarrow> Color \<Rightarrow> bool" where
  "color_eq (HSV h s v) (HSV h' s' v') \<longleftrightarrow> f64_eq h h' \<and> f64_eq s s' \<and> f64_eq v v'"

fun value_eq :: "Value \<Rightarrow> Value \<Rightarrow> bool" and range_eq :: "Range \<Rightarrow> Range \<Rightarrow> bool" where
  "value_eq VUnit other = (case other of VUnit \<Rightarrow> True | _ \<Rightarrow> False)"
| "value_eq (VOnOff a) other = (case other of VOnOff b \<Rightarrow> (a = b) | _ \<Rightarrow> False)"
| "value_eq (VOpenClosed a) other = (case other of VOpenClosed b \<Rightarrow> (a = b) | _ \<Rightarrow> False)"
| "value_eq (VDoorLocked a) other = (case other of VDoorLocked b \<Rightarrow> (a = b) | _ \<Rightarrow> False)"
| "value_eq (VTimeStamp a) other = (case other of VTimeStamp b \<Rightarrow> (a = b) | _ \<Rightarrow> False)"
| "value_eq (VDuration a) other = (case other of VDuration b \<Rightarrow> (a = b) | _ \<Rightarrow> False)"
| "value_eq (VTemperature a) other = (case other of VTemperature b \<Rightarrow> temperature_eq a b | _ \<Rightarrow> False)"
| "value_eq (VColor a) other = (case other of VColor b \<Rightarrow> color_eq a b | _ \<Rightarrow> False)"
| "value_eq (VString a) other = (case other of VString b \<Rightarrow> (a = b) | _ \<Rightarrow> False)"
| "value_eq (VThinkerbellRule a) other = (case other of VThinkerbellRule b \<Rightarrow> (a = b) | _ \<Rightarrow> False)"
| "value_eq (VWebPushNotify a) other = (case other of VWebPushNotify b \<Rightarrow> (a = b) | _ \<Rightarrow> False)"
| "value_eq (VExtBool a) other = (case other of VExtBool b \<Rightarrow> ext_value_eq (=) a b | _ \<Rightarrow> False)"
| "value_eq (VExtNumeric a) other = (case other of VExtNumeric b \<Rightarrow> ext_value_eq f64_eq a b | _ \<Rightarrow> False)"
| "value_eq (VJson a) other = (case other of VJson b \<Rightarrow> json_eq a b | _ \<Rightarrow> False)"
| "value_eq (VBinary a) other = (case other of VBinary b \<Rightarrow> (a = b) | _ \<Rightarrow> False)"
| "value_eq (VRange a) other = (case other of VRange b \<Rightarrow> range_eq a b | _ \<Rightarrow> False)"
| "range_eq (Leq a) other = (case other of Leq b \<Rightarrow> value_eq a b | _ \<Rightarrow> False)"
| "range_eq (Geq a) other = (case other of Geq b \<Rightarrow> value_eq a b | _ \<Rightarrow> False)"
| "range_eq (BetweenEq a b) other = (case other of BetweenEq c d \<Rightarrow> (value_eq a c \<and> value_eq b d) | _ \<Rightarrow> False)"
| "range_eq (OutOfStrict a b) other = (case other of OutOfStrict c d \<Rightarrow> (value_eq a c \<and> value_eq b d) | _ \<Rightarrow> False)"
| "range_eq (Eq a) other = (case other of Eq b \<Rightarrow> value_eq a b | _ \<Rightarrow> False)"

text \<open>\<^verbatim>\<open>Range::contains\<close>, with the short-circuit of \<open>&&\<close> and \<open>||\<close>.\<close>

fun range_contains :: "Range \<Rightarrow> Value \<Rightarrow> bool outcome" where
  "range_contains (Leq mx) value = value_le value mx"
| "range_contains (Geq mn) value = value_ge value mn"
| "range_contains (BetweenEq mn mx) value =
     bind_outcome (value_le mn value) (\<lambda>b. if b then value_le value mx else Done False)"
| "range_contains (OutOfStrict mn mx) value =
     bind_outcome (value_lt value mn) (\<lambda>b. if b then Done True else value_lt mx value)"
| "range_contains (Eq val) value = Done (value_eq value val)"

section \<open>JSON form of values and ranges\<close>

fun value_to_json :: "externals \<Rightarrow> Value \<Rightarrow> JSON" and range_to_json :: "externals \<Rightarrow> Range \<Rightarrow> JSON" where
  "value_to_json X VUnit = JObject [(''Unit'', Null)]"
| "value_to_json X (VOnOff val) = JObject [(''OnOff'', onoff_to_json val)]"
| "value_to_json X (VOpenClosed val) = JObject [(''OpenClosed'', openclosed_to_json val)]"
| "value_to_json X (VDoorLocked val) = JObject [(''DoorLocked'', doorlocked_to_json val)]"
| "value_to_json X (VDuration val) = JObject [(''Duration'', duration_to_json val)]"
| "value_to_json X (VTimeStamp val) = JObject [(''TimeStamp'', timestamp_to_json X val)]"
| "value_to_json X (VColor val) = JObject [(''Color'', color_to_json val)]"
| "value_to_json X (VString val) = JObject [(''String'', JString val)]"
| "value_to_json X (VJson val) = JObject [(''Json'', val)]"
| "value_to_json X (VBinary val) = JObject [(''Binary'', binary_to_json val)]"
| "value_to_json X (VTemperature val) = JObject [(''Temperature'', temperature_to_json val)]"
| "value_to_json X (VThinkerbellRule val) =
     JObject [(''ThinkerbellRule'', thinkerbell_rule_to_json val)]"
| "value_to_json X (VWebPushNotify val) =
     JObject [(''WebPushNotify'', webpush_notify_to_json val)]"
| "value_to_json X (VExtBool val) = JObject [(''ExtBool'', ext_value_to_json Bool val)]"
| "value_to_json X (VExtNumeric val) = JObject [(''ExtNumeric'', ext_value_to_json F64 val)]"
| "value_to_json X (VRange val) = JObject [(''Range'', range_to_json X val)]"
| "range_to_json X (Eq val) = JObject [(''Eq'', value_to_json X val)]"
| "range_to_json X (Geq val) = JObject [(''Geq'', value_to_json X val)]"
| "range_to_json X (Leq val) = JObject [(''Leq'', value_to_json X val)]"
| "range_to_json X (BetweenEq mn mx) =
     JObject [(''BetweenEq'', JArray [value_to_json X mn, value_to_json X mx])]"
| "range_to_json X (OutOfStrict mn mx) =
     JObject [(''OutOfStrict'', JArray [value_to_json X mn, value_to_json X mx])]"

text \<open>The parser of the payload of an object with the single field \<open>k\<close>, for every kind of value
  but ranges: an entry of \<^verbatim>\<open>VALUE_PARSER\<close>.\<close>

definition leaf_value_parser :: "externals \<Rightarrow> string \<Rightarrow> Value parser option" where
  "leaf_value_parser X k =
     (let at_key = (\<lambda>parse mk path v. try_result (parse (path_push path k) v) (\<lambda>x. Inr (mk x)))
      in if k = ''Unit'' then Some (\<lambda>_ _. Inr VUnit)
      else if k = ''OnOff'' then Some (\<lambda>path v.
        try_result (parse_onoff (path_push path k) v) (\<lambda>x. Inr (VOnOff x)))
      else if k = ''OpenClosed'' then Some (\<lambda>path v.
        try_result (parse_openclosed (path_push path k) v) (\<lambda>x. Inr (VOpenClosed x)))
      else if k = ''DoorLocked'' then Some (\<lambda>path v.
        try_result (parse_doorlocked (path_push path k) v) (\<lambda>x. Inr (VDoorLocked x)))
      else if k = ''Duration'' then Some (at_key parse_duration VDuration)
      else if k = ''TimeStamp'' then Some (at_key (parse_timestamp X) VTimeStamp)
      else if k = ''Temperature'' then Some (\<lambda>path v.
        try_result (parse_temperature (path_push path k) v) (\<lambda>x. Inr (VTemperature x)))
      else if k = ''ThinkerbellRule'' then Some (\<lambda>path v.
        try_result (parse_thinkerbell_rule (path_push path k) v) (\<lambda>x. Inr (VThinkerbellRule x)))
      else if k = ''WebPushNotify'' then Some (\<lambda>path v.
        try_result (parse_webpush_notify (path_push path k) v) (\<lambda>x. Inr (VWebPushNotify x)))
      else if k = ''Color'' then Some (\<lambda>path v.
        try_result (parse_color (path_push path k) v) (\<lambda>x. Inr (VColor x)))
      else if k = ''String'' then Some (\<lambda>path v.
        try_result (parse_string (path_push path k) v) (\<lambda>x. Inr (VString x)))
      else if k = ''Json'' then Some (\<lambda>path v. Inr (VJson v))
      else if k = ''ExtBool'' then Some (\<lambda>path v.
        try_result (parse_ext_value parse_bool (path_push path k) v) (\<lambda>x. Inr (VExtBool x)))
      else if k = ''ExtNumeric'' then Some (\<lambda>path v.
        try_result (parse_ext_value parse_f64 (path_push path k) v) (\<lambda>x. Inr (VExtNumeric x)))
      else if k = ''Binary'' then Some (\<lambda>path v.
        try_result (parse_binary X (path_push path k) v) (\<lambda>x. Inr (VBinary x)))
      else None)"

lemma size_JArray_elem: "x \<in> set xs \<Longrightarrow> size x < size (JArray xs)"
  by (induction xs) auto

function parse_value :: "externals \<Rightarrow> Value parser" and parse_range :: "externals \<Rightarrow> Range parser" where
  "parse_value X path source =
     (case source of
        Null \<Rightarrow> Inr VUnit
      | JString str \<Rightarrow>
          if str = ''Unit'' then Inr VUnit
          else Inl (type_error ''Value'' path ''object with a single field'')
      | JObject [(k, v)] \<Rightarrow>
          if k = ''Range'' then
            try_result (parse_range X (path_push (path_push path k) ''Range'') v) (\<lambda>x. Inr (VRange x))
          else
            (case leaf_value_parser X k of
               None \<Rightarrow> Inl (type_error ''Value'' path (value_keys X))
             | Some parser \<Rightarrow> parser (path_push path k) v)
      | _ \<Rightarrow> Inl (type_error ''Value'' path ''object with a single field''))"
| "parse_range X path source =
     (case source of
        JObject [(k, v)] \<Rightarrow>
          if k = ''Leq'' then
            try_result (parse_value X (path_push path ''Leq'') v) (\<lambda>x. Inr (Leq x))
          else if k = ''Geq'' then
            try_result (parse_value X (path_push path ''Geq'') v) (\<lambda>x. Inr (Geq x))
          else if k = ''Eq'' then
            try_result (parse_value X (path_push path ''eq'') v) (\<lambda>x. Inr (Eq x))
          else if k = ''BetweenEq'' then
            (case parse_vec (parse_value X) (path_push path ''BetweenEq'') v of
               Inl e \<Rightarrow> Inl e
             | Inr bounds \<Rightarrow>
                 (case bounds of
                    [mn, mx] \<Rightarrow> Inr (BetweenEq mn mx)
                  | _ \<Rightarrow> Inl (type_error ''BetweenEq'' path ''an array of two values'')))
          else if k = ''OutOfStrict'' then
            (case parse_vec (parse_value X) (path_push path ''OutOfStrict'') v of
               Inl e \<Rightarrow> Inl e
             | Inr bounds \<Rightarrow>
                 (case bounds of
                    [mn, mx] \<Rightarrow> Inr (OutOfStrict mn mx)
                  | _ \<Rightarrow> Inl (type_error ''OutOfStrict'' path ''an array of two values'')))
          else Inl (type_error ''Range'' path ''a field Eq, Leq, Geq, BetweenEq or OutOfStrict'')
      | _ \<Rightarrow> Inl (type_error ''Range'' path ''object''))"
  by pat_completeness auto

termination
  by (relation "measure (\<lambda>s. case s of Inl (X, path, source) \<Rightarrow> size source
                                  | Inr (X, path, source) \<Rightarrow> size source)")
    (auto dest: size_JArray_elem)

declare parse_value.simps [simp del] parse_range.simps [simp del]


section \<open>Durations on the wire\<close>

lemma duration_whole_seconds:
  assumes "\<bar>n\<bar> < 2 ^ 43"
  shows "parse_duration p (duration_to_json (n * 1000000000)) = Inr (n * 1000000000)"
proof -
  have ms: "num_milliseconds (n * 1000000000) = n * 1000"
    by (cases n "0::int" rule: linorder_cases) (simp_all add: num_milliseconds_def abs_if)
  have small: "\<bar>n * 1000\<bar> < 2 ^ 53" "\<bar>n\<bar> < 2 ^ 53" using assms by (simp_all add: abs_mult)
  have q: "of_int (n * 1000) / 1000 = (of_int n :: rat)"
    "of_int n * 1000 = (of_int (n * 1000) :: rat)" by simp_all
  have "f64_div_rat (f64_of_int (n * 1000)) 1000 = Fin (of_int n)"
    using small(2) by (simp only: f64_of_int_exact [OF small(1)] f64_div_rat.simps q round_f64_int)
  moreover have "f64_mult (Fin (of_int n)) (Fin 1000) = Fin (of_int (n * 1000))"
    using small(1) by (simp only: f64_mult.simps q round_f64_int)
  moreover have "f64_as_i64 (Fin (of_int (n * 1000))) = n * 1000"
    using small(1) by (simp add: trunc_rat_def clamp_i64_def i64_min_def i64_max_def del: of_int_mult)
  ultimately show ?thesis
    by (simp add: parse_duration_def parse_f64_def duration_to_json_def ms milliseconds_def)
qed

text \<open>A duration in seconds does not survive its own JSON form at millisecond precision:
  1001 milliseconds are written as the number 1.001, whose product with 1000 is rounded to just
  below 1001 and then truncated, so that reading them back gives 1000 milliseconds.\<close>

theorem duration_1001_ms_lost:
  "parse_duration p (duration_to_json (milliseconds 1001)) = Inr (milliseconds 1000)"
proof -
  have "num_milliseconds (milliseconds 1001) = 1001"
    by (simp add: num_milliseconds_def milliseconds_def)
  moreover have "f64_of_int 1001 = Fin 1001" using f64_of_int_exact [of 1001] by simp
  moreover have "f64_as_i64 (Fin (8804889115230207 / 8796093022208)) = 1000"
  proof -
    have "\<lfloor>8804889115230207 / 8796093022208 :: rat\<rfloor> = 1000"
      by (rule floor_unique) simp_all
    then show ?thesis by (simp add: trunc_rat_def clamp_i64_def i64_min_def i64_max_def)
  qed
  ultimately show ?thesis
    by (simp only: parse_duration_def parse_f64_def duration_to_json_def JSON.case f64_div_rat.simps
        round_1001_div_1000 try_result.simps f64_mult.simps round_1001_mult_1000)
qed

section \<open>Round trip of values\<close>

text \<open>The values whose JSON form determines them: whole seconds in the exact range of a float,
  colours within their documented bounds, bytes.\<close>

fun value_wire_ok :: "Value \<Rightarrow> bool" and range_wire_ok :: "Range \<Rightarrow> bool" where
  "value_wire_ok (VDuration d) \<longleftrightarrow> d mod 1000000000 = 0 \<and> \<bar>d div 1000000000\<bar> < 2 ^ 43"
| "value_wire_ok (VColor c) \<longleftrightarrow>
     (case c of HSV h s v \<Rightarrow> \<not> f64_lt s (Fin 0) \<and> \<not> f64_lt (Fin 1) s \<and>
                              \<not> f64_lt v (Fin 0) \<and> \<not> f64_lt (Fin 1) v)"
| "value_wire_ok (VBinary b) \<longleftrightarrow> list_all (\<lambda>x. x < 256) (bin_data b)"
| "value_wire_ok (VRange r) \<longleftrightarrow> range_wire_ok r"
| "value_wire_ok _ \<longleftrightarrow> True"
| "range_wire_ok (Leq v) \<longleftrightarrow> value_wire_ok v"
| "range_wire_ok (Geq v) \<longleftrightarrow> value_wire_ok v"
| "range_wire_ok (Eq v) \<longleftrightarrow> value_wire_ok v"
| "range_wire_ok (BetweenEq v w) \<longleftrightarrow> value_wire_ok v \<and> value_wire_ok w"
| "range_wire_ok (OutOfStrict v w) \<longleftrightarrow> value_wire_ok v \<and> value_wire_ok w"

lemma onoff_roundtrip: "parse_onoff p (onoff_to_json x) = Inr x"
  by (cases x) (simp_all add: parse_onoff_def)

lemma openclosed_roundtrip: "parse_openclosed p (openclosed_to_json x) = Inr x"
  by (cases x) (simp_all add: parse_openclosed_def)

lemma doorlocked_roundtrip: "parse_doorlocked p (doorlocked_to_json x) = Inr x"
  by (cases x) (simp_all add: parse_doorlocked_def)

lemma parse_f64_F64 [simp]: "parse_f64 p (F64 x) = Inr x"
  by (simp add: parse_f64_def)

lemma parse_bool_Bool [simp]: "parse_bool p (Bool b) = Inr b"
  by (simp add: parse_bool_def)

lemma parse_string_JString [simp]: "parse_string p (JString s) = Inr s"
  by (simp add: parse_string_def)

lemma temperature_roundtrip: "parse_temperature p (temperature_to_json x) = Inr x"
  by (cases x) (simp_all add: parse_temperature_def take_simps)

text \<open>Reading an object written from a list of pairs: only the lookup matters.\<close>

lemmas wire_simps = take_simps bt_get_collect pairs_to_json_def

lemma color_roundtrip:
  "value_wire_ok (VColor x) \<Longrightarrow> parse_color p (color_to_json x) = Inr x"
  by (cases x) (simp add: parse_color_def wire_simps del: bt_collect.simps)

lemma webpush_notify_roundtrip: "parse_webpush_notify p (webpush_notify_to_json x) = Inr x"
  by (cases x) (simp add: parse_webpush_notify_def wire_simps del: bt_collect.simps)

lemma thinkerbell_rule_roundtrip: "parse_thinkerbell_rule p (thinkerbell_rule_to_json x) = Inr x"
  by (cases x) (simp add: parse_thinkerbell_rule_def wire_simps del: bt_collect.simps)

lemma ext_value_roundtrip:
  "(\<And>q y. parse q (to_json y) = Inr y) \<Longrightarrow>
   parse_ext_value parse p (ext_value_to_json to_json x) = Inr x"
  by (cases x) (simp add: parse_ext_value_def ext_value_to_json_def wire_simps del: bt_collect.simps)

lemma bytes_roundtrip:
  assumes "externals_ok X" and "list_all (\<lambda>x. x < 256) bs"
  shows "parse_vec (parse_u8 X) p (JArray (map U64 bs)) = Inr bs"
proof -
  have "parse_elems (parse_u8 X) p i (map U64 bs) = Inr bs" for i
    using assms(2)
    by (induction bs arbitrary: i) (use assms(1) in \<open>auto simp: parse_u8_def externals_ok_def\<close>)
  then show ?thesis by (simp add: parse_vec_def)
qed

lemma binary_roundtrip:
  "externals_ok X \<Longrightarrow> list_all (\<lambda>x. x < 256) (bin_data b) \<Longrightarrow>
   parse_binary X p (binary_to_json b) = Inr b"
  by (cases b) (simp add: parse_binary_def binary_to_json_def wire_simps bytes_roundtrip
      del: bt_collect.simps)

lemma timestamp_roundtrip: "externals_ok X \<Longrightarrow> parse_timestamp X p (timestamp_to_json X t) = Inr t"
  by (simp add: parse_timestamp_def timestamp_to_json_def externals_ok_def)

lemma duration_roundtrip:
  assumes "value_wire_ok (VDuration d)"
  shows "parse_duration p (duration_to_json d) = Inr d"
  using assms duration_whole_seconds [of "d div 1000000000" p]
  by (simp add: mod_0_imp_dvd dvd_div_mult_self)

lemmas leaf_roundtrips =
  onoff_roundtrip openclosed_roundtrip doorlocked_roundtrip temperature_roundtrip
  webpush_notify_roundtrip thinkerbell_rule_roundtrip timestamp_roundtrip

lemma value_range_roundtrip:
  assumes X: "externals_ok X"
  shows "value_wire_ok v \<Longrightarrow> parse_value X p (value_to_json X v) = Inr v"
    and "range_wire_ok r \<Longrightarrow> parse_range X q (range_to_json X r) = Inr r"
proof (induction v and r arbitrary: p and q)
  case (VColor c)
  then show ?case by (simp add: parse_value.simps leaf_value_parser_def color_roundtrip)
next
  case (VDuration d)
  then show ?case
    by (simp add: parse_value.simps leaf_value_parser_def duration_roundtrip del: value_wire_ok.simps)
next
  case (VBinary b)
  then show ?case by (simp add: parse_value.simps leaf_value_parser_def binary_roundtrip X)
next
  case (VExtBool x)
  then show ?case by (simp add: parse_value.simps leaf_value_parser_def ext_value_roundtrip)
next
  case (VExtNumeric x)
  then show ?case by (simp add: parse_value.simps leaf_value_parser_def ext_value_roundtrip)
qed (simp_all add: parse_value.simps [of X _ "JObject [(_, _)]"] parse_range.simps parse_vec_def
      leaf_value_parser_def leaf_roundtrips X)


text \<open>The externals of the witnesses: instants printed in unary.\<close>

definition sample_externals :: externals where
  "sample_externals =
     \<lparr>json_as_u64 = (\<lambda>j. case j of U64 n \<Rightarrow> Some n | _ \<Rightarrow> None),
      ts_from_str = (\<lambda>s. case s of
          [] \<Rightarrow> Some 0
        | c # cs \<Rightarrow> if c = CHR ''-'' then Some (- int (length cs)) else Some (int (length s))),
      ts_to_rfc3339 = (\<lambda>t. if t < 0 then CHR ''-'' # replicate (nat (- t)) (CHR ''1'')
                           else replicate (nat t) (CHR ''1'')),
      value_keys = ''[]''\<rparr>"

lemma sample_externals_ok: "externals_ok sample_externals"
proof -
  have "ts_from_str sample_externals (ts_to_rfc3339 sample_externals t) = Some t" for t
  proof (cases "t < 0")
    case True
    then show ?thesis by (simp add: sample_externals_def)
  next
    case False
    then show ?thesis
      by (cases "nat t") (simp_all add: sample_externals_def)
  qed
  then show ?thesis by (simp add: externals_ok_def sample_externals_def)
qed


section \<open>Ranges only accept values of their own type\<close>

lemma value_partial_cmp_type:
  "value_partial_cmp x y = Done (Some c) \<Longrightarrow> value_type x = value_type y"
  by (cases x; cases y) simp_all

lemma value_eq_type: "value_eq x y \<Longrightarrow> value_type x = value_type y"
  by (cases x; cases y) simp_all

lemma value_order_type [dest]:
  "value_le x y = Done True \<Longrightarrow> value_type x = value_type y"
  "value_lt x y = Done True \<Longrightarrow> value_type x = value_type y"
  "value_ge x y = Done True \<Longrightarrow> value_type x = value_type y"
  by (auto simp: value_le_def value_lt_def value_ge_def run_iff dest: value_partial_cmp_type)

lemma value_partial_cmp_panic:
  "value_partial_cmp x y = Panic \<longleftrightarrow> value_type x = TyTemperature \<and> value_type y = TyTemperature"
  by (cases x; cases y) (simp_all add: temperature_partial_cmp_def temperature_as_c_def)

lemma value_order_panic:
  "value_le x y = Panic \<longleftrightarrow> value_type x = TyTemperature \<and> value_type y = TyTemperature"
  "value_lt x y = Panic \<longleftrightarrow> value_type x = TyTemperature \<and> value_type y = TyTemperature"
  "value_ge x y = Panic \<longleftrightarrow> value_type x = TyTemperature \<and> value_type y = TyTemperature"
  using value_partial_cmp_panic [of x y]
  by (cases "value_partial_cmp x y"; simp add: value_le_def value_lt_def value_ge_def)+

lemma bind_outcome_Panic_iff:
  "bind_outcome m f = Panic \<longleftrightarrow> m = Panic \<or> (\<exists>x. m = Done x \<and> f x = Panic)"
  by (cases m) auto

text \<open>A range that has a type only contains values of that type; values of another type are
  never in it.\<close>

theorem range_contains_type:
  assumes "range_contains r v = Done True" and "range_type r = Inr t"
  shows "value_type v = t"
  using assms
  by (cases r) (auto simp: run_iff dest: value_eq_type split: if_splits)

text \<open>Testing a value against a range panics exactly when a temperature gets compared with a
  temperature bound, because the conversion to Celsius is not implemented: an interval panics on
  its lower bound, an exclusion on either bound, equality never.\<close>

theorem range_contains_panic:
  "range_contains r v = Panic \<longleftrightarrow>
     value_type v = TyTemperature \<and>
     (case r of
        Leq b \<Rightarrow> value_type b = TyTemperature
      | Geq b \<Rightarrow> value_type b = TyTemperature
      | BetweenEq mn mx \<Rightarrow> value_type mn = TyTemperature
      | OutOfStrict mn mx \<Rightarrow> value_type mn = TyTemperature \<or> value_type mx = TyTemperature
      | Eq b \<Rightarrow> False)"
proof (cases r)
  case (BetweenEq mn mx)
  then show ?thesis
    using value_order_panic(1) [of mn v]
    by (auto simp: bind_outcome_Panic_iff value_order_panic split: if_splits)
next
  case (OutOfStrict mn mx)
  show ?thesis
  proof (cases "value_lt v mn")
    case Panic
    with OutOfStrict value_order_panic(2) [of v mn] show ?thesis by auto
  next
    case (Done b)
    with value_order_panic(2) [of v mn] have "value_type v \<noteq> TyTemperature \<or> value_type mn \<noteq> TyTemperature"
      by auto
    with OutOfStrict Done show ?thesis
      by (auto simp: value_order_panic dest!: value_order_type(2))
  qed
qed (auto simp: value_order_panic)

text \<open>The two interval ranges are complements on a totally ordered type such as durations,
  as long as the interval is not empty.\<close>

lemma duration_between_or_out:
  assumes "a \<le> b"
  shows "range_contains (OutOfStrict (VDuration a) (VDuration b)) (VDuration d) = Done x \<longleftrightarrow>
         range_contains (BetweenEq (VDuration a) (VDuration b)) (VDuration d) = Done (\<not> x)"
  using assms by (auto simp: value_le_def value_lt_def cmp_of_def)

end
