(* ===== verification/Services.thy ===== *)
theory Services
  imports Values
begin

text \<open>
  \<^verbatim>\<open>components/taxonomy/src/services.rs\<close>: channel kinds, channels and services, with their JSON
  form. \<^verbatim>\<open>Channel<Getter>\<close> and \<^verbatim>\<open>Channel<Setter>\<close> have the same fields and are one record; the
  mechanism of a channel (a kind and the date of the last update) is flattened into it.
\<close>

section \<open>Channel kinds\<close>

datatype ChannelKind =
    KReady | KLightOn | KOpenClosed | KDoorLocked | KUsername | KPassword
  | KCountdown | KCountEveryInterval | KCurrentTime | KCurrentTimeOfDay | KRemainingTime
  | KOvenTemperature
  | KAddThinkerbellRule | KRemoveThinkerbellRule | KThinkerbellRuleSource | KThinkerbellRuleOn
  | KTakeSnapshot | KLog | KWebPushNotify
  | KExtension VendorId AdapterId KindId Type

fun channel_kind_to_json :: "ChannelKind \<Rightarrow> JSON" where
  "channel_kind_to_json KReady = JString ''Ready''"
| "channel_kind_to_json KLightOn = JString ''LightOn''"
| "channel_kind_to_json KOpenClosed = JString ''OpenClosed''"
| "channel_kind_to_json KDoorLocked = JString ''DoorLocked''"
| "channel_kind_to_json KUsername = JString ''Username''"
| "channel_kind_to_json KPassword = JString ''Password''"
| "channel_kind_to_json KCurrentTime = JString ''CurrentTime''"
| "channel_kind_to_json KCurrentTimeOfDay = JString ''CurrentTimeOfDay''"
| "channel_kind_to_json KCountEveryInterval = JString ''CountEveryInterval''"
| "channel_kind_to_json KCountdown = JString ''Countdown''"
| "channel_kind_to_json KRemainingTime = JString ''RemainingTime''"
| "channel_kind_to_json KOvenTemperature = JString ''OvenTemperature''"
| "channel_kind_to_json KAddThinkerbellRule = JString ''AddThinkerbellRule''"
| "channel_kind_to_json KRemoveThinkerbellRule = JString ''RemoveThinkerbellRule''"
| "channel_kind_to_json KThinkerbellRuleSource = JString ''ThinkerbellRuleSource''"
| "channel_kind_to_json KThinkerbellRuleOn = JString ''ThinkerbellRuleOn''"
| "channel_kind_to_json KTakeSnapshot = JString ''TakeSnapshot''"
| "channel_kind_to_json KLog = JString ''Log''"
| "channel_kind_to_json KWebPushNotify = JString ''WebPushNotify''"
| "channel_kind_to_json (KExtension vendor adapter kind typ) =
     pairs_to_json
       [(''vendor'', id_to_json vendor), (''adapter'', id_to_json adapter),
        (''kind'', id_to_json kind), (''type'', type_to_json typ)]"

definition parse_channel_kind :: "ChannelKind parser" where
  "parse_channel_kind path source =
     (case as_string source of
        Some str \<Rightarrow>
          if str = ''Ready'' then Inr KReady
          else if str = ''LightOn'' then Inr KLightOn
          else if str = ''OpenClosed'' then Inr KOpenClosed
          else if str = ''DoorLocked'' then Inr KDoorLocked
          else if str = ''Username'' then Inr KUsername
          else if str = ''Password'' then Inr KPassword
          else if str = ''Countdown'' then Inr KCountdown
          else if str = ''CountEveryInterval'' then Inr KCountEveryInterval
          else if str = ''CurrentTime'' then Inr KCurrentTime
          else if str = ''CurrentTimeOfDay'' then Inr KCurrentTimeOfDay
          else if str = ''AddThinkerbellRule'' then Inr KAddThinkerbellRule
          else if str = ''RemoveThinkerbellRule'' then Inr KRemoveThinkerbellRule
          else if str = ''ThinkerbellRuleSource'' then Inr KThinkerbellRuleSource
          else if str = ''ThinkerbellRuleOn'' then Inr KThinkerbellRuleOn
          else if str = ''RemainingTime'' then Inr KRemainingTime
          else if str = ''OvenTemperature'' then Inr KOvenTemperature
          else if str = ''TakeSnapshot'' then Inr KTakeSnapshot
          else if str = ''Log'' then Inr KLog
          else if str = ''WebPushNotify'' then Inr KWebPushNotify
          else Inl (unknown_constant str path)
      | None \<Rightarrow>
          if is_object source then
            if list_ex (\<lambda>key. json_find source key = None) [''vendor'', ''adapter'', ''kind'', ''type'']
            then Inl (type_error ''ChannelKind'' path ''string|object {vendor, adapter, kind, type}'')
            else
              try_take (take_field parse_id (path_push path ''vendor'') source ''vendor'')
                (\<lambda>vendor source.
              try_take (take_field parse_id (path_push path ''adapter'') source ''adapter'')
                (\<lambda>adapter source.
              try_take (take_field parse_id (path_push path ''kind'') source ''kind'')
                (\<lambda>kind source.
              try_take (take_field parse_type (path_push path ''type'') source ''type'')
                (\<lambda>typ source. Inr (KExtension vendor adapter kind typ)))))
          else Inl (type_error ''ChannelKind'' path ''string|object {vendor, adapter, kind, type}''))"

text \<open>The type of the values of a kind of channel.\<close>

fun kind_type :: "ChannelKind \<Rightarrow> Type" where
  "kind_type KReady = TyUnit"
| "kind_type KLightOn = TyOnOff"
| "kind_type KOpenClosed = TyOpenClosed"
| "kind_type KDoorLocked = TyDoorLocked"
| "kind_type KCurrentTime = TyTimeStamp"
| "kind_type KCurrentTimeOfDay = TyDuration"
| "kind_type KRemainingTime = TyDuration"
| "kind_type KCountdown = TyDuration"
| "kind_type KCountEveryInterval = TyDuration"
| "kind_type KOvenTemperature = TyTemperature"
| "kind_type KAddThinkerbellRule = TyThinkerbellRule"
| "kind_type KRemoveThinkerbellRule = TyUnit"
| "kind_type KThinkerbellRuleSource = TyString"
| "kind_type KThinkerbellRuleOn = TyOnOff"
| "kind_type KLog = TyString"
| "kind_type KTakeSnapshot = TyUnit"
| "kind_type KUsername = TyString"
| "kind_type KPassword = TyString"
| "kind_type KWebPushNotify = TyWebPushNotify"
| "kind_type (KExtension _ _ _ typ) = typ"

section \<open>Channels and services\<close>

record channel =
  ch_tags :: "TagId hashset"
  ch_id :: string
  ch_service :: ServiceId
  ch_kind :: ChannelKind
  ch_updated :: "int option"
  ch_adapter :: AdapterId
  ch_last_seen :: "int option"

record service =
  svc_tags :: "TagId hashset"
  svc_id :: ServiceId
  svc_properties :: "(string, string) hashmap"
  svc_getters :: "(GetterId, channel) hashmap"
  svc_setters :: "(SetterId, channel) hashmap"
  svc_adapter :: AdapterId

definition service_empty :: "ServiceId \<Rightarrow> AdapterId \<Rightarrow> service" where
  "service_empty sid adapter =
     \<lparr>svc_tags = [], svc_id = sid, svc_properties = [], svc_getters = [], svc_setters = [],
      svc_adapter = adapter\<rparr>"

text \<open>The fields of a channel on the wire; the two dates only when they are known.\<close>

definition channel_to_json :: "externals \<Rightarrow> string \<Rightarrow> channel \<Rightarrow> JSON" where
  "channel_to_json X mechanism c =
     JObject (bt_collect (
       [(''id'', id_to_json (ch_id c)), (''adapter'', id_to_json (ch_adapter c)),
        (''tags'', vec_to_json id_to_json (ch_tags c)), (''service'', id_to_json (ch_service c)),
        (''mechanism'', JString mechanism), (''kind'', channel_kind_to_json (ch_kind c))]
       @ (case ch_last_seen c of None \<Rightarrow> [] | Some ts \<Rightarrow> [(''last_seen'', timestamp_to_json X ts)])
       @ (case ch_updated c of None \<Rightarrow> [] | Some ts \<Rightarrow> [(''updated'', timestamp_to_json X ts)])))"

definition getter_to_json :: "externals \<Rightarrow> channel \<Rightarrow> JSON" where
  "getter_to_json X c = channel_to_json X ''getter'' c"

definition setter_to_json :: "externals \<Rightarrow> channel \<Rightarrow> JSON" where
  "setter_to_json X c = channel_to_json X ''setter'' c"

definition service_to_json :: "externals \<Rightarrow> service \<Rightarrow> JSON" where
  "service_to_json X s =
     JObject (bt_collect
       [(''id'', id_to_json (svc_id s)), (''adapter'', id_to_json (svc_adapter s)),
        (''tags'', vec_to_json id_to_json (svc_tags s)),
        (''properties'', id_map_to_json JString (svc_properties s)),
        (''getters'', id_map_to_json (getter_to_json X) (svc_getters s)),
        (''setters'', id_map_to_json (setter_to_json X) (svc_setters s))])"

section \<open>Facts\<close>

text \<open>Every channel kind, the vendor extensions included, is read back from its JSON form.\<close>

theorem channel_kind_json_roundtrip: "parse_channel_kind p (channel_kind_to_json k) = Inr k"
proof (cases k)
  case (KExtension a b c d)
  then show ?thesis
    by (simp add: parse_channel_kind_def wire_simps del: bt_collect.simps)
qed (simp_all add: parse_channel_kind_def)

end
