(* ===== verification/Selector.thy ===== *)
theory Selector
  imports Services
begin

text \<open>
  \<^verbatim>\<open>components/taxonomy/src/selector.rs\<close>: selectors of services and channels, their builders,
  their conjunction, matching and parsing; periods of time. A service selector works on anything
  that offers the \<^verbatim>\<open>ServiceLike\<close> interface (the locale \<open>service_like\<close>): the \<^verbatim>\<open>Service\<close>
  snapshot here, the live view of the back-end in \<open>Backend\<close>.
\<close>

text \<open>\<^verbatim>\<open>merge\<close>: adds the elements of a vector to a set.\<close>

fun merge_tags :: "'a hashset \<Rightarrow> 'a list \<Rightarrow> 'a hashset" where
  "merge_tags a [] = a"
| "merge_tags a (x # xs) = merge_tags (snd (hs_insert x a)) xs"

definition tags_union :: "'a hashset \<Rightarrow> 'a hashset \<Rightarrow> 'a hashset" where
  "tags_union a b = a @ filter (\<lambda>x. x \<notin> set a) b"

text \<open>The loop of \<^verbatim>\<open>has_selected_tags\<close>: every tag of the first set is in the second.\<close>

fun has_selected_tags :: "TagId hashset \<Rightarrow> TagId hashset \<Rightarrow> bool" where
  "has_selected_tags [] requested = True"
| "has_selected_tags (tag # actual) requested =
     (if tag \<notin> set requested then False else has_selected_tags actual requested)"

lemma merge_tags_set [simp]: "set (merge_tags a xs) = set a \<union> set xs"
  by (induction a xs rule: merge_tags.induct) auto

lemma tags_union_set [simp]: "set (tags_union a b) = set a \<union> set b"
  by (auto simp: tags_union_def)

lemma has_selected_tags_iff [simp]: "has_selected_tags a b \<longleftrightarrow> set a \<subseteq> set b"
  by (induction a) auto

section \<open>Channel selectors\<close>

record channel_selector =
  sel_id :: "string Exactly"
  sel_parent :: "ServiceId Exactly"
  sel_tags :: "TagId hashset"
  sel_service_tags :: "TagId hashset"
  sel_kind :: "ChannelKind Exactly"

type_synonym GetterSelector = channel_selector
type_synonym SetterSelector = channel_selector

definition getter_selector_new :: GetterSelector where
  "getter_selector_new =
     \<lparr>sel_id = Always, sel_parent = Always, sel_tags = [], sel_service_tags = [], sel_kind = Always\<rparr>"

definition getter_with_id :: "GetterSelector \<Rightarrow> GetterId \<Rightarrow> GetterSelector" where
  "getter_with_id self i = self\<lparr>sel_id := exactly_and (sel_id self) (Exactly i)\<rparr>"

definition getter_with_parent :: "GetterSelector \<Rightarrow> ServiceId \<Rightarrow> GetterSelector" where
  "getter_with_parent self i = self\<lparr>sel_parent := exactly_and (sel_parent self) (Exactly i)\<rparr>"

definition getter_with_kind :: "GetterSelector \<Rightarrow> ChannelKind \<Rightarrow> GetterSelector" where
  "getter_with_kind self k = self\<lparr>sel_kind := exactly_and (sel_kind self) (Exactly k)\<rparr>"

definition getter_with_tags :: "GetterSelector \<Rightarrow> TagId list \<Rightarrow> GetterSelector" where
  "getter_with_tags self tags = self\<lparr>sel_tags := merge_tags (sel_tags self) tags\<rparr>"

definition getter_with_service_tags :: "GetterSelector \<Rightarrow> TagId list \<Rightarrow> GetterSelector" where
  "getter_with_service_tags self tags =
     self\<lparr>sel_service_tags := merge_tags (sel_service_tags self) tags\<rparr>"

definition getter_and :: "GetterSelector \<Rightarrow> GetterSelector \<Rightarrow> GetterSelector" where
  "getter_and self other =
     \<lparr>sel_id = exactly_and (sel_id self) (sel_id other),
      sel_parent = exactly_and (sel_parent self) (sel_parent other),
      sel_tags = tags_union (sel_tags self) (sel_tags other),
      sel_service_tags = tags_union (sel_service_tags self) (sel_service_tags other),
      sel_kind = exactly_and (sel_kind self) (sel_kind other)\<rparr>"

definition getter_matches :: "GetterSelector \<Rightarrow> TagId hashset \<Rightarrow> channel \<Rightarrow> bool" where
  "getter_matches self service_tags channel =
     (if \<not> exactly_matches (sel_id self) (ch_id channel) then False
      else if \<not> exactly_matches (sel_parent self) (ch_service channel) then False
      else if \<not> exactly_matches (sel_kind self) (ch_kind channel) then False
      else if \<not> has_selected_tags (sel_tags self) (ch_tags channel) then False
      else if \<not> has_selected_tags (sel_service_tags self) service_tags then False
      else True)"

definition setter_selector_new :: SetterSelector where
  "setter_selector_new =
     \<lparr>sel_id = Always, sel_parent = Always, sel_tags = [], sel_service_tags = [], sel_kind = Always\<rparr>"

definition setter_with_id :: "SetterSelector \<Rightarrow> SetterId \<Rightarrow> SetterSelector" where
  "setter_with_id self i = self\<lparr>sel_id := exactly_and (sel_id self) (Exactly i)\<rparr>"

definition setter_with_parent :: "SetterSelector \<Rightarrow> ServiceId \<Rightarrow> SetterSelector" where
  "setter_with_parent self i = self\<lparr>sel_parent := exactly_and (sel_parent self) (Exactly i)\<rparr>"

definition setter_with_kind :: "SetterSelector \<Rightarrow> ChannelKind \<Rightarrow> SetterSelector" where
  "setter_with_kind self k = self\<lparr>sel_kind := exactly_and (sel_kind self) (Exactly k)\<rparr>"

definition setter_with_tags :: "SetterSelector \<Rightarrow> TagId list \<Rightarrow> SetterSelector" where
  "setter_with_tags self tags = self\<lparr>sel_tags := merge_tags (sel_tags self) tags\<rparr>"

definition setter_with_service_tags :: "SetterSelector \<Rightarrow> TagId list \<Rightarrow> SetterSelector" where
  "setter_with_service_tags self tags =
     self\<lparr>sel_service_tags := merge_tags (sel_service_tags self) tags\<rparr>"

definition setter_and :: "SetterSelector \<Rightarrow> SetterSelector \<Rightarrow> SetterSelector" where
  "setter_and self other =
     \<lparr>sel_id = exactly_and (sel_id self) (sel_id other),
      sel_parent = exactly_and (sel_parent self) (sel_parent other),
      sel_tags = tags_union (sel_tags self) (sel_tags other),
      sel_service_tags = tags_union (sel_service_tags self) (sel_service_tags other),
      sel_kind = exactly_and (sel_kind self) (sel_kind other)\<rparr>"

definition setter_matches :: "SetterSelector \<Rightarrow> TagId hashset \<Rightarrow> channel \<Rightarrow> bool" where
  "setter_matches self service_tags channel =
     (if \<not> exactly_matches (sel_id self) (ch_id channel) then False
      else if \<not> exactly_matches (sel_parent self) (ch_service channel) then False
      else if \<not> exactly_matches (sel_kind self) (ch_kind channel) then False
      else if \<not> has_selected_tags (sel_tags self) (ch_tags channel) then False
      else if \<not> has_selected_tags (sel_service_tags self) service_tags then False
      else True)"

lemma getter_matches_iff:
  "getter_matches s st c \<longleftrightarrow>
     exactly_matches (sel_id s) (ch_id c) \<and> exactly_matches (sel_parent s) (ch_service c) \<and>
     exactly_matches (sel_kind s) (ch_kind c) \<and> set (sel_tags s) \<subseteq> set (ch_tags c) \<and>
     set (sel_service_tags s) \<subseteq> set st"
  by (simp add: getter_matches_def)

lemma setter_matches_iff:
  "setter_matches s st c \<longleftrightarrow>
     exactly_matches (sel_id s) (ch_id c) \<and> exactly_matches (sel_parent s) (ch_service c) \<and>
     exactly_matches (sel_kind s) (ch_kind c) \<and> set (sel_tags s) \<subseteq> set (ch_tags c) \<and>
     set (sel_service_tags s) \<subseteq> set st"
  by (simp add: setter_matches_def)

lemma getter_matches_mono: "getter_matches s st c \<Longrightarrow> set st \<subseteq> set st' \<Longrightarrow> getter_matches s st' c"
  by (auto simp: getter_matches_iff)

lemma setter_matches_mono: "setter_matches s st c \<Longrightarrow> set st \<subseteq> set st' \<Longrightarrow> setter_matches s st' c"
  by (auto simp: setter_matches_iff)

text \<open>The conjunction of two getter selectors selects exactly the channels both select, and
  each builder restricts the selection by exactly its own condition.\<close>

theorem getter_selector_conjunction:
  "(getter_matches (getter_and a b) st c \<longleftrightarrow> getter_matches a st c \<and> getter_matches b st c) \<and>
   getter_matches getter_selector_new st c \<and>
   (getter_matches (getter_with_id a i) st c \<longleftrightarrow> getter_matches a st c \<and> ch_id c = i) \<and>
   (getter_matches (getter_with_parent a sv) st c \<longleftrightarrow> getter_matches a st c \<and> ch_service c = sv) \<and>
   (getter_matches (getter_with_kind a k) st c \<longleftrightarrow> getter_matches a st c \<and> ch_kind c = k) \<and>
   (getter_matches (getter_with_tags a ts) st c \<longleftrightarrow>
      getter_matches a st c \<and> set ts \<subseteq> set (ch_tags c)) \<and>
   (getter_matches (getter_with_service_tags a ts) st c \<longleftrightarrow>
      getter_matches a st c \<and> set ts \<subseteq> set st)"
  by (auto simp: getter_matches_iff getter_and_def getter_selector_new_def getter_with_id_def
      getter_with_parent_def getter_with_kind_def getter_with_tags_def getter_with_service_tags_def
      exactly_and_matches)

section \<open>Service selectors\<close>

record service_selector =
  ssel_id :: "ServiceId Exactly"
  ssel_tags :: "TagId hashset"
  ssel_getters :: "GetterSelector list"
  ssel_setters :: "SetterSelector list"

definition service_selector_new :: service_selector where
  "service_selector_new = \<lparr>ssel_id = Always, ssel_tags = [], ssel_getters = [], ssel_setters = []\<rparr>"

definition service_with_id :: "service_selector \<Rightarrow> ServiceId \<Rightarrow> service_selector" where
  "service_with_id self i = self\<lparr>ssel_id := exactly_and (ssel_id self) (Exactly i)\<rparr>"

definition service_with_tags :: "service_selector \<Rightarrow> TagId list \<Rightarrow> service_selector" where
  "service_with_tags self tags = self\<lparr>ssel_tags := merge_tags (ssel_tags self) tags\<rparr>"

definition service_with_getters :: "service_selector \<Rightarrow> GetterSelector list \<Rightarrow> service_selector" where
  "service_with_getters self getters = self\<lparr>ssel_getters := ssel_getters self @ getters\<rparr>"

definition service_with_setters :: "service_selector \<Rightarrow> SetterSelector list \<Rightarrow> service_selector" where
  "service_with_setters self setters = self\<lparr>ssel_setters := ssel_setters self @ setters\<rparr>"

definition service_and :: "service_selector \<Rightarrow> service_selector \<Rightarrow> service_selector" where
  "service_and self other =
     \<lparr>ssel_id = exactly_and (ssel_id self) (ssel_id other),
      ssel_tags = tags_union (ssel_tags self) (ssel_tags other),
      ssel_getters = ssel_getters self @ ssel_getters other,
      ssel_setters = ssel_setters self @ ssel_setters other\<rparr>"

text \<open>
  Matching, over the operations of \<^verbatim>\<open>ServiceLike\<close>. The channel selectors are tried with the tags
  of the selector itself, not with those of the service.
\<close>

definition service_selector_matches ::
    "('s \<Rightarrow> ServiceId) \<Rightarrow> ('s \<Rightarrow> (TagId hashset \<Rightarrow> bool) \<Rightarrow> bool) \<Rightarrow>
     ('s \<Rightarrow> (channel \<Rightarrow> bool) \<Rightarrow> bool) \<Rightarrow> ('s \<Rightarrow> (channel \<Rightarrow> bool) \<Rightarrow> bool) \<Rightarrow>
     service_selector \<Rightarrow> 's \<Rightarrow> bool" where
  "service_selector_matches get_id with_tags has_getters has_setters self service =
     (if \<not> exactly_matches (ssel_id self) (get_id service) then False
      else if \<not> with_tags service (\<lambda>tags. has_selected_tags (ssel_tags self) tags) then False
      else if list_ex (\<lambda>selector.
                \<not> has_getters service (\<lambda>channel. getter_matches selector (ssel_tags self) channel))
              (ssel_getters self) then False
      else if list_ex (\<lambda>selector.
                \<not> has_setters service (\<lambda>channel. setter_matches selector (ssel_tags self) channel))
              (ssel_setters self) then False
      else True)"

locale service_like =
  fixes get_id :: "'s \<Rightarrow> ServiceId"
    and with_tags :: "'s \<Rightarrow> (TagId hashset \<Rightarrow> bool) \<Rightarrow> bool"
    and has_getters :: "'s \<Rightarrow> (channel \<Rightarrow> bool) \<Rightarrow> bool"
    and has_setters :: "'s \<Rightarrow> (channel \<Rightarrow> bool) \<Rightarrow> bool"
    and tags_of :: "'s \<Rightarrow> TagId hashset"
    and getters_of :: "'s \<Rightarrow> channel list"
    and setters_of :: "'s \<Rightarrow> channel list"
  assumes with_tags: "with_tags s f \<longleftrightarrow> f (tags_of s)"
    and has_getters: "has_getters s g \<longleftrightarrow> (\<exists>c \<in> set (getters_of s). g c)"
    and has_setters: "has_setters s g \<longleftrightarrow> (\<exists>c \<in> set (setters_of s). g c)"
begin

lemma matches_iff:
  "service_selector_matches get_id with_tags has_getters has_setters sel s \<longleftrightarrow>
     exactly_matches (ssel_id sel) (get_id s) \<and> set (ssel_tags sel) \<subseteq> set (tags_of s) \<and>
     (\<forall>gs \<in> set (ssel_getters sel). \<exists>c \<in> set (getters_of s). getter_matches gs (ssel_tags sel) c) \<and>
     (\<forall>ss \<in> set (ssel_setters sel). \<exists>c \<in> set (setters_of s). setter_matches ss (ssel_tags sel) c)"
  by (auto simp: service_selector_matches_def with_tags has_getters has_setters list_ex_iff)

text \<open>A service selected by both selectors is selected by their conjunction.\<close>

lemma matches_and:
  assumes "service_selector_matches get_id with_tags has_getters has_setters a s"
    and "service_selector_matches get_id with_tags has_getters has_setters b s"
  shows "service_selector_matches get_id with_tags has_getters has_setters (service_and a b) s"
proof -
  have tags: "set (ssel_tags a) \<subseteq> set (ssel_tags (service_and a b))"
    "set (ssel_tags b) \<subseteq> set (ssel_tags (service_and a b))"
    by (auto simp: service_and_def)
  show ?thesis
    unfolding matches_iff
  proof (intro conjI ballI)
    fix gs assume "gs \<in> set (ssel_getters (service_and a b))"
    then have "gs \<in> set (ssel_getters a) \<or> gs \<in> set (ssel_getters b)" by (simp add: service_and_def)
    with assms show "\<exists>c \<in> set (getters_of s). getter_matches gs (ssel_tags (service_and a b)) c"
      unfolding matches_iff by (meson tags getter_matches_mono)
  next
    fix ss assume "ss \<in> set (ssel_setters (service_and a b))"
    then have "ss \<in> set (ssel_setters a) \<or> ss \<in> set (ssel_setters b)" by (simp add: service_and_def)
    with assms show "\<exists>c \<in> set (setters_of s). setter_matches ss (ssel_tags (service_and a b)) c"
      unfolding matches_iff by (meson tags setter_matches_mono)
  qed (use assms in \<open>auto simp: matches_iff service_and_def exactly_and_matches\<close>)
qed

text \<open>The converse needs the channel selectors not to restrict the tags of the service.\<close>

lemma and_matches:
  assumes "service_selector_matches get_id with_tags has_getters has_setters (service_and a b) s"
    and "\<forall>gs \<in> set (ssel_getters a) \<union> set (ssel_getters b). sel_service_tags gs = []"
    and "\<forall>ss \<in> set (ssel_setters a) \<union> set (ssel_setters b). sel_service_tags ss = []"
  shows "service_selector_matches get_id with_tags has_getters has_setters a s"
    and "service_selector_matches get_id with_tags has_getters has_setters b s"
  using assms unfolding matches_iff
  by (auto simp: service_and_def exactly_and_matches getter_matches_iff setter_matches_iff)

end

text \<open>The implementation of the interface by the \<^verbatim>\<open>Service\<close> snapshot: loops over the channels.\<close>

fun any_channel :: "(channel \<Rightarrow> bool) \<Rightarrow> channel list \<Rightarrow> bool" where
  "any_channel f [] = False"
| "any_channel f (chan # rest) = (if f chan then True else any_channel f rest)"

lemma any_channel_iff [simp]: "any_channel f cs \<longleftrightarrow> (\<exists>c \<in> set cs. f c)"
  by (induction cs) auto

definition service_with_tags_op :: "service \<Rightarrow> (TagId hashset \<Rightarrow> bool) \<Rightarrow> bool" where
  "service_with_tags_op s f = f (svc_tags s)"

definition service_has_getters :: "service \<Rightarrow> (channel \<Rightarrow> bool) \<Rightarrow> bool" where
  "service_has_getters s f = any_channel f (hm_values (svc_getters s))"

definition service_has_setters :: "service \<Rightarrow> (channel \<Rightarrow> bool) \<Rightarrow> bool" where
  "service_has_setters s f = any_channel f (hm_values (svc_setters s))"

definition service_matches :: "service_selector \<Rightarrow> service \<Rightarrow> bool" where
  "service_matches sel s =
     service_selector_matches svc_id service_with_tags_op service_has_getters service_has_setters sel s"

interpretation svc: service_like svc_id service_with_tags_op service_has_getters service_has_setters
    svc_tags "\<lambda>s. map snd (svc_getters s)" "\<lambda>s. map snd (svc_setters s)"
  by unfold_locales
    (simp_all add: service_with_tags_op_def service_has_getters_def service_has_setters_def
      del: set_map)

section \<open>Parsing selectors\<close>

text \<open>An optional field: a default when it is absent; a field that is present clears the flag
  \<^verbatim>\<open>is_empty\<close>, and its error ends the parse.\<close>

fun try_opt ::
    "(ParseError + 'a) option \<times> JSON \<Rightarrow> 'a \<Rightarrow> bool \<Rightarrow>
     ('a \<Rightarrow> bool \<Rightarrow> JSON \<Rightarrow> ParseError + 'b) \<Rightarrow> ParseError + 'b" where
  "try_opt (None, source) dflt is_empty k = k dflt is_empty source"
| "try_opt (Some (Inr x), source) dflt is_empty k = k x False source"
| "try_opt (Some (Inl err), source) dflt is_empty k = Inl err"

definition parse_getter_selector :: "GetterSelector parser" where
  "parse_getter_selector path source =
     try_opt (take_opt (parse_exactly parse_id) (path_push path ''id'') source ''id'') Always True
       (\<lambda>i is_empty source.
     try_opt (take_opt (parse_exactly parse_id) (path_push path ''service'') source ''service'')
       Always is_empty (\<lambda>service_id is_empty source.
     try_opt (take_vec_opt parse_id (path_push path ''tags'') source ''tags'') [] is_empty
       (\<lambda>tags is_empty source.
     try_opt (take_vec_opt parse_id (path_push path ''service_tags'') source ''service_tags'') []
       is_empty (\<lambda>service_tags is_empty source.
     try_opt (take_opt (parse_exactly parse_channel_kind) (path_push path ''kind'') source ''kind'')
       Always is_empty (\<lambda>kind is_empty source.
     if is_empty then Inl (empty_object path)
     else Inr \<lparr>sel_id = i, sel_parent = service_id, sel_tags = merge_tags [] tags,
               sel_service_tags = merge_tags [] service_tags, sel_kind = kind\<rparr>)))))"

definition parse_setter_selector :: "SetterSelector parser" where
  "parse_setter_selector path source =
     try_opt (take_opt (parse_exactly parse_id) (path_push path ''id'') source ''id'') Always True
       (\<lambda>i is_empty source.
     try_opt (take_opt (parse_exactly parse_id) (path_push path ''service'') source ''service'')
       Always is_empty (\<lambda>service_id is_empty source.
     try_opt (take_vec_opt parse_id (path_push path ''tags'') source ''tags'') [] is_empty
       (\<lambda>tags is_empty source.
     try_opt (take_vec_opt parse_id (path_push path ''service_tags'') source ''service_tags'') []
       is_empty (\<lambda>service_tags is_empty source.
     try_opt (take_opt (parse_exactly parse_channel_kind) (path_push path ''kind'') source ''kind'')
       Always is_empty (\<lambda>kind is_empty source.
     if is_empty then Inl (empty_object path)
     else Inr \<lparr>sel_id = i, sel_parent = service_id, sel_tags = merge_tags [] tags,
               sel_service_tags = merge_tags [] service_tags, sel_kind = kind\<rparr>)))))"

definition parse_service_selector :: "service_selector parser" where
  "parse_service_selector path source =
     try_opt (take_opt (parse_exactly parse_id) (path_push path ''id'') source ''id'') Always True
       (\<lambda>i is_empty source.
     try_opt (take_vec_opt parse_id (path_push path ''tags'') source ''tags'') [] is_empty
       (\<lambda>tags is_empty source.
     try_opt (take_vec_opt parse_getter_selector (path_push path ''getters'') source ''getters'') []
       is_empty (\<lambda>getters is_empty source.
     try_opt (take_vec_opt parse_setter_selector (path_push path ''setters'') source ''setters'') []
       is_empty (\<lambda>setters is_empty source.
     if is_empty then Inl (empty_object path)
     else Inr \<lparr>ssel_id = i, ssel_tags = merge_tags [] tags, ssel_getters = getters,
               ssel_setters = setters\<rparr>))))"

lemma take_vec_opt_present:
  "map_of obj k = Some (JArray vec) \<Longrightarrow>
   take_vec_opt f p (JObject obj) k = (Some (parse_elems f p 0 vec), JObject (AList.delete k obj))"
  by (simp add: take_vec_opt_def)

lemma take_vec_opt_absent:
  "map_of obj k = None \<Longrightarrow> take_vec_opt f p (JObject obj) k = (None, JObject obj)"
  by (simp add: take_vec_opt_def)

lemmas opt_simps = take_opt_absent take_opt_present take_vec_opt_absent take_vec_opt_present

text \<open>An object with none of the fields of a selector is refused as an empty object, for
  each of the three kinds of selector.\<close>

theorem selector_empty_object_refused:
  "(\<not> (\<exists>k \<in> {''id'', ''service'', ''tags'', ''service_tags'', ''kind''}. hm_has obj k) \<longrightarrow>
      parse_getter_selector p (JObject obj) = Inl (EmptyObject p) \<and>
      parse_setter_selector p (JObject obj) = Inl (EmptyObject p)) \<and>
   (\<not> (\<exists>k \<in> {''id'', ''tags'', ''getters'', ''setters''}. hm_has obj k) \<longrightarrow>
      parse_service_selector p (JObject obj) = Inl (EmptyObject p))"
  by (simp add: hm_has_def parse_getter_selector_def parse_setter_selector_def
      parse_service_selector_def opt_simps parse_error_defs)

theorem selector_empty_object_refused_witness:
  "parse_getter_selector ''sel'' (JObject [(''name'', Null)]) = Inl (EmptyObject ''sel'') \<and>
   parse_service_selector ''sel'' (JObject [(''name'', Null)]) = Inl (EmptyObject ''sel'')"
  using selector_empty_object_refused [of "[(''name'', Null)]" "''sel''"] by (simp add: hm_has_def)

text \<open>The \<^verbatim>\<open>service_tags\<close> of the channel selectors inside a service selector are compared
  with the tags of the selector, never with those of the service: a service carrying the tag
  \<open>t\<close>, with a getter, is not selected by a selector that asks for a getter of a service tagged
  \<open>t\<close>, although that getter selector on its own selects the getter.\<close>

theorem nested_service_tags_ignore_the_service:
  "service_matches
     (service_with_getters service_selector_new [getter_with_service_tags getter_selector_new [t]])
     (s\<lparr>svc_tags := [t], svc_getters := [(i, c)]\<rparr>) = False \<and>
   getter_matches (getter_with_service_tags getter_selector_new [t]) [t] c"
  unfolding service_matches_def svc.matches_iff
  by (simp add: service_with_getters_def service_selector_new_def getter_with_service_tags_def
      getter_selector_new_def getter_matches_iff)

text \<open>A service is selected by the conjunction of two service selectors whenever it is
  selected by both; and, when no channel selector constrains the tags of its service, exactly
  then.\<close>

theorem service_selector_conjunction:
  "(service_matches a s \<and> service_matches b s \<longrightarrow> service_matches (service_and a b) s) \<and>
   ((\<forall>gs \<in> set (ssel_getters a) \<union> set (ssel_getters b). sel_service_tags gs = []) \<and>
    (\<forall>ss \<in> set (ssel_setters a) \<union> set (ssel_setters b). sel_service_tags ss = []) \<longrightarrow>
    (service_matches (service_and a b) s \<longleftrightarrow> service_matches a s \<and> service_matches b s))"
  unfolding service_matches_def
  using svc.matches_and [of a s b] svc.and_matches [of a b s] by blast

theorem service_selector_conjunction_witness:
  "service_matches
     (service_and (service_with_id service_selector_new ''lamp'')
        (service_with_getters service_selector_new [getter_with_kind getter_selector_new KLightOn]))
     \<lparr>svc_tags = [], svc_id = ''lamp'', svc_properties = [],
      svc_getters = [(''power'', \<lparr>ch_tags = [], ch_id = ''power'', ch_service = ''lamp'',
        ch_kind = KLightOn, ch_updated = None, ch_adapter = ''hue'', ch_last_seen = None\<rparr>)],
      svc_setters = [], svc_adapter = ''hue''\<rparr>"
  by (rule service_selector_conjunction [THEN conjunct2, rule_format, THEN iffD2])
    (simp_all add: service_matches_def svc.matches_iff service_with_getters_def
      service_selector_new_def service_with_id_def getter_with_kind_def getter_selector_new_def
      getter_matches_iff)

section \<open>Periods\<close>

text \<open>A period bounds a duration (in nanoseconds) from below and from above.\<close>

record period =
  period_min :: "int option"
  period_max :: "int option"

definition period_and :: "period \<Rightarrow> period \<Rightarrow> period" where
  "period_and self other =
     \<lparr>period_min =
        (case (period_min self, period_min other) of
           (None, x) \<Rightarrow> x | (x, None) \<Rightarrow> x | (Some min1, Some min2) \<Rightarrow> Some (max min1 min2)),
      period_max =
        (case (period_max self, period_max other) of
           (None, x) \<Rightarrow> x | (x, None) \<Rightarrow> x | (Some max1, Some max2) \<Rightarrow> Some (min max1 max2))\<rparr>"

definition period_and_option :: "period option \<Rightarrow> period option \<Rightarrow> period option" where
  "period_and_option a b =
     (case (a, b) of (None, x) \<Rightarrow> x | (x, None) \<Rightarrow> x | (Some a, Some b) \<Rightarrow> Some (period_and a b))"

definition period_matches :: "period \<Rightarrow> int \<Rightarrow> bool" where
  "period_matches self duration =
     (if (case period_min self of Some m \<Rightarrow> m > duration | None \<Rightarrow> False) then False
      else if (case period_max self of Some m \<Rightarrow> m < duration | None \<Rightarrow> False) then False
      else True)"

definition period_matches_option :: "period option \<Rightarrow> int option \<Rightarrow> bool" where
  "period_matches_option period duration =
     (case (period, duration) of
        (Some period, Some duration) \<Rightarrow> if \<not> period_matches period duration then False else True
      | (Some _, None) \<Rightarrow> False
      | _ \<Rightarrow> True)"

text \<open>The conjunction of two optional periods accepts exactly the (optional) durations both
  accept.\<close>

theorem period_conjunction:
  "period_matches_option (period_and_option a b) d \<longleftrightarrow>
   period_matches_option a d \<and> period_matches_option b d"
  by (auto simp: period_matches_option_def period_and_option_def period_matches_def period_and_def
      split: option.splits)

end
