(* ===== verification/Api.thy ===== *)
theory Api
  imports Selector
begin

text \<open>
  \<^verbatim>\<open>components/taxonomy/src/api.rs\<close> and \<^verbatim>\<open>components/taxonomy/src/adapter.rs\<close>: the errors and the
  events the components exchange, and the parsers of instructions (\<^verbatim>\<open>Targetted\<close>).
\<close>

datatype InternalError =
    NoSuchGetter GetterId
  | NoSuchSetter SetterId
  | NoSuchService ServiceId
  | NoSuchAdapter AdapterId
  | DuplicateGetter GetterId
  | DuplicateSetter SetterId
  | DuplicateService ServiceId
  | DuplicateAdapter AdapterId
  | ConflictingAdapter AdapterId AdapterId
  | GenericError string
  | InvalidInitialService

datatype Error =
    GetterDoesNotSupportPolling GetterId
  | GetterDoesNotSupportWatching GetterId
  | GetterRequiresThresholdForWatching GetterId
  | ErrType TypeError
  | InvalidValue Value
  | ErrInternal InternalError

datatype WatchEvent =
    EnterRange GetterId Value
  | ExitRange GetterId Value
  | GetterRemoved GetterId
  | GetterAdded GetterId
  | InitializationError GetterId Error

datatype User = NoUser | UserId int

text \<open>The events an adapter sends for a watch.\<close>

datatype AdapterWatchEvent = Enter GetterId Value | Exit GetterId Value

section \<open>Parsing instructions\<close>

text \<open>\<^verbatim>\<open>Targetted<K, Value>\<close>: an object, or an array of length two.\<close>

definition parse_targetted_value ::
    "externals \<Rightarrow> string \<Rightarrow> 'k parser \<Rightarrow> ('k, Value) Targetted parser" where
  "parse_targetted_value X description parse_k path source =
     (if is_object source then
        try_take (take_field (parse_vec parse_k) (path_push path ''select'') source ''select'')
          (\<lambda>select source.
        try_take (take_field (parse_value X) (path_push path ''value'') source ''value'')
          (\<lambda>payload source. Inr (Targetted select payload)))
      else (case source of
        JArray array \<Rightarrow>
          (case array of
             [left, right] \<Rightarrow>
               try_result (parse_vec parse_k (path_index path 0) left) (\<lambda>select.
               try_result (parse_value X (path_index path 1) right) (\<lambda>payload.
               Inr (Targetted select payload)))
           | _ \<Rightarrow> Inl (type_error description path ''an array of length 2''))
      | _ \<Rightarrow> Inl (type_error description path ''an object {select, value}'')))"

text \<open>\<^verbatim>\<open>Targetted<K, Exactly<Value>>\<close>: the range is \<^verbatim>\<open>Never\<close>, a value, or absent.\<close>

definition parse_targetted_range ::
    "externals \<Rightarrow> 'k parser \<Rightarrow> ('k, Value Exactly) Targetted parser" where
  "parse_targetted_range X parse_k path source =
     try_take (take_field (parse_vec parse_k) (path_push path ''select'') source ''select'')
       (\<lambda>select source.
     if json_find source ''range'' = Some (JString ''Never'') then Inr (Targetted select Never)
     else (case take_opt (parse_exactly (parse_value X)) (path_push path ''range'') source ''range'' of
             (Some (Inl e), _) \<Rightarrow> Inl e
           | (Some (Inr result), _) \<Rightarrow> Inr (Targetted select result)
           | (None, _) \<Rightarrow> Inr (Targetted select Always)))"

text \<open>The two formats of an instruction agree: the object \<open>{select, value}\<close> is accepted
  exactly when the array \<open>[select, value]\<close> is, with the same result, provided the two parsers
  accept the same things at every path.\<close>

theorem targetted_formats_agree:
  assumes "\<And>p q j x. parse_k p j = Inr x \<Longrightarrow> parse_k q j = Inr x"
    and "\<And>p q x. parse_value X p v = Inr x \<Longrightarrow> parse_value X q v = Inr x"
  shows "parse_targetted_value X d parse_k path (JObject [(''select'', s), (''value'', v)]) = Inr t \<longleftrightarrow>
         parse_targetted_value X d parse_k path (JArray [s, v]) = Inr t"
proof -
  have elems: "parse_elems parse_k p n xs = Inr ys \<Longrightarrow> parse_elems parse_k q m xs = Inr ys" for p q n m xs ys
  proof (induction xs arbitrary: n m ys)
    case (Cons x xs)
    then obtain y zs where "parse_k (path_index p n) x = Inr y" "parse_elems parse_k p (Suc n) xs = Inr zs"
      "ys = y # zs" by (auto split: sum.splits)
    with Cons.IH [of "Suc n" zs "Suc m"] assms(1) [of "path_index p n" x y "path_index q m"]
    show ?case by simp
  qed simp
  have single: "(case parse_k p s of Inl e \<Rightarrow> Inl e | Inr x \<Rightarrow> Inr [x]) = Inr ys \<Longrightarrow>
      (case parse_k q s of Inl e \<Rightarrow> Inl e | Inr x \<Rightarrow> Inr [x]) = Inr ys" for p q ys
    using assms(1) [of p s _ q] by (auto split: sum.splits)
  have vec: "parse_vec parse_k p s = Inr ys \<Longrightarrow> parse_vec parse_k q s = Inr ys" for p q ys
    using single [of p ys q] elems [of p 0 _ ys q 0]
    by (cases s) (simp_all add: parse_vec_def)
  let ?accepts = "\<lambda>p q. \<exists>sel pay. parse_vec parse_k p s = Inr sel \<and> parse_value X q v = Inr pay \<and>
      t = Targetted sel pay"
  have "parse_targetted_value X d parse_k path (JObject [(''select'', s), (''value'', v)]) = Inr t \<longleftrightarrow>
      ?accepts (path_push path ''select'') (path_push path ''value'')"
    by (cases "parse_vec parse_k (path_push path ''select'') s";
        cases "parse_value X (path_push path ''value'') v")
      (auto simp: parse_targetted_value_def take_simps)
  moreover have "parse_targetted_value X d parse_k path (JArray [s, v]) = Inr t \<longleftrightarrow>
      ?accepts (path_index path 0) (path_index path 1)"
    by (auto simp: parse_targetted_value_def try_result_Inr_iff)
  ultimately show ?thesis
    using vec assms(2) by blast
qed

theorem targetted_formats_agree_witness:
  "parse_targetted_value sample_externals ''Targetted'' parse_id []
     (JObject [(''select'', JString ''lamp''), (''value'', JObject [(''Json'', JString ''x'')])]) =
     Inr (Targetted [''lamp''] (VJson (JString ''x''))) \<longleftrightarrow>
   parse_targetted_value sample_externals ''Targetted'' parse_id []
     (JArray [JString ''lamp'', JObject [(''Json'', JString ''x'')]]) =
     Inr (Targetted [''lamp''] (VJson (JString ''x'')))"
  by (rule targetted_formats_agree)
    (auto simp: parse_id_def parse_value.simps leaf_value_parser_def split: JSON.splits)

end
