(* ===== verification/Transact.thy ===== *)
theory Transact
  imports Foxbox_Prelude
begin

text \<open>
  \<^verbatim>\<open>components/taxonomy/src/transact.rs\<close> (and its copy \<^verbatim>\<open>src/transact.rs\<close>): a reversible insertion
  of several pairs in a hash map. A transaction is the list of the keys it inserted and the flag
  \<^verbatim>\<open>committed\<close>; the map it borrows is passed along, and dropping it is the explicit operation
  \<open>insert_in_map_drop\<close>.
\<close>

record 'k insert_in_map =
  iim_committed :: bool
  iim_keys :: "'k list"

text \<open>The insertion loop, with the keys inserted so far; the first key already present stops it.\<close>

fun insert_in_map_loop ::
    "('k, 'v) hashmap \<Rightarrow> ('k \<times> 'v) list \<Rightarrow> 'k list \<Rightarrow> 'k option \<times> 'k list \<times> ('k, 'v) hashmap" where
  "insert_in_map_loop m [] keys = (None, keys, m)"
| "insert_in_map_loop m ((k, v) # data) keys =
     (case hm_get m k of
        Some _ \<Rightarrow> (Some k, keys, m)
      | None \<Rightarrow> insert_in_map_loop (hm_insert k v m) data (keys @ [k]))"

definition insert_in_map_start ::
    "('k, 'v) hashmap \<Rightarrow> ('k \<times> 'v) list \<Rightarrow> ('k + 'k insert_in_map) \<times> ('k, 'v) hashmap" where
  "insert_in_map_start m data =
     (case insert_in_map_loop m data [] of
        (None, keys, m') \<Rightarrow> (Inr \<lparr>iim_committed = False, iim_keys = keys\<rparr>, m')
      | (Some k, keys, m') \<Rightarrow> (Inl k, fold hm_remove keys m'))"

definition insert_in_map_commit :: "'k insert_in_map \<Rightarrow> 'k insert_in_map" where
  "insert_in_map_commit self = self\<lparr>iim_committed := True\<rparr>"

definition insert_in_map_drop :: "'k insert_in_map \<Rightarrow> ('k, 'v) hashmap \<Rightarrow> ('k, 'v) hashmap" where
  "insert_in_map_drop self m =
     (if iim_committed self then m else fold hm_remove (iim_keys self) m)"

section \<open>Facts\<close>

text \<open>The pairs the loop inserts: those before the first conflict.\<close>

fun conflict_free_prefix :: "'k set \<Rightarrow> ('k \<times> 'v) list \<Rightarrow> ('k \<times> 'v) list" where
  "conflict_free_prefix seen [] = []"
| "conflict_free_prefix seen ((k, v) # data) =
     (if k \<in> seen then [] else (k, v) # conflict_free_prefix (insert k seen) data)"

lemma insert_in_map_loop_result:
  "insert_in_map_loop m data keys =
     (let pre = conflict_free_prefix (fst ` set m) data
      in ((if length pre = length data then None else Some (fst (data ! length pre))),
          keys @ map fst pre, m @ pre))"
proof (induction m data keys rule: insert_in_map_loop.induct)
  case (1 m keys)
  then show ?case by simp
next
  case (2 m k v data keys)
  show ?case
  proof (cases "hm_get m k")
    case None
    then have "k \<notin> fst ` set m" by (simp add: map_of_eq_None_iff)
    with 2 [OF None] None show ?thesis
      by (simp add: Let_def hm_insert_fresh insert_commute del: map_of_eq_None_iff)
  next
    case (Some v')
    then have "k \<in> fst ` set m" by (force dest: map_of_SomeD)
    with Some show ?thesis by simp
  qed
qed

lemma conflict_free_prefix_distinct:
  "distinct (map fst (conflict_free_prefix seen data)) \<and>
   fst ` set (conflict_free_prefix seen data) \<inter> seen = {}"
  by (induction seen data rule: conflict_free_prefix.induct) auto

lemma conflict_free_prefix_full:
  "length (conflict_free_prefix seen data) = length data \<longleftrightarrow>
     distinct (map fst data) \<and> fst ` set data \<inter> seen = {}"
  by (induction seen data rule: conflict_free_prefix.induct) auto

lemma conflict_free_prefix_full_eq:
  "length (conflict_free_prefix seen data) = length data \<Longrightarrow> conflict_free_prefix seen data = data"
  by (induction seen data rule: conflict_free_prefix.induct) (auto split: if_splits)

lemma fold_remove_appended:
  assumes "\<And>k. k \<in> set ks \<Longrightarrow> map_of m k = None"
  shows "fold hm_remove ks (m @ pre) = m @ fold hm_remove ks pre"
  using assms by (induction ks arbitrary: pre) (auto simp: hm_remove_append hm_remove_absent)

lemma fold_remove_all: "set (map fst pre) \<subseteq> set ks \<Longrightarrow> fold hm_remove ks pre = []"
proof (induction ks arbitrary: pre)
  case (Cons k ks)
  have "set (map fst (AList.delete k pre)) \<subseteq> set ks"
    using Cons.prems by (auto simp: AList.delete_eq)
  then show ?case by (simp add: Cons.IH)
qed simp

lemma rollback_prefix:
  assumes "fst ` set pre \<inter> fst ` set m = {}"
  shows "fold hm_remove (map fst pre) (m @ pre) = m"
  using assms by (subst fold_remove_appended) (auto simp: map_of_eq_None_iff fold_remove_all)

lemma insert_in_map_start_result:
  "insert_in_map_start m data =
     (if distinct (map fst data) \<and> fst ` set data \<inter> fst ` set m = {}
      then (Inr \<lparr>iim_committed = False, iim_keys = map fst data\<rparr>, m @ data)
      else (Inl (fst (data ! length (conflict_free_prefix (fst ` set m) data))), m))"
  using conflict_free_prefix_full [of "fst ` set m" data]
    conflict_free_prefix_full_eq [of "fst ` set m" data]
    rollback_prefix [of "conflict_free_prefix (fst ` set m) data" m]
    conflict_free_prefix_distinct [of "fst ` set m" data]
  by (auto simp: insert_in_map_start_def insert_in_map_loop_result Let_def)

text \<open>The one-pair insertions the back-end makes.\<close>

lemma insert_in_map_single:
  "insert_in_map_start m [(k, v)] =
     (if hm_has m k then (Inl k, m)
      else (Inr \<lparr>iim_committed = False, iim_keys = [k]\<rparr>, m @ [(k, v)]))"
  by (auto simp: insert_in_map_start_result hm_has_def map_of_eq_None_iff image_iff)

lemma insert_in_map_drop_simps [simp]:
  "insert_in_map_drop (insert_in_map_commit t) m = m"
  by (simp add: insert_in_map_drop_def insert_in_map_commit_def)

lemma insert_in_map_drop_single:
  "\<not> hm_has m k \<Longrightarrow>
   insert_in_map_drop \<lparr>iim_committed = False, iim_keys = [k]\<rparr> (m @ [(k, v)]) = m"
  by (simp add: insert_in_map_drop_def hm_has_def hm_remove_append hm_remove_absent)

text \<open>C36: A reversible insertion is atomic. When a key is already there (in the map, or twice in
  the data) it fails with a conflicting key and the map is left as it was; otherwise dropping the
  transaction uncommitted gives back the map, and dropping it committed leaves all the pairs.\<close>

theorem insert_in_map_atomic:
  "case insert_in_map_start m data of
     (Inl k, m') \<Rightarrow>
        m' = m \<and> (\<exists>i < length data. fst (data ! i) = k \<and>
           (k \<in> fst ` set m \<or> k \<in> fst ` set (take i data)))
   | (Inr t, m') \<Rightarrow>
        insert_in_map_drop t m' = m \<and>
        insert_in_map_drop (insert_in_map_commit t) m' = m @ data \<and>
        distinct (map fst data) \<and> fst ` set data \<inter> fst ` set m = {}"
proof (cases "distinct (map fst data) \<and> fst ` set data \<inter> fst ` set m = {}")
  case True
  then show ?thesis
    using rollback_prefix [of data m]
    by (simp add: insert_in_map_start_result insert_in_map_drop_def insert_in_map_commit_def)
next
  case False
  have conflict: "length (conflict_free_prefix seen data) \<noteq> length data \<Longrightarrow>
      (let i = length (conflict_free_prefix seen data)
       in i < length data \<and> (fst (data ! i) \<in> seen \<or> fst (data ! i) \<in> fst ` set (take i data)))" for seen
    by (induction seen data rule: conflict_free_prefix.induct) (auto simp: Let_def)
  from False show ?thesis
    using conflict [of "fst ` set m"] conflict_free_prefix_full [of "fst ` set m" data]
    by (auto simp: insert_in_map_start_result Let_def)
qed

end
