(* ===== verification/Tag_Storage.thy ===== *)
theory Tag_Storage
  imports Taxonomy_Util
begin

text \<open>
  \<^verbatim>\<open>components/taxonomy/src/tag_storage.rs\<close>: the table of the tags given to services and
  channels, kept in an SQLite file.

  The file is the record \<open>database\<close>: the rows of the table \<^verbatim>\<open>tags\<close> (key, id, tag) in the order of
  insertion, and the outcomes of the next calls to the database engine, a list of errors and
  successes (a call finds the end of the list empty succeeds), so that any statement can fail.
  The statements do what SQL says of them. The 64-bit hash of an identifier and a tag (SipHash of
  two interned strings) is the parameter \<open>sip\<close> of the operations that compute a key.
\<close>

section \<open>The database\<close>

type_synonym tag_row = "string \<times> string \<times> string"

record database =
  db_rows :: "tag_row list"
  db_outcomes :: "string option list"

text \<open>One call to the engine: its error, if it fails, and the database ready for the next one.\<close>

definition db_call :: "database \<Rightarrow> string option \<times> database" where
  "db_call db =
     (case db_outcomes db of
        [] \<Rightarrow> (None, db)
      | r # rest \<Rightarrow> (r, db\<lparr>db_outcomes := rest\<rparr>))"

text \<open>\<^verbatim>\<open>INSERT OR IGNORE\<close>: nothing is inserted when the primary key is taken.\<close>

definition sql_insert_or_ignore :: "tag_row \<Rightarrow> database \<Rightarrow> database" where
  "sql_insert_or_ignore row db =
     (if fst row \<in> fst ` set (db_rows db) then db else db\<lparr>db_rows := db_rows db @ [row]\<rparr>)"

definition sql_delete :: "(tag_row \<Rightarrow> bool) \<Rightarrow> database \<Rightarrow> database" where
  "sql_delete cond db = db\<lparr>db_rows := filter (\<lambda>row. \<not> cond row) (db_rows db)\<rparr>"

section \<open>TagStorage\<close>

text \<open>The handle: whether the connection is open, and the file behind its path.\<close>

record tag_storage =
  ts_open :: bool
  ts_db :: database

fun escape :: "string \<Rightarrow> string" where
  "escape [] = []"
| "escape (c # cs) = (if c = CHR 0x27 then [c, c] else [c]) @ escape cs"

definition create_key :: "(string \<Rightarrow> string \<Rightarrow> nat) \<Rightarrow> string \<Rightarrow> TagId \<Rightarrow> string" where
  "create_key sip i tag = show_nat (sip i tag)"

definition tag_storage_new :: "database \<Rightarrow> tag_storage" where
  "tag_storage_new path = \<lparr>ts_open = False, ts_db = path\<rparr>"

definition ensure_db :: "tag_storage \<Rightarrow> tag_storage outcome" where
  "ensure_db self =
     (if ts_open self then Done self
      else (case db_call (ts_db self) of
              (Some err, db) \<Rightarrow> Panic
            | (None, db) \<Rightarrow>
                (case db_call db of
                   (Some err, db) \<Rightarrow> Panic
                 | (None, db) \<Rightarrow> Done (self\<lparr>ts_open := True, ts_db := db\<rparr>))))"

text \<open>\<^verbatim>\<open>execute\<close>: the error of the statement, or its effect on the table.\<close>

definition db_execute :: "(database \<Rightarrow> database) \<Rightarrow> tag_storage \<Rightarrow> (string + unit) \<times> tag_storage" where
  "db_execute stmt self =
     (case db_call (ts_db self) of
        (Some err, db) \<Rightarrow> (Inl err, self\<lparr>ts_db := db\<rparr>)
      | (None, db) \<Rightarrow> (Inr (), self\<lparr>ts_db := stmt db\<rparr>))"

definition add_tag ::
    "(string \<Rightarrow> string \<Rightarrow> nat) \<Rightarrow> string \<Rightarrow> TagId \<Rightarrow> tag_storage \<Rightarrow> ((string + unit) \<times> tag_storage) outcome" where
  "add_tag sip i tag self =
     bind_outcome (ensure_db self) (\<lambda>self.
       Done (db_execute (sql_insert_or_ignore (create_key sip i tag, escape i, escape tag)) self))"

fun store_add_tags ::
    "(string \<Rightarrow> string \<Rightarrow> nat) \<Rightarrow> string \<Rightarrow> TagId list \<Rightarrow> tag_storage \<Rightarrow>
     ((string + unit) \<times> tag_storage) outcome" where
  "store_add_tags sip i [] self = Done (Inr (), self)"
| "store_add_tags sip i (tag # tags) self =
     bind_outcome (add_tag sip i tag self) (\<lambda>(r, self).
       case r of Inl err \<Rightarrow> Done (Inl err, self) | Inr _ \<Rightarrow> store_add_tags sip i tags self)"

definition remove_tag ::
    "(string \<Rightarrow> string \<Rightarrow> nat) \<Rightarrow> string \<Rightarrow> TagId \<Rightarrow> tag_storage \<Rightarrow> ((string + unit) \<times> tag_storage) outcome" where
  "remove_tag sip i tag self =
     bind_outcome (ensure_db self) (\<lambda>self.
       Done (db_execute (sql_delete (\<lambda>(key, _). key = create_key sip i tag)) self))"

fun store_remove_tags ::
    "(string \<Rightarrow> string \<Rightarrow> nat) \<Rightarrow> string \<Rightarrow> TagId list \<Rightarrow> tag_storage \<Rightarrow>
     ((string + unit) \<times> tag_storage) outcome" where
  "store_remove_tags sip i [] self = Done (Inr (), self)"
| "store_remove_tags sip i (tag # tags) self =
     bind_outcome (remove_tag sip i tag self) (\<lambda>(r, self).
       case r of Inl err \<Rightarrow> Done (Inl err, self) | Inr _ \<Rightarrow> store_remove_tags sip i tags self)"

definition remove_all_tags_for :: "string \<Rightarrow> tag_storage \<Rightarrow> ((string + unit) \<times> tag_storage) outcome" where
  "remove_all_tags_for i self =
     bind_outcome (ensure_db self) (\<lambda>self.
       Done (db_execute (sql_delete (\<lambda>(_, id', _). id' = escape i)) self))"

text \<open>The rows of the query are stepped through one by one; each step may fail.\<close>

fun read_rows :: "tag_row list \<Rightarrow> database \<Rightarrow> (string + TagId list) \<times> database" where
  "read_rows [] db = (Inr [], db)"
| "read_rows (row # rows) db =
     (case db_call db of
        (Some err, db) \<Rightarrow> (Inl err, db)
      | (None, db) \<Rightarrow>
          (case read_rows rows db of
             (Inl err, db) \<Rightarrow> (Inl err, db)
           | (Inr subs, db) \<Rightarrow> (Inr (snd (snd row) # subs), db)))"

definition get_tags_for :: "string \<Rightarrow> tag_storage \<Rightarrow> ((string + TagId list) \<times> tag_storage) outcome" where
  "get_tags_for i self =
     bind_outcome (ensure_db self) (\<lambda>self.
       case db_call (ts_db self) of
         (Some err, db) \<Rightarrow> Done (Inl err, self\<lparr>ts_db := db\<rparr>)
       | (None, db) \<Rightarrow>
           (case db_call db of
              (Some err, db) \<Rightarrow> Done (Inl err, self\<lparr>ts_db := db\<rparr>)
            | (None, db) \<Rightarrow>
                (case read_rows (filter (\<lambda>(_, id', _). id' = escape i) (db_rows db)) db of
                   (r, db) \<Rightarrow> Done (r, self\<lparr>ts_db := db\<rparr>))))"

section \<open>Facts about keys and escaping\<close>

lemma escape_quote_free: "CHR 0x27 \<notin> set s \<Longrightarrow> escape s = s"
  by (induction s) auto

lemma escape_longer: "length (escape s) = length s + count_list s (CHR 0x27)"
  by (induction s) auto

lemma escape_fixed_iff: "escape s = s \<longleftrightarrow> CHR 0x27 \<notin> set s"
proof
  assume "escape s = s"
  then have "count_list s (CHR 0x27) = 0" by (metis add_cancel_right_right escape_longer)
  then show "CHR 0x27 \<notin> set s" by (simp add: count_list_0_iff)
qed (rule escape_quote_free)

lemma escape_inject: "escape s = escape t \<longleftrightarrow> s = t"
proof (induction s arbitrary: t)
  case Nil
  then show ?case by (cases t) auto
next
  case (Cons c s)
  then show ?case by (cases t) auto
qed

lemma digit_char_inject: "d < 10 \<Longrightarrow> e < 10 \<Longrightarrow> digit_char d = digit_char e \<longleftrightarrow> d = e"
proof
  assume "d < 10" "e < 10" "digit_char d = digit_char e"
  then have "of_char (char_of (48 + d) :: char) = (of_char (char_of (48 + e) :: char) :: nat)"
    by (simp add: digit_char_def)
  then have "(48 + d) mod 256 = (48 + e) mod 256" by (simp only: of_char_of)
  with \<open>d < 10\<close> \<open>e < 10\<close> show "d = e" by simp
qed simp

lemma show_nat_small: "n < 10 \<Longrightarrow> show_nat n = [digit_char n]"
  by (subst show_nat.simps) simp

lemma show_nat_large: "\<not> n < 10 \<Longrightarrow> show_nat n = show_nat (n div 10) @ [digit_char (n mod 10)]"
  by (subst show_nat.simps) simp

lemma show_nat_nonempty: "show_nat n \<noteq> []"
  by (cases "n < 10") (simp_all add: show_nat_small show_nat_large)

lemma show_nat_inject: "show_nat m = show_nat n \<longleftrightarrow> m = n"
proof (induction m arbitrary: n rule: show_nat.induct)
  case (1 m)
  show ?case
  proof (cases "m < 10")
    case True
    then show ?thesis
      by (cases "n < 10") (auto simp: show_nat_small show_nat_large digit_char_inject show_nat_nonempty
          show_nat_nonempty [symmetric])
  next
    case False
    show ?thesis
    proof (cases "n < 10")
      case True
      with False show ?thesis
        by (auto simp: show_nat_small show_nat_large show_nat_nonempty show_nat_nonempty [symmetric])
    next
      case n: False
      have "m = n" if "m div 10 = n div 10" "m mod 10 = n mod 10"
        using that by (metis div_mult_mod_eq)
      with False n 1 show ?thesis
        by (auto simp: show_nat_large digit_char_inject)
    qed
  qed
qed

lemma create_key_inject: "create_key sip i t = create_key sip j u \<longleftrightarrow> sip i t = sip j u"
  by (simp add: create_key_def show_nat_inject)

section \<open>The table as a relation\<close>

text \<open>
  What the table says: which object has which tag. The table is well formed for a hash when its
  keys are distinct and every row comes from an object and a tag; a key clashes when another
  stored pair hashes to it.
\<close>

definition stored :: "(string \<Rightarrow> string \<Rightarrow> nat) \<Rightarrow> tag_storage \<Rightarrow> (string \<times> TagId) set" where
  "stored sip st = {(i, t). (create_key sip i t, escape i, escape t) \<in> set (db_rows (ts_db st))}"

definition table_ok :: "(string \<Rightarrow> string \<Rightarrow> nat) \<Rightarrow> tag_storage \<Rightarrow> bool" where
  "table_ok sip st \<longleftrightarrow>
     distinct (map fst (db_rows (ts_db st))) \<and>
     (\<forall>row \<in> set (db_rows (ts_db st)). \<exists>i t. row = (create_key sip i t, escape i, escape t))"

definition no_clash :: "(string \<Rightarrow> string \<Rightarrow> nat) \<Rightarrow> string \<Rightarrow> TagId \<Rightarrow> tag_storage \<Rightarrow> bool" where
  "no_clash sip i t st \<longleftrightarrow> (\<forall>(j, u) \<in> stored sip st. sip j u = sip i t \<longrightarrow> (j, u) = (i, t))"

definition fault_free :: "tag_storage \<Rightarrow> bool" where
  "fault_free st \<longleftrightarrow> db_outcomes (ts_db st) = []"

lemma db_call_fault_free [simp]: "db_outcomes db = [] \<Longrightarrow> db_call db = (None, db)"
  by (simp add: db_call_def)

lemma ensure_db_fault_free:
  "fault_free st \<Longrightarrow> ensure_db st = Done (st\<lparr>ts_open := True\<rparr>)"
  by (simp add: ensure_db_def fault_free_def)

lemma add_tag_fault_free:
  "fault_free st \<Longrightarrow> add_tag sip i t st =
     Done (Inr (), st\<lparr>ts_open := True,
       ts_db := sql_insert_or_ignore (create_key sip i t, escape i, escape t) (ts_db st)\<rparr>)"
  by (simp add: add_tag_def ensure_db_fault_free db_execute_def) (simp add: fault_free_def)

lemma remove_tag_fault_free:
  "fault_free st \<Longrightarrow> remove_tag sip i t st =
     Done (Inr (), st\<lparr>ts_open := True,
       ts_db := sql_delete (\<lambda>(key, _). key = create_key sip i t) (ts_db st)\<rparr>)"
  by (simp add: remove_tag_def ensure_db_fault_free db_execute_def) (simp add: fault_free_def)

lemma remove_all_fault_free:
  "fault_free st \<Longrightarrow> remove_all_tags_for i st =
     Done (Inr (), st\<lparr>ts_open := True, ts_db := sql_delete (\<lambda>(_, id', _). id' = escape i) (ts_db st)\<rparr>)"
  by (simp add: remove_all_tags_for_def ensure_db_fault_free db_execute_def) (simp add: fault_free_def)

lemma read_rows_fault_free:
  "db_outcomes db = [] \<Longrightarrow> read_rows rows db = (Inr (map (snd \<circ> snd) rows), db)"
  by (induction rows) auto

lemma get_tags_fault_free:
  "fault_free st \<Longrightarrow> get_tags_for i st =
     Done (Inr (map (snd \<circ> snd) (filter (\<lambda>(_, id', _). id' = escape i) (db_rows (ts_db st)))),
           st\<lparr>ts_open := True\<rparr>)"
  by (simp add: get_tags_for_def ensure_db_fault_free)
    (simp add: fault_free_def read_rows_fault_free)

lemma add_tag_stored:
  assumes "fault_free st" "table_ok sip st" "no_clash sip i t st"
  obtains st' where "add_tag sip i t st = Done (Inr (), st')" "fault_free st'" "table_ok sip st'"
    "stored sip st' = insert (i, t) (stored sip st)"
proof -
  let ?row = "(create_key sip i t, escape i, escape t)"
  let ?st = "st\<lparr>ts_open := True, ts_db := sql_insert_or_ignore ?row (ts_db st)\<rparr>"
  have present: "?row \<in> set (db_rows (ts_db st))" if "fst ?row \<in> fst ` set (db_rows (ts_db st))"
  proof -
    from that obtain a b where row: "(create_key sip i t, a, b) \<in> set (db_rows (ts_db st))" by auto
    with assms(2) obtain j u where ju: "(create_key sip i t, a, b) = (create_key sip j u, escape j, escape u)"
      unfolding table_ok_def by blast
    with row have "(j, u) \<in> stored sip st" by (simp add: stored_def)
    moreover from ju have "sip j u = sip i t" by (simp add: create_key_inject)
    ultimately have "(j, u) = (i, t)" using assms(3) by (auto simp: no_clash_def)
    with ju have "a = escape i" "b = escape t" by (auto dest!: Pair_inject)
    with row show ?thesis by blast
  qed
  show ?thesis
  proof
    show "add_tag sip i t st = Done (Inr (), ?st)" by (rule add_tag_fault_free [OF assms(1)])
    show "fault_free ?st" using assms(1) by (simp add: fault_free_def sql_insert_or_ignore_def)
    show "table_ok sip ?st" using assms(2) by (auto simp: table_ok_def sql_insert_or_ignore_def)
    show "stored sip ?st = insert (i, t) (stored sip st)"
      using present by (auto simp: stored_def sql_insert_or_ignore_def create_key_inject escape_inject)
  qed
qed

lemma remove_tag_stored:
  assumes "fault_free st" "table_ok sip st" "no_clash sip i t st"
  obtains st' where "remove_tag sip i t st = Done (Inr (), st')" "fault_free st'" "table_ok sip st'"
    "stored sip st' = stored sip st - {(i, t)}"
proof -
  let ?st = "st\<lparr>ts_open := True, ts_db := sql_delete (\<lambda>(key, _). key = create_key sip i t) (ts_db st)\<rparr>"
  show ?thesis
  proof
    show "remove_tag sip i t st = Done (Inr (), ?st)" by (rule remove_tag_fault_free [OF assms(1)])
    show "fault_free ?st" using assms(1) by (simp add: fault_free_def sql_delete_def)
    show "table_ok sip ?st"
      using assms(2) by (auto simp: table_ok_def sql_delete_def distinct_map_filter)
    show "stored sip ?st = stored sip st - {(i, t)}"
      using assms(3) by (auto simp: stored_def sql_delete_def create_key_inject no_clash_def)
  qed
qed

text \<open>The same for the lists of tags the back-end passes.\<close>

definition hash_ok :: "(string \<Rightarrow> string \<Rightarrow> nat) \<Rightarrow> (string \<times> TagId) set \<Rightarrow> bool" where
  "hash_ok sip P \<longleftrightarrow> inj_on (\<lambda>(i, t). sip i t) P"

lemma hash_ok_mono: "hash_ok sip P \<Longrightarrow> Q \<subseteq> P \<Longrightarrow> hash_ok sip Q"
  by (auto simp: hash_ok_def intro: inj_on_subset)

lemma hash_ok_no_clash: "hash_ok sip (insert (i, t) (stored sip st)) \<Longrightarrow> no_clash sip i t st"
  by (auto simp: hash_ok_def no_clash_def inj_on_def)

lemma store_add_tags_stored:
  assumes "fault_free st" "table_ok sip st" "hash_ok sip (stored sip st \<union> {i} \<times> set ts)"
  shows "\<exists>st'. store_add_tags sip i ts st = Done (Inr (), st') \<and> fault_free st' \<and> table_ok sip st' \<and>
    stored sip st' = stored sip st \<union> {i} \<times> set ts"
  using assms
proof (induction ts arbitrary: st)
  case (Cons t ts)
  have "no_clash sip i t st"
    by (rule hash_ok_no_clash) (rule hash_ok_mono [OF Cons.prems(3)], auto)
  then obtain st1 where st1: "add_tag sip i t st = Done (Inr (), st1)" "fault_free st1"
    "table_ok sip st1" "stored sip st1 = insert (i, t) (stored sip st)"
    using add_tag_stored Cons.prems(1,2) by metis
  have "hash_ok sip (stored sip st1 \<union> {i} \<times> set ts)"
    by (rule hash_ok_mono [OF Cons.prems(3)]) (auto simp: st1(4))
  with Cons.IH [OF st1(2,3)] obtain st' where "store_add_tags sip i ts st1 = Done (Inr (), st')"
    "fault_free st'" "table_ok sip st'" "stored sip st' = stored sip st1 \<union> {i} \<times> set ts" by blast
  with st1 show ?case by auto
qed auto

lemma store_remove_tags_stored:
  assumes "fault_free st" "table_ok sip st" "hash_ok sip (stored sip st \<union> {i} \<times> set ts)"
  shows "\<exists>st'. store_remove_tags sip i ts st = Done (Inr (), st') \<and> fault_free st' \<and> table_ok sip st' \<and>
    stored sip st' = stored sip st - {i} \<times> set ts"
  using assms
proof (induction ts arbitrary: st)
  case (Cons t ts)
  have "no_clash sip i t st"
    by (rule hash_ok_no_clash) (rule hash_ok_mono [OF Cons.prems(3)], auto)
  then obtain st1 where st1: "remove_tag sip i t st = Done (Inr (), st1)" "fault_free st1"
    "table_ok sip st1" "stored sip st1 = stored sip st - {(i, t)}"
    using remove_tag_stored Cons.prems(1,2) by metis
  have "hash_ok sip (stored sip st1 \<union> {i} \<times> set ts)"
    by (rule hash_ok_mono [OF Cons.prems(3)]) (auto simp: st1(4))
  with Cons.IH [OF st1(2,3)] obtain st' where "store_remove_tags sip i ts st1 = Done (Inr (), st')"
    "fault_free st'" "table_ok sip st'" "stored sip st' = stored sip st1 - {i} \<times> set ts" by blast
  with st1 show ?case by auto
qed auto


text \<open>A tag with a single quote does not come back as it was given: the quotes are doubled
  for SQL, but the statement binds its parameters, so the doubled form is what is stored and read.\<close>

theorem quoted_tag_not_read_back:
  assumes "CHR 0x27 \<in> set t"
  shows "\<exists>st. add_tag sip i t (tag_storage_new \<lparr>db_rows = [], db_outcomes = []\<rparr>) = Done (Inr (), st) \<and>
     get_tags_for i st = Done (Inr [escape t], st) \<and> escape t \<noteq> t"
proof -
  let ?st = "tag_storage_new \<lparr>db_rows = [], db_outcomes = []\<rparr>"
  have ff: "fault_free ?st" by (simp add: fault_free_def tag_storage_new_def)
  let ?st1 = "?st\<lparr>ts_open := True,
      ts_db := sql_insert_or_ignore (create_key sip i t, escape i, escape t) (ts_db ?st)\<rparr>"
  have ff1: "fault_free ?st1"
    by (simp add: fault_free_def sql_insert_or_ignore_def tag_storage_new_def)
  show ?thesis
    using add_tag_fault_free [OF ff, of sip i t] get_tags_fault_free [OF ff1, of i] assms
    by (auto simp: escape_fixed_iff tag_storage_new_def sql_insert_or_ignore_def)
qed

section \<open>Witnesses\<close>


theorem quoted_tag_not_read_back_witness:
  "\<exists>st. get_tags_for ''lamp'' st = Done (Inr [escape [CHR 0x27]], st) \<and> escape [CHR 0x27] \<noteq> [CHR 0x27]"
  using quoted_tag_not_read_back [of "[CHR 0x27]" "\<lambda>i t. 0" "''lamp''"] by auto

end
