(* ===== verification/Backend_State.thy ===== *)
theory Backend_State
  imports Api Transact Tag_Storage
begin

text \<open>
  \<^verbatim>\<open>components/taxonomy/src/backend.rs\<close>, the data: adapters, services, getters, setters and
  watchers, the maps that index them, and the views selectors are matched against.

  A value behind an \<^verbatim>\<open>Arc<SubCell<_>>\<close> is shared by several maps, so it lives in a store, a list
  indexed by its address: the services, the getters, the setters, and the sets of tags of the
  services, which the service and all its channels point to. A cell that nothing points to any
  more stays in the list. A \<^verbatim>\<open>Weak<WatcherData>\<close> is the key of the watcher; it upgrades as long as
  the watch map holds the watcher. The flag \<^verbatim>\<open>is_dropped\<close>, shared with the guard of the client, is
  membership of the key in the list \<open>st_dropped\<close>. What leaves the back-end is recorded: the events
  sent to the watchers and the calls to \<^verbatim>\<open>Adapter::stop\<close>. The model is that of a build with
  debug assertions and overflow checks; a failed assertion is \<open>Panic\<close>.
\<close>

type_synonym WatchKey = nat
type_synonym guard = nat

text \<open>An adapter is a trait object: its constant identifier and which instance it is.\<close>

datatype adapter = Adapter (adapter_id: AdapterId) (adapter_instance: nat)

record adapter_data =
  ad_adapter :: adapter
  ad_services :: "(ServiceId, nat) hashmap"

record service_data =
  sd_tags :: nat
  sd_id :: ServiceId
  sd_properties :: "(string, string) hashmap"
  sd_getters :: "(GetterId, nat) hashmap"
  sd_setters :: "(SetterId, nat) hashmap"
  sd_adapter :: AdapterId

record getter_data =
  gd_channel :: channel
  gd_service_tags :: nat
  gd_watchers :: "(WatchKey, WatchKey) hashmap"

record setter_data =
  std_channel :: channel
  std_service_tags :: nat

record watcher_data =
  wd_watch :: "(GetterSelector, Value Exactly) TargetMap"
  wd_key :: WatchKey
  wd_guards :: "(GetterId, guard list) hashmap"

record backend =
  adapter_by_id :: "(AdapterId, adapter_data) hashmap"
  service_by_id :: "(ServiceId, nat) hashmap"
  getter_by_id :: "(GetterId, nat) hashmap"
  setter_by_id :: "(SetterId, nat) hashmap"
  st_services :: "service_data list"
  st_getters :: "getter_data list"
  st_setters :: "setter_data list"
  st_tags :: "TagId hashset list"
  wm_counter :: nat
  wm_watchers :: "(WatchKey, watcher_data) hashmap"
  st_dropped :: "WatchKey list"
  st_events :: "(WatchKey \<times> WatchEvent) list"
  st_stopped :: "adapter list"
  st_db :: "database option"

definition backend_new :: "database option \<Rightarrow> backend" where
  "backend_new db_path =
     \<lparr>adapter_by_id = [], service_by_id = [], getter_by_id = [], setter_by_id = [],
      st_services = [], st_getters = [], st_setters = [], st_tags = [],
      wm_counter = 0, wm_watchers = [], st_dropped = [], st_events = [], st_stopped = [],
      st_db = db_path\<rparr>"

text \<open>The requests to the adapters prepared under the lock.\<close>

type_synonym 't adapter_request = "(AdapterId, adapter \<times> 't) hashmap"
type_synonym fetch_request = "(GetterId, Type) hashmap adapter_request"
type_synonym send_request =
  "((SetterId, Value) hashmap \<times> (SetterId, Error + unit) hashmap) adapter_request"
type_synonym watch_request = "(GetterId \<times> Value option \<times> WatchKey) list adapter_request"

section \<open>Building data from services and channels\<close>

definition adapter_data_new :: "adapter \<Rightarrow> adapter_data" where
  "adapter_data_new adapter = \<lparr>ad_adapter = adapter, ad_services = []\<rparr>"

text \<open>\<^verbatim>\<open>ServiceData::new\<close>: the tags go to a fresh cell, at the address given.\<close>

definition service_data_new :: "nat \<Rightarrow> service \<Rightarrow> service_data" where
  "service_data_new tags_cell service =
     \<lparr>sd_tags = tags_cell, sd_id = svc_id service, sd_properties = svc_properties service,
      sd_getters = [], sd_setters = [], sd_adapter = svc_adapter service\<rparr>"

definition getter_data_new :: "channel \<Rightarrow> nat \<Rightarrow> getter_data" where
  "getter_data_new channel service_tags =
     \<lparr>gd_channel = channel, gd_service_tags = service_tags, gd_watchers = []\<rparr>"

definition setter_data_new :: "channel \<Rightarrow> nat \<Rightarrow> setter_data" where
  "setter_data_new channel service_tags =
     \<lparr>std_channel = channel, std_service_tags = service_tags\<rparr>"

definition as_service :: "backend \<Rightarrow> service_data \<Rightarrow> service" where
  "as_service st self =
     \<lparr>svc_tags = st_tags st ! sd_tags self,
      svc_id = sd_id self,
      svc_properties = sd_properties self,
      svc_getters = map (\<lambda>(key, a). (key, gd_channel (st_getters st ! a))) (sd_getters self),
      svc_setters = map (\<lambda>(key, a). (key, std_channel (st_setters st ! a))) (sd_setters self),
      svc_adapter = sd_adapter self\<rparr>"

section \<open>Tags of a channel\<close>

fun insert_tags_loop :: "TagId hashset \<Rightarrow> TagId list \<Rightarrow> bool \<Rightarrow> bool \<times> TagId hashset" where
  "insert_tags_loop tagset [] has_changed = (has_changed, tagset)"
| "insert_tags_loop tagset (tag # tags) has_changed =
     (case hs_insert tag tagset of
        (changed, tagset) \<Rightarrow> insert_tags_loop tagset tags (if changed then True else has_changed))"

fun remove_tags_loop :: "TagId hashset \<Rightarrow> TagId list \<Rightarrow> bool \<Rightarrow> bool \<times> TagId hashset" where
  "remove_tags_loop tagset [] has_changed = (has_changed, tagset)"
| "remove_tags_loop tagset (tag # tags) has_changed =
     (case hs_remove tag tagset of
        (changed, tagset) \<Rightarrow> remove_tags_loop tagset tags (if changed then True else has_changed))"

definition channel_insert_tags :: "TagId list \<Rightarrow> channel \<Rightarrow> bool \<times> channel" where
  "channel_insert_tags tags self =
     (case insert_tags_loop (ch_tags self) tags False of
        (has_changed, tagset) \<Rightarrow> (has_changed, self\<lparr>ch_tags := tagset\<rparr>))"

definition channel_remove_tags :: "TagId list \<Rightarrow> channel \<Rightarrow> bool \<times> channel" where
  "channel_remove_tags tags self =
     (case remove_tags_loop (ch_tags self) tags False of
        (has_changed, tagset) \<Rightarrow> (has_changed, self\<lparr>ch_tags := tagset\<rparr>))"

lemma insert_tags_loop_result:
  "insert_tags_loop s tags b = (b \<or> \<not> set tags \<subseteq> set s, merge_tags s tags)"
  by (induction tags arbitrary: s b) (auto simp: hs_insert_def)

lemma remove_tags_loop_set:
  "fst (remove_tags_loop s tags b) \<longleftrightarrow> b \<or> set tags \<inter> set s \<noteq> {}"
  "set (snd (remove_tags_loop s tags b)) = set s - set tags"
  by (induction tags arbitrary: s b) (auto simp: hs_remove_def)

lemma channel_insert_tags_result:
  "channel_insert_tags tags c =
     (\<not> set tags \<subseteq> set (ch_tags c), c\<lparr>ch_tags := merge_tags (ch_tags c) tags\<rparr>)"
  by (simp add: channel_insert_tags_def insert_tags_loop_result)

lemma channel_insert_tags_same [simp]:
  "ch_id (snd (channel_insert_tags tags c)) = ch_id c"
  "ch_service (snd (channel_insert_tags tags c)) = ch_service c"
  "ch_adapter (snd (channel_insert_tags tags c)) = ch_adapter c"
  "ch_kind (snd (channel_insert_tags tags c)) = ch_kind c"
  by (simp_all add: channel_insert_tags_result)

lemma channel_remove_tags_same [simp]:
  "ch_id (snd (channel_remove_tags tags c)) = ch_id c"
  "ch_service (snd (channel_remove_tags tags c)) = ch_service c"
  "ch_adapter (snd (channel_remove_tags tags c)) = ch_adapter c"
  "ch_kind (snd (channel_remove_tags tags c)) = ch_kind c"
  by (simp_all add: channel_remove_tags_def split: prod.splits)

section \<open>Views\<close>

definition getter_data_matches :: "backend \<Rightarrow> getter_data \<Rightarrow> GetterSelector \<Rightarrow> bool" where
  "getter_data_matches st self selector =
     getter_matches selector (st_tags st ! gd_service_tags self) (gd_channel self)"

definition setter_data_matches :: "backend \<Rightarrow> setter_data \<Rightarrow> SetterSelector \<Rightarrow> bool" where
  "setter_data_matches st self selector =
     setter_matches selector (st_tags st ! std_service_tags self) (std_channel self)"

text \<open>The live view of a service, an instance of \<^verbatim>\<open>ServiceLike\<close>: the back-end it lives in and its
  data.\<close>

type_synonym service_view = "backend \<times> service_data"

definition view_id :: "service_view \<Rightarrow> ServiceId" where
  "view_id v = sd_id (snd v)"

definition view_with_tags :: "service_view \<Rightarrow> (TagId hashset \<Rightarrow> bool) \<Rightarrow> bool" where
  "view_with_tags v f = f (st_tags (fst v) ! sd_tags (snd v))"

definition view_has_getters :: "service_view \<Rightarrow> (channel \<Rightarrow> bool) \<Rightarrow> bool" where
  "view_has_getters v f =
     any_channel f (map (\<lambda>a. gd_channel (st_getters (fst v) ! a)) (hm_values (sd_getters (snd v))))"

definition view_has_setters :: "service_view \<Rightarrow> (channel \<Rightarrow> bool) \<Rightarrow> bool" where
  "view_has_setters v f =
     any_channel f (map (\<lambda>a. std_channel (st_setters (fst v) ! a)) (hm_values (sd_setters (snd v))))"

definition view_matches :: "service_selector \<Rightarrow> service_view \<Rightarrow> bool" where
  "view_matches sel v =
     service_selector_matches view_id view_with_tags view_has_getters view_has_setters sel v"

interpretation vw: service_like view_id view_with_tags view_has_getters view_has_setters
    "\<lambda>v. st_tags (fst v) ! sd_tags (snd v)"
    "\<lambda>v. map (\<lambda>p. gd_channel (st_getters (fst v) ! snd p)) (sd_getters (snd v))"
    "\<lambda>v. map (\<lambda>p. std_channel (st_setters (fst v) ! snd p)) (sd_setters (snd v))"
  by unfold_locales
    (simp_all add: view_with_tags_def view_has_getters_def view_has_setters_def)

text \<open>Selecting on the live view of a service and on its snapshot is the same.\<close>

theorem view_matches_snapshot: "view_matches sel (st, s) \<longleftrightarrow> service_matches sel (as_service st s)"
  unfolding view_matches_def service_matches_def vw.matches_iff svc.matches_iff
  by (simp add: view_id_def as_service_def case_prod_unfold)

section \<open>The watch map\<close>

definition watcher_data_new :: "WatchKey \<Rightarrow> (GetterSelector, Value Exactly) TargetMap \<Rightarrow> watcher_data" where
  "watcher_data_new key watch = \<lparr>wd_watch = watch, wd_key = key, wd_guards = []\<rparr>"

definition push_guard :: "GetterId \<Rightarrow> guard \<Rightarrow> watcher_data \<Rightarrow> watcher_data" where
  "push_guard i guard self =
     self\<lparr>wd_guards :=
       (case hm_get (wd_guards self) i of
          Some guards \<Rightarrow> hm_insert i (guards @ [guard]) (wd_guards self)
        | None \<Rightarrow> hm_insert i [guard] (wd_guards self))\<rparr>"

text \<open>\<^verbatim>\<open>WatchMap::create\<close>: the counter is a 64-bit \<^verbatim>\<open>usize\<close> whose overflow panics.\<close>

definition watch_map_create ::
    "(GetterSelector, Value Exactly) TargetMap \<Rightarrow> backend \<Rightarrow> (watcher_data \<times> backend) outcome" where
  "watch_map_create watch st =
     (if wm_counter st + 1 < 2 ^ 64 then
        (let watcher = watcher_data_new (wm_counter st) watch
         in Done (watcher, st\<lparr>wm_watchers := hm_insert (wm_counter st) watcher (wm_watchers st),
                             wm_counter := wm_counter st + 1\<rparr>))
      else Panic)"

definition watch_map_remove :: "WatchKey \<Rightarrow> backend \<Rightarrow> watcher_data option \<times> backend" where
  "watch_map_remove key st =
     (hm_get (wm_watchers st) key, st\<lparr>wm_watchers := hm_remove key (wm_watchers st)\<rparr>)"

abbreviation is_dropped :: "WatchKey \<Rightarrow> backend \<Rightarrow> bool" where
  "is_dropped key st \<equiv> key \<in> set (st_dropped st)"

abbreviation send_event :: "WatchKey \<Rightarrow> WatchEvent \<Rightarrow> backend \<Rightarrow> backend" where
  "send_event key event st \<equiv> st\<lparr>st_events := st_events st @ [(key, event)]\<rparr>"

end
