(* ===== verification/Backend.thy ===== *)
theory Backend
  imports Backend_State
begin

text \<open>
  \<^verbatim>\<open>components/taxonomy/src/backend.rs\<close>, the operations of \<^verbatim>\<open>State\<close>: registration of adapters,
  services and channels, queries, tags, the preparation of requests, and watches. An operation
  takes the state and returns its result with the new state, or panics. The maps are iterated in
  the order of their list. The adapters' own \<^verbatim>\<open>register_watch\<close> and the hash of the tag storage
  are parameters of the operations that use them.
\<close>

section \<open>Iterating over services and channels\<close>

text \<open>\<^verbatim>\<open>with_services\<close>: the callback is run on the address of every selected service; it may change
  the state and the storage handle, which is shared by the whole iteration.\<close>

definition with_services ::
    "service_selector list \<Rightarrow> (nat \<Rightarrow> backend \<times> 'a \<Rightarrow> (backend \<times> 'a) outcome) \<Rightarrow>
     backend \<times> 'a \<Rightarrow> (backend \<times> 'a) outcome" where
  "with_services selectors cb st =
     fold_outcome
       (\<lambda>a st. if selectors = [] then cb a st
               else if list_ex (\<lambda>selector. view_matches selector (fst st, st_services (fst st) ! a)) selectors
               then cb a st else Done st)
       (hm_values (service_by_id (fst st))) st"

definition with_getters ::
    "GetterSelector list \<Rightarrow> (nat \<Rightarrow> backend \<times> 'a \<Rightarrow> (backend \<times> 'a) outcome) \<Rightarrow>
     backend \<times> 'a \<Rightarrow> (backend \<times> 'a) outcome" where
  "with_getters selectors cb st =
     fold_outcome
       (\<lambda>a st. if list_ex (getter_data_matches (fst st) (st_getters (fst st) ! a)) selectors
               then cb a st else Done st)
       (hm_values (getter_by_id (fst st))) st"

definition with_setters ::
    "SetterSelector list \<Rightarrow> (nat \<Rightarrow> backend \<times> 'a \<Rightarrow> (backend \<times> 'a) outcome) \<Rightarrow>
     backend \<times> 'a \<Rightarrow> (backend \<times> 'a) outcome" where
  "with_setters selectors cb st =
     fold_outcome
       (\<lambda>a st. if list_ex (setter_data_matches (fst st) (st_setters (fst st) ! a)) selectors
               then cb a st else Done st)
       (hm_values (setter_by_id (fst st))) st"

section \<open>Watching a channel\<close>

text \<open>\<^verbatim>\<open>aux_start_channel_watch\<close>: records the watcher in the getter and, unless only the topology
  is watched, adds the getter to the request of its adapter.\<close>

definition aux_start_channel_watch ::
    "WatchKey \<Rightarrow> Value Exactly \<Rightarrow> (AdapterId, adapter_data) hashmap \<Rightarrow>
     getter_data \<times> watch_request \<Rightarrow> (getter_data \<times> watch_request) outcome" where
  "aux_start_channel_watch watcher flt adapters = (\<lambda>(getter_data, per_adapter).
     let i = ch_id (gd_channel getter_data); adapter = ch_adapter (gd_channel getter_data)
     in case insert_in_map_start (gd_watchers getter_data) [(watcher, watcher)] of
       (Inl _, _) \<Rightarrow> Panic
     | (Inr insert_in_getter, ws) \<Rightarrow>
         (let committed = getter_data\<lparr>gd_watchers :=
                insert_in_map_drop (insert_in_map_commit insert_in_getter) ws\<rparr>;
              watch = (\<lambda>rng. case hm_get per_adapter adapter of
                  None \<Rightarrow> (case hm_get adapters adapter of
                             None \<Rightarrow> Panic
                           | Some ad \<Rightarrow> Done (committed,
                               hm_insert adapter (ad_adapter ad, [(i, rng, watcher)]) per_adapter))
                | Some (ad, reqs) \<Rightarrow> Done (committed,
                    hm_insert adapter (ad, reqs @ [(i, rng, watcher)]) per_adapter))
          in case flt of
               Exactly value \<Rightarrow> watch (Some value)
             | Always \<Rightarrow> watch None
             | Never \<Rightarrow> Done (committed, per_adapter)))"

text \<open>\<^verbatim>\<open>aux_getter_may_need_unregistration\<close>: the loop over the watchers of a getter, with the keys
  to drop.\<close>

fun unregistration_loop ::
    "getter_data \<Rightarrow> bool \<Rightarrow> (WatchKey \<times> WatchKey) list \<Rightarrow> WatchKey list \<times> backend \<Rightarrow>
     WatchKey list \<times> backend" where
  "unregistration_loop getter_data is_being_removed [] acc = acc"
| "unregistration_loop getter_data is_being_removed ((key, weak) # rest) (keys_to_drop, st) =
     unregistration_loop getter_data is_being_removed rest
       (case hm_get (wm_watchers st) weak of
          None \<Rightarrow> (keys_to_drop @ [key], st)
        | Some watcher \<Rightarrow>
            if is_dropped weak st then (keys_to_drop, st)
            else if \<not> (is_being_removed \<or>
                       list_ex (\<lambda>targetted. list_ex (\<lambda>selector.
                           \<not> getter_data_matches st getter_data selector) (select targetted))
                         (wd_watch watcher))
            then (keys_to_drop, st)
            else
              (let i = ch_id (gd_channel getter_data);
                   st = send_event weak (GetterRemoved i) st;
                   watcher = watcher\<lparr>wd_guards := hm_remove i (wd_guards watcher)\<rparr>
               in (keys_to_drop @ [key],
                   st\<lparr>wm_watchers := hm_insert weak watcher (wm_watchers st)\<rparr>)))"

definition aux_getter_may_need_unregistration :: "nat \<Rightarrow> bool \<Rightarrow> backend \<Rightarrow> backend" where
  "aux_getter_may_need_unregistration a is_being_removed st =
     (let getter_data = st_getters st ! a in
      case unregistration_loop getter_data is_being_removed (gd_watchers getter_data) ([], st) of
        (keys_to_drop, st) \<Rightarrow>
          st\<lparr>st_getters := (st_getters st)
               [a := getter_data\<lparr>gd_watchers := fold hm_remove keys_to_drop (gd_watchers getter_data)\<rparr>]\<rparr>)"

text \<open>\<^verbatim>\<open>aux_getters_may_need_registration\<close>: for every getter, every watcher and every of its
  instructions that selects the getter.\<close>

definition register_targetted ::
    "nat \<Rightarrow> GetterId \<Rightarrow> WatchKey \<Rightarrow> (GetterSelector, Value Exactly) Targetted \<Rightarrow>
     backend \<times> watch_request \<Rightarrow> (backend \<times> watch_request) outcome" where
  "register_targetted a i key targetted = (\<lambda>(st, per_adapter).
     if \<not> list_ex (getter_data_matches st (st_getters st ! a)) (select targetted)
     then Done (st, per_adapter)
     else
       bind_outcome
         (aux_start_channel_watch key (payload targetted) (adapter_by_id st)
            (st_getters st ! a, per_adapter))
         (\<lambda>(getter_data, per_adapter).
            Done ((send_event key (GetterAdded i) st)\<lparr>st_getters := (st_getters st)[a := getter_data]\<rparr>,
                  per_adapter)))"

definition register_watcher ::
    "nat \<Rightarrow> GetterId \<Rightarrow> WatchKey \<times> watcher_data \<Rightarrow> backend \<times> watch_request \<Rightarrow>
     (backend \<times> watch_request) outcome" where
  "register_watcher a i = (\<lambda>(key, watcher) (st, per_adapter).
     if hm_has (wd_guards watcher) i then Done (st, per_adapter)
     else if is_dropped key st then Done (st, per_adapter)
     else fold_outcome (register_targetted a i key) (wd_watch watcher) (st, per_adapter))"

definition aux_getters_may_need_registration ::
    "GetterId list \<Rightarrow> backend \<Rightarrow> (watch_request \<times> backend) outcome" where
  "aux_getters_may_need_registration getters st =
     bind_outcome
       (fold_outcome
         (\<lambda>i (st, per_adapter).
            case hm_get (getter_by_id st) i of
              None \<Rightarrow> Panic
            | Some a \<Rightarrow> fold_outcome (register_watcher a i) (wm_watchers st) (st, per_adapter))
         getters (st, []))
       (\<lambda>(st, per_adapter). Done (per_adapter, st))"

section \<open>Adapters and services\<close>

definition aux_remove_service :: "ServiceId \<Rightarrow> backend \<Rightarrow> (Error + AdapterId) \<times> backend" where
  "aux_remove_service i st =
     (case hm_get (service_by_id st) i of
        None \<Rightarrow> (Inl (ErrInternal (NoSuchService i)), st)
      | Some a \<Rightarrow>
          (let service = st_services st ! a
           in (Inr (sd_adapter service),
               st\<lparr>service_by_id := hm_remove i (service_by_id st),
                  getter_by_id := fold hm_remove (hm_keys (sd_getters service)) (getter_by_id st),
                  setter_by_id := fold hm_remove (hm_keys (sd_setters service)) (setter_by_id st)\<rparr>)))"

definition add_adapter :: "adapter \<Rightarrow> backend \<Rightarrow> (Error + unit) \<times> backend" where
  "add_adapter adapter st =
     (case hm_get (adapter_by_id st) (adapter_id adapter) of
        Some _ \<Rightarrow> (Inl (ErrInternal (DuplicateAdapter (adapter_id adapter))), st)
      | None \<Rightarrow> (Inr (), st\<lparr>adapter_by_id :=
          hm_insert (adapter_id adapter) (adapter_data_new adapter) (adapter_by_id st)\<rparr>))"

definition remove_adapter :: "AdapterId \<Rightarrow> backend \<Rightarrow> (Error + unit) \<times> backend" where
  "remove_adapter i st =
     (case hm_get (adapter_by_id st) i of
        None \<Rightarrow> (Inl (ErrInternal (NoSuchAdapter i)), st)
      | Some ad \<Rightarrow>
          (Inr (), fold (\<lambda>service_id st. snd (aux_remove_service service_id st))
                     (hm_keys (ad_services ad))
                     (st\<lparr>adapter_by_id := hm_remove i (adapter_by_id st)\<rparr>)))"

definition add_service :: "service \<Rightarrow> backend \<Rightarrow> ((Error + unit) \<times> backend) outcome" where
  "add_service service st =
     (if svc_getters service \<noteq> [] \<or> svc_setters service \<noteq> []
      then Done (Inl (ErrInternal InvalidInitialService), st)
      else
        let cell = length (st_tags st); a = length (st_services st);
            data = service_data_new cell service; i = sd_id data
        in case hm_get (adapter_by_id st) (sd_adapter data) of
          None \<Rightarrow> Done (Inl (ErrInternal (NoSuchAdapter (sd_adapter data))), st)
        | Some ad \<Rightarrow>
            let insert = (\<lambda>tag_set st.
              case insert_in_map_start (ad_services ad) [(i, a)] of
                (Inl k, _) \<Rightarrow> (Inl (ErrInternal (DuplicateService k)), st)
              | (Inr insert_in_adapters, services_for_this_adapter) \<Rightarrow>
                  let put_services = (\<lambda>m. hm_insert (sd_adapter data)
                        (ad\<lparr>ad_services := m\<rparr>) (adapter_by_id st))
                  in case insert_in_map_start (service_by_id st) [(i, a)] of
                    (Inl k, _) \<Rightarrow>
                      (Inl (ErrInternal (DuplicateService k)),
                       st\<lparr>adapter_by_id := put_services
                          (insert_in_map_drop insert_in_adapters services_for_this_adapter)\<rparr>)
                  | (Inr insert_in_services, services) \<Rightarrow>
                      (Inr (),
                       st\<lparr>adapter_by_id := put_services (insert_in_map_drop
                            (insert_in_map_commit insert_in_adapters) services_for_this_adapter),
                          service_by_id := insert_in_map_drop
                            (insert_in_map_commit insert_in_services) services,
                          st_services := st_services st @ [data],
                          st_tags := st_tags st @ [tag_set]\<rparr>))
            in case st_db st of
              None \<Rightarrow> Done (insert (svc_tags service) st)
            | Some path \<Rightarrow>
                bind_outcome (get_tags_for i (tag_storage_new path)) (\<lambda>(r, store).
                  let st = st\<lparr>st_db := Some (ts_db store)\<rparr>
                  in case r of
                    Inl err \<Rightarrow> Done (Inl (ErrInternal (GenericError err)), st)
                  | Inr tags \<Rightarrow> Done (insert (merge_tags (svc_tags service) tags) st)))"

definition remove_service :: "ServiceId \<Rightarrow> backend \<Rightarrow> (Error + unit) \<times> backend" where
  "remove_service service_id st =
     (case aux_remove_service service_id st of
        (Inl e, st) \<Rightarrow> (Inl e, st)
      | (Inr adapter, st) \<Rightarrow>
          (case hm_get (adapter_by_id st) adapter of
             None \<Rightarrow> (Inl (ErrInternal (NoSuchAdapter adapter)), st)
           | Some data \<Rightarrow>
               (let removed = hm_get (ad_services data) service_id;
                    st = st\<lparr>adapter_by_id := hm_insert adapter
                       (data\<lparr>ad_services := hm_remove service_id (ad_services data)\<rparr>) (adapter_by_id st)\<rparr>
                in if removed = None then (Inl (ErrInternal (NoSuchService service_id)), st)
                   else (Inr (), st))))"

section \<open>Channels\<close>

text \<open>The tags of a channel in the database; an error of the database is ignored.\<close>

definition with_db_tags :: "channel \<Rightarrow> backend \<Rightarrow> (channel \<times> backend) outcome" where
  "with_db_tags channel st =
     (case st_db st of
        None \<Rightarrow> Done (channel, st)
      | Some path \<Rightarrow>
          bind_outcome (get_tags_for (ch_id channel) (tag_storage_new path)) (\<lambda>(r, store).
            let st = st\<lparr>st_db := Some (ts_db store)\<rparr>
            in case r of
                 Inl _ \<Rightarrow> Done (channel, st)
               | Inr all_tags \<Rightarrow> Done (snd (channel_insert_tags all_tags channel), st)))"

definition insert_getter :: "channel \<Rightarrow> backend \<Rightarrow> (Error + unit) \<times> backend" where
  "insert_getter getter st =
     (let i = ch_id getter in
      case hm_get (service_by_id st) (ch_service getter) of
        None \<Rightarrow> (Inl (ErrInternal (NoSuchService (ch_service getter))), st)
      | Some sa \<Rightarrow>
          let service = st_services st ! sa; a = length (st_getters st)
          in if sd_adapter service \<noteq> ch_adapter getter
             then (Inl (ErrInternal (ConflictingAdapter (sd_adapter service) (ch_adapter getter))), st)
             else
               let getter_data = getter_data_new getter (sd_tags service)
               in case insert_in_map_start (sd_getters service) [(i, a)] of
                 (Inl k, _) \<Rightarrow> (Inl (ErrInternal (DuplicateGetter k)), st)
               | (Inr insert_in_service, getters) \<Rightarrow>
                   let put_getters = (\<lambda>m. (st_services st)[sa := service\<lparr>sd_getters := m\<rparr>])
                   in case insert_in_map_start (getter_by_id st) [(i, a)] of
                     (Inl k, _) \<Rightarrow> (Inl (ErrInternal (DuplicateGetter k)),
                       st\<lparr>st_services := put_getters (insert_in_map_drop insert_in_service getters)\<rparr>)
                   | (Inr insert_in_getters, getter_map) \<Rightarrow>
                       (Inr (), st\<lparr>st_services := put_getters
                            (insert_in_map_drop (insert_in_map_commit insert_in_service) getters),
                          getter_by_id := insert_in_map_drop (insert_in_map_commit insert_in_getters) getter_map,
                          st_getters := st_getters st @ [getter_data]\<rparr>))"

definition add_getter :: "channel \<Rightarrow> backend \<Rightarrow> ((Error + watch_request) \<times> backend) outcome" where
  "add_getter getter st =
     bind_outcome (with_db_tags getter st) (\<lambda>(getter, st).
       case insert_getter getter st of
         (Inl e, st) \<Rightarrow> Done (Inl e, st)
       | (Inr _, st) \<Rightarrow>
           bind_outcome (aux_getters_may_need_registration [ch_id getter] st)
             (\<lambda>(request, st). Done (Inr request, st)))"

definition remove_getter :: "GetterId \<Rightarrow> backend \<Rightarrow> (Error + unit) \<times> backend" where
  "remove_getter i st =
     (case hm_get (getter_by_id st) i of
        None \<Rightarrow> (Inl (ErrInternal (NoSuchGetter i)), st)
      | Some a \<Rightarrow>
          (let st = st\<lparr>getter_by_id := hm_remove i (getter_by_id st)\<rparr>;
               st = aux_getter_may_need_unregistration a True st;
               service_id = ch_service (gd_channel (st_getters st ! a))
           in case hm_get (service_by_id st) service_id of
                None \<Rightarrow> (Inl (ErrInternal (NoSuchService service_id)), st)
              | Some sa \<Rightarrow>
                  (let service = st_services st ! sa;
                       removed = hm_get (sd_getters service) i;
                       st = st\<lparr>st_services := (st_services st)
                              [sa := service\<lparr>sd_getters := hm_remove i (sd_getters service)\<rparr>]\<rparr>
                   in if removed = None then (Inl (ErrInternal (NoSuchGetter i)), st)
                      else (Inr (), st))))"

definition insert_setter :: "channel \<Rightarrow> backend \<Rightarrow> (Error + unit) \<times> backend" where
  "insert_setter setter st =
     (case hm_get (service_by_id st) (ch_service setter) of
        None \<Rightarrow> (Inl (ErrInternal (NoSuchService (ch_service setter))), st)
      | Some sa \<Rightarrow>
          let service = st_services st ! sa; a = length (st_setters st); i = ch_id setter
          in if sd_adapter service \<noteq> ch_adapter setter
             then (Inl (ErrInternal (ConflictingAdapter (sd_adapter service) (ch_adapter setter))), st)
             else
               let setter_data = setter_data_new setter (sd_tags service)
               in case insert_in_map_start (sd_setters service) [(i, a)] of
                 (Inl k, _) \<Rightarrow> (Inl (ErrInternal (DuplicateSetter k)), st)
               | (Inr insert_in_service, setters) \<Rightarrow>
                   let put_setters = (\<lambda>m. (st_services st)[sa := service\<lparr>sd_setters := m\<rparr>])
                   in case insert_in_map_start (setter_by_id st) [(i, a)] of
                     (Inl k, _) \<Rightarrow> (Inl (ErrInternal (DuplicateSetter k)),
                       st\<lparr>st_services := put_setters (insert_in_map_drop insert_in_service setters)\<rparr>)
                   | (Inr insert_in_setters, setter_map) \<Rightarrow>
                       (Inr (), st\<lparr>st_services := put_setters
                            (insert_in_map_drop (insert_in_map_commit insert_in_service) setters),
                          setter_by_id := insert_in_map_drop (insert_in_map_commit insert_in_setters) setter_map,
                          st_setters := st_setters st @ [setter_data]\<rparr>))"

definition add_setter :: "channel \<Rightarrow> backend \<Rightarrow> ((Error + unit) \<times> backend) outcome" where
  "add_setter setter st =
     bind_outcome (with_db_tags setter st) (\<lambda>(setter, st). Done (insert_setter setter st))"

definition remove_setter :: "SetterId \<Rightarrow> backend \<Rightarrow> (Error + unit) \<times> backend" where
  "remove_setter i st =
     (case hm_get (setter_by_id st) i of
        None \<Rightarrow> (Inl (ErrInternal (NoSuchSetter i)), st)
      | Some a \<Rightarrow>
          (let st = st\<lparr>setter_by_id := hm_remove i (setter_by_id st)\<rparr>;
               service_id = ch_service (std_channel (st_setters st ! a))
           in case hm_get (service_by_id st) service_id of
                None \<Rightarrow> (Inl (ErrInternal (NoSuchService service_id)), st)
              | Some sa \<Rightarrow>
                  (let service = st_services st ! sa;
                       removed = hm_get (sd_setters service) i;
                       st = st\<lparr>st_services := (st_services st)
                              [sa := service\<lparr>sd_setters := hm_remove i (sd_setters service)\<rparr>]\<rparr>
                   in if removed = None then (Inl (ErrInternal (NoSuchSetter i)), st)
                      else (Inr (), st))))"

section \<open>Queries\<close>

definition get_services :: "service_selector list \<Rightarrow> backend \<Rightarrow> service list outcome" where
  "get_services selectors st =
     bind_outcome
       (with_services selectors
          (\<lambda>a (st, result). Done (st, result @ [as_service st (st_services st ! a)])) (st, []))
       (\<lambda>(st, result). Done result)"

definition get_getter_channels :: "GetterSelector list \<Rightarrow> backend \<Rightarrow> channel list outcome" where
  "get_getter_channels selectors st =
     bind_outcome
       (with_getters selectors (\<lambda>a (st, result). Done (st, result @ [gd_channel (st_getters st ! a)])) (st, []))
       (\<lambda>(st, result). Done result)"

definition get_setter_channels :: "SetterSelector list \<Rightarrow> backend \<Rightarrow> channel list outcome" where
  "get_setter_channels selectors st =
     bind_outcome
       (with_setters selectors (\<lambda>a (st, result). Done (st, result @ [std_channel (st_setters st ! a)])) (st, []))
       (\<lambda>(st, result). Done result)"

end
