(* ===== verification/Backend_Requests.thy ===== *)
theory Backend_Requests
  imports Backend
begin

text \<open>
  \<^verbatim>\<open>components/taxonomy/src/backend.rs\<close>, continued: tags of services and channels, the requests
  prepared for the adapters (fetch, send, watch), the life of a watch, and the end of the back-end.
\<close>

section \<open>Tags\<close>

fun remove_tags :: "TagId hashset \<Rightarrow> TagId list \<Rightarrow> TagId hashset" where
  "remove_tags a [] = a"
| "remove_tags a (tag # tags) = remove_tags (snd (hs_remove tag a)) tags"

lemma remove_tags_set [simp]: "set (remove_tags a tags) = set a - set tags"
  by (induction a tags rule: remove_tags.induct) auto

text \<open>A write through a storage handle: the error of the database is logged and forgotten.\<close>

definition log_storage ::
    "(tag_storage \<Rightarrow> ((string + unit) \<times> tag_storage) outcome) \<Rightarrow> tag_storage option \<Rightarrow>
     tag_storage option outcome" where
  "log_storage write store =
     (case store of
        None \<Rightarrow> Done None
      | Some storage \<Rightarrow> bind_outcome (write storage) (\<lambda>(_, storage). Done (Some storage)))"

text \<open>The same through a handle opened for one channel.\<close>

definition with_new_storage ::
    "(tag_storage \<Rightarrow> ((string + unit) \<times> tag_storage) outcome) \<Rightarrow> backend \<Rightarrow> backend outcome" where
  "with_new_storage write st =
     bind_outcome (log_storage write (map_option tag_storage_new (st_db st)))
       (\<lambda>store. Done (st\<lparr>st_db := map_option ts_db store\<rparr>))"

definition add_service_tags ::
    "(string \<Rightarrow> string \<Rightarrow> nat) \<Rightarrow> service_selector list \<Rightarrow> TagId list \<Rightarrow> backend \<Rightarrow>
     (nat \<times> backend) outcome" where
  "add_service_tags sip selectors tags st =
     bind_outcome
       (with_services selectors (\<lambda>a (st, result, store).
          let service = st_services st ! a in
          bind_outcome (log_storage (store_add_tags sip (sd_id service) tags) store) (\<lambda>store.
            Done (st\<lparr>st_tags := (st_tags st)
                    [sd_tags service := merge_tags (st_tags st ! sd_tags service) tags]\<rparr>,
                  result + 1, store)))
         (st, 0, map_option tag_storage_new (st_db st)))
       (\<lambda>(st, result, store). Done (result, st\<lparr>st_db := map_option ts_db store\<rparr>))"

definition remove_service_tags ::
    "(string \<Rightarrow> string \<Rightarrow> nat) \<Rightarrow> service_selector list \<Rightarrow> TagId list \<Rightarrow> backend \<Rightarrow>
     (nat \<times> backend) outcome" where
  "remove_service_tags sip selectors tags st =
     bind_outcome
       (with_services selectors (\<lambda>a (st, result, store).
          let service = st_services st ! a in
          bind_outcome (log_storage (store_remove_tags sip (sd_id service) tags) store) (\<lambda>store.
            Done (st\<lparr>st_tags := (st_tags st)
                    [sd_tags service := remove_tags (st_tags st ! sd_tags service) tags]\<rparr>,
                  result + 1, store)))
         (st, 0, map_option tag_storage_new (st_db st)))
       (\<lambda>(st, result, store). Done (result, st\<lparr>st_db := map_option ts_db store\<rparr>))"

definition put_getter_channel :: "nat \<Rightarrow> channel \<Rightarrow> backend \<Rightarrow> backend" where
  "put_getter_channel a channel st =
     st\<lparr>st_getters := (st_getters st)[a := (st_getters st ! a)\<lparr>gd_channel := channel\<rparr>]\<rparr>"

definition put_setter_channel :: "nat \<Rightarrow> channel \<Rightarrow> backend \<Rightarrow> backend" where
  "put_setter_channel a channel st =
     st\<lparr>st_setters := (st_setters st)[a := (st_setters st ! a)\<lparr>std_channel := channel\<rparr>]\<rparr>"

definition add_getter_tags ::
    "(string \<Rightarrow> string \<Rightarrow> nat) \<Rightarrow> GetterSelector list \<Rightarrow> TagId list \<Rightarrow> backend \<Rightarrow>
     ((watch_request \<times> nat) \<times> backend) outcome" where
  "add_getter_tags sip selectors tags st =
     bind_outcome
       (with_getters selectors (\<lambda>a (st, channels, size).
          case channel_insert_tags tags (gd_channel (st_getters st ! a)) of
            (changed, channel) \<Rightarrow>
              if changed then
                bind_outcome (with_new_storage (store_add_tags sip (ch_id channel) tags)
                    (put_getter_channel a channel st))
                  (\<lambda>st. Done (st, channels @ [ch_id channel], size + 1))
              else Done (put_getter_channel a channel st, channels, size + 1))
         (st, [], 0))
       (\<lambda>(st, channels, size).
          bind_outcome (aux_getters_may_need_registration channels st)
            (\<lambda>(request, st). Done ((request, size), st)))"

definition add_setter_tags ::
    "(string \<Rightarrow> string \<Rightarrow> nat) \<Rightarrow> SetterSelector list \<Rightarrow> TagId list \<Rightarrow> backend \<Rightarrow>
     (nat \<times> backend) outcome" where
  "add_setter_tags sip selectors tags st =
     bind_outcome
       (with_setters selectors (\<lambda>a (st, result).
          case channel_insert_tags tags (std_channel (st_setters st ! a)) of
            (changed, channel) \<Rightarrow>
              if changed then
                bind_outcome (with_new_storage (store_add_tags sip (ch_id channel) tags)
                    (put_setter_channel a channel st))
                  (\<lambda>st. Done (st, result + 1))
              else Done (put_setter_channel a channel st, result + 1))
         (st, 0))
       (\<lambda>(st, result). Done (result, st))"

definition remove_getter_tags ::
    "(string \<Rightarrow> string \<Rightarrow> nat) \<Rightarrow> GetterSelector list \<Rightarrow> TagId list \<Rightarrow> backend \<Rightarrow>
     (nat \<times> backend) outcome" where
  "remove_getter_tags sip selectors tags st =
     bind_outcome
       (with_getters selectors (\<lambda>a (st, result).
          case channel_remove_tags tags (gd_channel (st_getters st ! a)) of
            (changed, channel) \<Rightarrow>
              bind_outcome
                (if changed then
                   with_new_storage (store_remove_tags sip (ch_id channel) tags)
                     (put_getter_channel a channel st)
                 else Done (put_getter_channel a channel st))
                (\<lambda>st. Done (aux_getter_may_need_unregistration a False st, result + 1)))
         (st, 0))
       (\<lambda>(st, result). Done (result, st))"

definition remove_setter_tags ::
    "(string \<Rightarrow> string \<Rightarrow> nat) \<Rightarrow> SetterSelector list \<Rightarrow> TagId list \<Rightarrow> backend \<Rightarrow>
     (nat \<times> backend) outcome" where
  "remove_setter_tags sip selectors tags st =
     bind_outcome
       (with_setters selectors (\<lambda>a (st, result).
          case channel_remove_tags tags (std_channel (st_setters st ! a)) of
            (changed, channel) \<Rightarrow>
              if changed then
                bind_outcome (with_new_storage (store_remove_tags sip (ch_id channel) tags)
                    (put_setter_channel a channel st))
                  (\<lambda>st. Done (st, result + 1))
              else Done (put_setter_channel a channel st, result + 1))
         (st, 0))
       (\<lambda>(st, result). Done (result, st))"

section \<open>Fetching and sending\<close>

text \<open>The getters to fetch, with the type of each, grouped by adapter.\<close>

definition group_fetch ::
    "channel \<Rightarrow> (AdapterId, adapter_data) hashmap \<Rightarrow> fetch_request \<Rightarrow> fetch_request outcome" where
  "group_fetch channel adapters per_adapter =
     (let i = ch_id channel; ty = kind_type (ch_kind channel); adapter = ch_adapter channel in
      case hm_get per_adapter adapter of
        None \<Rightarrow>
          (case hm_get adapters adapter of
             None \<Rightarrow> Panic
           | Some ad \<Rightarrow> Done (hm_insert adapter (ad_adapter ad, hm_extend [] [(i, ty)]) per_adapter))
      | Some (ad, getters) \<Rightarrow> Done (hm_insert adapter (ad, hm_insert i ty getters) per_adapter))"

definition prepare_fetch_values :: "GetterSelector list \<Rightarrow> backend \<Rightarrow> fetch_request outcome" where
  "prepare_fetch_values selectors st =
     bind_outcome
       (with_getters selectors (\<lambda>a (st, per_adapter).
          bind_outcome (group_fetch (gd_channel (st_getters st ! a)) (adapter_by_id st) per_adapter)
            (\<lambda>per_adapter. Done (st, per_adapter)))
         (st, []))
       (\<lambda>(st, per_adapter). Done per_adapter)"

text \<open>A value to send to a setter: it goes to the request when it has the type of the channel, and
  to the failures otherwise.\<close>

definition group_send ::
    "channel \<Rightarrow> Value \<Rightarrow> (AdapterId, adapter_data) hashmap \<Rightarrow> send_request \<Rightarrow> send_request outcome" where
  "group_send channel value adapters per_adapter =
     (let i = ch_id channel; ty = kind_type (ch_kind channel); adapter = ch_adapter channel;
          checked = (if value_type value = ty then Inr value
                     else Inl (ErrType (TypeError ty (value_type value))));
          add = (\<lambda>(request, failures).
            case checked of
              Inr value \<Rightarrow> (hm_insert i value request, failures)
            | Inl error \<Rightarrow> (request, hm_insert i (Inl error) failures))
      in case hm_get per_adapter adapter of
        None \<Rightarrow>
          (case hm_get adapters adapter of
             None \<Rightarrow> Panic
           | Some ad \<Rightarrow> Done (hm_insert adapter (ad_adapter ad, add ([], [])) per_adapter))
      | Some (ad, reqs) \<Rightarrow> Done (hm_insert adapter (ad, add reqs) per_adapter))"

definition prepare_send_values ::
    "(SetterSelector, Value) TargetMap \<Rightarrow> backend \<Rightarrow> send_request outcome" where
  "prepare_send_values keyvalues st =
     fold_outcome
       (\<lambda>targetted per_adapter.
          bind_outcome
            (with_setters (select targetted) (\<lambda>a (st, per_adapter).
               bind_outcome
                 (group_send (std_channel (st_setters st ! a)) (payload targetted) (adapter_by_id st)
                    per_adapter)
                 (\<lambda>per_adapter. Done (st, per_adapter)))
              (st, per_adapter))
            (\<lambda>(_, per_adapter). Done per_adapter))
       keyvalues []"

section \<open>Watching\<close>

definition prepare_channel_watch ::
    "(GetterSelector, Value Exactly) TargetMap \<Rightarrow> backend \<Rightarrow>
     ((watch_request \<times> WatchKey) \<times> backend) outcome" where
  "prepare_channel_watch watch st =
     bind_outcome (watch_map_create watch st) (\<lambda>(watcher, st).
       bind_outcome
         (fold_outcome
           (\<lambda>targetted st.
              with_getters (select targetted) (\<lambda>a (st, per_adapter).
                bind_outcome
                  (aux_start_channel_watch (wd_key watcher) (payload targetted) (adapter_by_id st)
                     (st_getters st ! a, per_adapter))
                  (\<lambda>(getter_data, per_adapter).
                     Done (st\<lparr>st_getters := (st_getters st)[a := getter_data]\<rparr>, per_adapter))) st)
           watch (st, []))
         (\<lambda>(st, per_adapter). Done ((per_adapter, wd_key watcher), st)))"

definition stop_watch_getter :: "WatchKey \<Rightarrow> GetterId \<Rightarrow> backend \<Rightarrow> backend outcome" where
  "stop_watch_getter key getter_id st =
     (case hm_get (getter_by_id st) getter_id of
        None \<Rightarrow> Done st
      | Some a \<Rightarrow>
          (let getter = st_getters st ! a in
           if hm_get (gd_watchers getter) key = None then Panic
           else Done (st\<lparr>st_getters := (st_getters st)
                        [a := getter\<lparr>gd_watchers := hm_remove key (gd_watchers getter)\<rparr>]\<rparr>)))"

definition stop_watch :: "WatchKey \<Rightarrow> backend \<Rightarrow> backend outcome" where
  "stop_watch key st =
     (case watch_map_remove key st of
        (None, st) \<Rightarrow> Done st
      | (Some watcher_data, st) \<Rightarrow>
          if \<not> is_dropped key st then Panic
          else fold_outcome (stop_watch_getter key) (hm_keys (wd_guards watcher_data)) st)"

text \<open>The events of the adapters on their way to the watcher.\<close>

definition forward_event :: "bool \<Rightarrow> AdapterWatchEvent \<Rightarrow> WatchEvent option" where
  "forward_event dropped event =
     (if dropped then None
      else Some (case event of Enter i value \<Rightarrow> EnterRange i value | Exit i value \<Rightarrow> ExitRange i value))"

type_synonym register_watch_fn =
  "adapter \<Rightarrow> GetterId \<Rightarrow> Value option \<Rightarrow> WatchKey \<Rightarrow> (GetterId \<times> (Error + guard)) list"
type_synonym watch_guard_commit = "(WatchKey \<times> (GetterId \<times> guard) list) list"

text \<open>The results of one registration: errors are sent to the watcher, guards are kept.\<close>

fun collect_guards ::
    "WatchKey \<Rightarrow> (GetterId \<times> (Error + guard)) list \<Rightarrow> (GetterId \<times> guard) list \<times> backend \<Rightarrow>
     (GetterId \<times> guard) list \<times> backend" where
  "collect_guards key [] acc = acc"
| "collect_guards key ((i, result) # rest) (guards, st) =
     collect_guards key rest
       (case result of
          Inl err \<Rightarrow> (guards, send_event key (InitializationError i err) st)
        | Inr guard \<Rightarrow> (guards @ [(i, guard)], st))"

fun start_watch_adapter ::
    "register_watch_fn \<Rightarrow> adapter \<Rightarrow> (GetterId \<times> Value option \<times> WatchKey) list \<Rightarrow>
     watch_guard_commit \<times> backend \<Rightarrow> watch_guard_commit \<times> backend" where
  "start_watch_adapter register_watch adapter [] acc = acc"
| "start_watch_adapter register_watch adapter ((i, rng, weak) # rest) (to_add, st) =
     start_watch_adapter register_watch adapter rest
       (case hm_get (wm_watchers st) weak of
          None \<Rightarrow> (to_add, st)
        | Some watch_data \<Rightarrow>
            if is_dropped weak st then (to_add, st)
            else (case collect_guards weak (register_watch adapter i rng weak) ([], st) of
                    (guards, st) \<Rightarrow>
                      if guards \<noteq> [] then (to_add @ [(weak, guards)], st) else (to_add, st)))"

fun start_watch_loop ::
    "register_watch_fn \<Rightarrow> watch_request \<Rightarrow> watch_guard_commit \<times> backend \<Rightarrow> watch_guard_commit \<times> backend" where
  "start_watch_loop register_watch [] acc = acc"
| "start_watch_loop register_watch ((_, adapter, adapter_request) # rest) acc =
     start_watch_loop register_watch rest (start_watch_adapter register_watch adapter adapter_request acc)"

definition start_watch ::
    "register_watch_fn \<Rightarrow> watch_request \<Rightarrow> backend \<Rightarrow> watch_guard_commit \<times> backend" where
  "start_watch register_watch per_adapter st = start_watch_loop register_watch per_adapter ([], st)"

definition register_ongoing_watch :: "watch_guard_commit \<Rightarrow> backend \<Rightarrow> backend" where
  "register_ongoing_watch ongoing st =
     fold (\<lambda>(key, guards) st.
             case hm_get (wm_watchers st) key of
               None \<Rightarrow> st
             | Some watch_data \<Rightarrow>
                 st\<lparr>wm_watchers := hm_insert key
                      (fold (\<lambda>(i, guard) wd. push_guard i guard wd) guards watch_data)
                      (wm_watchers st)\<rparr>)
       ongoing st"

section \<open>The end\<close>

definition backend_stop :: "backend \<Rightarrow> backend" where
  "backend_stop st =
     st\<lparr>st_stopped := st_stopped st @ map ad_adapter (hm_values (adapter_by_id st)),
        adapter_by_id := [], service_by_id := [], getter_by_id := [], setter_by_id := [],
        wm_watchers := []\<rparr>"

end
