(* ===== verification/Backend_Inv.thy ===== *)
theory Backend_Inv
  imports Backend_Requests
begin

text \<open>
  The consistency of the back-end: the four maps, the lists of services of the adapters and the
  lists of channels of the services agree with each other, and every operation keeps it so. The
  set \<open>X\<close> of the auxiliary invariants holds the services in the middle of their removal.
\<close>

section \<open>The invariant\<close>

abbreviation service_at :: "backend \<Rightarrow> nat \<Rightarrow> service_data" where
  "service_at st a \<equiv> st_services st ! a"

abbreviation getter_at :: "backend \<Rightarrow> nat \<Rightarrow> channel" where
  "getter_at st b \<equiv> gd_channel (st_getters st ! b)"

abbreviation setter_at :: "backend \<Rightarrow> nat \<Rightarrow> channel" where
  "setter_at st b \<equiv> std_channel (st_setters st ! b)"

definition adapter_entry :: "ServiceId set \<Rightarrow> backend \<Rightarrow> AdapterId \<Rightarrow> adapter_data \<Rightarrow> bool" where
  "adapter_entry X st k ad \<longleftrightarrow>
     adapter_id (ad_adapter ad) = k \<and> hm_ok (ad_services ad) \<and>
     (\<forall>s a. s \<notin> X \<longrightarrow> hm_get (ad_services ad) s = Some a \<longrightarrow>
        hm_get (service_by_id st) s = Some a \<and> sd_adapter (service_at st a) = k)"

definition adapters_inv :: "ServiceId set \<Rightarrow> backend \<Rightarrow> bool" where
  "adapters_inv X st \<longleftrightarrow> hm_ok (adapter_by_id st) \<and>
     (\<forall>k ad. hm_get (adapter_by_id st) k = Some ad \<longrightarrow> adapter_entry X st k ad)"

definition service_entry :: "ServiceId set \<Rightarrow> backend \<Rightarrow> ServiceId \<Rightarrow> nat \<Rightarrow> bool" where
  "service_entry X st s a \<longleftrightarrow>
     a < length (st_services st) \<and> sd_id (service_at st a) = s \<and>
     sd_tags (service_at st a) < length (st_tags st) \<and>
     hm_ok (sd_getters (service_at st a)) \<and> hm_ok (sd_setters (service_at st a)) \<and>
     (s \<notin> X \<longrightarrow> (\<exists>ad. hm_get (adapter_by_id st) (sd_adapter (service_at st a)) = Some ad \<and>
                     hm_get (ad_services ad) s = Some a))"

definition services_inv :: "ServiceId set \<Rightarrow> backend \<Rightarrow> bool" where
  "services_inv X st \<longleftrightarrow> hm_ok (service_by_id st) \<and>
     (\<forall>s a. hm_get (service_by_id st) s = Some a \<longrightarrow> service_entry X st s a) \<and>
     (\<forall>s a s' a'. hm_get (service_by_id st) s = Some a \<longrightarrow> hm_get (service_by_id st) s' = Some a' \<longrightarrow>
        sd_tags (service_at st a) = sd_tags (service_at st a') \<longrightarrow> s = s')"

definition getter_entry :: "backend \<Rightarrow> string \<Rightarrow> nat \<Rightarrow> bool" where
  "getter_entry st g b \<longleftrightarrow>
     b < length (st_getters st) \<and> ch_id (getter_at st b) = g \<and>
     (\<exists>a. hm_get (service_by_id st) (ch_service (getter_at st b)) = Some a \<and>
          hm_get (sd_getters (service_at st a)) g = Some b \<and>
          sd_adapter (service_at st a) = ch_adapter (getter_at st b) \<and>
          sd_tags (service_at st a) = gd_service_tags (st_getters st ! b))"

definition getters_inv :: "backend \<Rightarrow> bool" where
  "getters_inv st \<longleftrightarrow> hm_ok (getter_by_id st) \<and>
     (\<forall>g b. hm_get (getter_by_id st) g = Some b \<longrightarrow> getter_entry st g b) \<and>
     (\<forall>s a g b. hm_get (service_by_id st) s = Some a \<longrightarrow>
        hm_get (sd_getters (service_at st a)) g = Some b \<longrightarrow>
        hm_get (getter_by_id st) g = Some b \<and> ch_service (getter_at st b) = s)"

definition setter_entry :: "backend \<Rightarrow> string \<Rightarrow> nat \<Rightarrow> bool" where
  "setter_entry st g b \<longleftrightarrow>
     b < length (st_setters st) \<and> ch_id (setter_at st b) = g \<and>
     (\<exists>a. hm_get (service_by_id st) (ch_service (setter_at st b)) = Some a \<and>
          hm_get (sd_setters (service_at st a)) g = Some b \<and>
          sd_adapter (service_at st a) = ch_adapter (setter_at st b) \<and>
          sd_tags (service_at st a) = std_service_tags (st_setters st ! b))"

definition setters_inv :: "backend \<Rightarrow> bool" where
  "setters_inv st \<longleftrightarrow> hm_ok (setter_by_id st) \<and>
     (\<forall>g b. hm_get (setter_by_id st) g = Some b \<longrightarrow> setter_entry st g b) \<and>
     (\<forall>s a g b. hm_get (service_by_id st) s = Some a \<longrightarrow>
        hm_get (sd_setters (service_at st a)) g = Some b \<longrightarrow>
        hm_get (setter_by_id st) g = Some b \<and> ch_service (setter_at st b) = s)"

definition registry_inv_except :: "ServiceId set \<Rightarrow> backend \<Rightarrow> bool" where
  "registry_inv_except X st \<longleftrightarrow>
     adapters_inv X st \<and> services_inv X st \<and> getters_inv st \<and> setters_inv st"

definition registry_inv :: "backend \<Rightarrow> bool" where
  "registry_inv st \<longleftrightarrow> registry_inv_except {} st"

definition watchers_inv :: "backend \<Rightarrow> bool" where
  "watchers_inv st \<longleftrightarrow> hm_ok (wm_watchers st) \<and>
     (\<forall>k w. hm_get (wm_watchers st) k = Some w \<longrightarrow> wd_key w = k \<and> k < wm_counter st) \<and>
     (\<forall>gd \<in> set (st_getters st). hm_ok (gd_watchers gd) \<and>
        (\<forall>k w. hm_get (gd_watchers gd) k = Some w \<longrightarrow> w = k \<and> k < wm_counter st))"

definition backend_inv :: "backend \<Rightarrow> bool" where
  "backend_inv st \<longleftrightarrow> registry_inv st \<and> watchers_inv st"

lemmas entry_defs = adapter_entry_def service_entry_def getter_entry_def setter_entry_def

lemma registry_inv_exceptI:
  assumes "hm_ok (adapter_by_id st)" "hm_ok (service_by_id st)" "hm_ok (getter_by_id st)"
    "hm_ok (setter_by_id st)"
    and "\<And>k ad. hm_get (adapter_by_id st) k = Some ad \<Longrightarrow> adapter_entry X st k ad"
    and "\<And>s a. hm_get (service_by_id st) s = Some a \<Longrightarrow> service_entry X st s a"
    and "\<And>s a s' a'. hm_get (service_by_id st) s = Some a \<Longrightarrow> hm_get (service_by_id st) s' = Some a' \<Longrightarrow>
        sd_tags (service_at st a) = sd_tags (service_at st a') \<Longrightarrow> s = s'"
    and "\<And>g b. hm_get (getter_by_id st) g = Some b \<Longrightarrow> getter_entry st g b"
    and "\<And>s a g b. hm_get (service_by_id st) s = Some a \<Longrightarrow>
        hm_get (sd_getters (service_at st a)) g = Some b \<Longrightarrow>
        hm_get (getter_by_id st) g = Some b \<and> ch_service (getter_at st b) = s"
    and "\<And>g b. hm_get (setter_by_id st) g = Some b \<Longrightarrow> setter_entry st g b"
    and "\<And>s a g b. hm_get (service_by_id st) s = Some a \<Longrightarrow>
        hm_get (sd_setters (service_at st a)) g = Some b \<Longrightarrow>
        hm_get (setter_by_id st) g = Some b \<and> ch_service (setter_at st b) = s"
  shows "registry_inv_except X st"
  unfolding registry_inv_except_def adapters_inv_def services_inv_def getters_inv_def setters_inv_def
  using assms by auto

lemma registry_inv_exceptD:
  assumes "registry_inv_except X st"
  shows "hm_ok (adapter_by_id st)" "hm_ok (service_by_id st)" "hm_ok (getter_by_id st)"
    "hm_ok (setter_by_id st)"
    and "hm_get (adapter_by_id st) k = Some ad \<Longrightarrow> adapter_entry X st k ad"
    and "hm_get (service_by_id st) s = Some a \<Longrightarrow> service_entry X st s a"
    and "hm_get (service_by_id st) s = Some a \<Longrightarrow> hm_get (service_by_id st) s' = Some a' \<Longrightarrow>
        sd_tags (service_at st a) = sd_tags (service_at st a') \<Longrightarrow> s = s'"
    and "hm_get (getter_by_id st) g = Some b \<Longrightarrow> getter_entry st g b"
    and "hm_get (service_by_id st) s = Some a \<Longrightarrow> hm_get (sd_getters (service_at st a)) g = Some b \<Longrightarrow>
        hm_get (getter_by_id st) g = Some b \<and> ch_service (getter_at st b) = s"
    and "hm_get (setter_by_id st) g = Some b \<Longrightarrow> setter_entry st g b"
    and "hm_get (service_by_id st) s = Some a \<Longrightarrow> hm_get (sd_setters (service_at st a)) g = Some b \<Longrightarrow>
        hm_get (setter_by_id st) g = Some b \<and> ch_service (setter_at st b) = s"
  using assms
  unfolding registry_inv_except_def adapters_inv_def services_inv_def getters_inv_def setters_inv_def
  by blast+

lemmas registry_invD = registry_inv_exceptD [of "{}", folded registry_inv_def]

lemma getter_entry_transfer:
  assumes "getter_entry st g b" "st_getters st' ! b = st_getters st ! b"
    "length (st_getters st) \<le> length (st_getters st')"
    and "\<And>s a. s = ch_service (getter_at st b) \<Longrightarrow> hm_get (service_by_id st) s = Some a \<Longrightarrow>
      hm_get (sd_getters (service_at st a)) g = Some b \<Longrightarrow>
      hm_get (service_by_id st') s = Some a \<and> hm_get (sd_getters (service_at st' a)) g = Some b \<and>
      sd_adapter (service_at st' a) = sd_adapter (service_at st a) \<and>
      sd_tags (service_at st' a) = sd_tags (service_at st a)"
  shows "getter_entry st' g b"
  using assms by (fastforce simp: getter_entry_def)

lemma setter_entry_transfer:
  assumes "setter_entry st g b" "st_setters st' ! b = st_setters st ! b"
    "length (st_setters st) \<le> length (st_setters st')"
    and "\<And>s a. s = ch_service (setter_at st b) \<Longrightarrow> hm_get (service_by_id st) s = Some a \<Longrightarrow>
      hm_get (sd_setters (service_at st a)) g = Some b \<Longrightarrow>
      hm_get (service_by_id st') s = Some a \<and> hm_get (sd_setters (service_at st' a)) g = Some b \<and>
      sd_adapter (service_at st' a) = sd_adapter (service_at st a) \<and>
      sd_tags (service_at st' a) = sd_tags (service_at st a)"
  shows "setter_entry st' g b"
  using assms by (fastforce simp: setter_entry_def)

section \<open>Changes that leave the registry alone\<close>

text \<open>The part of a channel the registry depends on, and the states that agree on all of it.\<close>

definition channel_link :: "channel \<Rightarrow> string \<times> ServiceId \<times> AdapterId \<times> ChannelKind" where
  "channel_link c = (ch_id c, ch_service c, ch_adapter c, ch_kind c)"

definition same_registry :: "backend \<Rightarrow> backend \<Rightarrow> bool" where
  "same_registry st st' \<longleftrightarrow>
     adapter_by_id st' = adapter_by_id st \<and> service_by_id st' = service_by_id st \<and>
     getter_by_id st' = getter_by_id st \<and> setter_by_id st' = setter_by_id st \<and>
     st_services st' = st_services st \<and> length (st_tags st') = length (st_tags st) \<and>
     map (\<lambda>d. (channel_link (gd_channel d), gd_service_tags d)) (st_getters st') =
       map (\<lambda>d. (channel_link (gd_channel d), gd_service_tags d)) (st_getters st) \<and>
     map (\<lambda>d. (channel_link (std_channel d), std_service_tags d)) (st_setters st') =
       map (\<lambda>d. (channel_link (std_channel d), std_service_tags d)) (st_setters st)"

lemma same_registry_refl [simp, intro]: "same_registry st st"
  by (simp add: same_registry_def)

lemma same_registry_trans [trans]:
  "same_registry st1 st2 \<Longrightarrow> same_registry st2 st3 \<Longrightarrow> same_registry st1 st3"
  by (simp add: same_registry_def)

lemma same_registry_getters:
  assumes "same_registry st st'"
  shows "length (st_getters st') = length (st_getters st)"
    and "b < length (st_getters st) \<Longrightarrow>
      channel_link (getter_at st' b) = channel_link (getter_at st b) \<and>
      gd_service_tags (st_getters st' ! b) = gd_service_tags (st_getters st ! b)"
proof -
  from assms have eq: "map (\<lambda>d. (channel_link (gd_channel d), gd_service_tags d)) (st_getters st') =
    map (\<lambda>d. (channel_link (gd_channel d), gd_service_tags d)) (st_getters st)"
    by (simp add: same_registry_def)
  from arg_cong [OF eq, of length] show len: "length (st_getters st') = length (st_getters st)" by simp
  show "b < length (st_getters st) \<Longrightarrow>
      channel_link (getter_at st' b) = channel_link (getter_at st b) \<and>
      gd_service_tags (st_getters st' ! b) = gd_service_tags (st_getters st ! b)"
    using arg_cong [OF eq, of "\<lambda>l. l ! b"] by (simp add: len)
qed

lemma same_registry_setters:
  assumes "same_registry st st'"
  shows "length (st_setters st') = length (st_setters st)"
    and "b < length (st_setters st) \<Longrightarrow>
      channel_link (setter_at st' b) = channel_link (setter_at st b) \<and>
      std_service_tags (st_setters st' ! b) = std_service_tags (st_setters st ! b)"
proof -
  from assms have eq: "map (\<lambda>d. (channel_link (std_channel d), std_service_tags d)) (st_setters st') =
    map (\<lambda>d. (channel_link (std_channel d), std_service_tags d)) (st_setters st)"
    by (simp add: same_registry_def)
  from arg_cong [OF eq, of length] show len: "length (st_setters st') = length (st_setters st)" by simp
  show "b < length (st_setters st) \<Longrightarrow>
      channel_link (setter_at st' b) = channel_link (setter_at st b) \<and>
      std_service_tags (st_setters st' ! b) = std_service_tags (st_setters st ! b)"
    using arg_cong [OF eq, of "\<lambda>l. l ! b"] by (simp add: len)
qed

lemma same_registry_sym: "same_registry st st' \<Longrightarrow> same_registry st' st"
  by (simp add: same_registry_def)

lemma same_registry_getters_inv:
  assumes same: "same_registry st st'" and inv: "getters_inv st"
  shows "getters_inv st'"
proof -
  have maps: "adapter_by_id st' = adapter_by_id st" "service_by_id st' = service_by_id st"
    "getter_by_id st' = getter_by_id st" "st_services st' = st_services st"
    using same by (simp_all add: same_registry_def)
  have at: "ch_id (getter_at st' b) = ch_id (getter_at st b)"
    "ch_service (getter_at st' b) = ch_service (getter_at st b)"
    "ch_adapter (getter_at st' b) = ch_adapter (getter_at st b)"
    "gd_service_tags (st_getters st' ! b) = gd_service_tags (st_getters st ! b)"
    if "hm_get (getter_by_id st) g = Some b" for g b
    using same_registry_getters(2) [OF same, of b] inv that
    by (simp_all add: getters_inv_def getter_entry_def channel_link_def)
  have "getter_entry st' g b" if "hm_get (getter_by_id st) g = Some b" for g b
    using inv that at [OF that] same_registry_getters(1) [OF same]
    by (simp add: getters_inv_def getter_entry_def maps)
  moreover have "hm_get (getter_by_id st) g = Some b \<and> ch_service (getter_at st' b) = s"
    if "hm_get (service_by_id st) s = Some a" "hm_get (sd_getters (service_at st a)) g = Some b" for s a g b
    using inv that at(2) [of g b] by (auto simp: getters_inv_def)
  ultimately show ?thesis
    using inv by (simp add: getters_inv_def maps)
qed

lemma same_registry_setters_inv:
  assumes same: "same_registry st st'" and inv: "setters_inv st"
  shows "setters_inv st'"
proof -
  have maps: "adapter_by_id st' = adapter_by_id st" "service_by_id st' = service_by_id st"
    "setter_by_id st' = setter_by_id st" "st_services st' = st_services st"
    using same by (simp_all add: same_registry_def)
  have at: "ch_id (setter_at st' b) = ch_id (setter_at st b)"
    "ch_service (setter_at st' b) = ch_service (setter_at st b)"
    "ch_adapter (setter_at st' b) = ch_adapter (setter_at st b)"
    "std_service_tags (st_setters st' ! b) = std_service_tags (st_setters st ! b)"
    if "hm_get (setter_by_id st) g = Some b" for g b
    using same_registry_setters(2) [OF same, of b] inv that
    by (simp_all add: setters_inv_def setter_entry_def channel_link_def)
  have "setter_entry st' g b" if "hm_get (setter_by_id st) g = Some b" for g b
    using inv that at [OF that] same_registry_setters(1) [OF same]
    by (simp add: setters_inv_def setter_entry_def maps)
  moreover have "hm_get (setter_by_id st) g = Some b \<and> ch_service (setter_at st' b) = s"
    if "hm_get (service_by_id st) s = Some a" "hm_get (sd_setters (service_at st a)) g = Some b" for s a g b
    using inv that at(2) [of g b] by (auto simp: setters_inv_def)
  ultimately show ?thesis
    using inv by (simp add: setters_inv_def maps)
qed

lemma same_registry_inv:
  assumes "same_registry st st'" "registry_inv st"
  shows "registry_inv st'"
  using assms same_registry_getters_inv [OF assms(1)] same_registry_setters_inv [OF assms(1)]
  unfolding registry_inv_def registry_inv_except_def adapters_inv_def services_inv_def
    adapter_entry_def service_entry_def
  by (simp add: same_registry_def)

section \<open>Registering and unregistering\<close>

lemma hm_has_iff: "hm_has m k \<longleftrightarrow> (\<exists>v. hm_get m k = Some v)"
  by (auto simp: hm_has_def)

lemma insert_in_map_one:
  "insert_in_map_start m [(k, v)] =
     (if hm_has m k then (Inl k, m)
      else (Inr \<lparr>iim_committed = False, iim_keys = [k]\<rparr>, hm_insert k v m))"
  by (simp add: insert_in_map_single hm_insert_fresh hm_has_def)

lemma insert_in_map_drop_one:
  "\<not> hm_has m k \<Longrightarrow>
   insert_in_map_drop \<lparr>iim_committed = False, iim_keys = [k]\<rparr> (hm_insert k v m) = m"
  by (simp add: insert_in_map_drop_def hm_remove_insert_fresh hm_has_def)

lemmas transact_simps = insert_in_map_one insert_in_map_drop_one

lemma noop_updates [simp]:
  "ad\<lparr>ad_services := ad_services ad\<rparr> = ad"
  "sd\<lparr>sd_getters := sd_getters sd\<rparr> = sd"
  "sd\<lparr>sd_setters := sd_setters sd\<rparr> = sd"
  by simp_all

lemma insert_getter_result:
  "insert_getter c st =
     (case hm_get (service_by_id st) (ch_service c) of
        None \<Rightarrow> (Inl (ErrInternal (NoSuchService (ch_service c))), st)
      | Some sa \<Rightarrow>
          if sd_adapter (service_at st sa) \<noteq> ch_adapter c
          then (Inl (ErrInternal (ConflictingAdapter (sd_adapter (service_at st sa)) (ch_adapter c))), st)
          else if hm_has (sd_getters (service_at st sa)) (ch_id c) \<or> hm_has (getter_by_id st) (ch_id c)
          then (Inl (ErrInternal (DuplicateGetter (ch_id c))), st)
          else (Inr (), st\<lparr>
            st_services := (st_services st)[sa := (service_at st sa)\<lparr>sd_getters :=
              hm_insert (ch_id c) (length (st_getters st)) (sd_getters (service_at st sa))\<rparr>],
            getter_by_id := hm_insert (ch_id c) (length (st_getters st)) (getter_by_id st),
            st_getters := st_getters st @ [getter_data_new c (sd_tags (service_at st sa))]\<rparr>))"
  by (simp add: insert_getter_def Let_def transact_simps split: option.split)

lemma insert_setter_result:
  "insert_setter c st =
     (case hm_get (service_by_id st) (ch_service c) of
        None \<Rightarrow> (Inl (ErrInternal (NoSuchService (ch_service c))), st)
      | Some sa \<Rightarrow>
          if sd_adapter (service_at st sa) \<noteq> ch_adapter c
          then (Inl (ErrInternal (ConflictingAdapter (sd_adapter (service_at st sa)) (ch_adapter c))), st)
          else if hm_has (sd_setters (service_at st sa)) (ch_id c) \<or> hm_has (setter_by_id st) (ch_id c)
          then (Inl (ErrInternal (DuplicateSetter (ch_id c))), st)
          else (Inr (), st\<lparr>
            st_services := (st_services st)[sa := (service_at st sa)\<lparr>sd_setters :=
              hm_insert (ch_id c) (length (st_setters st)) (sd_setters (service_at st sa))\<rparr>],
            setter_by_id := hm_insert (ch_id c) (length (st_setters st)) (setter_by_id st),
            st_setters := st_setters st @ [setter_data_new c (sd_tags (service_at st sa))]\<rparr>))"
  by (simp add: insert_setter_def Let_def transact_simps split: option.split)

lemma hm_insert_same: "hm_get m k = Some v \<Longrightarrow> hm_insert k v m = m"
  by (induction m) (auto split: if_splits)

text \<open>\<open>add_service\<close> once the tags are known.\<close>

definition install_service :: "TagId hashset \<Rightarrow> service \<Rightarrow> backend \<Rightarrow> (Error + unit) \<times> backend" where
  "install_service tags service st =
     (case hm_get (adapter_by_id st) (svc_adapter service) of
        None \<Rightarrow> (Inl (ErrInternal (NoSuchAdapter (svc_adapter service))), st)
      | Some ad \<Rightarrow>
          if hm_has (ad_services ad) (svc_id service) \<or> hm_has (service_by_id st) (svc_id service)
          then (Inl (ErrInternal (DuplicateService (svc_id service))), st)
          else (Inr (), st\<lparr>
            adapter_by_id := hm_insert (svc_adapter service) (ad\<lparr>ad_services :=
              hm_insert (svc_id service) (length (st_services st)) (ad_services ad)\<rparr>) (adapter_by_id st),
            service_by_id := hm_insert (svc_id service) (length (st_services st)) (service_by_id st),
            st_services := st_services st @ [service_data_new (length (st_tags st)) service],
            st_tags := st_tags st @ [tags]\<rparr>))"

lemma add_service_result:
  "add_service service st =
     (if svc_getters service \<noteq> [] \<or> svc_setters service \<noteq> []
      then Done (Inl (ErrInternal InvalidInitialService), st)
      else if \<not> hm_has (adapter_by_id st) (svc_adapter service)
      then Done (Inl (ErrInternal (NoSuchAdapter (svc_adapter service))), st)
      else case st_db st of
        None \<Rightarrow> Done (install_service (svc_tags service) service st)
      | Some path \<Rightarrow>
          bind_outcome (get_tags_for (svc_id service) (tag_storage_new path)) (\<lambda>(r, store).
            case r of
              Inl err \<Rightarrow> Done (Inl (ErrInternal (GenericError err)), st\<lparr>st_db := Some (ts_db store)\<rparr>)
            | Inr tags \<Rightarrow> Done (install_service (merge_tags (svc_tags service) tags) service
                            (st\<lparr>st_db := Some (ts_db store)\<rparr>))))"
proof -
  have eq: "bind_outcome m (\<lambda>(r, store). f r store) = bind_outcome m (\<lambda>(r, store). g r store)"
    if "\<And>r store. f r store = g r store" for m f g
    using that by (cases m) auto
  show ?thesis
    by (cases "hm_get (adapter_by_id st) (svc_adapter service)"; cases "st_db st")
      (auto simp: add_service_def install_service_def service_data_new_def Let_def transact_simps
        hm_has_def hm_insert_same intro!: eq split: sum.split)
qed

lemma backend_new_inv: "registry_inv (backend_new db)"
  unfolding registry_inv_def by (rule registry_inv_exceptI) (simp_all add: backend_new_def)

lemma add_adapter_registry:
  assumes inv: "registry_inv st" and step: "add_adapter ad st = (r, st')"
  shows "registry_inv st'"
proof (cases "hm_get (adapter_by_id st) (adapter_id ad)")
  case None
  then have st': "st' = st\<lparr>adapter_by_id :=
      hm_insert (adapter_id ad) (adapter_data_new ad) (adapter_by_id st)\<rparr>"
    using step by (simp add: add_adapter_def)
  note D = registry_invD [OF inv]
  show ?thesis
    unfolding registry_inv_def
  proof (rule registry_inv_exceptI)
    fix k ad' assume "hm_get (adapter_by_id st') k = Some ad'"
    then show "adapter_entry {} st' k ad'"
      using D(5) [of k ad'] by (auto simp: st' adapter_entry_def adapter_data_new_def split: if_splits)
  next
    fix s a assume "hm_get (service_by_id st') s = Some a"
    then show "service_entry {} st' s a"
      using D(6) [of s a] None by (auto simp: st' service_entry_def)
  qed (use D in \<open>auto simp: st' getter_entry_def setter_entry_def\<close>)
next
  case (Some a)
  with inv step show ?thesis by (simp add: add_adapter_def)
qed

lemma install_service_registry:
  assumes inv: "registry_inv st" and step: "install_service tags service st = (r, st')"
  shows "registry_inv st'"
proof (cases "is_ok r")
  case True
  define n where "n = length (st_services st)"
  have "hm_get (adapter_by_id st) (svc_adapter service) \<noteq> None"
    using step True by (cases "hm_get (adapter_by_id st) (svc_adapter service)") (auto simp: install_service_def)
  then obtain ad where ad: "hm_get (adapter_by_id st) (svc_adapter service) = Some ad" by blast
  have "\<not> (hm_has (ad_services ad) (svc_id service) \<or> hm_has (service_by_id st) (svc_id service))"
    using step True ad
    by (cases "hm_has (ad_services ad) (svc_id service) \<or> hm_has (service_by_id st) (svc_id service)")
      (auto simp: install_service_def)
  then have fresh: "hm_get (ad_services ad) (svc_id service) = None" "hm_get (service_by_id st) (svc_id service) = None"
    by (simp_all add: hm_has_def)
  have st': "st' = st\<lparr>
            adapter_by_id := hm_insert (svc_adapter service) (ad\<lparr>ad_services :=
              hm_insert (svc_id service) n (ad_services ad)\<rparr>) (adapter_by_id st),
            service_by_id := hm_insert (svc_id service) n (service_by_id st),
            st_services := st_services st @ [service_data_new (length (st_tags st)) service],
            st_tags := st_tags st @ [tags]\<rparr>"
    using step ad fresh by (simp add: n_def install_service_def hm_has_def)
  note D = registry_invD [OF inv]
  have old: "a < n \<and> service_at st' a = service_at st a \<and> sd_tags (service_at st a) < length (st_tags st)"
    if "hm_get (service_by_id st) s = Some a" for s a
    using D(6) [OF that] by (simp add: service_entry_def st' n_def nth_append)
  have proj: "getter_by_id st' = getter_by_id st" "setter_by_id st' = setter_by_id st"
    "st_getters st' = st_getters st" "st_setters st' = st_setters st"
    "length (st_services st') = Suc n" "length (st_tags st') = Suc (length (st_tags st))"
    by (simp_all add: st' n_def)
  have new: "service_at st' n = service_data_new (length (st_tags st)) service"
    by (simp add: st' n_def)
  have get: "hm_get (service_by_id st') s = (if s = svc_id service then Some n else hm_get (service_by_id st) s)" for s
    by (simp add: st')
  show ?thesis
    unfolding registry_inv_def
  proof (rule registry_inv_exceptI)
    fix k ad' assume k: "hm_get (adapter_by_id st') k = Some ad'"
    show "adapter_entry {} st' k ad'"
    proof (cases "k = svc_adapter service")
      case True
      with k have "ad' = ad\<lparr>ad_services := hm_insert (svc_id service) n (ad_services ad)\<rparr>" by (simp add: st')
      moreover have "sd_adapter (service_at st' a) = k \<and> hm_get (service_by_id st) s = Some a"
        if "hm_get (ad_services ad) s = Some a" for s a
        using D(5) [OF ad] old [of s a] that True by (simp add: adapter_entry_def)
      ultimately show ?thesis
        using D(5) [OF ad] new True by (auto simp: adapter_entry_def get service_data_new_def)
    next
      case False
      with k have "hm_get (adapter_by_id st) k = Some ad'" by (simp add: st')
      note entry = D(5) [OF this]
      have "sd_adapter (service_at st' a) = k \<and> hm_get (service_by_id st) s = Some a"
        if "hm_get (ad_services ad') s = Some a" for s a
        using entry old [of s a] that by (simp add: adapter_entry_def)
      with entry fresh(2) show ?thesis by (auto simp: adapter_entry_def get)
    qed
  next
    fix s a assume s: "hm_get (service_by_id st') s = Some a"
    show "service_entry {} st' s a"
    proof (cases "s = svc_id service")
      case True
      with s have "a = n" by (simp add: get)
      with True new show ?thesis by (simp add: service_entry_def service_data_new_def) (simp add: st' n_def)
    next
      case False
      with s have old_s: "hm_get (service_by_id st) s = Some a" by (simp add: get)
      from D(6) [OF old_s] obtain ad' where "hm_get (adapter_by_id st) (sd_adapter (service_at st a)) = Some ad'"
        "hm_get (ad_services ad') s = Some a" by (auto simp: service_entry_def)
      with ad False have "\<exists>ad. hm_get (adapter_by_id st') (sd_adapter (service_at st a)) = Some ad \<and>
          hm_get (ad_services ad) s = Some a" by (auto simp: st')
      with D(6) [OF old_s] old [OF old_s] show ?thesis by (simp add: service_entry_def proj)
    qed
  next
    fix s a s' a' assume "hm_get (service_by_id st') s = Some a" "hm_get (service_by_id st') s' = Some a'"
      "sd_tags (service_at st' a) = sd_tags (service_at st' a')"
    then show "s = s'"
      using old [of s a] old [of s' a'] new D(7)
      by (cases "s = svc_id service"; cases "s' = svc_id service")
        (fastforce simp: get service_data_new_def)+
  next
    fix g b assume "hm_get (getter_by_id st') g = Some b"
    then have "getter_entry st g b" using D(8) [of g b] by (simp add: proj)
    then show "getter_entry st' g b"
      by (rule getter_entry_transfer) (use old fresh(2) in \<open>auto simp: proj get\<close>)
  next
    fix s a g b assume "hm_get (service_by_id st') s = Some a" "hm_get (sd_getters (service_at st' a)) g = Some b"
    then show "hm_get (getter_by_id st') g = Some b \<and> ch_service (getter_at st' b) = s"
      using D(9) [of s a g b] old [of s a] new
      by (simp add: get service_data_new_def proj split: if_splits)
  next
    fix g b assume "hm_get (setter_by_id st') g = Some b"
    then have "setter_entry st g b" using D(10) [of g b] by (simp add: proj)
    then show "setter_entry st' g b"
      by (rule setter_entry_transfer) (use old fresh(2) in \<open>auto simp: proj get\<close>)
  next
    fix s a g b assume "hm_get (service_by_id st') s = Some a" "hm_get (sd_setters (service_at st' a)) g = Some b"
    then show "hm_get (setter_by_id st') g = Some b \<and> ch_service (setter_at st' b) = s"
      using D(11) [of s a g b] old [of s a] new
      by (simp add: get service_data_new_def proj split: if_splits)
  qed (use D in \<open>auto simp: st'\<close>)
next
  case False
  with inv step show ?thesis by (auto simp: install_service_def split: option.splits if_splits)
qed

lemma insert_getter_registry:
  assumes inv: "registry_inv st" and step: "insert_getter c st = (r, st')"
  shows "registry_inv st'"
proof (cases "st' = st")
  case True
  with inv show ?thesis by simp
next
  case False
  define n where "n = length (st_getters st)"
  have "hm_get (service_by_id st) (ch_service c) \<noteq> None"
    using step False by (cases "hm_get (service_by_id st) (ch_service c)") (simp_all add: insert_getter_result)
  then obtain sa where sa: "hm_get (service_by_id st) (ch_service c) = Some sa" by blast
  have ok: "sd_adapter (service_at st sa) = ch_adapter c"
    "hm_get (sd_getters (service_at st sa)) (ch_id c) = None" "hm_get (getter_by_id st) (ch_id c) = None"
    using step False sa by (auto simp: insert_getter_result hm_has_def split: if_splits)
  have st': "st' = st\<lparr>
      st_services := (st_services st)[sa := (service_at st sa)\<lparr>sd_getters :=
        hm_insert (ch_id c) n (sd_getters (service_at st sa))\<rparr>],
      getter_by_id := hm_insert (ch_id c) n (getter_by_id st),
      st_getters := st_getters st @ [getter_data_new c (sd_tags (service_at st sa))]\<rparr>"
    using step sa ok by (simp add: insert_getter_result hm_has_def n_def)
  note D = registry_invD [OF inv]
  have sa_len: "sa < length (st_services st)" "sd_id (service_at st sa) = ch_service c"
    using D(6) [OF sa] by (simp_all add: service_entry_def)
  have at: "sd_id (service_at st' a) = sd_id (service_at st a)"
    "sd_tags (service_at st' a) = sd_tags (service_at st a)"
    "sd_adapter (service_at st' a) = sd_adapter (service_at st a)"
    "sd_setters (service_at st' a) = sd_setters (service_at st a)"
    "sd_getters (service_at st' a) =
       (if a = sa then hm_insert (ch_id c) n (sd_getters (service_at st a)) else sd_getters (service_at st a))" for a
    using sa_len by (simp_all add: st' nth_list_update)
  have proj: "adapter_by_id st' = adapter_by_id st" "service_by_id st' = service_by_id st"
    "setter_by_id st' = setter_by_id st" "st_setters st' = st_setters st" "st_tags st' = st_tags st"
    "getter_by_id st' = hm_insert (ch_id c) n (getter_by_id st)"
    "length (st_services st') = length (st_services st)" "length (st_getters st') = Suc n"
    by (simp_all add: st' n_def)
  have old: "st_getters st' ! b = st_getters st ! b" if "b < n" for b
    using that by (simp add: st' n_def nth_append)
  have new: "st_getters st' ! n = getter_data_new c (sd_tags (service_at st sa))"
    by (simp add: st' n_def)
  have mine: "a = sa" if "hm_get (service_by_id st) (ch_service c) = Some a" for a
    using that sa by simp
  have less: "b < n" if "hm_get (getter_by_id st) g = Some b" for g b
    using D(8) [OF that] by (simp add: getter_entry_def n_def)
  show ?thesis
    unfolding registry_inv_def
  proof (rule registry_inv_exceptI)
    fix k ad assume "hm_get (adapter_by_id st') k = Some ad"
    then show "adapter_entry {} st' k ad"
      using D(5) [of k ad] by (auto simp: adapter_entry_def proj at)
  next
    fix s a assume "hm_get (service_by_id st') s = Some a"
    then show "service_entry {} st' s a"
      using D(6) [of s a] by (auto simp: service_entry_def proj at)
  next
    fix s a s' a' assume "hm_get (service_by_id st') s = Some a" "hm_get (service_by_id st') s' = Some a'"
      "sd_tags (service_at st' a) = sd_tags (service_at st' a')"
    then show "s = s'"
      unfolding proj at by (rule D(7))
  next
    fix g b assume g: "hm_get (getter_by_id st') g = Some b"
    show "getter_entry st' g b"
    proof (cases "g = ch_id c")
      case True
      with g have "b = n" by (simp add: proj)
      with True new sa ok show ?thesis by (simp add: getter_entry_def getter_data_new_def proj at)
    next
      case False
      with g have g': "hm_get (getter_by_id st) g = Some b" by (simp add: proj)
      from D(8) [OF g'] show ?thesis
        by (rule getter_entry_transfer) (use False old [OF less [OF g']] in \<open>auto simp: proj at n_def\<close>)
    qed
  next
    fix s a g b assume a: "hm_get (service_by_id st') s = Some a" "hm_get (sd_getters (service_at st' a)) g = Some b"
    show "hm_get (getter_by_id st') g = Some b \<and> ch_service (getter_at st' b) = s"
    proof (cases "a = sa \<and> g = ch_id c")
      case True
      with a D(6) [of s a] sa_len have "b = n" "s = ch_service c" by (simp_all add: proj at service_entry_def)
      with True new show ?thesis by (simp add: proj getter_data_new_def)
    next
      case False
      with a have "hm_get (service_by_id st) s = Some a" "hm_get (sd_getters (service_at st a)) g = Some b"
        by (auto simp: proj at split: if_splits)
      note entry = D(9) [OF this]
      with ok have "g \<noteq> ch_id c" by auto
      with entry old [OF less, of g b] show ?thesis by (simp add: proj)
    qed
  next
    fix g b assume "hm_get (setter_by_id st') g = Some b"
    then have "setter_entry st g b" using D(10) [of g b] by (simp add: proj)
    then show "setter_entry st' g b"
      by (rule setter_entry_transfer) (simp_all add: proj at)
  next
    fix s a g b assume "hm_get (service_by_id st') s = Some a" "hm_get (sd_setters (service_at st' a)) g = Some b"
    then show "hm_get (setter_by_id st') g = Some b \<and> ch_service (setter_at st' b) = s"
      using D(11) [of s a g b] by (simp add: proj at)
  qed (use D(1-4) in \<open>auto simp: proj\<close>)
qed

lemma insert_setter_registry:
  assumes inv: "registry_inv st" and step: "insert_setter c st = (r, st')"
  shows "registry_inv st'"
proof (cases "st' = st")
  case True
  with inv show ?thesis by simp
next
  case False
  define n where "n = length (st_setters st)"
  have "hm_get (service_by_id st) (ch_service c) \<noteq> None"
    using step False by (cases "hm_get (service_by_id st) (ch_service c)") (simp_all add: insert_setter_result)
  then obtain sa where sa: "hm_get (service_by_id st) (ch_service c) = Some sa" by blast
  have ok: "sd_adapter (service_at st sa) = ch_adapter c"
    "hm_get (sd_setters (service_at st sa)) (ch_id c) = None" "hm_get (setter_by_id st) (ch_id c) = None"
    using step False sa by (auto simp: insert_setter_result hm_has_def split: if_splits)
  have st': "st' = st\<lparr>
      st_services := (st_services st)[sa := (service_at st sa)\<lparr>sd_setters :=
        hm_insert (ch_id c) n (sd_setters (service_at st sa))\<rparr>],
      setter_by_id := hm_insert (ch_id c) n (setter_by_id st),
      st_setters := st_setters st @ [setter_data_new c (sd_tags (service_at st sa))]\<rparr>"
    using step sa ok by (simp add: insert_setter_result hm_has_def n_def)
  note D = registry_invD [OF inv]
  have sa_len: "sa < length (st_services st)" "sd_id (service_at st sa) = ch_service c"
    using D(6) [OF sa] by (simp_all add: service_entry_def)
  have at: "sd_id (service_at st' a) = sd_id (service_at st a)"
    "sd_tags (service_at st' a) = sd_tags (service_at st a)"
    "sd_adapter (service_at st' a) = sd_adapter (service_at st a)"
    "sd_getters (service_at st' a) = sd_getters (service_at st a)"
    "sd_setters (service_at st' a) =
       (if a = sa then hm_insert (ch_id c) n (sd_setters (service_at st a)) else sd_setters (service_at st a))" for a
    using sa_len by (simp_all add: st' nth_list_update)
  have proj: "adapter_by_id st' = adapter_by_id st" "service_by_id st' = service_by_id st"
    "getter_by_id st' = getter_by_id st" "st_getters st' = st_getters st" "st_tags st' = st_tags st"
    "setter_by_id st' = hm_insert (ch_id c) n (setter_by_id st)"
    "length (st_services st') = length (st_services st)" "length (st_setters st') = Suc n"
    by (simp_all add: st' n_def)
  have old: "st_setters st' ! b = st_setters st ! b" if "b < n" for b
    using that by (simp add: st' n_def nth_append)
  have new: "st_setters st' ! n = setter_data_new c (sd_tags (service_at st sa))"
    by (simp add: st' n_def)
  have mine: "a = sa" if "hm_get (service_by_id st) (ch_service c) = Some a" for a
    using that sa by simp
  have less: "b < n" if "hm_get (setter_by_id st) g = Some b" for g b
    using D(10) [OF that] by (simp add: setter_entry_def n_def)
  show ?thesis
    unfolding registry_inv_def
  proof (rule registry_inv_exceptI)
    fix k ad assume "hm_get (adapter_by_id st') k = Some ad"
    then show "adapter_entry {} st' k ad"
      using D(5) [of k ad] by (auto simp: adapter_entry_def proj at)
  next
    fix s a assume "hm_get (service_by_id st') s = Some a"
    then show "service_entry {} st' s a"
      using D(6) [of s a] by (auto simp: service_entry_def proj at)
  next
    fix s a s' a' assume "hm_get (service_by_id st') s = Some a" "hm_get (service_by_id st') s' = Some a'"
      "sd_tags (service_at st' a) = sd_tags (service_at st' a')"
    then show "s = s'"
      unfolding proj at by (rule D(7))
  next
    fix g b assume g: "hm_get (setter_by_id st') g = Some b"
    show "setter_entry st' g b"
    proof (cases "g = ch_id c")
      case True
      with g have "b = n" by (simp add: proj)
      with True new sa ok show ?thesis by (simp add: setter_entry_def setter_data_new_def proj at)
    next
      case False
      with g have g': "hm_get (setter_by_id st) g = Some b" by (simp add: proj)
      from D(10) [OF g'] show ?thesis
        by (rule setter_entry_transfer) (use False old [OF less [OF g']] in \<open>auto simp: proj at n_def\<close>)
    qed
  next
    fix s a g b assume a: "hm_get (service_by_id st') s = Some a" "hm_get (sd_setters (service_at st' a)) g = Some b"
    show "hm_get (setter_by_id st') g = Some b \<and> ch_service (setter_at st' b) = s"
    proof (cases "a = sa \<and> g = ch_id c")
      case True
      with a D(6) [of s a] sa_len have "b = n" "s = ch_service c" by (simp_all add: proj at service_entry_def)
      with True new show ?thesis by (simp add: proj setter_data_new_def)
    next
      case False
      with a have "hm_get (service_by_id st) s = Some a" "hm_get (sd_setters (service_at st a)) g = Some b"
        by (auto simp: proj at split: if_splits)
      note entry = D(11) [OF this]
      with ok have "g \<noteq> ch_id c" by auto
      with entry old [OF less, of g b] show ?thesis by (simp add: proj)
    qed
  next
    fix g b assume "hm_get (getter_by_id st') g = Some b"
    then have "getter_entry st g b" using D(8) [of g b] by (simp add: proj)
    then show "getter_entry st' g b"
      by (rule getter_entry_transfer) (simp_all add: proj at)
  next
    fix s a g b assume "hm_get (service_by_id st') s = Some a" "hm_get (sd_getters (service_at st' a)) g = Some b"
    then show "hm_get (getter_by_id st') g = Some b \<and> ch_service (getter_at st' b) = s"
      using D(9) [of s a g b] by (simp add: proj at)
  qed (use D(1-4) in \<open>auto simp: proj\<close>)
qed

lemma aux_remove_service_registry:
  assumes inv: "registry_inv_except X st" and sa: "hm_get (service_by_id st) s0 = Some sa"
  shows "registry_inv_except (insert s0 X) (snd (aux_remove_service s0 st))"
proof -
  let ?st' = "snd (aux_remove_service s0 st)"
  define st' where "st' = ?st'"
  note D = registry_inv_exceptD [OF inv]
  have proj: "adapter_by_id st' = adapter_by_id st" "st_services st' = st_services st"
    "st_getters st' = st_getters st" "st_setters st' = st_setters st" "st_tags st' = st_tags st"
    using sa by (simp_all add: st'_def aux_remove_service_def Let_def)
  have services: "hm_get (service_by_id st') s = (if s = s0 then None else hm_get (service_by_id st) s)" for s
    using sa by (simp add: st'_def aux_remove_service_def Let_def)
  have getters: "hm_get (getter_by_id st') g =
      (if hm_has (sd_getters (service_at st sa)) g then None else hm_get (getter_by_id st) g)" for g
    using sa hm.get_fold_del [OF D(3)]
    by (auto simp: st'_def aux_remove_service_def Let_def hm_has_def map_of_eq_None_iff)
  have setters: "hm_get (setter_by_id st') g =
      (if hm_has (sd_setters (service_at st sa)) g then None else hm_get (setter_by_id st) g)" for g
    using sa hm.get_fold_del [OF D(4)]
    by (auto simp: st'_def aux_remove_service_def Let_def hm_has_def map_of_eq_None_iff)
  have "registry_inv_except (insert s0 X) st'"
  proof (rule registry_inv_exceptI)
    show "hm_ok (adapter_by_id st')" "hm_ok (service_by_id st')" "hm_ok (getter_by_id st')" "hm_ok (setter_by_id st')"
      using sa D(1-4) hm.ok_fold_del by (auto simp: st'_def aux_remove_service_def Let_def)
  next
    fix k ad assume "hm_get (adapter_by_id st') k = Some ad"
    then show "adapter_entry (insert s0 X) st' k ad"
      using D(5) [of k ad] by (auto simp: adapter_entry_def proj services)
  next
    fix s a assume "hm_get (service_by_id st') s = Some a"
    then show "service_entry (insert s0 X) st' s a"
      using D(6) [of s a] by (auto simp: service_entry_def proj services split: if_splits)
  next
    fix s a s' a' assume "hm_get (service_by_id st') s = Some a" "hm_get (service_by_id st') s' = Some a'"
      "sd_tags (service_at st' a) = sd_tags (service_at st' a')"
    then have "hm_get (service_by_id st) s = Some a" "hm_get (service_by_id st) s' = Some a'"
      "sd_tags (service_at st a) = sd_tags (service_at st a')"
      by (auto simp: services proj split: if_splits)
    then show "s = s'" by (rule D(7))
  next
    fix g b assume g: "hm_get (getter_by_id st') g = Some b"
    then have g': "hm_get (getter_by_id st) g = Some b" "hm_get (sd_getters (service_at st sa)) g = None"
      by (auto simp: getters hm_has_def split: if_splits)
    from D(8) [OF g'(1)] show "getter_entry st' g b"
    proof (rule getter_entry_transfer)
      fix s a assume "hm_get (service_by_id st) s = Some a" "hm_get (sd_getters (service_at st a)) g = Some b"
      moreover from this sa g'(2) have "s \<noteq> s0" by auto
      ultimately show "hm_get (service_by_id st') s = Some a \<and>
          hm_get (sd_getters (service_at st' a)) g = Some b \<and>
          sd_adapter (service_at st' a) = sd_adapter (service_at st a) \<and>
          sd_tags (service_at st' a) = sd_tags (service_at st a)"
        by (simp add: services proj)
    qed (simp_all add: proj)
  next
    fix s a g b assume a: "hm_get (service_by_id st') s = Some a" "hm_get (sd_getters (service_at st' a)) g = Some b"
    then have s: "s \<noteq> s0" "hm_get (service_by_id st) s = Some a" "hm_get (sd_getters (service_at st a)) g = Some b"
      by (auto simp: services proj split: if_splits)
    note entry = D(9) [OF s(2,3)]
    have "\<not> hm_has (sd_getters (service_at st sa)) g"
    proof
      assume "hm_has (sd_getters (service_at st sa)) g"
      then obtain b' where "hm_get (sd_getters (service_at st sa)) g = Some b'" by (auto simp: hm_has_def)
      from D(9) [OF sa this] entry s(1) show False by simp
    qed
    with entry show "hm_get (getter_by_id st') g = Some b \<and> ch_service (getter_at st' b) = s"
      by (simp add: getters proj)
  next
    fix g b assume g: "hm_get (setter_by_id st') g = Some b"
    then have g': "hm_get (setter_by_id st) g = Some b" "hm_get (sd_setters (service_at st sa)) g = None"
      by (auto simp: setters hm_has_def split: if_splits)
    from D(10) [OF g'(1)] show "setter_entry st' g b"
    proof (rule setter_entry_transfer)
      fix s a assume "hm_get (service_by_id st) s = Some a" "hm_get (sd_setters (service_at st a)) g = Some b"
      moreover from this sa g'(2) have "s \<noteq> s0" by auto
      ultimately show "hm_get (service_by_id st') s = Some a \<and>
          hm_get (sd_setters (service_at st' a)) g = Some b \<and>
          sd_adapter (service_at st' a) = sd_adapter (service_at st a) \<and>
          sd_tags (service_at st' a) = sd_tags (service_at st a)"
        by (simp add: services proj)
    qed (simp_all add: proj)
  next
    fix s a g b assume a: "hm_get (service_by_id st') s = Some a" "hm_get (sd_setters (service_at st' a)) g = Some b"
    then have s: "s \<noteq> s0" "hm_get (service_by_id st) s = Some a" "hm_get (sd_setters (service_at st a)) g = Some b"
      by (auto simp: services proj split: if_splits)
    note entry = D(11) [OF s(2,3)]
    have "\<not> hm_has (sd_setters (service_at st sa)) g"
    proof
      assume "hm_has (sd_setters (service_at st sa)) g"
      then obtain b' where "hm_get (sd_setters (service_at st sa)) g = Some b'" by (auto simp: hm_has_def)
      from D(11) [OF sa this] entry s(1) show False by simp
    qed
    with entry show "hm_get (setter_by_id st') g = Some b \<and> ch_service (setter_at st' b) = s"
      by (simp add: setters proj)
  qed
  then show ?thesis by (simp add: st'_def)
qed

lemma aux_remove_service_fields:
  "adapter_by_id (snd (aux_remove_service s st)) = adapter_by_id st"
  "st_services (snd (aux_remove_service s st)) = st_services st"
  "st_getters (snd (aux_remove_service s st)) = st_getters st"
  "st_setters (snd (aux_remove_service s st)) = st_setters st"
  "st_tags (snd (aux_remove_service s st)) = st_tags st"
  "wm_watchers (snd (aux_remove_service s st)) = wm_watchers st"
  "wm_counter (snd (aux_remove_service s st)) = wm_counter st"
  "hm_get (service_by_id (snd (aux_remove_service s st))) s' =
     (if s' = s then None else hm_get (service_by_id st) s')"
  by (simp_all add: aux_remove_service_def Let_def split: option.split)

text \<open>The exemptions can be dropped once nothing refers to the removed services.\<close>

lemma registry_inv_exceptE:
  assumes "registry_inv_except X st"
    and "\<And>s. s \<in> X \<Longrightarrow> hm_get (service_by_id st) s = None"
    and "\<And>s k ad. s \<in> X \<Longrightarrow> hm_get (adapter_by_id st) k = Some ad \<Longrightarrow> hm_get (ad_services ad) s = None"
  shows "registry_inv st"
  unfolding registry_inv_def
proof (rule registry_inv_exceptI)
  note D = registry_inv_exceptD [OF assms(1)]
  show "adapter_entry {} st k ad" if "hm_get (adapter_by_id st) k = Some ad" for k ad
    using D(5) [OF that] assms(3) [OF _ that] by (fastforce simp: adapter_entry_def)
  show "service_entry {} st s a" if "hm_get (service_by_id st) s = Some a" for s a
    using D(6) [OF that] assms(2) [of s] that by (auto simp: service_entry_def)
qed (use registry_inv_exceptD [OF assms(1)] in blast)+

lemma registry_inv_except_mono:
  assumes "registry_inv_except X st" "X \<subseteq> Y"
  shows "registry_inv_except Y st"
proof (rule registry_inv_exceptI)
  note D = registry_inv_exceptD [OF assms(1)]
  show "adapter_entry Y st k ad" if "hm_get (adapter_by_id st) k = Some ad" for k ad
    using D(5) [OF that] assms(2) by (auto simp: adapter_entry_def)
  show "service_entry Y st s a" if "hm_get (service_by_id st) s = Some a" for s a
    using D(6) [OF that] assms(2) by (auto simp: service_entry_def)
qed (use registry_inv_exceptD [OF assms(1)] in blast)+

lemma adapter_listed:
  assumes "registry_inv st" "hm_get (adapter_by_id st) k = Some ad" "hm_get (ad_services ad) s = Some a"
  shows "hm_get (service_by_id st) s = Some a" "sd_adapter (service_at st a) = k"
  using registry_invD(5) [OF assms(1,2)] assms(3) by (simp_all add: adapter_entry_def)

text \<open>Under the invariant removing a service never finds an inconsistency.\<close>

lemma remove_service_result:
  assumes inv: "registry_inv st" and sa: "hm_get (service_by_id st) s0 = Some sa"
  obtains ad where "hm_get (adapter_by_id st) (sd_adapter (service_at st sa)) = Some ad"
    "hm_get (ad_services ad) s0 = Some sa"
    "remove_service s0 st = (Inr (), (snd (aux_remove_service s0 st))\<lparr>adapter_by_id :=
        hm_insert (sd_adapter (service_at st sa))
          (ad\<lparr>ad_services := hm_remove s0 (ad_services ad)\<rparr>) (adapter_by_id st)\<rparr>)"
proof -
  from registry_invD(6) [OF inv sa] obtain ad where
    ad: "hm_get (adapter_by_id st) (sd_adapter (service_at st sa)) = Some ad"
    "hm_get (ad_services ad) s0 = Some sa" by (auto simp: service_entry_def)
  show ?thesis
    by (rule that [OF ad]) (use sa ad in \<open>simp add: remove_service_def aux_remove_service_def Let_def\<close>)
qed

lemma remove_service_registry:
  assumes inv: "registry_inv st" and step: "remove_service s0 st = (r, st')"
  shows "registry_inv st'"
proof (cases "hm_get (service_by_id st) s0")
  case None
  with inv step show ?thesis by (simp add: remove_service_def aux_remove_service_def)
next
  case (Some sa)
  let ?st1 = "snd (aux_remove_service s0 st)"
  obtain ad where ad: "hm_get (adapter_by_id st) (sd_adapter (service_at st sa)) = Some ad"
    "hm_get (ad_services ad) s0 = Some sa"
    and st': "st' = ?st1\<lparr>adapter_by_id := hm_insert (sd_adapter (service_at st sa))
          (ad\<lparr>ad_services := hm_remove s0 (ad_services ad)\<rparr>) (adapter_by_id st)\<rparr>"
    using remove_service_result [OF inv Some] step by (metis prod.inject)
  have inv1: "registry_inv_except {s0} ?st1"
    using aux_remove_service_registry [OF _ Some, of "{}"] inv by (simp add: registry_inv_def)
  note D = registry_inv_exceptD [OF inv1]
  have proj: "service_by_id st' = service_by_id ?st1" "getter_by_id st' = getter_by_id ?st1"
    "setter_by_id st' = setter_by_id ?st1" "st_services st' = st_services ?st1"
    "st_getters st' = st_getters ?st1" "st_setters st' = st_setters ?st1" "st_tags st' = st_tags ?st1"
    by (simp_all add: st')
  have adapters: "hm_get (adapter_by_id st') k = (if k = sd_adapter (service_at st sa)
      then Some (ad\<lparr>ad_services := hm_remove s0 (ad_services ad)\<rparr>) else hm_get (adapter_by_id ?st1) k)" for k
    by (simp add: st' aux_remove_service_fields)
  have "registry_inv_except {s0} st'"
  proof (rule registry_inv_exceptI)
    show "hm_ok (adapter_by_id st')"
      using registry_invD(1) [OF inv] by (auto simp: st')
    fix k ad' assume "hm_get (adapter_by_id st') k = Some ad'"
    then show "adapter_entry {s0} st' k ad'"
      using D(5) [of k ad'] D(5) [of k ad] ad
      by (auto simp: adapters adapter_entry_def proj aux_remove_service_fields split: if_splits)
  next
    fix s a assume "hm_get (service_by_id st') s = Some a"
    then show "service_entry {s0} st' s a"
      using D(6) [of s a] ad
      by (auto simp: adapters service_entry_def proj aux_remove_service_fields)
  next
    show "getter_entry st' g b" if "hm_get (getter_by_id st') g = Some b" for g b
      using D(8) [of g b] that by (simp add: getter_entry_def proj)
    show "setter_entry st' g b" if "hm_get (setter_by_id st') g = Some b" for g b
      using D(10) [of g b] that by (simp add: setter_entry_def proj)
  qed (use registry_inv_exceptD [OF inv1] in \<open>simp add: proj; blast\<close>)+
  moreover have "hm_get (ad_services ad') s0 = None" if k: "hm_get (adapter_by_id st') k = Some ad'" for k ad'
  proof (cases "k = sd_adapter (service_at st sa)")
    case True
    with k show ?thesis by (auto simp: adapters)
  next
    case False
    with k have "hm_get (adapter_by_id st) k = Some ad'" by (simp add: adapters aux_remove_service_fields)
    from adapter_listed [OF inv this, of s0] False Some show ?thesis
      by (cases "hm_get (ad_services ad') s0") auto
  qed
  ultimately show ?thesis
    by (auto intro!: registry_inv_exceptE simp: proj aux_remove_service_fields)
qed

lemma remove_services_fold:
  "registry_inv_except X st \<Longrightarrow>
   registry_inv_except (X \<union> set ks) (fold (\<lambda>s st. snd (aux_remove_service s st)) ks st) \<and>
   adapter_by_id (fold (\<lambda>s st. snd (aux_remove_service s st)) ks st) = adapter_by_id st \<and>
   (\<forall>s. hm_get (service_by_id (fold (\<lambda>s st. snd (aux_remove_service s st)) ks st)) s =
      (if s \<in> set ks then None else hm_get (service_by_id st) s))"
proof (induction ks arbitrary: X st)
  case (Cons k ks)
  have "registry_inv_except (insert k X) (snd (aux_remove_service k st))"
  proof (cases "hm_get (service_by_id st) k")
    case None
    then have "snd (aux_remove_service k st) = st" by (simp add: aux_remove_service_def)
    with registry_inv_except_mono [OF Cons.prems, of "insert k X"] show ?thesis by auto
  next
    case (Some a)
    with Cons.prems show ?thesis by (rule aux_remove_service_registry)
  qed
  from Cons.IH [OF this] show ?case by (auto simp: aux_remove_service_fields)
qed simp

lemma remove_adapter_registry:
  assumes inv: "registry_inv st" and step: "remove_adapter i st = (r, st')"
  shows "registry_inv st'"
proof (cases "hm_get (adapter_by_id st) i")
  case None
  with inv step show ?thesis by (simp add: remove_adapter_def)
next
  case (Some ad)
  let ?st1 = "st\<lparr>adapter_by_id := hm_remove i (adapter_by_id st)\<rparr>"
  let ?ks = "hm_keys (ad_services ad)"
  note D = registry_invD [OF inv]
  have st': "st' = fold (\<lambda>s st. snd (aux_remove_service s st)) ?ks ?st1"
    using Some step by (simp add: remove_adapter_def)
  have "registry_inv_except (set ?ks) ?st1"
  proof (rule registry_inv_exceptI)
    show "adapter_entry (set ?ks) ?st1 k ad'" if "hm_get (adapter_by_id ?st1) k = Some ad'" for k ad'
      using D(5) [of k ad'] that by (auto simp: adapter_entry_def split: if_splits)
    show "service_entry (set ?ks) ?st1 s a" if s: "hm_get (service_by_id ?st1) s = Some a" for s a
    proof -
      from s have s': "hm_get (service_by_id st) s = Some a" by simp
      have "s \<in> set ?ks" if "sd_adapter (service_at st a) = i"
        using D(6) [OF s'] that Some by (auto simp: service_entry_def dest: map_of_SomeD intro: rev_image_eqI)
      with D(6) [OF s'] show ?thesis by (auto simp: service_entry_def)
    qed
    show "getter_entry ?st1 g b" if "hm_get (getter_by_id ?st1) g = Some b" for g b
      using D(8) [of g b] that by (simp add: getter_entry_def)
    show "setter_entry ?st1 g b" if "hm_get (setter_by_id ?st1) g = Some b" for g b
      using D(10) [of g b] that by (simp add: setter_entry_def)
  qed (use D in \<open>simp; blast\<close>)+
  note fold = remove_services_fold [OF this, of ?ks, folded st']
  have "hm_get (ad_services ad') s = None"
    if s: "s \<in> set ?ks" and k: "hm_get (adapter_by_id st') k = Some ad'" for s k ad'
  proof (rule ccontr)
    assume "hm_get (ad_services ad') s \<noteq> None"
    then obtain a where a: "hm_get (ad_services ad') s = Some a" by blast
    from k fold have k': "hm_get (adapter_by_id st) k = Some ad'" "k \<noteq> i" by (auto split: if_splits)
    from s obtain a' where a': "hm_get (ad_services ad) s = Some a'"
      by (metis map_of_eq_None_iff set_map not_None_eq)
    from adapter_listed [OF inv k'(1) a] adapter_listed [OF inv Some a'] k'(2) show False by simp
  qed
  with fold show ?thesis
    by (intro registry_inv_exceptE [of "set ?ks"]) auto
qed

lemma remove_getter_registry_step:
  assumes inv: "registry_inv st" and b0: "hm_get (getter_by_id st) g0 = Some b0"
    and sa: "hm_get (service_by_id st) (ch_service (getter_at st b0)) = Some sa"
    and st': "st' = st\<lparr>getter_by_id := hm_remove g0 (getter_by_id st),
        st_services := (st_services st)[sa := (service_at st sa)
          \<lparr>sd_getters := hm_remove g0 (sd_getters (service_at st sa))\<rparr>]\<rparr>"
  shows "registry_inv st'"
proof -
  note D = registry_invD [OF inv]
  have sa_len: "sa < length (st_services st)" "sd_id (service_at st sa) = ch_service (getter_at st b0)"
    using D(6) [OF sa] by (simp_all add: service_entry_def)
  have at: "sd_id (service_at st' a) = sd_id (service_at st a)"
    "sd_tags (service_at st' a) = sd_tags (service_at st a)"
    "sd_adapter (service_at st' a) = sd_adapter (service_at st a)"
    "sd_setters (service_at st' a) = sd_setters (service_at st a)"
    "sd_getters (service_at st' a) =
       (if a = sa then hm_remove g0 (sd_getters (service_at st a)) else sd_getters (service_at st a))" for a
    using sa_len by (simp_all add: st' nth_list_update)
  have proj: "adapter_by_id st' = adapter_by_id st" "service_by_id st' = service_by_id st"
    "setter_by_id st' = setter_by_id st" "st_setters st' = st_setters st" "st_tags st' = st_tags st"
    "getter_by_id st' = hm_remove g0 (getter_by_id st)" "st_getters st' = st_getters st"
    "length (st_services st') = length (st_services st)"
    by (simp_all add: st')
  show ?thesis
    unfolding registry_inv_def
  proof (rule registry_inv_exceptI)
    fix k ad assume "hm_get (adapter_by_id st') k = Some ad"
    then show "adapter_entry {} st' k ad"
      using D(5) [of k ad] by (auto simp: adapter_entry_def proj at)
  next
    fix s a assume "hm_get (service_by_id st') s = Some a"
    then show "service_entry {} st' s a"
      using D(6) [of s a] by (auto simp: service_entry_def proj at)
  next
    fix s a s' a' assume "hm_get (service_by_id st') s = Some a" "hm_get (service_by_id st') s' = Some a'"
      "sd_tags (service_at st' a) = sd_tags (service_at st' a')"
    then show "s = s'"
      unfolding proj at by (rule D(7))
  next
    fix g b assume "hm_get (getter_by_id st') g = Some b"
    then have g: "g \<noteq> g0" "hm_get (getter_by_id st) g = Some b" by (auto simp: proj split: if_splits)
    from D(8) [OF g(2)] show "getter_entry st' g b"
      by (rule getter_entry_transfer) (use g(1) in \<open>auto simp: proj at\<close>)
  next
    fix s a g b assume a: "hm_get (service_by_id st') s = Some a" "hm_get (sd_getters (service_at st' a)) g = Some b"
    then have s: "hm_get (service_by_id st) s = Some a" "hm_get (sd_getters (service_at st a)) g = Some b"
      by (auto simp: proj at split: if_splits)
    note entry = D(9) [OF s]
    have "g \<noteq> g0"
    proof
      assume "g = g0"
      with entry b0 sa s(1) have "a = sa" by auto
      with a(2) \<open>g = g0\<close> show False by (simp add: at)
    qed
    with entry show "hm_get (getter_by_id st') g = Some b \<and> ch_service (getter_at st' b) = s"
      by (simp add: proj)
  next
    fix g b assume "hm_get (setter_by_id st') g = Some b"
    then have "setter_entry st g b" using D(10) [of g b] by (simp add: proj)
    then show "setter_entry st' g b"
      by (rule setter_entry_transfer) (simp_all add: proj at)
  next
    fix s a g b assume "hm_get (service_by_id st') s = Some a" "hm_get (sd_setters (service_at st' a)) g = Some b"
    then show "hm_get (setter_by_id st') g = Some b \<and> ch_service (setter_at st' b) = s"
      using D(11) [of s a g b] by (simp add: proj at)
  qed (use D(1-4) in \<open>auto simp: proj\<close>)
qed

lemma remove_setter_registry_step:
  assumes inv: "registry_inv st" and b0: "hm_get (setter_by_id st) g0 = Some b0"
    and sa: "hm_get (service_by_id st) (ch_service (setter_at st b0)) = Some sa"
    and st': "st' = st\<lparr>setter_by_id := hm_remove g0 (setter_by_id st),
        st_services := (st_services st)[sa := (service_at st sa)
          \<lparr>sd_setters := hm_remove g0 (sd_setters (service_at st sa))\<rparr>]\<rparr>"
  shows "registry_inv st'"
proof -
  note D = registry_invD [OF inv]
  have sa_len: "sa < length (st_services st)" "sd_id (service_at st sa) = ch_service (setter_at st b0)"
    using D(6) [OF sa] by (simp_all add: service_entry_def)
  have at: "sd_id (service_at st' a) = sd_id (service_at st a)"
    "sd_tags (service_at st' a) = sd_tags (service_at st a)"
    "sd_adapter (service_at st' a) = sd_adapter (service_at st a)"
    "sd_getters (service_at st' a) = sd_getters (service_at st a)"
    "sd_setters (service_at st' a) =
       (if a = sa then hm_remove g0 (sd_setters (service_at st a)) else sd_setters (service_at st a))" for a
    using sa_len by (simp_all add: st' nth_list_update)
  have proj: "adapter_by_id st' = adapter_by_id st" "service_by_id st' = service_by_id st"
    "getter_by_id st' = getter_by_id st" "st_getters st' = st_getters st" "st_tags st' = st_tags st"
    "setter_by_id st' = hm_remove g0 (setter_by_id st)" "st_setters st' = st_setters st"
    "length (st_services st') = length (st_services st)"
    by (simp_all add: st')
  show ?thesis
    unfolding registry_inv_def
  proof (rule registry_inv_exceptI)
    fix k ad assume "hm_get (adapter_by_id st') k = Some ad"
    then show "adapter_entry {} st' k ad"
      using D(5) [of k ad] by (auto simp: adapter_entry_def proj at)
  next
    fix s a assume "hm_get (service_by_id st') s = Some a"
    then show "service_entry {} st' s a"
      using D(6) [of s a] by (auto simp: service_entry_def proj at)
  next
    fix s a s' a' assume "hm_get (service_by_id st') s = Some a" "hm_get (service_by_id st') s' = Some a'"
      "sd_tags (service_at st' a) = sd_tags (service_at st' a')"
    then show "s = s'"
      unfolding proj at by (rule D(7))
  next
    fix g b assume "hm_get (setter_by_id st') g = Some b"
    then have g: "g \<noteq> g0" "hm_get (setter_by_id st) g = Some b" by (auto simp: proj split: if_splits)
    from D(10) [OF g(2)] show "setter_entry st' g b"
      by (rule setter_entry_transfer) (use g(1) in \<open>auto simp: proj at\<close>)
  next
    fix s a g b assume a: "hm_get (service_by_id st') s = Some a" "hm_get (sd_setters (service_at st' a)) g = Some b"
    then have s: "hm_get (service_by_id st) s = Some a" "hm_get (sd_setters (service_at st a)) g = Some b"
      by (auto simp: proj at split: if_splits)
    note entry = D(11) [OF s]
    have "g \<noteq> g0"
    proof
      assume "g = g0"
      with entry b0 sa s(1) have "a = sa" by auto
      with a(2) \<open>g = g0\<close> show False by (simp add: at)
    qed
    with entry show "hm_get (setter_by_id st') g = Some b \<and> ch_service (setter_at st' b) = s"
      by (simp add: proj)
  next
    fix g b assume "hm_get (getter_by_id st') g = Some b"
    then have "getter_entry st g b" using D(8) [of g b] by (simp add: proj)
    then show "getter_entry st' g b"
      by (rule getter_entry_transfer) (simp_all add: proj at)
  next
    fix s a g b assume "hm_get (service_by_id st') s = Some a" "hm_get (sd_getters (service_at st' a)) g = Some b"
    then show "hm_get (getter_by_id st') g = Some b \<and> ch_service (getter_at st' b) = s"
      using D(9) [of s a g b] by (simp add: proj at)
  qed (use D(1-4) in \<open>auto simp: proj\<close>)
qed

section \<open>The watching of channels leaves the registry alone\<close>

lemma map_update_same: "f y = f (xs ! a) \<Longrightarrow> map f (xs[a := y]) = map f xs"
  by (cases "a < length xs") (simp_all add: map_update list_update_same_conv list_update_beyond)

text \<open>Changes of the watches, of what was sent, of the database and of the tags.\<close>

lemma same_registry_ignored [simp, intro]:
  "same_registry st (st\<lparr>st_events := ev\<rparr>)" "same_registry st (st\<lparr>wm_watchers := wm\<rparr>)"
  "same_registry st (st\<lparr>wm_counter := n\<rparr>)" "same_registry st (st\<lparr>st_dropped := dr\<rparr>)"
  "same_registry st (st\<lparr>st_db := db\<rparr>)" "same_registry st (st\<lparr>st_tags := (st_tags st)[i := ts]\<rparr>)"
  by (simp_all add: same_registry_def)

lemma same_registry_put_getter:
  "channel_link (gd_channel d) = channel_link (getter_at st a) \<Longrightarrow>
   gd_service_tags d = gd_service_tags (st_getters st ! a) \<Longrightarrow>
   same_registry st (st\<lparr>st_getters := (st_getters st)[a := d]\<rparr>)"
  by (simp add: same_registry_def map_update_same)

lemma same_registry_put_setter:
  "channel_link (std_channel d) = channel_link (setter_at st a) \<Longrightarrow>
   std_service_tags d = std_service_tags (st_setters st ! a) \<Longrightarrow>
   same_registry st (st\<lparr>st_setters := (st_setters st)[a := d]\<rparr>)"
  by (simp add: same_registry_def map_update_same)

definition erase_watch :: "backend \<Rightarrow> backend" where
  "erase_watch st = st\<lparr>st_events := [], wm_watchers := []\<rparr>"

lemma erase_watch_fields:
  assumes "erase_watch st' = erase_watch st"
  shows "adapter_by_id st' = adapter_by_id st" "service_by_id st' = service_by_id st"
    "getter_by_id st' = getter_by_id st" "setter_by_id st' = setter_by_id st"
    "st_services st' = st_services st" "st_getters st' = st_getters st"
    "st_setters st' = st_setters st" "st_tags st' = st_tags st" "wm_counter st' = wm_counter st"
    "st_dropped st' = st_dropped st" "st_stopped st' = st_stopped st" "st_db st' = st_db st"
  using assms by (cases st; cases st'; simp add: erase_watch_def)+

lemma unregistration_loop_erase:
  "erase_watch (snd (unregistration_loop gd b ws (ks, st))) = erase_watch st"
proof (induction ws arbitrary: ks st)
  case (Cons w ws)
  then show ?case
    by (cases w) (auto simp: Let_def split: option.split, auto simp: erase_watch_def)
qed simp

lemma unregistration_same: "same_registry st (aux_getter_may_need_unregistration a b st)"
proof -
  obtain ks st1 where loop: "unregistration_loop (st_getters st ! a) b (gd_watchers (st_getters st ! a)) ([], st) = (ks, st1)"
    by (cases "unregistration_loop (st_getters st ! a) b (gd_watchers (st_getters st ! a)) ([], st)")
  then have "erase_watch st1 = erase_watch st"
    using unregistration_loop_erase [of "st_getters st ! a" b "gd_watchers (st_getters st ! a)" "[]" st] by simp
  from erase_watch_fields [OF this] show ?thesis
    by (simp add: aux_getter_may_need_unregistration_def Let_def loop same_registry_def map_update_same)
qed

lemma remove_getter_registry:
  assumes inv: "registry_inv st" and step: "remove_getter g0 st = (r, st')"
  shows "registry_inv st'"
proof (cases "hm_get (getter_by_id st) g0")
  case None
  with inv step show ?thesis by (simp add: remove_getter_def)
next
  case (Some b0)
  let ?st1 = "st\<lparr>getter_by_id := hm_remove g0 (getter_by_id st)\<rparr>"
  let ?st2 = "aux_getter_may_need_unregistration b0 True ?st1"
  from registry_invD(8) [OF inv Some] obtain sa where
    b0: "b0 < length (st_getters st)" and
    sa: "hm_get (service_by_id st) (ch_service (getter_at st b0)) = Some sa"
    "hm_get (sd_getters (service_at st sa)) g0 = Some b0"
    by (auto simp: getter_entry_def)
  have same: "same_registry ?st1 ?st2" by (rule unregistration_same)
  then have maps: "service_by_id ?st2 = service_by_id st" "st_services ?st2 = st_services st"
    by (simp_all add: same_registry_def)
  have link: "ch_service (getter_at ?st2 b0) = ch_service (getter_at st b0)"
    using same_registry_getters(2) [OF same, of b0] b0 by (simp add: channel_link_def)
  let ?services = "(st_services st)[sa := (service_at st sa)
          \<lparr>sd_getters := hm_remove g0 (sd_getters (service_at st sa))\<rparr>]"
  have st': "st' = ?st2\<lparr>st_services := ?services\<rparr>"
    using step Some sa by (simp add: remove_getter_def Let_def maps link)
  have "registry_inv (?st1\<lparr>st_services := ?services\<rparr>)"
    by (rule remove_getter_registry_step [OF inv Some sa(1)]) simp
  moreover have "same_registry (?st1\<lparr>st_services := ?services\<rparr>) st'"
    using same by (simp add: st' same_registry_def)
  ultimately show ?thesis by (rule same_registry_inv [rotated])
qed

lemma remove_setter_registry:
  assumes inv: "registry_inv st" and step: "remove_setter g0 st = (r, st')"
  shows "registry_inv st'"
proof (cases "hm_get (setter_by_id st) g0")
  case None
  with inv step show ?thesis by (simp add: remove_setter_def)
next
  case (Some b0)
  from registry_invD(10) [OF inv Some] obtain sa where
    sa: "hm_get (service_by_id st) (ch_service (setter_at st b0)) = Some sa"
    "hm_get (sd_setters (service_at st sa)) g0 = Some b0"
    by (auto simp: setter_entry_def)
  have "st' = st\<lparr>setter_by_id := hm_remove g0 (setter_by_id st),
      st_services := (st_services st)[sa := (service_at st sa)
          \<lparr>sd_setters := hm_remove g0 (sd_setters (service_at st sa))\<rparr>]\<rparr>"
    using step Some sa by (simp add: remove_setter_def Let_def)
  then show ?thesis by (rule remove_setter_registry_step [OF inv Some sa(1)])
qed

section \<open>Watches\<close>

lemma watchers_invD:
  assumes "watchers_inv st"
  shows "hm_ok (wm_watchers st)"
    and "hm_get (wm_watchers st) k = Some w \<Longrightarrow> wd_key w = k \<and> k < wm_counter st"
    and "gd \<in> set (st_getters st) \<Longrightarrow> hm_ok (gd_watchers gd)"
    and "gd \<in> set (st_getters st) \<Longrightarrow> hm_get (gd_watchers gd) k = Some v \<Longrightarrow> v = k \<and> k < wm_counter st"
  using assms unfolding watchers_inv_def by blast+

definition getter_watchers_ok :: "nat \<Rightarrow> getter_data \<Rightarrow> bool" where
  "getter_watchers_ok n gd \<longleftrightarrow>
     hm_ok (gd_watchers gd) \<and> (\<forall>k w. hm_get (gd_watchers gd) k = Some w \<longrightarrow> w = k \<and> k < n)"

lemma watchers_inv_alt:
  "watchers_inv st \<longleftrightarrow> hm_ok (wm_watchers st) \<and>
     (\<forall>k w. hm_get (wm_watchers st) k = Some w \<longrightarrow> wd_key w = k \<and> k < wm_counter st) \<and>
     (\<forall>gd \<in> set (st_getters st). getter_watchers_ok (wm_counter st) gd)"
  by (simp add: watchers_inv_def getter_watchers_ok_def)

text \<open>The key of every watcher stays, and new keys are beyond the counter.\<close>

lemma watchers_inv_put_getter:
  assumes "watchers_inv st" "a < length (st_getters st) \<Longrightarrow> getter_watchers_ok (wm_counter st) gd"
  shows "watchers_inv (st\<lparr>st_getters := (st_getters st)[a := gd]\<rparr>)"
proof (cases "a < length (st_getters st)")
  case True
  with assms show ?thesis
    by (auto simp: watchers_inv_alt dest: set_update_subset_insert [THEN subsetD])
qed (use assms in \<open>simp add: watchers_inv_alt list_update_beyond\<close>)

lemma watchers_inv_getter:
  "watchers_inv st \<Longrightarrow> a < length (st_getters st) \<Longrightarrow>
   getter_watchers_ok (wm_counter st) (st_getters st ! a)"
  by (simp add: watchers_inv_alt)

lemma watchers_inv_put_watcher:
  "watchers_inv st \<Longrightarrow> wd_key w = k \<Longrightarrow> k < wm_counter st \<Longrightarrow>
   watchers_inv (st\<lparr>wm_watchers := hm_insert k w (wm_watchers st)\<rparr>)"
  by (auto simp: watchers_inv_alt)

lemma watchers_inv_remove:
  "watchers_inv st \<Longrightarrow> watchers_inv (st\<lparr>wm_watchers := hm_remove k (wm_watchers st)\<rparr>)"
  by (auto simp: watchers_inv_alt split: if_splits)

lemma watchers_inv_ignored:
  "watchers_inv (st\<lparr>st_events := ev\<rparr>) = watchers_inv st"
  "watchers_inv (st\<lparr>st_db := db\<rparr>) = watchers_inv st"
  "watchers_inv (st\<lparr>st_dropped := dr\<rparr>) = watchers_inv st"
  "watchers_inv (st\<lparr>st_tags := ts\<rparr>) = watchers_inv st"
  "watchers_inv (st\<lparr>st_setters := ss\<rparr>) = watchers_inv st"
  "watchers_inv (st\<lparr>st_services := sv\<rparr>) = watchers_inv st"
  "watchers_inv (st\<lparr>adapter_by_id := am\<rparr>) = watchers_inv st"
  "watchers_inv (st\<lparr>service_by_id := sm\<rparr>) = watchers_inv st"
  "watchers_inv (st\<lparr>getter_by_id := gm\<rparr>) = watchers_inv st"
  "watchers_inv (st\<lparr>setter_by_id := tm\<rparr>) = watchers_inv st"
  by (simp_all add: watchers_inv_def)

lemma watchers_inv_cong:
  "wm_watchers st' = wm_watchers st \<Longrightarrow> wm_counter st' = wm_counter st \<Longrightarrow>
   st_getters st' = st_getters st \<Longrightarrow> watchers_inv st' = watchers_inv st"
  by (simp add: watchers_inv_def)

lemma getter_watchers_ok_same [simp]:
  "getter_watchers_ok n (gd\<lparr>gd_channel := c\<rparr>) = getter_watchers_ok n gd"
  by (simp add: getter_watchers_ok_def)

lemma getter_watchers_ok_remove:
  assumes "getter_watchers_ok n gd"
  shows "getter_watchers_ok n (gd\<lparr>gd_watchers := fold hm_remove ks (gd_watchers gd)\<rparr>)"
proof -
  have "hm_ok (gd_watchers gd)" using assms by (simp add: getter_watchers_ok_def)
  with assms hm.get_fold_del [OF this, of ks] hm.ok_fold_del [OF this, of ks] show ?thesis
    by (auto simp: getter_watchers_ok_def split: if_splits)
qed

lemma getter_watchers_ok_insert:
  "getter_watchers_ok n gd \<Longrightarrow> k < n \<Longrightarrow>
   getter_watchers_ok n (gd\<lparr>gd_watchers := hm_insert k k (gd_watchers gd)\<rparr>)"
  by (auto simp: getter_watchers_ok_def split: if_splits)

lemma getter_watchers_ok_remove_one:
  "getter_watchers_ok n gd \<Longrightarrow> getter_watchers_ok n (gd\<lparr>gd_watchers := hm_remove k (gd_watchers gd)\<rparr>)"
  using getter_watchers_ok_remove [of n gd "[k]"] by simp

text \<open>Starting a watch: the result in full.\<close>

definition request_range :: "Value Exactly \<Rightarrow> Value option option" where
  "request_range flt = (case flt of Exactly v \<Rightarrow> Some (Some v) | Always \<Rightarrow> Some None | Never \<Rightarrow> None)"

lemma aux_start_channel_watch_result:
  "aux_start_channel_watch key flt adapters (gd, per_adapter) =
     (let i = ch_id (gd_channel gd); adapter = ch_adapter (gd_channel gd);
          gd' = gd\<lparr>gd_watchers := hm_insert key key (gd_watchers gd)\<rparr>
      in if hm_has (gd_watchers gd) key then Panic
         else case request_range flt of
           None \<Rightarrow> Done (gd', per_adapter)
         | Some rng \<Rightarrow>
             (case hm_get per_adapter adapter of
                Some (ad, reqs) \<Rightarrow> Done (gd', hm_insert adapter (ad, reqs @ [(i, rng, key)]) per_adapter)
              | None \<Rightarrow>
                  (case hm_get adapters adapter of
                     None \<Rightarrow> Panic
                   | Some ad \<Rightarrow> Done (gd', hm_insert adapter (ad_adapter ad, [(i, rng, key)]) per_adapter))))"
  by (simp add: aux_start_channel_watch_def Let_def transact_simps request_range_def
      split: Exactly.split option.split prod.split)

lemma aux_start_channel_watch_gd:
  assumes "aux_start_channel_watch key flt adapters (gd, per_adapter) = Done (gd', per_adapter')"
  shows "gd' = gd\<lparr>gd_watchers := hm_insert key key (gd_watchers gd)\<rparr>"
  using assms
  by (auto simp: aux_start_channel_watch_result Let_def split: if_splits option.splits prod.splits)

lemma unregistration_loop_watchers:
  assumes "watchers_inv st" "\<And>k w. (k, w) \<in> set ws \<Longrightarrow> w = k"
  shows "watchers_inv (snd (unregistration_loop gd b ws (ks, st)))"
  using assms
proof (induction ws arbitrary: ks st b)
  case (Cons w ws)
  obtain key where w: "w = (key, key)" using Cons.prems(2) by (cases w) auto
  have keep: "watchers_inv (snd (unregistration_loop gd b' ws (ks', st')))" if "watchers_inv st'" for b' ks' st'
    using Cons.IH [OF that] Cons.prems(2) by auto
  show ?case
  proof (cases "hm_get (wm_watchers st) key")
    case None
    then show ?thesis by (simp add: w keep [OF Cons.prems(1)])
  next
    case (Some wd)
    let ?i = "ch_id (gd_channel gd)"
    have "watchers_inv (st\<lparr>st_events := ev, wm_watchers := hm_insert key
            (wd\<lparr>wd_guards := hm_remove ?i (wd_guards wd)\<rparr>) (wm_watchers st)\<rparr>)" for ev
      using watchers_inv_put_watcher [of "st\<lparr>st_events := ev\<rparr>" "wd\<lparr>wd_guards := hm_remove ?i (wd_guards wd)\<rparr>" key]
        Cons.prems(1) watchers_invD(2) [OF Cons.prems(1) Some] by (simp add: watchers_inv_ignored)
    with Some Cons.prems(1) show ?thesis by (simp add: w Let_def keep)
  qed
qed simp

lemma unregistration_watchers:
  assumes inv: "watchers_inv st" and a: "a < length (st_getters st)"
  shows "watchers_inv (aux_getter_may_need_unregistration a b st)"
proof -
  let ?gd = "st_getters st ! a"
  obtain ks st1 where loop: "unregistration_loop ?gd b (gd_watchers ?gd) ([], st) = (ks, st1)"
    by (cases "unregistration_loop ?gd b (gd_watchers ?gd) ([], st)")
  have ok: "getter_watchers_ok (wm_counter st) ?gd" by (rule watchers_inv_getter [OF inv a])
  then have "w = k" if "(k, w) \<in> set (gd_watchers ?gd)" for k w
    using that by (simp add: getter_watchers_ok_def hm_ok_map_of)
  with inv have inv1: "watchers_inv st1"
    using unregistration_loop_watchers [of st "gd_watchers ?gd" ?gd b "[]"] loop by simp
  have "erase_watch st1 = erase_watch st"
    using unregistration_loop_erase [of ?gd b "gd_watchers ?gd" "[]" st] loop by simp
  from erase_watch_fields [OF this] show ?thesis
    unfolding aux_getter_may_need_unregistration_def Let_def loop
    using watchers_inv_put_getter [OF inv1, of a] getter_watchers_ok_remove [OF ok] by simp
qed

end
