(* ===== verification/Backend_Safety.thy ===== *)
theory Backend_Safety
  imports Backend_Inv
begin

text \<open>
  The back-end as a transition system: every operation of \<^verbatim>\<open>State\<close> that changes it, and the drop of
  a watch guard by its owner, as the steps; the invariant holds in every reachable state.
\<close>

section \<open>Operations that only touch tags and watches\<close>

text \<open>A state with the registry of \<open>st0\<close>, and consistent watches.\<close>

definition quiet :: "backend \<Rightarrow> backend \<Rightarrow> bool" where
  "quiet st0 st \<longleftrightarrow> same_registry st0 st \<and> watchers_inv st"

lemma quiet_inv: "quiet st0 st \<Longrightarrow> backend_inv st0 \<Longrightarrow> backend_inv st"
  using same_registry_inv by (auto simp: quiet_def backend_inv_def)

lemma quiet_refl: "backend_inv st \<Longrightarrow> quiet st st"
  by (simp add: quiet_def backend_inv_def)

lemma quiet_ignored:
  "quiet st0 st \<Longrightarrow> quiet st0 (st\<lparr>st_db := db\<rparr>)"
  "quiet st0 st \<Longrightarrow> quiet st0 (st\<lparr>st_events := ev\<rparr>)"
  "quiet st0 st \<Longrightarrow> quiet st0 (st\<lparr>st_dropped := dr\<rparr>)"
  "quiet st0 st \<Longrightarrow> quiet st0 (st\<lparr>st_tags := (st_tags st)[i := ts]\<rparr>)"
  by (auto simp: quiet_def watchers_inv_ignored intro: same_registry_trans)

lemma quiet_address:
  assumes "backend_inv st0" "quiet st0 st"
  shows "a \<in> set (hm_values (getter_by_id st0)) \<Longrightarrow> a < length (st_getters st)"
    and "b \<in> set (hm_values (setter_by_id st0)) \<Longrightarrow> b < length (st_setters st)"
proof -
  have reg: "registry_inv st0" "same_registry st0 st" using assms by (simp_all add: backend_inv_def quiet_def)
  note D = registry_invD [OF reg(1)]
  show "a < length (st_getters st)" if "a \<in> set (hm_values (getter_by_id st0))"
    using that D(3) D(8) same_registry_getters(1) [OF reg(2)]
    by (fastforce simp: hm_ok_map_of getter_entry_def)
  show "b < length (st_setters st)" if "b \<in> set (hm_values (setter_by_id st0))"
    using that D(4) D(10) same_registry_setters(1) [OF reg(2)]
    by (fastforce simp: hm_ok_map_of setter_entry_def)
qed

lemma with_getters_keeps:
  assumes "with_getters selectors cb s0 = Done s'" "P s0"
    and "\<And>a s s'. a \<in> set (hm_values (getter_by_id (fst s0))) \<Longrightarrow> P s \<Longrightarrow> cb a s = Done s' \<Longrightarrow> P s'"
  shows "P s'"
  using assms(1,2) unfolding with_getters_def
proof (rule fold_outcome_keeps)
  fix a s s'
  assume "a \<in> set (hm_values (getter_by_id (fst s0)))" "P s"
  from assms(3) [OF this, of s'] \<open>P s\<close> show "P s'"
    if "(if list_ex (getter_data_matches (fst s) (st_getters (fst s) ! a)) selectors then cb a s else Done s) = Done s'"
    using that by (simp split: if_splits)
qed

lemma with_setters_keeps:
  assumes "with_setters selectors cb s0 = Done s'" "P s0"
    and "\<And>a s s'. a \<in> set (hm_values (setter_by_id (fst s0))) \<Longrightarrow> P s \<Longrightarrow> cb a s = Done s' \<Longrightarrow> P s'"
  shows "P s'"
  using assms(1,2) unfolding with_setters_def
proof (rule fold_outcome_keeps)
  fix a s s'
  assume "a \<in> set (hm_values (setter_by_id (fst s0)))" "P s"
  from assms(3) [OF this, of s'] \<open>P s\<close> show "P s'"
    if "(if list_ex (setter_data_matches (fst s) (st_setters (fst s) ! a)) selectors then cb a s else Done s) = Done s'"
    using that by (simp split: if_splits)
qed

lemma with_services_keeps:
  assumes "with_services selectors cb s0 = Done s'" "P s0"
    and "\<And>a s s'. a \<in> set (hm_values (service_by_id (fst s0))) \<Longrightarrow> P s \<Longrightarrow> cb a s = Done s' \<Longrightarrow> P s'"
  shows "P s'"
  using assms(1,2) unfolding with_services_def
proof (rule fold_outcome_keeps)
  fix a s s'
  assume "a \<in> set (hm_values (service_by_id (fst s0)))" "P s"
  from assms(3) [OF this, of s'] \<open>P s\<close> show "P s'"
    if "(if selectors = [] then cb a s else if list_ex (\<lambda>selector. view_matches selector (fst s, service_at (fst s) a)) selectors
      then cb a s else Done s) = Done s'"
    using that by (simp split: if_splits)
qed

lemma put_getter_channel_quiet:
  assumes "quiet st0 st" "channel_link c = channel_link (getter_at st a)"
  shows "quiet st0 (put_getter_channel a c st)"
proof -
  have "same_registry st (put_getter_channel a c st)"
    unfolding put_getter_channel_def using assms(2) by (intro same_registry_put_getter) simp_all
  moreover have "watchers_inv (put_getter_channel a c st)"
    unfolding put_getter_channel_def using assms(1) watchers_inv_getter
    by (intro watchers_inv_put_getter) (auto simp: quiet_def)
  ultimately show ?thesis using assms(1) by (auto simp: quiet_def intro: same_registry_trans)
qed

lemma put_setter_channel_quiet:
  assumes "quiet st0 st" "channel_link c = channel_link (setter_at st a)"
  shows "quiet st0 (put_setter_channel a c st)"
proof -
  have "same_registry st (put_setter_channel a c st)"
    unfolding put_setter_channel_def using assms(2) by (intro same_registry_put_setter) simp_all
  then show ?thesis
    using assms(1) by (auto simp: quiet_def put_setter_channel_def watchers_inv_ignored
        intro: same_registry_trans)
qed

lemma with_new_storage_quiet: "with_new_storage f st = Done st' \<Longrightarrow> quiet st0 st \<Longrightarrow> quiet st0 st'"
  by (auto simp: with_new_storage_def bind_outcome_Done_iff quiet_ignored)

lemma channel_tags_link [simp]:
  "channel_link (snd (channel_insert_tags tags c)) = channel_link c"
  "channel_link (snd (channel_remove_tags tags c)) = channel_link c"
  by (simp_all add: channel_link_def)

lemma channel_tags_linkD:
  "channel_insert_tags tags c = (ch, c') \<Longrightarrow> channel_link c' = channel_link c"
  "channel_remove_tags tags c = (ch, c') \<Longrightarrow> channel_link c' = channel_link c"
  by (metis channel_tags_link snd_conv)+

lemma put_tags_quiet:
  "channel_insert_tags tags (getter_at st a) = (ch, c) \<Longrightarrow> quiet st0 st \<Longrightarrow> quiet st0 (put_getter_channel a c st)"
  "channel_remove_tags tags (getter_at st a) = (ch, c) \<Longrightarrow> quiet st0 st \<Longrightarrow> quiet st0 (put_getter_channel a c st)"
  "channel_insert_tags tags (setter_at st a) = (ch, c) \<Longrightarrow> quiet st0 st \<Longrightarrow> quiet st0 (put_setter_channel a c st)"
  "channel_remove_tags tags (setter_at st a) = (ch, c) \<Longrightarrow> quiet st0 st \<Longrightarrow> quiet st0 (put_setter_channel a c st)"
  using put_getter_channel_quiet put_setter_channel_quiet channel_tags_linkD by blast+

lemma add_service_tags_quiet:
  assumes "backend_inv st" "add_service_tags sip selectors tags st = Done (n, st')"
  shows "quiet st st'"
proof -
  from assms(2) obtain st1 store where
    run: "with_services selectors (\<lambda>a (st, result, store).
          let service = st_services st ! a in
          bind_outcome (log_storage (store_add_tags sip (sd_id service) tags) store) (\<lambda>store.
            Done (st\<lparr>st_tags := (st_tags st)
                    [sd_tags service := merge_tags (st_tags st ! sd_tags service) tags]\<rparr>,
                  result + 1, store))) (st, 0, map_option tag_storage_new (st_db st)) = Done (st1, n, store)"
    and st': "st' = st1\<lparr>st_db := map_option ts_db store\<rparr>"
    by (auto simp: add_service_tags_def bind_outcome_Done_iff)
  have "quiet st (fst (st1, n, store))"
    by (rule with_services_keeps [OF run, of "\<lambda>s. quiet st (fst s)"])
      (auto simp: quiet_refl [OF assms(1)] Let_def bind_outcome_Done_iff quiet_ignored)
  then show ?thesis by (simp add: st' quiet_ignored)
qed

lemma remove_service_tags_quiet:
  assumes "backend_inv st" "remove_service_tags sip selectors tags st = Done (n, st')"
  shows "quiet st st'"
proof -
  from assms(2) obtain st1 store where
    run: "with_services selectors (\<lambda>a (st, result, store).
          let service = st_services st ! a in
          bind_outcome (log_storage (store_remove_tags sip (sd_id service) tags) store) (\<lambda>store.
            Done (st\<lparr>st_tags := (st_tags st)
                    [sd_tags service := remove_tags (st_tags st ! sd_tags service) tags]\<rparr>,
                  result + 1, store))) (st, 0, map_option tag_storage_new (st_db st)) = Done (st1, n, store)"
    and st': "st' = st1\<lparr>st_db := map_option ts_db store\<rparr>"
    by (auto simp: remove_service_tags_def bind_outcome_Done_iff)
  have "quiet st (fst (st1, n, store))"
    by (rule with_services_keeps [OF run, of "\<lambda>s. quiet st (fst s)"])
      (auto simp: quiet_refl [OF assms(1)] Let_def bind_outcome_Done_iff quiet_ignored)
  then show ?thesis by (simp add: st' quiet_ignored)
qed

lemma add_setter_tags_quiet:
  assumes "backend_inv st" "add_setter_tags sip selectors tags st = Done (n, st')"
  shows "quiet st st'"
proof -
  from assms(2) have run: "with_setters selectors (\<lambda>a (st, result).
          case channel_insert_tags tags (std_channel (st_setters st ! a)) of
            (changed, channel) \<Rightarrow>
              if changed then
                bind_outcome (with_new_storage (store_add_tags sip (ch_id channel) tags)
                    (put_setter_channel a channel st))
                  (\<lambda>st. Done (st, result + 1))
              else Done (put_setter_channel a channel st, result + 1)) (st, 0) = Done (st', n)"
    by (auto simp: add_setter_tags_def bind_outcome_Done_iff)
  have "quiet st (fst (st', n))"
    by (rule with_setters_keeps [OF run, of "\<lambda>s. quiet st (fst s)"])
      (auto simp: quiet_refl [OF assms(1)] bind_outcome_Done_iff
        elim: put_tags_quiet dest: with_new_storage_quiet [OF _ put_tags_quiet(3)]
          with_new_storage_quiet [OF _ put_tags_quiet(4)] split: if_splits prod.splits)
  then show ?thesis by simp
qed

lemma remove_setter_tags_quiet:
  assumes "backend_inv st" "remove_setter_tags sip selectors tags st = Done (n, st')"
  shows "quiet st st'"
proof -
  from assms(2) have run: "with_setters selectors (\<lambda>a (st, result).
          case channel_remove_tags tags (std_channel (st_setters st ! a)) of
            (changed, channel) \<Rightarrow>
              if changed then
                bind_outcome (with_new_storage (store_remove_tags sip (ch_id channel) tags)
                    (put_setter_channel a channel st))
                  (\<lambda>st. Done (st, result + 1))
              else Done (put_setter_channel a channel st, result + 1)) (st, 0) = Done (st', n)"
    by (auto simp: remove_setter_tags_def bind_outcome_Done_iff)
  have "quiet st (fst (st', n))"
    by (rule with_setters_keeps [OF run, of "\<lambda>s. quiet st (fst s)"])
      (auto simp: quiet_refl [OF assms(1)] bind_outcome_Done_iff
        elim: put_tags_quiet dest: with_new_storage_quiet [OF _ put_tags_quiet(3)]
          with_new_storage_quiet [OF _ put_tags_quiet(4)] split: if_splits prod.splits)
  then show ?thesis by simp
qed

text \<open>Attaching a watcher to a getter.\<close>

lemma attach_quiet:
  assumes q: "quiet st0 st" and key: "key < wm_counter st"
    and step: "aux_start_channel_watch key flt adapters (st_getters st ! a, per) = Done (gd, per')"
  shows "quiet st0 (st\<lparr>st_getters := (st_getters st)[a := gd]\<rparr>)"
proof -
  from aux_start_channel_watch_gd [OF step]
  have gd: "gd = (st_getters st ! a)\<lparr>gd_watchers := hm_insert key key (gd_watchers (st_getters st ! a))\<rparr>" .
  have "same_registry st (st\<lparr>st_getters := (st_getters st)[a := gd]\<rparr>)"
    by (rule same_registry_put_getter) (simp_all add: gd)
  moreover have "watchers_inv (st\<lparr>st_getters := (st_getters st)[a := gd]\<rparr>)"
    using q key
    by (intro watchers_inv_put_getter) (auto simp: quiet_def gd intro: getter_watchers_ok_insert watchers_inv_getter)
  ultimately show ?thesis using q by (auto simp: quiet_def intro: same_registry_trans)
qed

definition counter_quiet :: "backend \<Rightarrow> nat \<Rightarrow> backend \<Rightarrow> bool" where
  "counter_quiet st0 n st \<longleftrightarrow> quiet st0 st \<and> wm_counter st = n"

lemma register_targetted_quiet:
  assumes "register_targetted a i key targetted (st, per) = Done s'"
    and "counter_quiet st0 n st" "key < n"
  shows "counter_quiet st0 n (fst s')"
proof (cases "list_ex (getter_data_matches st (st_getters st ! a)) (select targetted)")
  case False
  with assms show ?thesis by (auto simp: register_targetted_def)
next
  case True
  let ?st = "send_event key (GetterAdded i) st"
  obtain gd per' where step: "aux_start_channel_watch key (payload targetted) (adapter_by_id st)
        (st_getters ?st ! a, per) = Done (gd, per')"
    and s': "s' = (?st\<lparr>st_getters := (st_getters ?st)[a := gd]\<rparr>, per')"
    using assms(1) True by (auto simp: register_targetted_def bind_outcome_Done_iff)
  have "quiet st0 ?st" "key < wm_counter ?st"
    using assms(2,3) by (simp_all add: counter_quiet_def quiet_ignored)
  from attach_quiet [OF this step] assms(2) show ?thesis by (simp add: s' counter_quiet_def)
qed

lemma register_watcher_quiet:
  assumes "register_watcher a i (key, watcher) (st, per) = Done s'"
    and "counter_quiet st0 n st" "key < n"
  shows "counter_quiet st0 n (fst s')"
proof (cases "hm_has (wd_guards watcher) i \<or> is_dropped key st")
  case True
  with assms(1) have "s' = (st, per)" by (auto simp: register_watcher_def split: if_splits)
  with assms(2) show ?thesis by simp
next
  case False
  with assms(1) have run: "fold_outcome (register_targetted a i key) (wd_watch watcher) (st, per) = Done s'"
    by (simp add: register_watcher_def)
  show ?thesis
  proof (rule fold_outcome_keeps [OF run, of "\<lambda>s. counter_quiet st0 n (fst s)"])
    fix t s1 s2
    assume "counter_quiet st0 n (fst s1)" "register_targetted a i key t s1 = Done s2"
    then show "counter_quiet st0 n (fst s2)"
      using register_targetted_quiet [of a i key t "fst s1" "snd s1" s2] assms(3) by simp
  qed (use assms(2) in simp)
qed

lemma registration_quiet:
  assumes q: "quiet st0 st" and run: "aux_getters_may_need_registration getters st = Done (request, st')"
  shows "quiet st0 st'"
proof -
  from run obtain per where fold: "fold_outcome
         (\<lambda>i (st, per_adapter).
            case hm_get (getter_by_id st) i of
              None \<Rightarrow> Panic
            | Some a \<Rightarrow> fold_outcome (register_watcher a i) (wm_watchers st) (st, per_adapter))
         getters (st, []) = Done (st', per)"
    by (auto simp: aux_getters_may_need_registration_def bind_outcome_Done_iff)
  let ?P = "\<lambda>s. counter_quiet st0 (wm_counter st) (fst s)"
  have inner: "?P s'"
    if s: "?P s" and step: "fold_outcome (register_watcher a i) (wm_watchers (fst s)) s = Done s'" for s s' a i
  proof (rule fold_outcome_keeps [OF step, of ?P])
    show "?P s" by (rule s)
    fix x s1 s2
    assume x: "x \<in> set (wm_watchers (fst s))" and P: "?P s1" and "register_watcher a i x s1 = Done s2"
    moreover have "watchers_inv (fst s)" "wm_counter (fst s) = wm_counter st"
      using s by (simp_all add: counter_quiet_def quiet_def)
    then have "fst x < wm_counter st"
      using x watchers_invD(1) [of "fst s"] watchers_invD(2) [of "fst s" "fst x" "snd x"]
        hm_ok_map_of [of "wm_watchers (fst s)" "fst x" "snd x"] by simp
    ultimately show "?P s2"
      using register_watcher_quiet [of a i "fst x" "snd x" "fst s1" "snd s1" s2] by simp
  qed
  have "?P (st', per)"
  proof (rule fold_outcome_keeps [OF fold, of ?P])
    show "?P (st, [])" using q by (simp add: counter_quiet_def)
    fix i and s s' :: "backend \<times> watch_request"
    assume P: "?P s" and step: "(\<lambda>i (st, per_adapter).
            case hm_get (getter_by_id st) i of
              None \<Rightarrow> Panic
            | Some a \<Rightarrow> fold_outcome (register_watcher a i) (wm_watchers st) (st, per_adapter)) i s = Done s'"
    then obtain a where "fold_outcome (register_watcher a i) (wm_watchers (fst s)) s = Done s'"
      by (cases s) (auto split: option.splits)
    with P show "?P s'" by (rule inner)
  qed
  then show ?thesis by (simp add: counter_quiet_def)
qed

lemma add_getter_tags_quiet:
  assumes "backend_inv st" "add_getter_tags sip selectors tags st = Done (r, st')"
  shows "quiet st st'"
proof -
  from assms(2) obtain s1 where run: "with_getters selectors (\<lambda>a (st, channels, size).
          case channel_insert_tags tags (gd_channel (st_getters st ! a)) of
            (changed, channel) \<Rightarrow>
              if changed then
                bind_outcome (with_new_storage (store_add_tags sip (ch_id channel) tags)
                    (put_getter_channel a channel st))
                  (\<lambda>st. Done (st, channels @ [ch_id channel], size + 1))
              else Done (put_getter_channel a channel st, channels, size + 1))
         (st, [], 0) = Done s1"
    and reg: "(case s1 of (st, channels, n) \<Rightarrow>
          bind_outcome (aux_getters_may_need_registration channels st)
            (\<lambda>(request, st). Done ((request, n), st))) = Done (r, st')"
    unfolding add_getter_tags_def bind_outcome_Done_iff by blast
  have "quiet st (fst s1)"
    by (rule with_getters_keeps [OF run, of "\<lambda>s. quiet st (fst s)"])
      (auto simp: quiet_refl [OF assms(1)] bind_outcome_Done_iff
        elim: put_tags_quiet dest: with_new_storage_quiet [OF _ put_tags_quiet(1)]
        split: if_splits prod.splits)
  with reg show ?thesis
    by (cases s1) (auto simp: bind_outcome_Done_iff dest: registration_quiet)
qed

lemma unregistration_quiet:
  assumes "backend_inv st0" "quiet st0 st" "a \<in> set (hm_values (getter_by_id st0))"
  shows "quiet st0 (aux_getter_may_need_unregistration a b st)"
proof -
  from quiet_address(1) [OF assms] have "a < length (st_getters st)" .
  with assms(2) unregistration_watchers [of st a b] unregistration_same [of st a b] show ?thesis
    by (auto simp: quiet_def intro: same_registry_trans)
qed

lemma remove_getter_tags_quiet:
  assumes "backend_inv st" "remove_getter_tags sip selectors tags st = Done (n, st')"
  shows "quiet st st'"
proof -
  from assms(2) have run: "with_getters selectors (\<lambda>a (st, result).
          case channel_remove_tags tags (gd_channel (st_getters st ! a)) of
            (changed, channel) \<Rightarrow>
              bind_outcome
                (if changed then
                   with_new_storage (store_remove_tags sip (ch_id channel) tags)
                     (put_getter_channel a channel st)
                 else Done (put_getter_channel a channel st))
                (\<lambda>st. Done (aux_getter_may_need_unregistration a False st, result + 1)))
         (st, 0) = Done (st', n)"
    by (auto simp: remove_getter_tags_def bind_outcome_Done_iff)
  have "quiet st (fst (st', n))"
  proof (rule with_getters_keeps [OF run, of "\<lambda>s. quiet st (fst s)"])
    fix a s s'
    assume a: "a \<in> set (hm_values (getter_by_id (fst (st, 0::nat))))" and q: "quiet st (fst s)"
      and step: "(\<lambda>a (st, result).
          case channel_remove_tags tags (gd_channel (st_getters st ! a)) of
            (changed, channel) \<Rightarrow>
              bind_outcome
                (if changed then
                   with_new_storage (store_remove_tags sip (ch_id channel) tags)
                     (put_getter_channel a channel st)
                 else Done (put_getter_channel a channel st))
                (\<lambda>st. Done (aux_getter_may_need_unregistration a False st, result + 1))) a s = Done s'"
    obtain changed channel where rm: "channel_remove_tags tags (getter_at (fst s) a) = (changed, channel)"
      by (cases "channel_remove_tags tags (getter_at (fst s) a)")
    have put: "quiet st (put_getter_channel a channel (fst s))" by (rule put_tags_quiet(2) [OF rm q])
    have "\<exists>st2. quiet st st2 \<and> fst s' = aux_getter_may_need_unregistration a False st2"
    proof (cases changed)
      case True
      with step rm obtain st2 where "with_new_storage (store_remove_tags sip (ch_id channel) tags)
          (put_getter_channel a channel (fst s)) = Done st2"
        and "fst s' = aux_getter_may_need_unregistration a False st2"
        by (cases s) (auto simp: bind_outcome_Done_iff)
      with with_new_storage_quiet [OF this(1) put] show ?thesis by blast
    next
      case False
      with step rm put show ?thesis by (cases s) auto
    qed
    then obtain st2 where st2: "quiet st st2" "fst s' = aux_getter_may_need_unregistration a False st2" by blast
    have "a \<in> set (hm_values (getter_by_id st))" using a by simp
    from unregistration_quiet [OF assms(1) st2(1) this] show "quiet st (fst s')" by (simp add: st2(2))
  qed (simp add: quiet_refl [OF assms(1)])
  then show ?thesis by simp
qed

lemma prepare_channel_watch_quiet:
  assumes "backend_inv st" "prepare_channel_watch watch st = Done (r, st')"
  shows "quiet st st'"
proof -
  from assms(2) obtain watcher st1 per where
    new: "watch_map_create watch st = Done (watcher, st1)" and
    run: "fold_outcome
           (\<lambda>targetted st.
              with_getters (select targetted) (\<lambda>a (st, per_adapter).
                bind_outcome
                  (aux_start_channel_watch (wd_key watcher) (payload targetted) (adapter_by_id st)
                     (st_getters st ! a, per_adapter))
                  (\<lambda>(getter_data, per_adapter).
                     Done (st\<lparr>st_getters := (st_getters st)[a := getter_data]\<rparr>, per_adapter))) st)
           watch (st1, []) = Done (st', per)"
    by (auto simp: prepare_channel_watch_def bind_outcome_Done_iff)
  have st1: "st1 = st\<lparr>wm_watchers := hm_insert (wm_counter st) watcher (wm_watchers st),
      wm_counter := wm_counter st + 1\<rparr>" and w: "wd_key watcher = wm_counter st"
    using new by (auto simp: watch_map_create_def watcher_data_new_def Let_def split: if_splits)
  have inv: "watchers_inv st" using assms(1) by (simp add: backend_inv_def)
  have "watchers_inv st1"
    using inv w by (fastforce simp: st1 watchers_inv_alt getter_watchers_ok_def)
  moreover have "same_registry st st1" by (simp add: st1 same_registry_def)
  ultimately have start: "counter_quiet st (wm_counter st + 1) st1"
    by (simp add: counter_quiet_def quiet_def st1)
  let ?P = "\<lambda>s. counter_quiet st (wm_counter st + 1) (fst s)"
  have "?P (st', per)"
  proof (rule fold_outcome_keeps [OF run, of ?P])
    show "?P (st1, [])" using start by simp
    fix targetted and s s' :: "backend \<times> watch_request"
    assume "?P s"
    then show "?P s'" if "with_getters (select targetted) (\<lambda>a (st, per_adapter).
                bind_outcome
                  (aux_start_channel_watch (wd_key watcher) (payload targetted) (adapter_by_id st)
                     (st_getters st ! a, per_adapter))
                  (\<lambda>(getter_data, per_adapter).
                     Done (st\<lparr>st_getters := (st_getters st)[a := getter_data]\<rparr>, per_adapter))) s = Done s'"
    proof (rule with_getters_keeps [OF that, of ?P])
      fix a and s s' :: "backend \<times> watch_request"
      assume P: "?P s" and step: "(\<lambda>a (st, per_adapter).
                bind_outcome
                  (aux_start_channel_watch (wd_key watcher) (payload targetted) (adapter_by_id st)
                     (st_getters st ! a, per_adapter))
                  (\<lambda>(getter_data, per_adapter).
                     Done (st\<lparr>st_getters := (st_getters st)[a := getter_data]\<rparr>, per_adapter))) a s = Done s'"
      obtain st2 per2 where s: "s = (st2, per2)" by (cases s)
      from step obtain gd per' where start: "aux_start_channel_watch (wd_key watcher) (payload targetted)
          (adapter_by_id st2) (st_getters st2 ! a, per2) = Done (gd, per')"
        and s': "s' = (st2\<lparr>st_getters := (st_getters st2)[a := gd]\<rparr>, per')"
        by (auto simp: s bind_outcome_Done_iff)
      from P have "quiet st st2" "wd_key watcher < wm_counter st2" by (simp_all add: s counter_quiet_def w)
      from attach_quiet [OF this start] P show "?P s'" by (simp add: s s' counter_quiet_def)
    qed
  qed
  then show ?thesis by (simp add: counter_quiet_def)
qed

lemma stop_watch_getter_quiet:
  assumes "stop_watch_getter key g st = Done st'" "quiet st0 st"
  shows "quiet st0 st'"
proof (cases "hm_get (getter_by_id st) g")
  case None
  with assms show ?thesis by (simp add: stop_watch_getter_def)
next
  case (Some a)
  let ?gd = "(st_getters st ! a)\<lparr>gd_watchers := hm_remove key (gd_watchers (st_getters st ! a))\<rparr>"
  from assms(1) Some have st': "st' = st\<lparr>st_getters := (st_getters st)[a := ?gd]\<rparr>"
    by (auto simp: stop_watch_getter_def Let_def split: if_splits)
  have "same_registry st st'" unfolding st' by (rule same_registry_put_getter) simp_all
  moreover have "watchers_inv st'"
    unfolding st' using assms(2)
    by (intro watchers_inv_put_getter) (auto simp: quiet_def intro: getter_watchers_ok_remove_one watchers_inv_getter)
  ultimately show ?thesis using assms(2) by (auto simp: quiet_def intro: same_registry_trans)
qed

lemma stop_watch_quiet:
  assumes "backend_inv st" "stop_watch key st = Done st'"
  shows "quiet st st'"
proof -
  let ?st1 = "st\<lparr>wm_watchers := hm_remove key (wm_watchers st)\<rparr>"
  have "watchers_inv ?st1" using assms(1) by (simp add: backend_inv_def watchers_inv_remove)
  then have q: "quiet st ?st1" by (auto simp: quiet_def)
  show ?thesis
  proof (cases "hm_get (wm_watchers st) key")
    case None
    with assms(2) q show ?thesis by (simp add: stop_watch_def watch_map_remove_def)
  next
    case (Some wd)
    with assms(2) have run: "fold_outcome (stop_watch_getter key) (hm_keys (wd_guards wd)) ?st1 = Done st'"
      by (auto simp: stop_watch_def watch_map_remove_def split: if_splits)
    show ?thesis
      by (rule fold_outcome_keeps [OF run, of "quiet st"]) (auto intro: q stop_watch_getter_quiet)
  qed
qed

lemma collect_guards_events:
  "\<exists>ev. snd (collect_guards key results (guards, st)) = st\<lparr>st_events := ev\<rparr>"
proof (induction results arbitrary: guards st)
  case Nil
  show ?case by (rule exI [of _ "st_events st"]) simp
next
  case (Cons r results)
  obtain i res where r: "r = (i, res)" by (cases r)
  show ?case
  proof (cases res)
    case (Inl err)
    with Cons.IH [of guards "send_event key (InitializationError i err) st"] show ?thesis by (simp add: r)
  next
    case (Inr g)
    with Cons.IH [of "guards @ [(i, g)]" st] show ?thesis by (simp add: r)
  qed
qed

lemma start_watch_adapter_quiet:
  "quiet st0 st \<Longrightarrow> quiet st0 (snd (start_watch_adapter reg adapter reqs (to_add, st)))"
proof (induction reqs arbitrary: to_add st)
  case (Cons r reqs)
  obtain i rng weak where r: "r = (i, rng, weak)" by (cases r)
  obtain guards st1 where cg: "collect_guards weak (reg adapter i rng weak) ([], st) = (guards, st1)"
    by (cases "collect_guards weak (reg adapter i rng weak) ([], st)")
  with collect_guards_events [of weak "reg adapter i rng weak" "[]" st] have "quiet st0 st1"
    using Cons.prems by (auto simp: quiet_ignored)
  with Cons show ?case by (simp add: r cg split: option.split)
qed simp

lemma start_watch_quiet:
  assumes "backend_inv st" "start_watch reg per st = (commit, st')"
  shows "quiet st st'"
proof -
  have "quiet st0 (snd (start_watch_loop reg per acc))" if "quiet st0 (snd acc)" for st0 acc
    using that
  proof (induction per arbitrary: acc)
    case (Cons p per)
    obtain k ad reqs where p: "p = (k, ad, reqs)" by (cases p)
    from Cons.prems have "quiet st0 (snd (start_watch_adapter reg ad reqs acc))"
      by (cases acc) (simp add: start_watch_adapter_quiet)
    with Cons.IH show ?case by (simp add: p)
  qed simp
  from this [of st "([], st)"] assms quiet_refl show ?thesis by (simp add: start_watch_def)
qed

lemma push_guards_key: "wd_key (fold (\<lambda>(i, guard) wd. push_guard i guard wd) guards wd) = wd_key wd"
  by (induction guards arbitrary: wd) (auto simp: push_guard_def)

lemma register_ongoing_quiet:
  assumes "backend_inv st"
  shows "quiet st (register_ongoing_watch ongoing st)"
proof -
  let ?step = "\<lambda>(key, guards) st.
             case hm_get (wm_watchers st) key of
               None \<Rightarrow> st
             | Some watch_data \<Rightarrow>
                 st\<lparr>wm_watchers := hm_insert key
                      (fold (\<lambda>(i, guard) wd. push_guard i guard wd) guards watch_data) (wm_watchers st)\<rparr>"
  have step: "quiet st0 (?step x s)" if "quiet st0 s" for st0 s x
  proof -
    obtain key guards where x: "x = (key, guards)" by (cases x)
    have inv: "watchers_inv s" using that by (simp add: quiet_def)
    show ?thesis
    proof (cases "hm_get (wm_watchers s) key")
      case None
      with that show ?thesis by (simp add: x)
    next
      case (Some wd)
      let ?wd = "fold (\<lambda>(i, guard) wd. push_guard i guard wd) guards wd"
      have "watchers_inv (s\<lparr>wm_watchers := hm_insert key ?wd (wm_watchers s)\<rparr>)"
        using watchers_invD(2) [OF inv Some]
        by (intro watchers_inv_put_watcher [OF inv]) (simp_all add: push_guards_key)
      with that Some show ?thesis
        by (auto simp: x quiet_def intro: same_registry_trans)
    qed
  qed
  have "quiet st0 (fold ?step ongoing s)" if "quiet st0 s" for st0 s
    using that by (induction ongoing arbitrary: s) (use step in simp_all)
  then show ?thesis using quiet_refl [OF assms] by (simp add: register_ongoing_watch_def)
qed

section \<open>The operations that change the registry\<close>

lemma with_db_tags_link:
  assumes "with_db_tags c st = Done (c', st1)"
  shows "channel_link c' = channel_link c" and "\<exists>db. st1 = st\<lparr>st_db := db\<rparr>"
proof -
  have "channel_link c' = channel_link c \<and> (\<exists>db. st1 = st\<lparr>st_db := db\<rparr>)"
  proof (cases "st_db st")
    case None
    then have "st\<lparr>st_db := None\<rparr> = st" by simp
    with assms None show ?thesis by (auto simp: with_db_tags_def intro: exI [of _ None])
  next
    case (Some path)
    with assms obtain r store where "get_tags_for (ch_id c) (tag_storage_new path) = Done (r, store)"
      by (auto simp: with_db_tags_def bind_outcome_Done_iff)
    with assms Some show ?thesis by (cases r) (auto simp: with_db_tags_def Let_def)
  qed
  then show "channel_link c' = channel_link c" and "\<exists>db. st1 = st\<lparr>st_db := db\<rparr>" by simp_all
qed

lemma put_db_inv: "backend_inv st \<Longrightarrow> backend_inv (st\<lparr>st_db := db\<rparr>)"
  using quiet_ignored(1) quiet_inv quiet_refl by blast

lemma insert_getter_inv:
  assumes inv: "backend_inv st" and step: "insert_getter c st = (r, st')"
  shows "backend_inv st'"
proof -
  have "registry_inv st'"
    using insert_getter_registry [OF _ step] inv by (simp add: backend_inv_def)
  moreover have "watchers_inv st'"
    using inv step
    by (auto simp: insert_getter_result backend_inv_def watchers_inv_alt getter_data_new_def
        getter_watchers_ok_def split: option.splits if_splits)
  ultimately show ?thesis by (simp add: backend_inv_def)
qed

lemma insert_setter_inv:
  assumes inv: "backend_inv st" and step: "insert_setter c st = (r, st')"
  shows "backend_inv st'"
proof -
  have "registry_inv st'"
    using insert_setter_registry [OF _ step] inv by (simp add: backend_inv_def)
  moreover have "watchers_inv st'"
    using inv step
    by (auto simp: insert_setter_result backend_inv_def watchers_inv_alt split: option.splits if_splits)
  ultimately show ?thesis by (simp add: backend_inv_def)
qed

lemma add_getter_inv:
  assumes inv: "backend_inv st" and step: "add_getter c st = Done (r, st')"
  shows "backend_inv st'"
proof -
  from step obtain c1 st1 where tags: "with_db_tags c st = Done (c1, st1)"
    and rest: "(case insert_getter c1 st1 of
         (Inl e, st) \<Rightarrow> Done (Inl e, st)
       | (Inr _, st) \<Rightarrow>
           bind_outcome (aux_getters_may_need_registration [ch_id c1] st)
             (\<lambda>(request, st). Done (Inr request, st))) = Done (r, st')"
    by (auto simp: add_getter_def bind_outcome_Done_iff)
  obtain r2 st2 where ins: "insert_getter c1 st1 = (r2, st2)" by (cases "insert_getter c1 st1")
  from with_db_tags_link(2) [OF tags] inv have "backend_inv st1" by (auto intro: put_db_inv)
  from insert_getter_inv [OF this ins] have inv2: "backend_inv st2" .
  show ?thesis
  proof (cases r2)
    case (Inl e)
    with rest ins inv2 show ?thesis by auto
  next
    case (Inr u)
    with rest ins obtain req where "aux_getters_may_need_registration [ch_id c1] st2 = Done (req, st')"
      by (auto simp: bind_outcome_Done_iff)
    with inv2 show ?thesis using registration_quiet quiet_refl quiet_inv by blast
  qed
qed

lemma add_setter_inv:
  assumes inv: "backend_inv st" and step: "add_setter c st = Done (r, st')"
  shows "backend_inv st'"
proof -
  from step obtain c1 st1 where tags: "with_db_tags c st = Done (c1, st1)"
    and ins: "insert_setter c1 st1 = (r, st')"
    by (auto simp: add_setter_def bind_outcome_Done_iff)
  from with_db_tags_link(2) [OF tags] inv have "backend_inv st1" by (auto intro: put_db_inv)
  from insert_setter_inv [OF this ins] show ?thesis .
qed

lemma install_service_inv:
  assumes "backend_inv st" "install_service tags service st = (r, st')"
  shows "backend_inv st'"
  using assms install_service_registry [OF _ assms(2)]
  by (auto simp: backend_inv_def install_service_def watchers_inv_alt split: option.splits if_splits)

lemma add_service_cases:
  assumes step: "add_service service st = Done (r, st')"
  obtains "st' = st" | tags where "install_service tags service st = (r, st')"
    | db where "st' = st\<lparr>st_db := db\<rparr>"
    | db tags where "install_service tags service (st\<lparr>st_db := db\<rparr>) = (r, st')"
proof (cases "svc_getters service \<noteq> [] \<or> svc_setters service \<noteq> [] \<or>
    \<not> hm_has (adapter_by_id st) (svc_adapter service)")
  case True
  with step that(1) show thesis by (auto simp: add_service_result split: if_splits)
next
  case ok: False
  show thesis
  proof (cases "st_db st")
    case None
    with step ok that(2) show thesis by (simp add: add_service_result)
  next
    case (Some path)
    with step ok obtain res store where "get_tags_for (svc_id service) (tag_storage_new path) = Done (res, store)"
      by (auto simp: add_service_result bind_outcome_Done_iff)
    with step ok Some that(3,4) show thesis by (cases res) (auto simp: add_service_result)
  qed
qed

lemma add_service_inv:
  assumes inv: "backend_inv st" and step: "add_service service st = Done (r, st')"
  shows "backend_inv st'"
  using step by (rule add_service_cases) (use inv in \<open>auto intro: install_service_inv put_db_inv\<close>)

lemma add_adapter_inv:
  assumes "backend_inv st" "add_adapter ad st = (r, st')"
  shows "backend_inv st'"
  using assms add_adapter_registry [OF _ assms(2)]
  by (auto simp: backend_inv_def add_adapter_def watchers_inv_alt split: option.splits)

lemma aux_remove_service_watches:
  "watchers_inv (snd (aux_remove_service s st)) = watchers_inv st"
  by (rule watchers_inv_cong) (simp_all add: aux_remove_service_fields)

lemma remove_service_inv:
  assumes "backend_inv st" "remove_service s st = (r, st')"
  shows "backend_inv st'"
proof -
  have "watchers_inv st'"
    using assms aux_remove_service_watches [of s st]
    by (auto simp: remove_service_def Let_def backend_inv_def watchers_inv_ignored
        split: prod.splits sum.splits option.splits if_splits)
  with assms remove_service_registry [OF _ assms(2)] show ?thesis by (simp add: backend_inv_def)
qed

lemma remove_adapter_inv:
  assumes "backend_inv st" "remove_adapter i st = (r, st')"
  shows "backend_inv st'"
proof -
  have "watchers_inv (fold (\<lambda>s st. snd (aux_remove_service s st)) ks st) = watchers_inv st" for ks st
    by (induction ks arbitrary: st) (simp_all add: aux_remove_service_watches)
  then have "watchers_inv st'"
    using assms by (auto simp: remove_adapter_def backend_inv_def watchers_inv_ignored split: option.splits)
  with assms remove_adapter_registry [OF _ assms(2)] show ?thesis by (simp add: backend_inv_def)
qed

lemma remove_setter_inv:
  assumes "backend_inv st" "remove_setter g st = (r, st')"
  shows "backend_inv st'"
  using assms remove_setter_registry [OF _ assms(2)]
  by (auto simp: backend_inv_def remove_setter_def Let_def watchers_inv_ignored split: option.splits if_splits)

lemma remove_getter_inv:
  assumes inv: "backend_inv st" and step: "remove_getter g st = (r, st')"
  shows "backend_inv st'"
proof -
  have reg: "registry_inv st" "watchers_inv st" using inv by (simp_all add: backend_inv_def)
  have "watchers_inv st'"
  proof (cases "hm_get (getter_by_id st) g")
    case None
    with reg step show ?thesis by (simp add: remove_getter_def)
  next
    case (Some a)
    then have "a < length (st_getters st)"
      using registry_invD(8) [OF reg(1)] by (auto simp: getter_entry_def)
    then have "watchers_inv (aux_getter_may_need_unregistration a True
        (st\<lparr>getter_by_id := hm_remove g (getter_by_id st)\<rparr>))"
      by (intro unregistration_watchers) (simp_all add: watchers_inv_ignored reg)
    with Some step show ?thesis
      by (auto simp: remove_getter_def Let_def watchers_inv_ignored split: option.splits if_splits)
  qed
  with remove_getter_registry [OF reg(1) step] show ?thesis by (simp add: backend_inv_def)
qed

lemma backend_stop_inv: "backend_inv st \<Longrightarrow> backend_inv (backend_stop st)"
  unfolding backend_inv_def registry_inv_def backend_stop_def
  by (intro conjI registry_inv_exceptI) (auto simp: watchers_inv_alt)

section \<open>Reachable states\<close>

text \<open>The parameters are the hash of the tag storage and the answers of the adapters to
  \<^verbatim>\<open>register_watch\<close>.\<close>

inductive backend_step :: "(string \<Rightarrow> string \<Rightarrow> nat) \<Rightarrow> register_watch_fn \<Rightarrow> backend \<Rightarrow> backend \<Rightarrow> bool"
  for sip :: "string \<Rightarrow> string \<Rightarrow> nat" and reg :: register_watch_fn where
  add_adapter: "add_adapter ad st = (r, st') \<Longrightarrow> backend_step sip reg st st'"
| remove_adapter: "remove_adapter i st = (r, st') \<Longrightarrow> backend_step sip reg st st'"
| add_service: "add_service service st = Done (r, st') \<Longrightarrow> backend_step sip reg st st'"
| remove_service: "remove_service s st = (r, st') \<Longrightarrow> backend_step sip reg st st'"
| add_getter: "add_getter c st = Done (r, st') \<Longrightarrow> backend_step sip reg st st'"
| remove_getter: "remove_getter g st = (r, st') \<Longrightarrow> backend_step sip reg st st'"
| add_setter: "add_setter c st = Done (r, st') \<Longrightarrow> backend_step sip reg st st'"
| remove_setter: "remove_setter g st = (r, st') \<Longrightarrow> backend_step sip reg st st'"
| add_service_tags: "add_service_tags sip ss tags st = Done (n, st') \<Longrightarrow> backend_step sip reg st st'"
| remove_service_tags: "remove_service_tags sip ss tags st = Done (n, st') \<Longrightarrow> backend_step sip reg st st'"
| add_getter_tags: "add_getter_tags sip gs tags st = Done (r, st') \<Longrightarrow> backend_step sip reg st st'"
| remove_getter_tags: "remove_getter_tags sip gs tags st = Done (n, st') \<Longrightarrow> backend_step sip reg st st'"
| add_setter_tags: "add_setter_tags sip gs tags st = Done (n, st') \<Longrightarrow> backend_step sip reg st st'"
| remove_setter_tags: "remove_setter_tags sip gs tags st = Done (n, st') \<Longrightarrow> backend_step sip reg st st'"
| prepare_channel_watch: "prepare_channel_watch watch st = Done (r, st') \<Longrightarrow> backend_step sip reg st st'"
| start_watch: "start_watch reg per st = (commit, st') \<Longrightarrow> backend_step sip reg st st'"
| register_ongoing_watch: "st' = register_ongoing_watch ongoing st \<Longrightarrow> backend_step sip reg st st'"
| drop_guard: "key < wm_counter st \<Longrightarrow> st' = st\<lparr>st_dropped := st_dropped st @ [key]\<rparr> \<Longrightarrow>
    backend_step sip reg st st'"
| stop_watch: "stop_watch key st = Done st' \<Longrightarrow> backend_step sip reg st st'"
| stop: "st' = backend_stop st \<Longrightarrow> backend_step sip reg st st'"

inductive reachable :: "(string \<Rightarrow> string \<Rightarrow> nat) \<Rightarrow> register_watch_fn \<Rightarrow> backend \<Rightarrow> bool"
  for sip :: "string \<Rightarrow> string \<Rightarrow> nat" and reg :: register_watch_fn where
  init: "reachable sip reg (backend_new db)"
| step: "reachable sip reg st \<Longrightarrow> backend_step sip reg st st' \<Longrightarrow> reachable sip reg st'"

lemmas quiet_steps =
  add_service_tags_quiet remove_service_tags_quiet add_getter_tags_quiet remove_getter_tags_quiet
  add_setter_tags_quiet remove_setter_tags_quiet prepare_channel_watch_quiet start_watch_quiet
  stop_watch_quiet

lemmas registry_steps =
  add_adapter_inv remove_adapter_inv add_service_inv remove_service_inv add_getter_inv
  remove_getter_inv add_setter_inv remove_setter_inv

lemma backend_step_inv: "backend_step sip reg st st' \<Longrightarrow> backend_inv st \<Longrightarrow> backend_inv st'"
proof (induction rule: backend_step.induct)
  case (register_ongoing_watch st' ongoing st)
  then show ?case using register_ongoing_quiet quiet_inv by blast
next
  case (drop_guard key st st')
  then show ?case using quiet_ignored(3) quiet_refl quiet_inv by blast
next
  case (stop st' st)
  then show ?case by (simp add: backend_stop_inv)
qed (blast intro: registry_steps quiet_inv quiet_steps)+

lemma reachable_inv: "reachable sip reg st \<Longrightarrow> backend_inv st"
proof (induction rule: reachable.induct)
  case (init db)
  have "watchers_inv (backend_new db)" by (simp add: watchers_inv_def backend_new_def)
  with backend_new_inv show ?case by (simp add: backend_inv_def)
next
  case (step st st')
  then show ?case by (blast intro: backend_step_inv)
qed

end
