(* ===== verification/Sample_Home.thy ===== *)
theory Sample_Home
  imports Backend_Safety
begin

text \<open>
  A small installation the witnesses are evaluated on: one adapter, a lamp with a getter and a
  setter of its power, and a client that watches the lamp.
\<close>

definition no_hash :: "string \<Rightarrow> string \<Rightarrow> nat" where
  "no_hash i t = 0"

definition no_watch :: register_watch_fn where
  "no_watch adapter i rng key = [(i, Inr 7)]"

definition hue :: adapter where
  "hue = Adapter ''hue'' 0"

definition lamp :: service where
  "lamp = service_empty ''lamp'' ''hue''"

definition lamp_power :: channel where
  "lamp_power = \<lparr>ch_tags = [], ch_id = ''power'', ch_service = ''lamp'', ch_kind = KLightOn,
     ch_updated = None, ch_adapter = ''hue'', ch_last_seen = None\<rparr>"

definition home :: backend where
  "home = \<lparr>adapter_by_id = [(''hue'', \<lparr>ad_adapter = hue, ad_services = [(''lamp'', 0)]\<rparr>)],
     service_by_id = [(''lamp'', 0)], getter_by_id = [(''power'', 0)], setter_by_id = [(''power'', 0)],
     st_services = [\<lparr>sd_tags = 0, sd_id = ''lamp'', sd_properties = [],
        sd_getters = [(''power'', 0)], sd_setters = [(''power'', 0)], sd_adapter = ''hue''\<rparr>],
     st_getters = [\<lparr>gd_channel = lamp_power, gd_service_tags = 0, gd_watchers = []\<rparr>],
     st_setters = [\<lparr>std_channel = lamp_power, std_service_tags = 0\<rparr>],
     st_tags = [[]], wm_counter = 0, wm_watchers = [], st_dropped = [], st_events = [],
     st_stopped = [], st_db = None\<rparr>"

lemmas home_defs = home_def lamp_power_def lamp_def hue_def service_empty_def

lemma home_reachable: "reachable sip reg home"
proof -
  let ?st1 = "snd (add_adapter hue (backend_new None))"
  let ?st2 = "snd (install_service [] lamp ?st1)"
  let ?st3 = "snd (insert_getter lamp_power ?st2)"
  have "reachable sip reg ?st1"
    by (rule reachable.step [OF reachable.init backend_step.add_adapter]) (simp add: prod_eq_iff)
  moreover have "add_service lamp ?st1 = Done (Inr (), ?st2)"
    by (simp add: add_service_result install_service_def add_adapter_def backend_new_def home_defs
        adapter_data_new_def hm_has_def)
  ultimately have "reachable sip reg ?st2"
    by (blast intro: reachable.step backend_step.add_service)
  moreover have "add_getter lamp_power ?st2 = Done (Inr [], ?st3)"
    by (simp add: add_getter_def with_db_tags_def install_service_def add_adapter_def backend_new_def home_defs
        adapter_data_new_def hm_has_def insert_getter_result service_data_new_def
        aux_getters_may_need_registration_def)
  ultimately have "reachable sip reg ?st3"
    by (blast intro: reachable.step backend_step.add_getter)
  moreover have "add_setter lamp_power ?st3 = Done (Inr (), home)"
    by (simp add: add_setter_def with_db_tags_def install_service_def add_adapter_def backend_new_def home_defs
        adapter_data_new_def hm_has_def insert_getter_result insert_setter_result service_data_new_def
        getter_data_new_def setter_data_new_def)
  ultimately show ?thesis
    by (blast intro: reachable.step backend_step.add_setter)
qed

text \<open>A client watches every light with two instructions, the second also only when it is on.\<close>

definition any_light :: GetterSelector where
  "any_light = getter_with_kind getter_selector_new KLightOn"

definition watch_light :: "(GetterSelector, Value Exactly) TargetMap" where
  "watch_light = [Targetted [any_light] Always]"

definition watch_topology :: "(GetterSelector, Value Exactly) TargetMap" where
  "watch_topology = [Targetted [any_light] Never]"

definition watch_twice :: "(GetterSelector, Value Exactly) TargetMap" where
  "watch_twice = [Targetted [any_light] Always, Targetted [any_light] (Exactly (VOnOff On))]"

lemmas watch_defs = any_light_def watch_light_def watch_topology_def watch_twice_def
  getter_with_kind_def getter_selector_new_def

end
