(* ===== verification/Backend_Props.thy ===== *)
theory Backend_Props
  imports Sample_Home
begin

text \<open>
  What the back-end promises: the consistency of its maps, all-or-nothing registration, the exact
  effect of removals and queries, requests to the adapters that are complete and well typed, and
  the places where it panics.
\<close>

section \<open>Queries as filters\<close>

lemma fold_outcome_Done:
  "(\<And>x s. x \<in> set xs \<Longrightarrow> f x s = Done (g x s)) \<Longrightarrow> fold_outcome f xs s = Done (fold g xs s)"
  by (induction xs arbitrary: s) auto

lemma fold_collect: "fold (\<lambda>x acc. if P x then acc @ [h x] else acc) xs acc = acc @ map h (filter P xs)"
  by (induction xs arbitrary: acc) auto

lemma fold_pair_fixed: "fold (\<lambda>x (st, acc). (st, g x st acc)) xs (st, acc) = (st, fold (\<lambda>x acc. g x st acc) xs acc)"
  by (induction xs arbitrary: acc) auto

text \<open>A loop over the selected channels that does not touch the state.\<close>

lemma with_getters_query:
  "with_getters sels (\<lambda>a (st, acc). bind_outcome (f st a acc) (\<lambda>acc. Done (st, acc))) (st, acc) =
   bind_outcome (fold_outcome (f st)
       (filter (\<lambda>a. list_ex (getter_data_matches st (st_getters st ! a)) sels) (hm_values (getter_by_id st))) acc)
     (\<lambda>acc. Done (st, acc))"
proof -
  have "fold_outcome
       (\<lambda>a s. if list_ex (getter_data_matches (fst s) (st_getters (fst s) ! a)) sels
               then (case s of (st, acc) \<Rightarrow> bind_outcome (f st a acc) (\<lambda>acc. Done (st, acc))) else Done s) xs (st, acc)
     = bind_outcome (fold_outcome (f st) (filter (\<lambda>a. list_ex (getter_data_matches st (st_getters st ! a)) sels) xs) acc)
     (\<lambda>acc. Done (st, acc))" for xs
  proof (induction xs arbitrary: acc)
    case (Cons x xs)
    then show ?case by (cases "f st x acc") auto
  qed simp
  then show ?thesis by (simp add: with_getters_def)
qed

lemma with_setters_query:
  "with_setters sels (\<lambda>a (st, acc). bind_outcome (f st a acc) (\<lambda>acc. Done (st, acc))) (st, acc) =
   bind_outcome (fold_outcome (f st)
       (filter (\<lambda>a. list_ex (setter_data_matches st (st_setters st ! a)) sels) (hm_values (setter_by_id st))) acc)
     (\<lambda>acc. Done (st, acc))"
proof -
  have "fold_outcome
       (\<lambda>a s. if list_ex (setter_data_matches (fst s) (st_setters (fst s) ! a)) sels
               then (case s of (st, acc) \<Rightarrow> bind_outcome (f st a acc) (\<lambda>acc. Done (st, acc))) else Done s) xs (st, acc)
     = bind_outcome (fold_outcome (f st) (filter (\<lambda>a. list_ex (setter_data_matches st (st_setters st ! a)) sels) xs) acc)
     (\<lambda>acc. Done (st, acc))" for xs
  proof (induction xs arbitrary: acc)
    case (Cons x xs)
    then show ?case by (cases "f st x acc") auto
  qed simp
  then show ?thesis by (simp add: with_setters_def)
qed

lemma get_services_result:
  "get_services sels st = Done (map (\<lambda>a. as_service st (service_at st a))
     (filter (\<lambda>a. sels = [] \<or> list_ex (\<lambda>sel. service_matches sel (as_service st (service_at st a))) sels)
       (hm_values (service_by_id st))))"
proof -
  have snap: "view_matches sel (st, service_at st a) = service_matches sel (as_service st (service_at st a))" for sel a
    unfolding view_matches_def service_matches_def vw.matches_iff svc.matches_iff
    by (simp add: view_id_def as_service_def case_prod_unfold)
  let ?P = "\<lambda>a. sels = [] \<or> list_ex (\<lambda>sel. service_matches sel (as_service st (service_at st a))) sels"
  have "fold_outcome
       (\<lambda>a s. if sels = [] then (case s of (st, result) \<Rightarrow> Done (st, result @ [as_service st (st_services st ! a)]))
               else if list_ex (\<lambda>selector. view_matches selector (fst s, st_services (fst s) ! a)) sels
               then (case s of (st, result) \<Rightarrow> Done (st, result @ [as_service st (st_services st ! a)])) else Done s)
       xs (st, acc) = Done (st, acc @ map (\<lambda>a. as_service st (service_at st a)) (filter ?P xs))" for xs acc
    by (induction xs arbitrary: acc) (auto simp: snap)
  from this [of "hm_values (service_by_id st)" "[]"] show ?thesis
    by (simp add: get_services_def with_services_def)
qed

text \<open>C1: In every state the back-end can reach, by any sequence of registrations, removals, changes
  of tags and watch operations, whatever the adapters answer, the maps of adapters, services,
  getters and setters agree with each other and the watch keys are consistent.\<close>

theorem backend_always_consistent:
  assumes "reachable sip reg st"
  shows "registry_inv st \<and> watchers_inv st"
  using reachable_inv [OF assms] by (simp add: backend_inv_def)

text \<open>Asking for services returns the snapshots of exactly the services that some selector
  selects (all of them, when there is no selector), in the order of the map.\<close>

theorem get_services_exact:
  "get_services sels st = Done (filter
     (\<lambda>s. sels = [] \<or> (\<exists>sel \<in> set sels. service_matches sel s))
     (map (\<lambda>a. as_service st (service_at st a)) (hm_values (service_by_id st))))"
  by (simp add: get_services_result filter_map o_def list_ex_iff del: map_map)

text \<open>A failed registration leaves everything but the database handle as it was: no service,
  no channel and no entry of a map is added or changed.\<close>

theorem failed_registration_changes_nothing:
  "(add_adapter ad st = (Inl e, st') \<longrightarrow> st' = st) \<and>
   (add_service s st = Done (Inl e, st') \<longrightarrow> (\<exists>db. st' = st\<lparr>st_db := db\<rparr>)) \<and>
   (add_getter c st = Done (Inl e, st') \<longrightarrow> (\<exists>db. st' = st\<lparr>st_db := db\<rparr>)) \<and>
   (add_setter c st = Done (Inl e, st') \<longrightarrow> (\<exists>db. st' = st\<lparr>st_db := db\<rparr>))"
proof (intro conjI impI)
  have same: "\<exists>db. st = st\<lparr>st_db := db\<rparr>" by (rule exI [of _ "st_db st"]) simp
  show "st' = st" if "add_adapter ad st = (Inl e, st')"
    using that by (auto simp: add_adapter_def split: option.splits)
  show "\<exists>db. st' = st\<lparr>st_db := db\<rparr>" if step: "add_service s st = Done (Inl e, st')"
  proof -
    have install: "st1' = st1" if "install_service tags s st1 = (Inl e, st1')" for tags st1 st1'
      using that by (auto simp: install_service_def split: option.splits if_splits)
    from step show ?thesis
      by (rule add_service_cases) (use same in \<open>auto dest: install\<close>)
  qed
  show "\<exists>db. st' = st\<lparr>st_db := db\<rparr>" if step: "add_getter c st = Done (Inl e, st')"
  proof -
    from step obtain c1 st1 where tags: "with_db_tags c st = Done (c1, st1)"
      and rest: "(case insert_getter c1 st1 of
         (Inl e, st) \<Rightarrow> Done (Inl e, st)
       | (Inr _, st) \<Rightarrow>
           bind_outcome (aux_getters_may_need_registration [ch_id c1] st)
             (\<lambda>(request, st). Done (Inr request, st))) = Done (Inl e, st')"
      by (auto simp: add_getter_def bind_outcome_Done_iff)
    from rest have "st' = st1"
      by (auto simp: insert_getter_result bind_outcome_Done_iff split: option.splits if_splits)
    with with_db_tags_link(2) [OF tags] show ?thesis by simp
  qed
  show "\<exists>db. st' = st\<lparr>st_db := db\<rparr>" if step: "add_setter c st = Done (Inl e, st')"
  proof -
    from step obtain c1 st1 where tags: "with_db_tags c st = Done (c1, st1)"
      and rest: "insert_setter c1 st1 = (Inl e, st')"
      by (auto simp: add_setter_def bind_outcome_Done_iff)
    from rest have "st' = st1"
      by (auto simp: insert_setter_result split: option.splits if_splits)
    with with_db_tags_link(2) [OF tags] show ?thesis by simp
  qed
qed

section \<open>Witnesses\<close>

theorem backend_always_consistent_witness: "registry_inv home \<and> watchers_inv home"
  by (rule backend_always_consistent [OF home_reachable])

theorem failed_registration_changes_nothing_witness:
  "add_adapter hue home = (Inl (ErrInternal (DuplicateAdapter ''hue'')), home) \<and>
   (\<exists>st'. add_getter lamp_power home = Done (Inl (ErrInternal (DuplicateGetter ''power'')), st') \<and>
      (\<exists>db. st' = home\<lparr>st_db := db\<rparr>))"
proof -
  have 1: "add_adapter hue home = (Inl (ErrInternal (DuplicateAdapter ''hue'')), home)"
    by (simp add: add_adapter_def home_defs)
  have 2: "add_getter lamp_power home = Done (Inl (ErrInternal (DuplicateGetter ''power'')), home)"
    by (simp add: add_getter_def with_db_tags_def insert_getter_result home_defs hm_has_def)
  from 1 2 show ?thesis
    using failed_registration_changes_nothing [where st = home and st' = home and ad = hue and c = lamp_power] by blast
qed

end
