(* ===== verification/Backend_Calls.thy ===== *)
theory Backend_Calls
  imports Backend_Props
begin

text \<open>
  The requests prepared for the adapters: a fetch names exactly the selected getters with their
  types, and a send passes to the adapters only values of the type of their channel. Preparing
  either never panics in a reachable state.
\<close>

section \<open>Fetching\<close>

text \<open>The request after the getters at the addresses \<open>seen\<close> have been grouped.\<close>

definition fetch_ok :: "backend \<Rightarrow> nat set \<Rightarrow> fetch_request \<Rightarrow> bool" where
  "fetch_ok st seen req \<longleftrightarrow>
     (\<forall>k ad m. hm_get req k = Some (ad, m) \<longrightarrow>
        (\<exists>d. hm_get (adapter_by_id st) k = Some d \<and> ad_adapter d = ad) \<and>
        (\<forall>g ty. hm_get m g = Some ty \<longrightarrow>
           (\<exists>b \<in> seen. ch_adapter (getter_at st b) = k \<and> ch_id (getter_at st b) = g \<and>
              kind_type (ch_kind (getter_at st b)) = ty))) \<and>
     (\<forall>b \<in> seen. \<exists>ad m. hm_get req (ch_adapter (getter_at st b)) = Some (ad, m) \<and>
        hm_get m (ch_id (getter_at st b)) = Some (kind_type (ch_kind (getter_at st b))))"

lemma fetch_ok_group:
  assumes ok: "fetch_ok st seen req" and d: "hm_get (adapter_by_id st) (ch_adapter (getter_at st b)) = Some d"
    and uniq: "\<And>b'. b' \<in> seen \<Longrightarrow> ch_id (getter_at st b') = ch_id (getter_at st b) \<Longrightarrow> b' = b"
  obtains req' where "group_fetch (getter_at st b) (adapter_by_id st) req = Done req'"
    "fetch_ok st (insert b seen) req'"
proof -
  let ?c = "getter_at st b"
  let ?k = "ch_adapter ?c" and ?g = "ch_id ?c" and ?ty = "kind_type (ch_kind ?c)"
  obtain ad m where old: "hm_get req ?k = None \<and> ad = ad_adapter d \<and> m = [] \<or> hm_get req ?k = Some (ad, m)"
    by (cases "hm_get req ?k") auto
  let ?req' = "hm_insert ?k (ad, hm_insert ?g ?ty m) req"
  have run: "group_fetch ?c (adapter_by_id st) req = Done ?req'"
    using old d by (auto simp: group_fetch_def Let_def)
  have ad: "ad_adapter d = ad" using old ok d by (fastforce simp: fetch_ok_def)
  have entries: "\<exists>b' \<in> seen. ch_adapter (getter_at st b') = ?k \<and> ch_id (getter_at st b') = g \<and>
      kind_type (ch_kind (getter_at st b')) = ty" if "hm_get m g = Some ty" for g ty
    using old ok that by (auto simp: fetch_ok_def)
  have "fetch_ok st (insert b seen) ?req'"
    unfolding fetch_ok_def
  proof (intro conjI allI impI ballI)
    fix k ad' m' assume k: "hm_get ?req' k = Some (ad', m')"
    show "\<exists>d. hm_get (adapter_by_id st) k = Some d \<and> ad_adapter d = ad'"
      using k d ad ok by (auto simp: fetch_ok_def split: if_splits)
    fix g ty assume g: "hm_get m' g = Some ty"
    show "\<exists>b' \<in> insert b seen. ch_adapter (getter_at st b') = k \<and> ch_id (getter_at st b') = g \<and>
        kind_type (ch_kind (getter_at st b')) = ty"
    proof (cases "k = ?k")
      case True
      with k g entries [of g ty] show ?thesis by (auto split: if_splits)
    next
      case False
      with k g ok show ?thesis by (auto simp: fetch_ok_def)
    qed
  next
    fix b' assume "b' \<in> insert b seen"
    then consider "b' = b" | "b' \<in> seen" "b' \<noteq> b" by blast
    then show "\<exists>ad m. hm_get ?req' (ch_adapter (getter_at st b')) = Some (ad, m) \<and>
        hm_get m (ch_id (getter_at st b')) = Some (kind_type (ch_kind (getter_at st b')))"
    proof cases
      case 1
      then show ?thesis by simp
    next
      case 2
      with uniq have "ch_id (getter_at st b') \<noteq> ?g" by blast
      moreover from ok 2 obtain ad' m' where
        "hm_get req (ch_adapter (getter_at st b')) = Some (ad', m')"
        "hm_get m' (ch_id (getter_at st b')) = Some (kind_type (ch_kind (getter_at st b')))"
        unfolding fetch_ok_def by blast
      ultimately show ?thesis using old by auto
    qed
  qed
  with run show ?thesis by (rule that)
qed

lemma reachable_getter:
  assumes "registry_inv st" "b \<in> set (hm_values (getter_by_id st))"
  shows "hm_get (getter_by_id st) (ch_id (getter_at st b)) = Some b"
    and "\<exists>d. hm_get (adapter_by_id st) (ch_adapter (getter_at st b)) = Some d"
proof -
  from assms obtain g where g: "hm_get (getter_by_id st) g = Some b"
    using registry_invD(3) [OF assms(1)] by (auto simp: hm_ok_map_of)
  from registry_invD(8) [OF assms(1) g] obtain a where
    id: "ch_id (getter_at st b) = g" and a: "hm_get (service_by_id st) (ch_service (getter_at st b)) = Some a"
    "sd_adapter (service_at st a) = ch_adapter (getter_at st b)" by (auto simp: getter_entry_def)
  from g id show "hm_get (getter_by_id st) (ch_id (getter_at st b)) = Some b" by simp
  from registry_invD(6) [OF assms(1) a(1)] a(2)
  show "\<exists>d. hm_get (adapter_by_id st) (ch_adapter (getter_at st b)) = Some d"
    by (auto simp: service_entry_def)
qed

lemma fetch_fold:
  assumes inv: "registry_inv st" and bs: "set bs \<subseteq> set (hm_values (getter_by_id st))"
    and "fetch_ok st seen req" "seen \<subseteq> set (hm_values (getter_by_id st))"
  shows "\<exists>req'. fold_outcome (\<lambda>a. group_fetch (getter_at st a) (adapter_by_id st)) bs req = Done req' \<and>
    fetch_ok st (seen \<union> set bs) req'"
  using assms(2-4)
proof (induction bs arbitrary: seen req)
  case (Cons b bs)
  then have b: "b \<in> set (hm_values (getter_by_id st))" by simp
  from reachable_getter(2) [OF inv b] obtain d where
    d: "hm_get (adapter_by_id st) (ch_adapter (getter_at st b)) = Some d" ..
  have "b' = b" if "b' \<in> seen" "ch_id (getter_at st b') = ch_id (getter_at st b)" for b'
    using reachable_getter(1) [OF inv b] reachable_getter(1) [OF inv, of b'] that Cons.prems(3) by auto
  from fetch_ok_group [OF Cons.prems(2) d this] obtain req1 where
    "group_fetch (getter_at st b) (adapter_by_id st) req = Done req1" "fetch_ok st (insert b seen) req1"
    by metis
  with Cons.IH [of "insert b seen" req1] Cons.prems show ?case by simp
qed simp

text \<open>The addresses of the getters some selector selects.\<close>

definition selected_getters :: "backend \<Rightarrow> GetterSelector list \<Rightarrow> nat set" where
  "selected_getters st sels =
     {b \<in> set (hm_values (getter_by_id st)). list_ex (getter_data_matches st (st_getters st ! b)) sels}"

lemma selected_getter_iff:
  assumes "registry_inv st"
  shows "b \<in> selected_getters st sels \<and> ch_id (getter_at st b) = g \<longleftrightarrow> hm_get (getter_by_id st) g = Some b \<and>
      (\<exists>sel \<in> set sels. getter_data_matches st (st_getters st ! b) sel)"
  using reachable_getter(1) [OF assms, of b] registry_invD(8) [OF assms, of g b]
  by (auto simp: selected_getters_def list_ex_iff getter_entry_def intro: rev_image_eqI
      dest: map_of_SomeD)

text \<open>The keys of the request, and of the part of every adapter, are distinct.\<close>

definition distinct_request :: "'t adapter_request \<Rightarrow> ('t \<Rightarrow> bool) \<Rightarrow> bool" where
  "distinct_request req ok \<longleftrightarrow> hm_ok req \<and> (\<forall>k ad t. hm_get req k = Some (ad, t) \<longrightarrow> ok t)"

lemma group_fetch_distinct:
  "group_fetch c ads req = Done req' \<Longrightarrow> distinct_request req hm_ok \<Longrightarrow> distinct_request req' hm_ok"
  unfolding group_fetch_def Let_def distinct_request_def
  by (auto split: option.splits if_splits simp: hm_ok_def distinct_update)

lemma prepare_fetch_ok:
  assumes inv: "registry_inv st"
  shows "\<exists>req. prepare_fetch_values sels st = Done req \<and> fetch_ok st (selected_getters st sels) req \<and>
    distinct_request req hm_ok"
proof -
  let ?bs = "filter (\<lambda>a. list_ex (getter_data_matches st (st_getters st ! a)) sels) (hm_values (getter_by_id st))"
  have "fetch_ok st {} []" by (simp add: fetch_ok_def)
  with fetch_fold [OF inv, of ?bs "{}" "[]"] obtain req where
    run: "fold_outcome (\<lambda>a. group_fetch (getter_at st a) (adapter_by_id st)) ?bs [] = Done req"
    and ok: "fetch_ok st (set ?bs) req" by auto
  have "distinct_request req hm_ok"
    by (rule fold_outcome_keeps [OF run]) (simp_all add: group_fetch_distinct, simp add: distinct_request_def)
  moreover have "prepare_fetch_values sels st = Done req"
    unfolding prepare_fetch_values_def with_getters_query run by simp
  moreover have "set ?bs = selected_getters st sels" by (auto simp: selected_getters_def)
  ultimately show ?thesis using ok by auto
qed

lemma fetch_ok_iff:
  assumes "fetch_ok st B req"
  shows "(\<exists>ad m. hm_get req k = Some (ad, m) \<and> hm_get m g = Some ty) \<longleftrightarrow>
      (\<exists>b \<in> B. ch_id (getter_at st b) = g \<and> ch_adapter (getter_at st b) = k \<and>
         kind_type (ch_kind (getter_at st b)) = ty)" (is "?L \<longleftrightarrow> ?R")
proof
  assume ?L
  with assms show ?R unfolding fetch_ok_def by blast
next
  assume ?R
  with assms show ?L unfolding fetch_ok_def by blast
qed

text \<open>C4: In a reachable state, preparing a fetch does not panic, and the request it prepares asks
  every adapter for exactly the getters of that adapter that some selector selects, each with the
  type of its kind.\<close>

theorem prepare_fetch_exact:
  assumes "reachable sip reg st"
  shows "\<exists>req. prepare_fetch_values sels st = Done req \<and>
    (\<forall>k g ty. (\<exists>ad m. hm_get req k = Some (ad, m) \<and> hm_get m g = Some ty) \<longleftrightarrow>
       (\<exists>b. hm_get (getter_by_id st) g = Some b \<and>
          (\<exists>sel \<in> set sels. getter_data_matches st (st_getters st ! b) sel) \<and>
          ch_adapter (getter_at st b) = k \<and> kind_type (ch_kind (getter_at st b)) = ty))"
proof -
  have inv: "registry_inv st" using reachable_inv [OF assms] by (simp add: backend_inv_def)
  from prepare_fetch_ok [OF inv] obtain req where prep: "prepare_fetch_values sels st = Done req"
    and ok: "fetch_ok st (selected_getters st sels) req" by blast
  have "(\<exists>b \<in> selected_getters st sels. ch_id (getter_at st b) = g \<and> ch_adapter (getter_at st b) = k \<and>
         kind_type (ch_kind (getter_at st b)) = ty) \<longleftrightarrow>
      (\<exists>b. (b \<in> selected_getters st sels \<and> ch_id (getter_at st b) = g) \<and>
         ch_adapter (getter_at st b) = k \<and> kind_type (ch_kind (getter_at st b)) = ty)" for k g ty
    by blast
  with fetch_ok_iff [OF ok] have "(\<exists>ad m. hm_get req k = Some (ad, m) \<and> hm_get m g = Some ty) \<longleftrightarrow>
      (\<exists>b. hm_get (getter_by_id st) g = Some b \<and>
          (\<exists>sel \<in> set sels. getter_data_matches st (st_getters st ! b) sel) \<and>
          ch_adapter (getter_at st b) = k \<and> kind_type (ch_kind (getter_at st b)) = ty)" for k g ty
    unfolding selected_getter_iff [OF inv] by simp
  with prep show ?thesis by blast
qed

section \<open>Sending\<close>

definition setter_type :: "backend \<Rightarrow> nat \<Rightarrow> Type" where
  "setter_type st b = kind_type (ch_kind (setter_at st b))"

text \<open>The request after the pairs \<open>seen\<close> of a setter and a value have been grouped.\<close>

definition send_ok :: "backend \<Rightarrow> (nat \<times> Value) set \<Rightarrow> send_request \<Rightarrow> bool" where
  "send_ok st seen req \<longleftrightarrow>
     (\<forall>k ad rq fl. hm_get req k = Some (ad, rq, fl) \<longrightarrow>
        (\<exists>d. hm_get (adapter_by_id st) k = Some d \<and> ad_adapter d = ad) \<and>
        (\<forall>i v. hm_get rq i = Some v \<longrightarrow>
           (\<exists>b. (b, v) \<in> seen \<and> ch_id (setter_at st b) = i \<and> ch_adapter (setter_at st b) = k \<and>
              value_type v = setter_type st b)) \<and>
        (\<forall>i e. hm_get fl i = Some e \<longrightarrow>
           (\<exists>b v. (b, v) \<in> seen \<and> ch_id (setter_at st b) = i \<and> ch_adapter (setter_at st b) = k \<and>
              value_type v \<noteq> setter_type st b \<and>
              e = Inl (ErrType (TypeError (setter_type st b) (value_type v)))))) \<and>
     (\<forall>(b, v) \<in> seen. \<exists>ad rq fl. hm_get req (ch_adapter (setter_at st b)) = Some (ad, rq, fl) \<and>
        (if value_type v = setter_type st b then hm_has rq (ch_id (setter_at st b))
         else hm_has fl (ch_id (setter_at st b))))"

lemma send_ok_group:
  assumes ok: "send_ok st seen req" and d: "hm_get (adapter_by_id st) (ch_adapter (setter_at st b)) = Some d"
  obtains req' where "group_send (setter_at st b) v (adapter_by_id st) req = Done req'"
    "send_ok st (insert (b, v) seen) req'"
proof -
  let ?c = "setter_at st b"
  let ?k = "ch_adapter ?c" and ?i = "ch_id ?c" and ?ty = "setter_type st b"
  obtain ad rq fl where old: "hm_get req ?k = None \<and> ad = ad_adapter d \<and> rq = [] \<and> fl = [] \<or>
      hm_get req ?k = Some (ad, rq, fl)"
    by (cases "hm_get req ?k") auto
  let ?rq = "if value_type v = ?ty then hm_insert ?i v rq else rq"
  let ?fl = "if value_type v = ?ty then fl
      else hm_insert ?i (Inl (ErrType (TypeError ?ty (value_type v)))) fl"
  let ?req' = "hm_insert ?k (ad, ?rq, ?fl) req"
  have run: "group_send ?c v (adapter_by_id st) req = Done ?req'"
    using old d by (auto simp: group_send_def Let_def setter_type_def)
  have ad: "ad_adapter d = ad" using old ok d by (fastforce simp: send_ok_def)
  have rq: "\<exists>b'. (b', w) \<in> seen \<and> ch_id (setter_at st b') = i \<and> ch_adapter (setter_at st b') = ?k \<and>
      value_type w = setter_type st b'" if "hm_get rq i = Some w" for i w
    using old ok that by (auto simp: send_ok_def)
  have fl: "\<exists>b' w. (b', w) \<in> seen \<and> ch_id (setter_at st b') = i \<and> ch_adapter (setter_at st b') = ?k \<and>
      value_type w \<noteq> setter_type st b' \<and> e = Inl (ErrType (TypeError (setter_type st b') (value_type w)))"
    if "hm_get fl i = Some e" for i e
    using old ok that by (auto simp: send_ok_def)
  have "send_ok st (insert (b, v) seen) ?req'"
    unfolding send_ok_def
  proof (intro conjI allI impI ballI)
    fix k ad' rq' fl' assume k: "hm_get ?req' k = Some (ad', rq', fl')"
    show "\<exists>d. hm_get (adapter_by_id st) k = Some d \<and> ad_adapter d = ad'"
      using k d ad ok by (auto simp: send_ok_def split: if_splits)
    show "\<exists>b'. (b', w) \<in> insert (b, v) seen \<and> ch_id (setter_at st b') = i \<and>
        ch_adapter (setter_at st b') = k \<and> value_type w = setter_type st b'"
      if i: "hm_get rq' i = Some w" for i w
    proof (cases "k = ?k")
      case True
      with k have "rq' = ?rq" by simp
      with i rq [of i w] True show ?thesis by (auto split: if_splits)
    next
      case False
      with k i ok show ?thesis by (fastforce simp: send_ok_def)
    qed
    show "\<exists>b' w. (b', w) \<in> insert (b, v) seen \<and> ch_id (setter_at st b') = i \<and>
        ch_adapter (setter_at st b') = k \<and> value_type w \<noteq> setter_type st b' \<and>
        e = Inl (ErrType (TypeError (setter_type st b') (value_type w)))"
      if i: "hm_get fl' i = Some e" for i e
    proof (cases "k = ?k")
      case True
      with k have "fl' = ?fl" by simp
      with i fl [of i e] True show ?thesis
        by (cases "value_type v = ?ty") (fastforce split: if_splits)+
    next
      case False
      with k i ok show ?thesis by (fastforce simp: send_ok_def)
    qed
  next
    fix p assume "p \<in> insert (b, v) seen"
    then consider "p = (b, v)" | b' w where "p = (b', w)" "(b', w) \<in> seen" by (cases p) auto
    then show "case p of (b, v) \<Rightarrow> \<exists>ad rq fl. hm_get ?req' (ch_adapter (setter_at st b)) = Some (ad, rq, fl) \<and>
        (if value_type v = setter_type st b then hm_has rq (ch_id (setter_at st b))
         else hm_has fl (ch_id (setter_at st b)))"
    proof cases
      case 1
      then show ?thesis by (simp add: hm_has_def)
    next
      case 2
      with ok obtain ad' rq' fl' where
        "hm_get req (ch_adapter (setter_at st b')) = Some (ad', rq', fl')"
        "if value_type w = setter_type st b' then hm_has rq' (ch_id (setter_at st b'))
         else hm_has fl' (ch_id (setter_at st b'))" unfolding send_ok_def by blast
      with old 2(1) show ?thesis by (auto simp: hm_has_def split: if_splits)
    qed
  qed
  with run show ?thesis by (rule that)
qed

lemma reachable_setter:
  assumes "registry_inv st" "b \<in> set (hm_values (setter_by_id st))"
  shows "hm_get (setter_by_id st) (ch_id (setter_at st b)) = Some b"
    and "\<exists>d. hm_get (adapter_by_id st) (ch_adapter (setter_at st b)) = Some d"
proof -
  from assms obtain g where g: "hm_get (setter_by_id st) g = Some b"
    using registry_invD(4) [OF assms(1)] by (auto simp: hm_ok_map_of)
  from registry_invD(10) [OF assms(1) g] obtain a where
    id: "ch_id (setter_at st b) = g" and a: "hm_get (service_by_id st) (ch_service (setter_at st b)) = Some a"
    "sd_adapter (service_at st a) = ch_adapter (setter_at st b)" by (auto simp: setter_entry_def)
  from g id show "hm_get (setter_by_id st) (ch_id (setter_at st b)) = Some b" by simp
  from registry_invD(6) [OF assms(1) a(1)] a(2)
  show "\<exists>d. hm_get (adapter_by_id st) (ch_adapter (setter_at st b)) = Some d"
    by (auto simp: service_entry_def)
qed

text \<open>The pairs an instruction is about.\<close>

definition targets :: "backend \<Rightarrow> (SetterSelector, Value) Targetted \<Rightarrow> (nat \<times> Value) set" where
  "targets st t = {(b, payload t) | b. b \<in> set (hm_values (setter_by_id st)) \<and>
     list_ex (setter_data_matches st (st_setters st ! b)) (select t)}"

lemma send_fold:
  assumes inv: "registry_inv st" and "set bs \<subseteq> set (hm_values (setter_by_id st))" "send_ok st seen req"
  shows "\<exists>req'. fold_outcome (\<lambda>a. group_send (setter_at st a) v (adapter_by_id st)) bs req = Done req' \<and>
    send_ok st (seen \<union> (\<lambda>b. (b, v)) ` set bs) req'"
  using assms(2,3)
proof (induction bs arbitrary: seen req)
  case (Cons b bs)
  then have "b \<in> set (hm_values (setter_by_id st))" by simp
  from reachable_setter(2) [OF inv this] obtain d where
    d: "hm_get (adapter_by_id st) (ch_adapter (setter_at st b)) = Some d" ..
  from send_ok_group [OF Cons.prems(2) d] obtain req1 where
    "group_send (setter_at st b) v (adapter_by_id st) req = Done req1" "send_ok st (insert (b, v) seen) req1"
    by metis
  with Cons.IH [of "insert (b, v) seen" req1] Cons.prems(1) show ?case by simp
qed simp

lemma prepare_send_ok:
  assumes inv: "registry_inv st"
  shows "\<exists>req. prepare_send_values keyvalues st = Done req \<and> send_ok st (\<Union>t \<in> set keyvalues. targets st t) req"
proof -
  let ?step = "\<lambda>targetted per_adapter.
          bind_outcome
            (with_setters (select targetted) (\<lambda>a (st, per_adapter).
               bind_outcome
                 (group_send (std_channel (st_setters st ! a)) (payload targetted) (adapter_by_id st) per_adapter)
                 (\<lambda>per_adapter. Done (st, per_adapter))) (st, per_adapter))
            (\<lambda>(_, per_adapter). Done per_adapter)"
  have step: "\<exists>req'. ?step t req = Done req' \<and> send_ok st (seen \<union> targets st t) req'"
    if ok: "send_ok st seen req" for t seen req
  proof -
    let ?bs = "filter (\<lambda>a. list_ex (setter_data_matches st (st_setters st ! a)) (select t)) (hm_values (setter_by_id st))"
    have "(\<lambda>b. (b, payload t)) ` set ?bs = targets st t" by (auto simp: targets_def)
    moreover have "set ?bs \<subseteq> set (hm_values (setter_by_id st))" by auto
    ultimately obtain req' where
      "fold_outcome (\<lambda>a. group_send (setter_at st a) (payload t) (adapter_by_id st)) ?bs req = Done req'"
      "send_ok st (seen \<union> targets st t) req'"
      using send_fold [OF inv _ ok, of ?bs "payload t"] by auto
    then show ?thesis unfolding with_setters_query by auto
  qed
  have "\<exists>req'. fold_outcome ?step kvs req = Done req' \<and> send_ok st (seen \<union> (\<Union>t \<in> set kvs. targets st t)) req'"
    if "send_ok st seen req" for kvs seen req
    using that
  proof (induction kvs arbitrary: seen req)
    case (Cons t kvs)
    from step [OF Cons.prems, of t] obtain req1 where
      "?step t req = Done req1" "send_ok st (seen \<union> targets st t) req1" by blast
    with Cons.IH [OF this(2)] show ?case by (auto simp: Un_assoc)
  qed simp
  moreover have "send_ok st {} []" by (simp add: send_ok_def)
  ultimately show ?thesis unfolding prepare_send_values_def by fastforce
qed


section \<open>Witnesses\<close>

theorem prepare_fetch_exact_witness:
  "\<exists>req. prepare_fetch_values [any_light] home = Done req \<and>
     (\<exists>ad m. hm_get req ''hue'' = Some (ad, m) \<and> hm_get m ''power'' = Some TyOnOff)"
  using prepare_fetch_exact [OF home_reachable, of "[any_light]"]
  apply (elim exE conjE)
  apply (rule exI, rule conjI, assumption)
  apply (drule spec [of _ "''hue''"], drule spec [of _ "''power''"], drule spec [of _ TyOnOff], erule iffD2)
  apply (simp add: home_defs any_light_def getter_with_kind_def getter_selector_new_def
      getter_data_matches_def getter_matches_iff)
  done


end
