(* ===== verification/Backend_Watch.thy ===== *)
theory Backend_Watch
  imports Backend_Calls
begin

text \<open>
  Removals and the life of a watch: what a removal takes away and whom it tells, what a new watch
  attaches to, races between starting and dropping a watch, and the two ways a watch panics.
\<close>

section \<open>Removals\<close>

lemma removed_keys:
  "hm_get (fold hm_remove ks m) k = (if k \<in> set ks then None else hm_get m k)"
  by (induction ks arbitrary: m) (auto simp: fun_eq_iff)

text \<open>C37: In a reachable state, removing a service succeeds exactly when it is registered (and never
  runs into the branch for inconsistent maps); it then takes away the service, its getters and its
  setters, and its entry in the list of its adapter, and nothing else.\<close>

theorem remove_service_exact:
  assumes "reachable sip reg st"
  shows "(hm_get (service_by_id st) s = None \<longrightarrow>
       remove_service s st = (Inl (ErrInternal (NoSuchService s)), st)) \<and>
    (hm_has (service_by_id st) s \<longrightarrow> (\<exists>st'. remove_service s st = (Inr (), st') \<and>
       (\<forall>k. hm_get (service_by_id st') k = (if k = s then None else hm_get (service_by_id st) k)) \<and>
       (\<forall>g. hm_get (getter_by_id st') g = (case hm_get (getter_by_id st) g of
              None \<Rightarrow> None | Some b \<Rightarrow> if ch_service (getter_at st b) = s then None else Some b)) \<and>
       (\<forall>g. hm_get (setter_by_id st') g = (case hm_get (setter_by_id st) g of
              None \<Rightarrow> None | Some b \<Rightarrow> if ch_service (setter_at st b) = s then None else Some b)) \<and>
       (\<forall>k ad. hm_get (adapter_by_id st') k = Some ad \<longrightarrow> hm_get (ad_services ad) s = None)))"
proof (intro conjI impI)
  have inv: "registry_inv st" using reachable_inv [OF assms] by (simp add: backend_inv_def)
  note D = registry_invD [OF inv]
  show "remove_service s st = (Inl (ErrInternal (NoSuchService s)), st)"
    if "hm_get (service_by_id st) s = None"
    using that by (simp add: remove_service_def aux_remove_service_def)
  assume "hm_has (service_by_id st) s"
  then obtain sa where sa: "hm_get (service_by_id st) s = Some sa" by (auto simp: hm_has_def)
  obtain ad st' where st': "remove_service s st = (Inr (), st')"
    and st'_def: "st' = (snd (aux_remove_service s st))\<lparr>adapter_by_id :=
        hm_insert (sd_adapter (service_at st sa))
          (ad\<lparr>ad_services := hm_remove s (ad_services ad)\<rparr>) (adapter_by_id st)\<rparr>"
    using remove_service_result [OF inv sa] by metis
  have inv': "registry_inv st'" by (rule remove_service_registry [OF inv st'])
  have fields: "service_by_id st' = hm_remove s (service_by_id st)"
    "getter_by_id st' = fold hm_remove (hm_keys (sd_getters (service_at st sa))) (getter_by_id st)"
    "setter_by_id st' = fold hm_remove (hm_keys (sd_setters (service_at st sa))) (setter_by_id st)"
    by (simp_all add: st'_def sa aux_remove_service_def Let_def)
  have getter: "(g \<in> set (hm_keys (sd_getters (service_at st sa)))) = (ch_service (getter_at st b) = s)"
    if g: "hm_get (getter_by_id st) g = Some b" for g b
  proof -
    from D(8) [OF g] obtain a where a: "hm_get (service_by_id st) (ch_service (getter_at st b)) = Some a"
      "hm_get (sd_getters (service_at st a)) g = Some b" by (auto simp: getter_entry_def)
    show ?thesis
    proof
      assume "g \<in> set (hm_keys (sd_getters (service_at st sa)))"
      then obtain b' where "hm_get (sd_getters (service_at st sa)) g = Some b'"
        by (metis map_of_eq_None_iff not_None_eq set_map)
      from D(9) [OF sa this] g show "ch_service (getter_at st b) = s" by simp
    next
      assume "ch_service (getter_at st b) = s"
      with a sa have "hm_get (sd_getters (service_at st sa)) g = Some b" by simp
      then show "g \<in> set (hm_keys (sd_getters (service_at st sa)))"
        by (auto dest: map_of_SomeD intro: rev_image_eqI)
    qed
  qed
  have setter: "(g \<in> set (hm_keys (sd_setters (service_at st sa)))) = (ch_service (setter_at st b) = s)"
    if g: "hm_get (setter_by_id st) g = Some b" for g b
  proof -
    from D(10) [OF g] obtain a where a: "hm_get (service_by_id st) (ch_service (setter_at st b)) = Some a"
      "hm_get (sd_setters (service_at st a)) g = Some b" by (auto simp: setter_entry_def)
    show ?thesis
    proof
      assume "g \<in> set (hm_keys (sd_setters (service_at st sa)))"
      then obtain b' where "hm_get (sd_setters (service_at st sa)) g = Some b'"
        by (metis map_of_eq_None_iff not_None_eq set_map)
      from D(11) [OF sa this] g show "ch_service (setter_at st b) = s" by simp
    next
      assume "ch_service (setter_at st b) = s"
      with a sa have "hm_get (sd_setters (service_at st sa)) g = Some b" by simp
      then show "g \<in> set (hm_keys (sd_setters (service_at st sa)))"
        by (auto dest: map_of_SomeD intro: rev_image_eqI)
    qed
  qed
  have listed: "hm_get (ad_services ad) s = None" if "hm_get (adapter_by_id st') k = Some ad" for k ad
    using adapter_listed(1) [OF inv' that, of s] fields(1) by (cases "hm_get (ad_services ad) s") auto
  show "\<exists>st'. remove_service s st = (Inr (), st') \<and>
       (\<forall>k. hm_get (service_by_id st') k = (if k = s then None else hm_get (service_by_id st) k)) \<and>
       (\<forall>g. hm_get (getter_by_id st') g = (case hm_get (getter_by_id st) g of
              None \<Rightarrow> None | Some b \<Rightarrow> if ch_service (getter_at st b) = s then None else Some b)) \<and>
       (\<forall>g. hm_get (setter_by_id st') g = (case hm_get (setter_by_id st) g of
              None \<Rightarrow> None | Some b \<Rightarrow> if ch_service (setter_at st b) = s then None else Some b)) \<and>
       (\<forall>k ad. hm_get (adapter_by_id st') k = Some ad \<longrightarrow> hm_get (ad_services ad) s = None)"
    using st' listed getter setter
    by (intro exI [of _ st'] conjI allI) (auto simp: fields removed_keys simp del: set_map split: option.split)
qed

theorem remove_service_exact_witness:
  "\<exists>st'. remove_service ''lamp'' home = (Inr (), st') \<and> hm_get (getter_by_id st') ''power'' = None"
  using remove_service_exact [OF home_reachable, of "''lamp''"] by (auto simp: hm_has_def home_defs)

text \<open>The watchers that are told when a getter goes.\<close>

lemma unregistration_loop_removed_events:
  assumes "\<And>k w. (k, w) \<in> set ws \<Longrightarrow> w = k"
  shows "st_events (snd (unregistration_loop gd True ws (ks, st))) =
     st_events st @ map (\<lambda>k. (k, GetterRemoved (ch_id (gd_channel gd))))
       (filter (\<lambda>k. hm_has (wm_watchers st) k \<and> \<not> is_dropped k st) (hm_keys ws))"
  using assms
proof (induction ws arbitrary: ks st)
  case (Cons w ws)
  obtain k where w: "w = (k, k)" using Cons.prems by (cases w) auto
  show ?case
  proof (cases "hm_get (wm_watchers st) k")
    case None
    then show ?thesis using Cons by (simp add: w hm_has_def)
  next
    case (Some wd)
    have dom: "hm_has (hm_insert k wd' (wm_watchers st)) k' = hm_has (wm_watchers st) k'" for wd' k'
      using Some by (simp add: hm_has_def)
    from Some show ?thesis using Cons by (simp add: w Let_def dom) (simp add: hm_has_def)
  qed
qed simp

text \<open>Removing a getter tells every watcher attached to it whose guard is still held. Removing
  the service the getter belongs to takes the getter away without telling anybody.\<close>

theorem removal_notifications:
  assumes "reachable sip reg st" "hm_get (getter_by_id st) g = Some b"
  shows "st_events (snd (remove_getter g st)) = st_events st @ map (\<lambda>k. (k, GetterRemoved g))
      (filter (\<lambda>k. hm_has (wm_watchers st) k \<and> \<not> is_dropped k st)
        (hm_keys (gd_watchers (st_getters st ! b)))) \<and>
    hm_get (getter_by_id (snd (remove_service (ch_service (getter_at st b)) st))) g = None \<and>
    st_events (snd (remove_service (ch_service (getter_at st b)) st)) = st_events st"
proof (intro conjI)
  have inv: "registry_inv st" "watchers_inv st" using reachable_inv [OF assms(1)] by (simp_all add: backend_inv_def)
  from registry_invD(8) [OF inv(1) assms(2)] obtain a where
    b: "b < length (st_getters st)" "ch_id (getter_at st b) = g"
    and a: "hm_get (service_by_id st) (ch_service (getter_at st b)) = Some a"
    "hm_get (sd_getters (service_at st a)) g = Some b" by (auto simp: getter_entry_def)
  let ?gd = "st_getters st ! b"
  let ?st1 = "st\<lparr>getter_by_id := hm_remove g (getter_by_id st)\<rparr>"
  have "w = k" if "(k, w) \<in> set (gd_watchers ?gd)" for k w
    using that watchers_inv_getter [OF inv(2) b(1)] by (simp add: getter_watchers_ok_def hm_ok_map_of)
  then have keys: "\<And>k w. (k, w) \<in> set (gd_watchers ?gd) \<Longrightarrow> w = k" .
  have loop: "st_events (snd (unregistration_loop ?gd True (gd_watchers ?gd) ([], ?st1))) =
      st_events st @ map (\<lambda>k. (k, GetterRemoved g))
      (filter (\<lambda>k. hm_has (wm_watchers st) k \<and> \<not> is_dropped k st) (hm_keys (gd_watchers ?gd)))"
    by (subst unregistration_loop_removed_events) (use keys b(2) in auto)
  have ev: "st_events (aux_getter_may_need_unregistration b True ?st1) =
      st_events st @ map (\<lambda>k. (k, GetterRemoved g))
      (filter (\<lambda>k. hm_has (wm_watchers st) k \<and> \<not> is_dropped k st) (hm_keys (gd_watchers ?gd)))"
    using loop by (cases "unregistration_loop ?gd True (gd_watchers ?gd) ([], ?st1)")
      (simp add: aux_getter_may_need_unregistration_def Let_def)
  have "st_events (snd (remove_getter g st)) = st_events (aux_getter_may_need_unregistration b True ?st1)"
    using assms(2) by (simp add: remove_getter_def Let_def split: option.split)
  with ev show "st_events (snd (remove_getter g st)) = st_events st @ map (\<lambda>k. (k, GetterRemoved g))
      (filter (\<lambda>k. hm_has (wm_watchers st) k \<and> \<not> is_dropped k st) (hm_keys (gd_watchers ?gd)))" by simp
  obtain ad where rm: "remove_service (ch_service (getter_at st b)) st =
     (Inr (), (snd (aux_remove_service (ch_service (getter_at st b)) st))\<lparr>adapter_by_id :=
        hm_insert (sd_adapter (service_at st a)) (ad\<lparr>ad_services := hm_remove (ch_service (getter_at st b))
          (ad_services ad)\<rparr>) (adapter_by_id st)\<rparr>)"
    using remove_service_result [OF inv(1) a(1)] by metis
  have "g \<in> set (hm_keys (sd_getters (service_at st a)))"
    using a(2) by (auto dest: map_of_SomeD intro: rev_image_eqI)
  then show "hm_get (getter_by_id (snd (remove_service (ch_service (getter_at st b)) st))) g = None"
    by (simp add: rm a(1) aux_remove_service_def Let_def removed_keys del: set_map)
  show "st_events (snd (remove_service (ch_service (getter_at st b)) st)) = st_events st"
    by (simp add: rm a(1) aux_remove_service_def Let_def)
qed

theorem removal_notifications_witness:
  "st_events (snd (remove_service ''lamp'' home)) = []"
  using removal_notifications [OF home_reachable, of "''power''" 0] by (simp add: home_defs)

section \<open>Races between starting and dropping a watch\<close>

text \<open>Starting a watch whose guard has been dropped, or that has been stopped, does nothing: no
  guard is registered and no event is sent, whatever the adapters would have answered.\<close>

theorem start_watch_after_drop:
  assumes "\<forall>(k, ad, reqs) \<in> set per. \<forall>(i, rng, key) \<in> set reqs.
      hm_get (wm_watchers st) key = None \<or> is_dropped key st"
  shows "start_watch reg per st = ([], st)"
proof -
  have one: "start_watch_adapter reg ad reqs (to_add, st) = (to_add, st)"
    if "\<forall>(i, rng, key) \<in> set reqs. hm_get (wm_watchers st) key = None \<or> is_dropped key st" for reqs ad to_add
    using that by (induction reqs) (auto split: option.splits)
  have "start_watch_loop reg per (to_add, st) = (to_add, st)" for to_add
    using assms by (induction per) (auto simp: one)
  then show ?thesis by (simp add: start_watch_def)
qed

theorem start_watch_after_drop_witness:
  "start_watch no_watch [(''hue'', hue, [(''power'', None, 0)])] home = ([], home)"
  by (rule start_watch_after_drop) (simp add: home_defs)

text \<open>Stopping a watch that returns leaves the watch map without it, so that no later getter is
  attached to it; stopping it again, or before it was ever registered, is a no-op.\<close>

theorem stop_watch_idempotent:
  assumes "stop_watch key st = Done st'"
  shows "hm_get (wm_watchers st') key = None \<and> stop_watch key st' = Done st'"
proof -
  have keep: "wm_watchers s' = wm_watchers s" if "stop_watch_getter key g s = Done s'" for g s s'
    using that by (auto simp: stop_watch_getter_def Let_def split: option.splits if_splits)
  have "wm_watchers st' = hm_remove key (wm_watchers st)"
  proof (cases "hm_get (wm_watchers st) key")
    case None
    with assms show ?thesis by (auto simp: stop_watch_def watch_map_remove_def)
  next
    case (Some wd)
    with assms have "fold_outcome (stop_watch_getter key) (hm_keys (wd_guards wd))
        (st\<lparr>wm_watchers := hm_remove key (wm_watchers st)\<rparr>) = Done st'"
      by (auto simp: stop_watch_def watch_map_remove_def split: if_splits)
    then show ?thesis
      by (rule fold_outcome_keeps [where P = "\<lambda>s. wm_watchers s = hm_remove key (wm_watchers st)"])
        (auto dest: keep)
  qed
  then have "hm_get (wm_watchers st') key = None" "hm_remove key (wm_watchers st') = wm_watchers st'"
    by (simp_all add: hm_remove_absent)
  then show ?thesis by (simp add: stop_watch_def watch_map_remove_def)
qed

theorem stop_watch_idempotent_witness:
  "stop_watch 3 home = Done home"
proof -
  have "stop_watch 3 home = Done home" by (simp add: stop_watch_def watch_map_remove_def home_defs)
  from stop_watch_idempotent [OF this] show ?thesis by simp
qed

section \<open>Panics\<close>

text \<open>A watch with two instructions that select the same getter panics, although each alone is
  accepted.\<close>

theorem overlapping_instructions_panic:
  "prepare_channel_watch watch_twice home = Panic \<and>
   prepare_channel_watch watch_light home \<noteq> Panic"
  by (simp add: prepare_channel_watch_def watch_map_create_def Let_def with_getters_def home_defs
      watch_defs watcher_data_new_def getter_data_matches_def getter_matches_iff
      aux_start_channel_watch_result request_range_def hm_has_def)

text \<open>When a client watches only the topology of the lights, adding a new tag to a light it
  already watches panics: the watcher has no guard for the light, is taken for a new one, and is
  attached a second time.\<close>

theorem tagging_a_watched_getter_panics:
  "\<exists>st key. prepare_channel_watch watch_topology home = Done (([], key), st) \<and>
     hm_get (wm_watchers st) key \<noteq> None \<and>
     add_getter_tags sip [any_light] [''new''] st = Panic"
  by (simp add: prepare_channel_watch_def watch_map_create_def Let_def with_getters_def home_defs
      watch_defs watcher_data_new_def getter_data_matches_def getter_matches_iff
      aux_start_channel_watch_result request_range_def hm_has_def add_getter_tags_def
      channel_insert_tags_result hs_insert_def with_new_storage_def log_storage_def put_getter_channel_def
      aux_getters_may_need_registration_def register_watcher_def register_targetted_def)

end
