(* ===== verification/Manager.thy ===== *)
theory Manager
  imports Backend_Watch
begin

text \<open>
  \<^verbatim>\<open>components/taxonomy/src/manager.rs\<close>: the adapter manager, a back-end under a lock, and the
  thread that serializes the slow part of watching. The lock is held for one operation of the
  back-end at a time, so every such operation is one step. The adapters are trait objects: their
  answers to \<^verbatim>\<open>fetch_values\<close>, \<^verbatim>\<open>send_values\<close> and \<^verbatim>\<open>register_watch\<close> are parameters, and the calls the
  manager makes to them are returned with the results. The channel to the thread is a queue. A
  guard handed to a client is the key of its watch. The thread calls the adapters between two
  locks; \<open>mg_started\<close> holds what it has to commit under the second.
\<close>

section \<open>State\<close>

datatype watch_op =
    OpStart watch_request \<comment> \<open>with the channel the caller waits on\<close>
  | OpRelease WatchKey

record manager =
  mg_backend :: backend
  mg_queue :: "watch_op list"
  mg_started :: "watch_guard_commit option"

definition manager_new :: "database option \<Rightarrow> manager" where
  "manager_new db_path = \<lparr>mg_backend = backend_new db_path, mg_queue = [], mg_started = None\<rparr>"

text \<open>One operation of the back-end under the lock.\<close>

definition with_lock :: "(backend \<Rightarrow> 'r \<times> backend) \<Rightarrow> manager \<Rightarrow> 'r \<times> manager" where
  "with_lock f self = (case f (mg_backend self) of (r, st) \<Rightarrow> (r, self\<lparr>mg_backend := st\<rparr>))"

definition with_lock_run ::
    "(backend \<Rightarrow> ('r \<times> backend) outcome) \<Rightarrow> manager \<Rightarrow> ('r \<times> manager) outcome" where
  "with_lock_run f self =
     bind_outcome (f (mg_backend self)) (\<lambda>(r, st). Done (r, self\<lparr>mg_backend := st\<rparr>))"

section \<open>The handle of the adapters\<close>

definition manager_add_adapter :: "adapter \<Rightarrow> manager \<Rightarrow> (Error + unit) \<times> manager" where
  "manager_add_adapter adapter = with_lock (add_adapter adapter)"

definition manager_remove_adapter :: "AdapterId \<Rightarrow> manager \<Rightarrow> (Error + unit) \<times> manager" where
  "manager_remove_adapter i = with_lock (remove_adapter i)"

definition manager_add_service :: "service \<Rightarrow> manager \<Rightarrow> ((Error + unit) \<times> manager) outcome" where
  "manager_add_service service = with_lock_run (add_service service)"

definition manager_remove_service :: "ServiceId \<Rightarrow> manager \<Rightarrow> (Error + unit) \<times> manager" where
  "manager_remove_service i = with_lock (remove_service i)"

text \<open>\<^verbatim>\<open>register_watches\<close>: the request goes to the thread; the caller waits until it is handled.\<close>

definition register_watches :: "watch_request \<Rightarrow> manager \<Rightarrow> manager" where
  "register_watches request self =
     (if request \<noteq> [] then self\<lparr>mg_queue := mg_queue self @ [OpStart request]\<rparr> else self)"

definition manager_add_getter :: "channel \<Rightarrow> manager \<Rightarrow> ((Error + unit) \<times> manager) outcome" where
  "manager_add_getter getter self =
     bind_outcome (with_lock_run (add_getter getter) self) (\<lambda>(r, self).
       case r of
         Inl err \<Rightarrow> Done (Inl err, self)
       | Inr request \<Rightarrow> Done (Inr (), register_watches request self))"

definition manager_remove_getter :: "GetterId \<Rightarrow> manager \<Rightarrow> (Error + unit) \<times> manager" where
  "manager_remove_getter i = with_lock (remove_getter i)"

definition manager_add_setter :: "channel \<Rightarrow> manager \<Rightarrow> ((Error + unit) \<times> manager) outcome" where
  "manager_add_setter setter = with_lock_run (add_setter setter)"

definition manager_remove_setter :: "SetterId \<Rightarrow> manager \<Rightarrow> (Error + unit) \<times> manager" where
  "manager_remove_setter i = with_lock (remove_setter i)"

section \<open>The public interface\<close>

definition manager_get_services :: "service_selector list \<Rightarrow> manager \<Rightarrow> service list outcome" where
  "manager_get_services selectors self = get_services selectors (mg_backend self)"

definition manager_add_service_tags ::
    "(string \<Rightarrow> string \<Rightarrow> nat) \<Rightarrow> service_selector list \<Rightarrow> TagId list \<Rightarrow> manager \<Rightarrow> (nat \<times> manager) outcome" where
  "manager_add_service_tags sip selectors tags = with_lock_run (add_service_tags sip selectors tags)"

definition manager_remove_service_tags ::
    "(string \<Rightarrow> string \<Rightarrow> nat) \<Rightarrow> service_selector list \<Rightarrow> TagId list \<Rightarrow> manager \<Rightarrow> (nat \<times> manager) outcome" where
  "manager_remove_service_tags sip selectors tags =
     with_lock_run (remove_service_tags sip selectors tags)"

definition manager_get_getter_channels :: "GetterSelector list \<Rightarrow> manager \<Rightarrow> channel list outcome" where
  "manager_get_getter_channels selectors self = get_getter_channels selectors (mg_backend self)"

definition manager_get_setter_channels :: "SetterSelector list \<Rightarrow> manager \<Rightarrow> channel list outcome" where
  "manager_get_setter_channels selectors self = get_setter_channels selectors (mg_backend self)"

definition manager_add_getter_tags ::
    "(string \<Rightarrow> string \<Rightarrow> nat) \<Rightarrow> GetterSelector list \<Rightarrow> TagId list \<Rightarrow> manager \<Rightarrow> (nat \<times> manager) outcome" where
  "manager_add_getter_tags sip selectors tags self =
     bind_outcome (with_lock_run (add_getter_tags sip selectors tags) self)
       (\<lambda>((request, result), self). Done (result, register_watches request self))"

definition manager_add_setter_tags ::
    "(string \<Rightarrow> string \<Rightarrow> nat) \<Rightarrow> SetterSelector list \<Rightarrow> TagId list \<Rightarrow> manager \<Rightarrow> (nat \<times> manager) outcome" where
  "manager_add_setter_tags sip selectors tags = with_lock_run (add_setter_tags sip selectors tags)"

definition manager_remove_getter_tags ::
    "(string \<Rightarrow> string \<Rightarrow> nat) \<Rightarrow> GetterSelector list \<Rightarrow> TagId list \<Rightarrow> manager \<Rightarrow> (nat \<times> manager) outcome" where
  "manager_remove_getter_tags sip selectors tags =
     with_lock_run (remove_getter_tags sip selectors tags)"

definition manager_remove_setter_tags ::
    "(string \<Rightarrow> string \<Rightarrow> nat) \<Rightarrow> SetterSelector list \<Rightarrow> TagId list \<Rightarrow> manager \<Rightarrow> (nat \<times> manager) outcome" where
  "manager_remove_setter_tags sip selectors tags =
     with_lock_run (remove_setter_tags sip selectors tags)"

section \<open>Reading values\<close>

type_synonym fetched = "(GetterId, Value option, Error) ResultMap"
type_synonym fetch_fn = "adapter \<Rightarrow> GetterId list \<Rightarrow> User \<Rightarrow> fetched"

definition check_fetched :: "(GetterId \<times> (Error + Value option)) \<times> Type \<Rightarrow> GetterId \<times> (Error + Value option)" where
  "check_fetched = (\<lambda>((i, result), typ).
     case result of
       Inr (Some value) \<Rightarrow>
         if value_type value = typ then (i, Inr (Some value))
         else (i, Inl (ErrType (TypeError typ (value_type value))))
     | _ \<Rightarrow> (i, result))"

text \<open>The loop over the adapters. The answer of an adapter is zipped, in the order the adapter
  gives it, with the types in the order of the request.\<close>

fun fetch_loop :: "fetch_fn \<Rightarrow> User \<Rightarrow> fetch_request \<Rightarrow> fetched \<Rightarrow> fetched" where
  "fetch_loop fetch user [] results = results"
| "fetch_loop fetch user ((_, adapter, getters) # request) results =
     (let got = fetch adapter (hm_keys getters) user;
          checked = map check_fetched (zip got (hm_values getters))
      in fetch_loop fetch user request (hm_extend results checked))"

definition manager_fetch_values ::
    "fetch_fn \<Rightarrow> GetterSelector list \<Rightarrow> User \<Rightarrow> manager \<Rightarrow> fetched outcome" where
  "manager_fetch_values fetch selectors user self =
     bind_outcome (prepare_fetch_values selectors (mg_backend self))
       (\<lambda>request. Done (fetch_loop fetch user request []))"

section \<open>Sending values\<close>

type_synonym sent = "(SetterId, unit, Error) ResultMap"
type_synonym send_fn = "adapter \<Rightarrow> (SetterId, Value) hashmap \<Rightarrow> User \<Rightarrow> sent"

text \<open>The results, and the calls to the adapters.\<close>

fun send_loop ::
    "send_fn \<Rightarrow> User \<Rightarrow> send_request \<Rightarrow> sent \<times> (adapter \<times> (SetterId, Value) hashmap) list \<Rightarrow>
     sent \<times> (adapter \<times> (SetterId, Value) hashmap) list" where
  "send_loop send user [] acc = acc"
| "send_loop send user ((_, adapter, request, failures) # prepared) (results, calls) =
     send_loop send user prepared
       (hm_extend (hm_extend results (send adapter request user)) failures,
        calls @ [(adapter, request)])"

definition manager_send_values ::
    "send_fn \<Rightarrow> (SetterSelector, Value) TargetMap \<Rightarrow> User \<Rightarrow> manager \<Rightarrow>
     (sent \<times> (adapter \<times> (SetterId, Value) hashmap) list) outcome" where
  "manager_send_values send keyvalues user self =
     bind_outcome (prepare_send_values keyvalues (mg_backend self))
       (\<lambda>prepared. Done (send_loop send user prepared ([], [])))"

section \<open>Watching values\<close>

definition manager_watch_values ::
    "(GetterSelector, Value Exactly) TargetMap \<Rightarrow> manager \<Rightarrow> (WatchKey \<times> manager) outcome" where
  "manager_watch_values watch self =
     bind_outcome (with_lock_run (prepare_channel_watch watch) self)
       (\<lambda>((request, watch_key), self). Done (watch_key, register_watches request self))"

text \<open>\<^verbatim>\<open>Drop for WatchGuard\<close>: the flag first, then the message to the thread.\<close>

definition watch_guard_drop :: "WatchKey \<Rightarrow> manager \<Rightarrow> manager" where
  "watch_guard_drop key self =
     (let self = self\<lparr>mg_backend := (mg_backend self)\<lparr>st_dropped := st_dropped (mg_backend self) @ [key]\<rparr>\<rparr>
      in self\<lparr>mg_queue := mg_queue self @ [OpRelease key]\<rparr>)"

text \<open>\<^verbatim>\<open>handle_watches\<close>: a turn of the thread. A registration takes two: the calls to the adapters,
  without the lock, and the commit.\<close>

definition handle_watch :: "register_watch_fn \<Rightarrow> manager \<Rightarrow> manager outcome" where
  "handle_watch register_watch self =
     (case mg_started self of
        Some add \<Rightarrow>
          Done (self\<lparr>mg_backend := register_ongoing_watch add (mg_backend self), mg_started := None\<rparr>)
      | None \<Rightarrow>
          (case mg_queue self of
             [] \<Rightarrow> Done self
           | OpStart request # queue \<Rightarrow>
               (case start_watch register_watch request (mg_backend self) of
                  (add, st) \<Rightarrow> Done (self\<lparr>mg_backend := st, mg_queue := queue, mg_started := Some add\<rparr>))
           | OpRelease key # queue \<Rightarrow>
               bind_outcome (stop_watch key (mg_backend self))
                 (\<lambda>st. Done (self\<lparr>mg_backend := st, mg_queue := queue\<rparr>))))"

lemma handle_watch_smaller:
  assumes "\<not> (mg_started self = None \<and> mg_queue self = [])" "handle_watch reg self = Done self'"
  shows "2 * length (mg_queue self') + (if mg_started self' = None then 0 else 1) <
    2 * length (mg_queue self) + (if mg_started self = None then 0 else (1::nat))"
  using assms
  by (auto simp: handle_watch_def bind_outcome_Done_iff split: option.splits list.splits watch_op.splits
      prod.splits)

text \<open>The thread runs until it has nothing left to do.\<close>

function handle_watches :: "register_watch_fn \<Rightarrow> manager \<Rightarrow> manager outcome" where
  "handle_watches register_watch self =
     (if mg_started self = None \<and> mg_queue self = [] then Done self
      else bind_outcome (handle_watch register_watch self) (handle_watches register_watch))"
  by pat_completeness auto

termination
  by (relation "measure (\<lambda>(_, self). 2 * length (mg_queue self) + (if mg_started self = None then 0 else 1))")
    (simp, use handle_watch_smaller in \<open>force\<close>)

declare handle_watches.simps [simp del]

definition manager_stop :: "manager \<Rightarrow> manager" where
  "manager_stop self = self\<lparr>mg_backend := backend_stop (mg_backend self)\<rparr>"

end
