(* ===== verification/Manager_Calls.thy ===== *)
theory Manager_Calls
  imports Manager Backend_Calls
begin

text \<open>
  What a client of the manager gets from reading and sending values, for every answer of the
  adapters, and what reaches the adapters.
\<close>

lemma hm_get_extend_functional:
  assumes "\<And>x y. (g, x) \<in> set kvs \<Longrightarrow> (g, y) \<in> set kvs \<Longrightarrow> x = y"
  shows "hm_get (hm_extend [] kvs) g = Some x \<longleftrightarrow> (g, x) \<in> set kvs"
proof
  assume "hm_get (hm_extend [] kvs) g = Some x"
  then show "(g, x) \<in> set kvs" by (simp add: hm_get_extend) (metis map_of_SomeD set_rev)
next
  assume x: "(g, x) \<in> set kvs"
  then obtain y where y: "map_of (rev kvs) g = Some y"
    by (metis map_of_eq_None_iff not_None_eq set_rev image_eqI fst_conv)
  then have "(g, y) \<in> set kvs" by (metis map_of_SomeD set_rev)
  with assms x y show "hm_get (hm_extend [] kvs) g = Some x" by (auto simp: hm_get_extend)
qed

lemma hm_extend_append: "hm_extend m (xs @ ys) = hm_extend (hm_extend m xs) ys"
  by (induction m xs rule: hm_extend.induct) auto

section \<open>Reading\<close>

lemma fst_check_fetched [simp]: "fst (check_fetched x) = fst (fst x)"
  by (auto simp: check_fetched_def split: prod.splits sum.splits option.splits)

text \<open>The answers of adapters that answer every getter, in the order of the question.\<close>

definition answered :: "(adapter \<Rightarrow> GetterId \<Rightarrow> Error + Value option) \<Rightarrow> fetch_request \<Rightarrow> fetched" where
  "answered answer req =
     concat (map (\<lambda>(k, ad, m). map (\<lambda>(g, ty). check_fetched ((g, answer ad g), ty)) m) req)"

lemma fetch_loop_answered:
  assumes "\<And>ad gs. fetch ad gs user = map (\<lambda>g. (g, answer ad g)) gs"
  shows "fetch_loop fetch user req results = hm_extend results (answered answer req)"
proof (induction req arbitrary: results)
  case (Cons r req)
  obtain k ad m where r: "r = (k, ad, m)" by (cases r)
  have "map check_fetched (zip (fetch ad (hm_keys m) user) (hm_values m)) =
      map (\<lambda>(g, ty). check_fetched ((g, answer ad g), ty)) m"
    unfolding assms by (induction m) auto
  with Cons show ?case by (simp add: r answered_def hm_extend_append)
qed (simp add: answered_def)

lemma answered_iff:
  "(g, x) \<in> set (answered answer req) \<longleftrightarrow>
    (\<exists>k ad m ty. (k, ad, m) \<in> set req \<and> (g, ty) \<in> set m \<and> x = snd (check_fetched ((g, answer ad g), ty)))"
  (is "?L \<longleftrightarrow> ?R")
proof
  assume ?L
  then obtain k ad m ty h where "(k, ad, m) \<in> set req" "(h, ty) \<in> set m"
    "(g, x) = check_fetched ((h, answer ad h), ty)"
    by (auto simp: answered_def)
  moreover from this(3) have "h = g" by (metis fst_check_fetched fst_conv)
  ultimately show ?R by (metis snd_conv)
next
  assume ?R
  then obtain k ad m ty where "(k, ad, m) \<in> set req" "(g, ty) \<in> set m"
    "x = snd (check_fetched ((g, answer ad g), ty))" by blast
  moreover from this(3) have "(g, x) = check_fetched ((g, answer ad g), ty)"
    by (metis fst_check_fetched fst_conv prod.collapse)
  ultimately show ?L by (force simp: answered_def)
qed


section \<open>Sending\<close>

lemma group_send_distinct:
  "group_send c v ads req = Done req' \<Longrightarrow> distinct_request req (\<lambda>(rq, fl). hm_ok rq \<and> hm_ok fl) \<Longrightarrow>
   distinct_request req' (\<lambda>(rq, fl). hm_ok rq \<and> hm_ok fl)"
  unfolding group_send_def Let_def distinct_request_def
  by (auto split: option.splits if_splits simp: hm_ok_def distinct_update)

lemma prepare_send_distinct:
  assumes "prepare_send_values keyvalues st = Done req"
  shows "distinct_request req (\<lambda>(rq, fl). hm_ok rq \<and> hm_ok fl)"
proof (rule fold_outcome_keeps [OF assms [unfolded prepare_send_values_def]])
  show "distinct_request [] (\<lambda>(rq, fl). hm_ok rq \<and> hm_ok fl)" by (simp add: distinct_request_def)
next
  fix t :: "(SetterSelector, Value) Targetted" and s s' :: send_request
  let ?bs = "filter (\<lambda>a. list_ex (setter_data_matches st (st_setters st ! a)) (select t)) (hm_values (setter_by_id st))"
  assume s: "distinct_request s (\<lambda>(rq, fl). hm_ok rq \<and> hm_ok fl)"
    and "bind_outcome
            (with_setters (select t) (\<lambda>a (st, per_adapter).
               bind_outcome
                 (group_send (std_channel (st_setters st ! a)) (payload t) (adapter_by_id st) per_adapter)
                 (\<lambda>per_adapter. Done (st, per_adapter))) (st, s))
            (\<lambda>(_, per_adapter). Done per_adapter) = Done s'"
  then have "fold_outcome (\<lambda>a. group_send (setter_at st a) (payload t) (adapter_by_id st)) ?bs s = Done s'"
    unfolding with_setters_query by (auto simp: bind_outcome_Done_iff)
  then show "distinct_request s' (\<lambda>(rq, fl). hm_ok rq \<and> hm_ok fl)"
    by (rule fold_outcome_keeps) (use s group_send_distinct in blast)+
qed

text \<open>The entries an adapter contributes to the results.\<close>

definition contribution :: "send_fn \<Rightarrow> User \<Rightarrow> AdapterId \<times> adapter \<times> (SetterId, Value) hashmap \<times> sent \<Rightarrow> (SetterId \<times> (Error + unit)) list" where
  "contribution send user = (\<lambda>(k, ad, rq, fl). send ad rq user @ fl)"

lemma send_loop_result:
  "send_loop send user req (results, calls) =
    (hm_extend results (concat (map (contribution send user) req)),
     calls @ map (\<lambda>(k, ad, rq, fl). (ad, rq)) req)"
  by (induction req arbitrary: results calls) (auto simp: contribution_def hm_extend_append)

lemma map_of_rev_concat:
  assumes "\<And>y. y \<in> set ys \<Longrightarrow> i \<in> fst ` set (f y) \<Longrightarrow> f y = g"
  shows "map_of (rev (concat (map f ys))) i =
    (if \<exists>y \<in> set ys. i \<in> fst ` set (f y) then map_of (rev g) i else None)"
  using assms
proof (induction ys)
  case (Cons y ys)
  have absent: "map_of (rev (f y)) i = None" if "i \<notin> fst ` set (f y)"
    using that by (simp add: map_of_eq_None_iff)
  have present: "map_of (rev g) i \<noteq> None" if "i \<in> fst ` set g"
    using that by (simp add: map_of_eq_None_iff)
  have IH: "map_of (rev (concat (map f ys))) i =
    (if \<exists>y \<in> set ys. i \<in> fst ` set (f y) then map_of (rev g) i else None)"
    using Cons by simp
  show ?case
  proof (cases "i \<in> fst ` set (f y)")
    case True
    with Cons.prems have "f y = g" by simp
    with True IH show ?thesis by (auto simp: map_add_def split: option.splits)
  next
    case False
    with absent IH show ?thesis by (auto simp: map_add_def split: option.splits)
  qed
qed simp

lemma map_of_rev_ok: "hm_ok m \<Longrightarrow> map_of (rev m) = map_of m"
  unfolding hm_ok_def by (subst map_of_inject_set) (simp_all add: rev_map [symmetric])

text \<open>What the client reads for an id: a failure of the checks before the call if there is one, and
  else what the adapter says.\<close>

lemma send_result_lookup:
  assumes inv: "registry_inv st" and ok: "send_ok st (\<Union>t \<in> set keyvalues. targets st t) req"
    and dist: "distinct_request req (\<lambda>(rq, fl). hm_ok rq \<and> hm_ok fl)"
    and honest: "\<And>ad rq. hm_ok (send ad rq user) \<and> set (hm_keys (send ad rq user)) \<subseteq> set (hm_keys rq)"
    and e: "hm_get req k = Some (ad, rq, fl)" and i: "hm_has rq i \<or> hm_has fl i"
  shows "hm_get (hm_extend [] (concat (map (contribution send user) req))) i =
    (case hm_get fl i of Some err \<Rightarrow> Some err | None \<Rightarrow> hm_get (send ad rq user) i)"
proof -
  have adapter: "\<exists>b. hm_get (setter_by_id st) i = Some b \<and> ch_adapter (setter_at st b) = k"
    if "hm_get req k = Some (ad, rq, fl)" "hm_has rq i \<or> hm_has fl i" for k ad rq fl
  proof -
    from ok that obtain b v where "(b, v) \<in> (\<Union>t \<in> set keyvalues. targets st t)" "ch_id (setter_at st b) = i"
      "ch_adapter (setter_at st b) = k"
      unfolding send_ok_def hm_has_def by blast
    then show ?thesis using reachable_setter(1) [OF inv] by (auto simp: targets_def)
  qed
  let ?g = "send ad rq user @ fl"
  have "contribution send user y = ?g"
    if y: "y \<in> set req" "i \<in> fst ` set (contribution send user y)" for y
  proof -
    obtain k' ad' rq' fl' where y': "y = (k', ad', rq', fl')" by (cases y)
    with y(1) dist have e': "hm_get req k' = Some (ad', rq', fl')"
      by (simp add: distinct_request_def hm_ok_map_of)
    from y(2) y' honest [of ad' rq'] have "hm_has rq' i \<or> hm_has fl' i"
      by (auto simp: contribution_def hm_has_def map_of_eq_None_iff image_iff)
    from adapter [OF e' this] adapter [OF e i] have "k' = k" by auto
    with e e' y' show ?thesis by (simp add: contribution_def)
  qed
  then have "map_of (rev (concat (map (contribution send user) req))) i =
    (if \<exists>y \<in> set req. i \<in> fst ` set (contribution send user y) then map_of (rev ?g) i else None)"
    by (rule map_of_rev_concat)
  moreover have "contribution send user (k, ad, rq, fl) = ?g" "(k, ad, rq, fl) \<in> set req"
    using e dist by (auto simp: contribution_def distinct_request_def hm_ok_map_of)
  then have "(\<exists>y \<in> set req. i \<in> fst ` set (contribution send user y)) \<or> map_of (rev ?g) i = None"
    by (metis map_of_eq_None_iff set_rev)
  moreover have "hm_ok fl" using e dist by (auto simp: distinct_request_def)
  ultimately show ?thesis using honest
    by (auto simp: hm_get_extend map_of_rev_ok map_add_def split: option.splits)
qed


section \<open>The order of the answers\<close>

text \<open>The sample installation with a second getter of another type on the same adapter.\<close>

definition lamp_name :: channel where
  "lamp_name = lamp_power\<lparr>ch_id := ''name'', ch_kind := KOvenTemperature\<rparr>"

definition two_getters :: manager where
  "two_getters = (manager_new None)\<lparr>mg_backend := snd (insert_getter lamp_name home)\<rparr>"

definition lamp_answer :: "GetterId \<Rightarrow> Error + Value option" where
  "lamp_answer g = (if g = ''power'' then Inr (Some (VOnOff On)) else Inr (Some (VTemperature (C (Fin 20)))))"

lemma two_getters_reachable: "reachable sip reg (mg_backend two_getters)"
proof -
  have "add_getter lamp_name home = Done (Inr [], snd (insert_getter lamp_name home))"
    by (simp add: add_getter_def with_db_tags_def home_defs lamp_name_def hm_has_def insert_getter_result
        aux_getters_may_need_registration_def)
  with home_reachable show ?thesis
    unfolding two_getters_def by (auto intro: reachable.step backend_step.add_getter)
qed

text \<open>The manager pairs the answers of an adapter with the expected types by position. When an
  adapter answers two getters truthfully but in the other order (the answer is a hash map, with no
  order of its own), both values are refused as type errors.\<close>

theorem fetch_depends_on_answer_order:
  "manager_fetch_values (\<lambda>ad gs user. map (\<lambda>g. (g, lamp_answer g)) gs) [getter_selector_new] NoUser two_getters =
     Done [(''power'', Inr (Some (VOnOff On))), (''name'', Inr (Some (VTemperature (C (Fin 20)))))] \<and>
   manager_fetch_values (\<lambda>ad gs user. rev (map (\<lambda>g. (g, lamp_answer g)) gs)) [getter_selector_new] NoUser two_getters =
     Done [(''name'', Inl (ErrType (TypeError TyOnOff TyTemperature))),
           (''power'', Inl (ErrType (TypeError TyTemperature TyOnOff)))]"
  unfolding manager_fetch_values_def prepare_fetch_values_def with_getters_query
  by (simp add: two_getters_def home_defs lamp_name_def hm_has_def insert_getter_result
      getter_selector_new_def getter_data_matches_def getter_matches_iff getter_data_new_def
      group_fetch_def check_fetched_def lamp_answer_def Let_def)

section \<open>Witnesses\<close>

definition home_manager :: manager where
  "home_manager = (manager_new None)\<lparr>mg_backend := home\<rparr>"

lemma home_manager_reachable: "reachable no_hash no_watch (mg_backend home_manager)"
  by (simp add: home_manager_def home_reachable)



end
