(* ===== verification/Backend_Events.thy ===== *)
theory Backend_Events
  imports Backend_Safety "HOL-Library.Sublist"
begin

text \<open>
  What the steps of the back-end do to its watchers: the guards dropped, the events sent and the
  keys watched. A property of these that is kept by a send to a watcher whose guard is not
  dropped, by the creation of a watcher under the next key, and by the removal of a watcher whose
  guard is dropped (or of all of them), is kept by every operation: the operations do nothing else
  to the watchers. The locale states the contract, its instances are the properties of interest.
\<close>

locale watch_policy =
  fixes P :: "backend \<Rightarrow> bool"
  assumes frame: "P st \<Longrightarrow> st_dropped st' = st_dropped st \<Longrightarrow> st_events st' = st_events st \<Longrightarrow>
      wm_counter st' = wm_counter st \<Longrightarrow> set (hm_keys (wm_watchers st')) = set (hm_keys (wm_watchers st)) \<Longrightarrow> P st'"
    and send: "P st \<Longrightarrow> \<not> is_dropped key st \<Longrightarrow> P (send_event key ev st)"
    and create: "P st \<Longrightarrow> P (st\<lparr>wm_watchers := hm_insert (wm_counter st) wd (wm_watchers st),
        wm_counter := wm_counter st + 1\<rparr>)"
    and forget: "P st \<Longrightarrow> is_dropped key st \<Longrightarrow> P (st\<lparr>wm_watchers := hm_remove key (wm_watchers st)\<rparr>)"
    and clear: "P st \<Longrightarrow> P (st\<lparr>wm_watchers := []\<rparr>)"
begin

lemma update [simp]:
  "P (st\<lparr>adapter_by_id := a\<rparr>) = P st" "P (st\<lparr>service_by_id := b\<rparr>) = P st"
  "P (st\<lparr>getter_by_id := c\<rparr>) = P st" "P (st\<lparr>setter_by_id := c\<rparr>) = P st"
  "P (st\<lparr>st_services := d\<rparr>) = P st" "P (st\<lparr>st_getters := e\<rparr>) = P st"
  "P (st\<lparr>st_setters := f\<rparr>) = P st" "P (st\<lparr>st_tags := g\<rparr>) = P st"
  "P (st\<lparr>st_stopped := j\<rparr>) = P st" "P (st\<lparr>st_db := k\<rparr>) = P st"
  by (rule iffI; erule frame; simp)+

lemma rewatch: "P st \<Longrightarrow> hm_get (wm_watchers st) key = Some old \<Longrightarrow>
    P (st\<lparr>wm_watchers := hm_insert key wd (wm_watchers st)\<rparr>)"
  by (erule frame) (auto simp: dom_update dest: map_of_SomeD intro: rev_image_eqI)

lemma put_channel [simp]: "P (put_getter_channel a c st) = P st" "P (put_setter_channel a c st) = P st"
  by (simp_all add: put_getter_channel_def put_setter_channel_def)

lemma new_storage: "with_new_storage f st = Done st' \<Longrightarrow> P st \<Longrightarrow> P st'"
  by (auto simp: with_new_storage_def bind_outcome_Done_iff)

lemma db_tags: "with_db_tags c st = Done (c', st') \<Longrightarrow> P st \<Longrightarrow> P st'"
  by (clarsimp simp: with_db_tags_def bind_outcome_Done_iff Let_def split: option.splits)
    (auto split: sum.splits)

lemma aux_remove: "aux_remove_service i st = (r, st') \<Longrightarrow> P st \<Longrightarrow> P st'"
  by (auto simp: aux_remove_service_def Let_def split: option.splits)

lemma insert_channels:
  "insert_getter c st = (r, st') \<Longrightarrow> P st \<Longrightarrow> P st'"
  "insert_setter c st = (r, st') \<Longrightarrow> P st \<Longrightarrow> P st'"
  by (auto simp: insert_getter_def insert_setter_def Let_def split: option.splits sum.splits prod.splits if_splits)

subsection \<open>Watches\<close>

lemma targetted:
  assumes "register_targetted a i key t s = Done s'" "P (fst s)" "\<not> is_dropped key (fst s)"
  shows "P (fst s') \<and> \<not> is_dropped key (fst s')"
  using assms send [OF assms(2,3)]
  by (cases s) (auto simp: register_targetted_def bind_outcome_Done_iff split: if_splits)

lemma watcher: "register_watcher a i w s = Done s' \<Longrightarrow> P (fst s) \<Longrightarrow> P (fst s')"
proof (cases w)
  case (Pair key wd)
  assume run: "register_watcher a i w s = Done s'" and P: "P (fst s)"
  show ?thesis
  proof (cases "hm_has (wd_guards wd) i \<or> is_dropped key (fst s)")
    case True
    with run P show ?thesis by (cases s) (auto simp: register_watcher_def Pair split: if_splits)
  next
    case False
    with run have "fold_outcome (register_targetted a i key) (wd_watch wd) s = Done s'"
      by (cases s) (simp add: register_watcher_def Pair)
    then have "P (fst s') \<and> \<not> is_dropped key (fst s')"
      by (rule fold_outcome_keeps) (use P False targetted in blast)+
    then show ?thesis ..
  qed
qed

lemma registration: "aux_getters_may_need_registration getters st = Done (request, st') \<Longrightarrow> P st \<Longrightarrow> P st'"
proof -
  assume P: "P st" and "aux_getters_may_need_registration getters st = Done (request, st')"
  then obtain per where run: "fold_outcome
         (\<lambda>i (st, per_adapter).
            case hm_get (getter_by_id st) i of
              None \<Rightarrow> Panic
            | Some a \<Rightarrow> fold_outcome (register_watcher a i) (wm_watchers st) (st, per_adapter))
         getters (st, []) = Done (st', per)"
    by (auto simp: aux_getters_may_need_registration_def bind_outcome_Done_iff)
  have "P (fst (st', per))"
  proof (rule fold_outcome_keeps [OF run])
    fix i and s s' :: "backend \<times> watch_request"
    assume "P (fst s)"
    then show "P (fst s')"
      if "(\<lambda>(st, per_adapter).
            case hm_get (getter_by_id st) i of
              None \<Rightarrow> Panic
            | Some a \<Rightarrow> fold_outcome (register_watcher a i) (wm_watchers st) (st, per_adapter)) s = Done s'"
      using that by (cases s) (auto split: option.splits elim!: fold_outcome_keeps [where P = "P \<circ> fst", simplified] intro: watcher)
  qed (simp add: P)
  then show ?thesis by simp
qed

lemma unregistration_loop_keeps: "P (snd acc) \<Longrightarrow> P (snd (unregistration_loop gd b ws acc))"
proof (induction ws arbitrary: acc)
  case (Cons w ws)
  obtain key weak where w: "w = (key, weak)" by (cases w)
  obtain drops st where acc: "acc = (drops, st)" by (cases acc)
  from Cons.prems have P: "P st" by (simp add: acc)
  have sent: "P (send_event weak ev st\<lparr>wm_watchers := hm_insert weak wd (wm_watchers st)\<rparr>)"
    if "\<not> is_dropped weak st" "hm_get (wm_watchers st) weak = Some old" for ev wd old
    using rewatch [OF send [OF P that(1), of ev], of weak old wd] that(2) by simp
  show ?case
    unfolding w acc unregistration_loop.simps
    by (rule Cons.IH) (use P sent in \<open>auto simp: Let_def split: option.split\<close>)
qed simp

lemma unregistration: "P st \<Longrightarrow> P (aux_getter_may_need_unregistration a b st)"
  using unregistration_loop_keeps [of "([], st)"]
  by (simp add: aux_getter_may_need_unregistration_def Let_def split: prod.split) (metis snd_conv)

lemma collect: "P (snd acc) \<Longrightarrow> \<not> is_dropped key (snd acc) \<Longrightarrow> P (snd (collect_guards key rs acc))"
proof (induction key rs acc rule: collect_guards.induct)
  case (2 key i result rest guards st)
  then show ?case by (cases result) (auto intro: send)
qed simp

lemma start_adapter: "P (snd acc) \<Longrightarrow> P (snd (start_watch_adapter reg ad reqs acc))"
proof (induction reqs arbitrary: acc)
  case (Cons r reqs)
  obtain i rng weak where r: "r = (i, rng, weak)" by (cases r)
  obtain to_add st where acc: "acc = (to_add, st)" by (cases acc)
  from Cons.prems have P: "P st" by (simp add: acc)
  have sent: "P st'" if "\<not> is_dropped weak st" "collect_guards weak rs ([], st) = (guards, st')" for rs guards st'
    using collect [of "([], st)" weak rs] P that by simp
  show ?case
    unfolding r acc start_watch_adapter.simps
    by (rule Cons.IH) (use P sent in \<open>auto split: option.split prod.split\<close>)
qed simp

lemma start: "start_watch reg per st = (commit, st') \<Longrightarrow> P st \<Longrightarrow> P st'"
proof -
  have loop: "P (snd (start_watch_loop reg per acc))" if "P (snd acc)" for acc
    using that
  proof (induction per arbitrary: acc)
    case (Cons p per)
    then show ?case using start_adapter by (cases p) simp
  qed simp
  assume "start_watch reg per st = (commit, st')" "P st"
  with loop [of "([], st)"] show "P st'" by (simp add: start_watch_def)
qed

lemma ongoing: "P st \<Longrightarrow> P (register_ongoing_watch ongoing st)"
  unfolding register_ongoing_watch_def
proof (induction ongoing arbitrary: st)
  case (Cons c ongoing)
  then show ?case by (cases c) (simp add: rewatch split: option.split)
qed simp

lemma create_watch: "watch_map_create watch st = Done (w, st') \<Longrightarrow> P st \<Longrightarrow> P st'"
  by (auto simp: watch_map_create_def Let_def intro: create [simplified] split: if_splits)

lemma prepare_watch:
  assumes "prepare_channel_watch watch st = Done (r, st')" "P st"
  shows "P st'"
proof -
  from assms(1) obtain watcher st1 per where
    new: "watch_map_create watch st = Done (watcher, st1)" and
    run: "fold_outcome
           (\<lambda>targetted st.
              with_getters (select targetted) (\<lambda>a (st, per_adapter).
                bind_outcome
                  (aux_start_channel_watch (wd_key watcher) (payload targetted) (adapter_by_id st)
                     (st_getters st ! a, per_adapter))
                  (\<lambda>(getter_data, per_adapter).
                     Done (st\<lparr>st_getters := (st_getters st)[a := getter_data]\<rparr>, per_adapter))) st)
           watch (st1, []) = Done (st', per)"
    by (auto simp: prepare_channel_watch_def bind_outcome_Done_iff)
  have "P (fst (st', per))"
  proof (rule fold_outcome_keeps [OF run])
    show "P (fst (st1, []))" using create_watch [OF new assms(2)] by simp
    fix t and s s' :: "backend \<times> watch_request"
    assume Ps: "P (fst s)" and run: "with_getters (select t) (\<lambda>a (st, per_adapter).
                bind_outcome
                  (aux_start_channel_watch (wd_key watcher) (payload t) (adapter_by_id st)
                     (st_getters st ! a, per_adapter))
                  (\<lambda>(getter_data, per_adapter).
                     Done (st\<lparr>st_getters := (st_getters st)[a := getter_data]\<rparr>, per_adapter))) s = Done s'"
    show "P (fst s')"
      by (rule with_getters_keeps [where P = "\<lambda>s. P (fst s)", OF run Ps]) (auto simp: bind_outcome_Done_iff)
  qed
  then show ?thesis by simp
qed

lemma stop_getter: "stop_watch_getter key g st = Done st' \<Longrightarrow> P st \<Longrightarrow> P st'"
  by (auto simp: stop_watch_getter_def Let_def split: option.splits if_splits)

lemma stop:
  assumes "stop_watch key st = Done st'" "P st"
  shows "P st'"
proof (cases "hm_get (wm_watchers st) key")
  case None
  with assms show ?thesis by (auto simp: stop_watch_def watch_map_remove_def hm_remove_absent)
next
  case (Some wd)
  with assms(1) have run: "fold_outcome (stop_watch_getter key) (hm_keys (wd_guards wd))
      (st\<lparr>wm_watchers := hm_remove key (wm_watchers st)\<rparr>) = Done st'" and "is_dropped key st"
    by (auto simp: stop_watch_def watch_map_remove_def split: if_splits)
  then have "P (st\<lparr>wm_watchers := hm_remove key (wm_watchers st)\<rparr>)" using forget assms(2) by simp
  with run show ?thesis by (rule fold_outcome_keeps) (use stop_getter in blast)
qed

subsection \<open>Registration\<close>

lemma adapters:
  "add_adapter ad st = (r, st') \<Longrightarrow> P st \<Longrightarrow> P st'"
  by (auto simp: add_adapter_def split: option.splits)

lemma remove_services: "P st \<Longrightarrow> P (fold (\<lambda>i st. snd (aux_remove_service i st)) is st)"
proof (induction "is" arbitrary: st)
  case (Cons i "is")
  then show ?case using aux_remove [of i st "fst (aux_remove_service i st)"] by simp
qed simp

lemma removed_adapter: "remove_adapter i st = (r, st') \<Longrightarrow> P st \<Longrightarrow> P st'"
  by (auto simp: remove_adapter_def intro!: remove_services split: option.splits)

lemma added_service: "add_service service st = Done (r, st') \<Longrightarrow> P st \<Longrightarrow> P st'"
  by (clarsimp simp: add_service_def Let_def bind_outcome_Done_iff split: if_splits option.splits)
    (auto split: sum.splits prod.splits)

lemma removed_service: "remove_service i st = (r, st') \<Longrightarrow> P st \<Longrightarrow> P st'"
  by (auto simp: remove_service_def Let_def dest!: aux_remove
      split: prod.splits sum.splits option.splits if_splits)

lemma added_getter:
  assumes "add_getter c st = Done (r, st')" "P st"
  shows "P st'"
proof -
  obtain c1 st1 where db: "with_db_tags c st = Done (c1, st1)"
    and rest: "(case insert_getter c1 st1 of
         (Inl e, st) \<Rightarrow> Done (Inl e, st)
       | (Inr _, st) \<Rightarrow>
           bind_outcome (aux_getters_may_need_registration [ch_id c1] st)
             (\<lambda>(request, st). Done (Inr request, st))) = Done (r, st')"
    using assms(1) by (auto simp: add_getter_def bind_outcome_Done_iff)
  obtain r1 st2 where ins: "insert_getter c1 st1 = (r1, st2)" by (cases "insert_getter c1 st1")
  have "P st2" by (rule insert_channels(1) [OF ins]) (rule db_tags [OF db assms(2)])
  with rest show ?thesis
    by (cases r1) (auto simp: ins bind_outcome_Done_iff dest: registration)
qed

lemma removed_getter: "remove_getter i st = (r, st') \<Longrightarrow> P st \<Longrightarrow> P st'"
  by (auto simp: remove_getter_def Let_def unregistration split: option.splits if_splits)

lemma added_setter: "add_setter c st = Done (r, st') \<Longrightarrow> P st \<Longrightarrow> P st'"
  by (auto simp: add_setter_def bind_outcome_Done_iff dest!: db_tags insert_channels)

lemma removed_setter: "remove_setter i st = (r, st') \<Longrightarrow> P st \<Longrightarrow> P st'"
  by (auto simp: remove_setter_def Let_def split: option.splits if_splits)

subsection \<open>Tags\<close>

lemma service_tags:
  "add_service_tags sip ss tags st = Done (n, st') \<Longrightarrow> P st \<Longrightarrow> P st'"
  "remove_service_tags sip ss tags st = Done (n, st') \<Longrightarrow> P st \<Longrightarrow> P st'"
  unfolding add_service_tags_def remove_service_tags_def
  by (auto simp: bind_outcome_Done_iff Let_def elim!: with_services_keeps [where P = "\<lambda>s. P (fst s)", elim_format])

lemma setter_tags:
  "add_setter_tags sip ss tags st = Done (n, st') \<Longrightarrow> P st \<Longrightarrow> P st'"
  "remove_setter_tags sip ss tags st = Done (n, st') \<Longrightarrow> P st \<Longrightarrow> P st'"
  unfolding add_setter_tags_def remove_setter_tags_def
  by (auto simp: bind_outcome_Done_iff split: prod.splits if_splits
      elim!: with_setters_keeps [where P = "\<lambda>s. P (fst s)", elim_format])
    (erule new_storage, simp)+

lemma removed_getter_tags:
  assumes "remove_getter_tags sip ss tags st = Done (n, st')" "P st"
  shows "P st'"
proof -
  from assms(1) have run: "with_getters ss (\<lambda>a (st, result).
          case channel_remove_tags tags (gd_channel (st_getters st ! a)) of
            (changed, channel) \<Rightarrow>
              bind_outcome
                (if changed then
                   with_new_storage (store_remove_tags sip (ch_id channel) tags)
                     (put_getter_channel a channel st)
                 else Done (put_getter_channel a channel st))
                (\<lambda>st. Done (aux_getter_may_need_unregistration a False st, result + 1)))
         (st, 0) = Done (st', n)"
    by (auto simp: remove_getter_tags_def bind_outcome_Done_iff)
  have "P (fst (st', n))"
    by (rule with_getters_keeps [OF run, of "\<lambda>s. P (fst s)"])
      (auto simp: assms(2) bind_outcome_Done_iff intro!: unregistration dest: new_storage
        split: prod.splits if_splits)
  then show ?thesis by simp
qed

lemma added_getter_tags:
  assumes "add_getter_tags sip ss tags st = Done (r, st')" "P st"
  shows "P st'"
proof -
  from assms(1) obtain s1 where run: "with_getters ss (\<lambda>a (st, channels, size).
          case channel_insert_tags tags (gd_channel (st_getters st ! a)) of
            (changed, channel) \<Rightarrow>
              if changed then
                bind_outcome (with_new_storage (store_add_tags sip (ch_id channel) tags)
                    (put_getter_channel a channel st))
                  (\<lambda>st. Done (st, channels @ [ch_id channel], size + 1))
              else Done (put_getter_channel a channel st, channels, size + 1))
         (st, [], 0) = Done s1"
    and reg: "(case s1 of (st, channels, n) \<Rightarrow>
          bind_outcome (aux_getters_may_need_registration channels st)
            (\<lambda>(request, st). Done ((request, n), st))) = Done (r, st')"
    unfolding add_getter_tags_def bind_outcome_Done_iff by blast
  have "P (fst s1)"
    by (rule with_getters_keeps [OF run, of "\<lambda>s. P (fst s)"])
      (auto simp: assms(2) bind_outcome_Done_iff dest: new_storage split: prod.splits if_splits)
  with reg show ?thesis
    by (cases s1) (auto simp: bind_outcome_Done_iff dest: registration)
qed

lemma backend_step_or_drop:
  "backend_step sip reg st st' \<Longrightarrow> P st \<Longrightarrow>
   P st' \<or> (\<exists>key < wm_counter st. st' = st\<lparr>st_dropped := st_dropped st @ [key]\<rparr>)"
proof (induction rule: backend_step.induct)
  case (register_ongoing_watch st' ongoing st)
  then show ?case using ongoing by simp
next
  case (drop_guard key st st')
  then show ?case by blast
next
  case (stop st' st)
  then show ?case using clear [of st] by (simp add: backend_stop_def) (auto elim: frame)
qed (blast intro: adapters removed_adapter added_service removed_service added_getter removed_getter
    added_setter removed_setter service_tags setter_tags added_getter_tags removed_getter_tags
    prepare_watch start stop)+

end

locale event_policy = watch_policy +
  assumes drop: "P st \<Longrightarrow> key < wm_counter st \<Longrightarrow> P (st\<lparr>st_dropped := st_dropped st @ [key]\<rparr>)"
begin

lemma backend_step: "backend_step sip reg st st' \<Longrightarrow> P st \<Longrightarrow> P st'"
  using backend_step_or_drop drop by blast

end

text \<open>The first policy: nothing is sent to a watcher whose guard has been dropped.\<close>

definition events_of :: "WatchKey \<Rightarrow> backend \<Rightarrow> WatchEvent list" where
  "events_of key st = map snd (filter (\<lambda>(k, _). k = key) (st_events st))"

interpretation silence: event_policy "\<lambda>st. is_dropped key st \<and> events_of key st = sent"
  for key and sent :: "WatchEvent list"
  by unfold_locales (auto simp: events_of_def)

text \<open>The second: the log only grows, and so do the keys.\<close>

interpretation log: event_policy "\<lambda>st. prefix sent (st_events st) \<and> n \<le> wm_counter st" for sent n
  by unfold_locales (auto simp: prefix_def)

text \<open>The third: a watcher outlives its guard only while its key is among those to be released.\<close>

definition released_but :: "WatchKey set \<Rightarrow> backend \<Rightarrow> bool" where
  "released_but pending st \<longleftrightarrow>
     (\<forall>key. is_dropped key st \<longrightarrow> key < wm_counter st \<and> (hm_has (wm_watchers st) key \<longrightarrow> key \<in> pending))"

lemma hm_has_keys: "hm_has m k \<longleftrightarrow> k \<in> set (hm_keys m)"
  by (auto simp: hm_has_def map_of_eq_None_iff)

interpretation release: watch_policy "released_but pending" for pending
proof
  show "released_but pending st'" if "released_but pending st" "st_dropped st' = st_dropped st"
    "wm_counter st' = wm_counter st" "set (hm_keys (wm_watchers st')) = set (hm_keys (wm_watchers st))"
    for st st'
    using that unfolding released_but_def hm_has_keys by simp
qed (auto simp: released_but_def hm_has_def less_Suc_eq split: if_splits)

end
