(* ===== verification/Manager_Watch.thy ===== *)
theory Manager_Watch
  imports Manager_Calls Backend_Events
begin

text \<open>
  The runs of the manager: the operations of the clients and of the adapters, the drops of the
  guards and the turns of the watch thread, in any interleaving. A client that waits for the
  thread only excludes some of the interleavings.
\<close>

section \<open>Steps\<close>

inductive manager_step :: "(string \<Rightarrow> string \<Rightarrow> nat) \<Rightarrow> register_watch_fn \<Rightarrow> manager \<Rightarrow> manager \<Rightarrow> bool"
  for sip :: "string \<Rightarrow> string \<Rightarrow> nat" and reg :: register_watch_fn where
  add_adapter: "manager_add_adapter ad m = (r, m') \<Longrightarrow> manager_step sip reg m m'"
| remove_adapter: "manager_remove_adapter i m = (r, m') \<Longrightarrow> manager_step sip reg m m'"
| add_service: "manager_add_service service m = Done (r, m') \<Longrightarrow> manager_step sip reg m m'"
| remove_service: "manager_remove_service i m = (r, m') \<Longrightarrow> manager_step sip reg m m'"
| add_getter: "manager_add_getter c m = Done (r, m') \<Longrightarrow> manager_step sip reg m m'"
| remove_getter: "manager_remove_getter i m = (r, m') \<Longrightarrow> manager_step sip reg m m'"
| add_setter: "manager_add_setter c m = Done (r, m') \<Longrightarrow> manager_step sip reg m m'"
| remove_setter: "manager_remove_setter i m = (r, m') \<Longrightarrow> manager_step sip reg m m'"
| add_service_tags: "manager_add_service_tags sip ss tags m = Done (n, m') \<Longrightarrow> manager_step sip reg m m'"
| remove_service_tags: "manager_remove_service_tags sip ss tags m = Done (n, m') \<Longrightarrow> manager_step sip reg m m'"
| add_getter_tags: "manager_add_getter_tags sip gs tags m = Done (n, m') \<Longrightarrow> manager_step sip reg m m'"
| remove_getter_tags: "manager_remove_getter_tags sip gs tags m = Done (n, m') \<Longrightarrow> manager_step sip reg m m'"
| add_setter_tags: "manager_add_setter_tags sip gs tags m = Done (n, m') \<Longrightarrow> manager_step sip reg m m'"
| remove_setter_tags: "manager_remove_setter_tags sip gs tags m = Done (n, m') \<Longrightarrow> manager_step sip reg m m'"
| watch_values: "manager_watch_values watch m = Done (key, m') \<Longrightarrow> manager_step sip reg m m'"
| drop_guard: "key < wm_counter (mg_backend m) \<Longrightarrow> watch_guard_drop key m = m' \<Longrightarrow> manager_step sip reg m m'"
| thread: "handle_watch reg m = Done m' \<Longrightarrow> manager_step sip reg m m'"
| stop: "manager_stop m = m' \<Longrightarrow> manager_step sip reg m m'"

inductive manager_steps :: "(string \<Rightarrow> string \<Rightarrow> nat) \<Rightarrow> register_watch_fn \<Rightarrow> manager \<Rightarrow> manager \<Rightarrow> bool"
  for sip :: "string \<Rightarrow> string \<Rightarrow> nat" and reg :: register_watch_fn where
  refl: "manager_steps sip reg m m"
| step: "manager_steps sip reg m m' \<Longrightarrow> manager_step sip reg m' m'' \<Longrightarrow> manager_steps sip reg m m''"

definition manager_reachable :: "(string \<Rightarrow> string \<Rightarrow> nat) \<Rightarrow> register_watch_fn \<Rightarrow> manager \<Rightarrow> bool" where
  "manager_reachable sip reg m \<longleftrightarrow> (\<exists>db. manager_steps sip reg (manager_new db) m)"

lemmas manager_op_defs = manager_add_adapter_def manager_remove_adapter_def manager_add_service_def
  manager_remove_service_def manager_add_getter_def manager_remove_getter_def manager_add_setter_def
  manager_remove_setter_def manager_add_service_tags_def manager_remove_service_tags_def
  manager_add_getter_tags_def manager_remove_getter_tags_def manager_add_setter_tags_def
  manager_remove_setter_tags_def manager_watch_values_def

text \<open>What a step does to the back-end, the queue and the registration under way.\<close>

lemma with_lock_cases:
  "with_lock f m = (r, m') \<Longrightarrow> \<exists>st. f (mg_backend m) = (r, st) \<and> m' = m\<lparr>mg_backend := st\<rparr>"
  by (auto simp: with_lock_def split: prod.splits)

lemma with_lock_run_cases:
  "with_lock_run f m = Done (r, m') \<Longrightarrow> \<exists>st. f (mg_backend m) = Done (r, st) \<and> m' = m\<lparr>mg_backend := st\<rparr>"
  by (auto simp: with_lock_run_def bind_outcome_Done_iff)

lemma register_watches_cases:
  "\<exists>q. set q \<subseteq> range OpStart \<and> register_watches request m = m\<lparr>mg_queue := mg_queue m @ q\<rparr>"
  by (cases "request = []") (auto simp: register_watches_def intro: exI [of _ "[]"] exI [of _ "[OpStart request]"])

text \<open>A step of a client or an adapter: a step of the back-end, and maybe a registration queued.\<close>

definition client_step ::
    "(string \<Rightarrow> string \<Rightarrow> nat) \<Rightarrow> register_watch_fn \<Rightarrow> manager \<Rightarrow> manager \<Rightarrow> bool" where
  "client_step sip reg m m' \<longleftrightarrow>
     (\<exists>st q. backend_step sip reg (mg_backend m) st \<and> st_dropped st = st_dropped (mg_backend m) \<and>
        set q \<subseteq> range OpStart \<and> m' = m\<lparr>mg_backend := st, mg_queue := mg_queue m @ q\<rparr>)"

interpretation dropped: watch_policy "\<lambda>st. st_dropped st = d" for d
  by unfold_locales auto

lemma client_stepI:
  assumes "backend_step sip reg (mg_backend m) st" "st_dropped st = st_dropped (mg_backend m)"
  shows "client_step sip reg m (m\<lparr>mg_backend := st\<rparr>)"
    and "client_step sip reg m (register_watches request (m\<lparr>mg_backend := st\<rparr>))"
proof -
  show "client_step sip reg m (m\<lparr>mg_backend := st\<rparr>)"
    unfolding client_step_def using assms by (intro exI [of _ st] exI [of _ "[]"]) simp
  obtain q where "set q \<subseteq> range OpStart"
    "register_watches request (m\<lparr>mg_backend := st\<rparr>) = m\<lparr>mg_backend := st, mg_queue := mg_queue m @ q\<rparr>"
    using register_watches_cases [of request "m\<lparr>mg_backend := st\<rparr>"] by auto
  then show "client_step sip reg m (register_watches request (m\<lparr>mg_backend := st\<rparr>))"
    unfolding client_step_def using assms by (intro exI [of _ st] exI [of _ q]) simp
qed

lemma add_getter_client: "manager_add_getter c m = Done (r, m') \<Longrightarrow> client_step sip reg m m'"
  by (clarsimp simp: manager_add_getter_def bind_outcome_Done_iff dest!: with_lock_run_cases)
    (force intro: client_stepI backend_step.add_getter dropped.added_getter split: sum.splits)

lemma add_getter_tags_client: "manager_add_getter_tags sip gs tags m = Done (n, m') \<Longrightarrow> client_step sip reg m m'"
  by (clarsimp simp: manager_add_getter_tags_def bind_outcome_Done_iff dest!: with_lock_run_cases)
    (force intro: client_stepI backend_step.add_getter_tags dropped.added_getter_tags)

lemma watch_values_client: "manager_watch_values watch m = Done (key, m') \<Longrightarrow> client_step sip reg m m'"
  by (clarsimp simp: manager_watch_values_def bind_outcome_Done_iff dest!: with_lock_run_cases)
    (force intro: client_stepI backend_step.prepare_channel_watch dropped.prepare_watch)

lemma locked_client:
  assumes "with_lock f m = (r, m')" and "\<And>st st' r. f st = (r, st') \<Longrightarrow> backend_step sip reg st st'"
    and "\<And>st st' r. f st = (r, st') \<Longrightarrow> st_dropped st = st_dropped st \<Longrightarrow> st_dropped st' = st_dropped st"
  shows "client_step sip reg m m'"
  using with_lock_cases [OF assms(1)] assms(2,3) client_stepI(1) by metis

lemma locked_run_client:
  assumes "with_lock_run f m = Done (r, m')" and "\<And>st st' r. f st = Done (r, st') \<Longrightarrow> backend_step sip reg st st'"
    and "\<And>st st' r. f st = Done (r, st') \<Longrightarrow> st_dropped st = st_dropped st \<Longrightarrow> st_dropped st' = st_dropped st"
  shows "client_step sip reg m m'"
  using with_lock_run_cases [OF assms(1)] assms(2,3) client_stepI(1) by metis

lemma manager_stop_client: "client_step sip reg m (manager_stop m)"
  unfolding manager_stop_def by (rule client_stepI(1)) (auto intro: backend_step.stop simp: backend_stop_def)

lemma locked_clients:
  "manager_add_adapter ad m = (r, m') \<Longrightarrow> client_step sip reg m m'"
  "manager_remove_adapter i m = (r, m') \<Longrightarrow> client_step sip reg m m'"
  "manager_add_service service m = Done (r, m') \<Longrightarrow> client_step sip reg m m'"
  "manager_remove_service i m = (r, m') \<Longrightarrow> client_step sip reg m m'"
  "manager_remove_getter i m = (r, m') \<Longrightarrow> client_step sip reg m m'"
  "manager_add_setter c m = Done (r, m') \<Longrightarrow> client_step sip reg m m'"
  "manager_remove_setter i m = (r, m') \<Longrightarrow> client_step sip reg m m'"
  "manager_add_service_tags sip ss tags m = Done (n, m') \<Longrightarrow> client_step sip reg m m'"
  "manager_remove_service_tags sip ss tags m = Done (n, m') \<Longrightarrow> client_step sip reg m m'"
  "manager_remove_getter_tags sip gs tags m = Done (n, m') \<Longrightarrow> client_step sip reg m m'"
  "manager_add_setter_tags sip gs tags m = Done (n, m') \<Longrightarrow> client_step sip reg m m'"
  "manager_remove_setter_tags sip gs tags m = Done (n, m') \<Longrightarrow> client_step sip reg m m'"
  unfolding manager_op_defs
  by (erule locked_client locked_run_client;
      blast intro: backend_step.intros dropped.adapters dropped.removed_adapter dropped.added_service
        dropped.removed_service dropped.removed_getter dropped.added_setter dropped.removed_setter
        dropped.service_tags dropped.removed_getter_tags dropped.setter_tags)+

lemma manager_step_cases:
  assumes "manager_step sip reg m m'"
  obtains (client) "client_step sip reg m m'"
  | (drop) key where "key < wm_counter (mg_backend m)" "m' = watch_guard_drop key m"
  | (thread) "handle_watch reg m = Done m'"
  using assms
  by (cases rule: manager_step.cases)
    (blast intro: locked_clients add_getter_client add_getter_tags_client watch_values_client manager_stop_client)+

section \<open>Invariants\<close>

lemma handle_watch_backend:
  "handle_watch reg m = Done m' \<Longrightarrow> mg_backend m' = mg_backend m \<or> backend_step sip reg (mg_backend m) (mg_backend m')"
  by (auto simp: handle_watch_def bind_outcome_Done_iff split: option.splits list.splits watch_op.splits prod.splits
      intro: backend_step.register_ongoing_watch backend_step.start_watch backend_step.stop_watch)

text \<open>Every step of the manager is a step of its back-end, or none.\<close>

lemma manager_step_backend:
  assumes "manager_step sip reg m m'"
  shows "mg_backend m' = mg_backend m \<or> backend_step sip reg (mg_backend m) (mg_backend m')"
  using assms
proof (cases rule: manager_step_cases)
  case client
  then show ?thesis by (auto simp: client_step_def)
next
  case (drop key)
  then show ?thesis by (auto simp: watch_guard_drop_def Let_def intro: backend_step.drop_guard)
next
  case thread
  then show ?thesis by (rule handle_watch_backend)
qed

lemma manager_steps_backend: "manager_steps sip reg m m' \<Longrightarrow> reachable sip reg (mg_backend m) \<Longrightarrow> reachable sip reg (mg_backend m')"
proof (induction rule: manager_steps.induct)
  case (step m m' m'')
  then show ?case using manager_step_backend [of sip reg m' m''] by (auto intro: reachable.step)
qed

lemma manager_reachable_backend: "manager_reachable sip reg m \<Longrightarrow> reachable sip reg (mg_backend m)"
  by (auto simp: manager_reachable_def manager_new_def reachable.init dest!: manager_steps_backend)

text \<open>The messages of the dropped guards, and what they are about.\<close>

definition queued_releases :: "manager \<Rightarrow> WatchKey set" where
  "queued_releases m = {key. OpRelease key \<in> set (mg_queue m)}"

definition releases_inv :: "manager \<Rightarrow> bool" where
  "releases_inv m \<longleftrightarrow> released_but (queued_releases m) (mg_backend m) \<and>
     (\<forall>key \<in> queued_releases m. is_dropped key (mg_backend m))"

lemma client_releases: "client_step sip reg m m' \<Longrightarrow> releases_inv m \<Longrightarrow> releases_inv m'"
proof -
  assume "client_step sip reg m m'" and inv: "releases_inv m"
  then obtain st q where st: "backend_step sip reg (mg_backend m) st" "st_dropped st = st_dropped (mg_backend m)"
    and q: "set q \<subseteq> range OpStart" and m': "m' = m\<lparr>mg_backend := st, mg_queue := mg_queue m @ q\<rparr>"
    by (auto simp: client_step_def)
  from q have "queued_releases m' = queued_releases m" by (auto simp: queued_releases_def m')
  moreover have "released_but (queued_releases m) st"
    using release.backend_step_or_drop [OF st(1), of "queued_releases m"] inv st(2)
    by (auto simp: releases_inv_def)
  ultimately show ?thesis using inv st(2) by (simp add: releases_inv_def m')
qed

lemma drop_releases:
  "key < wm_counter (mg_backend m) \<Longrightarrow> releases_inv m \<Longrightarrow> releases_inv (watch_guard_drop key m)"
  by (auto simp: releases_inv_def watch_guard_drop_def Let_def released_but_def queued_releases_def)

lemma stop_watch_forgets:
  assumes "stop_watch key st = Done st'"
  shows "\<not> hm_has (wm_watchers st') key"
proof (cases "hm_get (wm_watchers st) key")
  case None
  with assms show ?thesis by (auto simp: stop_watch_def watch_map_remove_def hm_has_def)
next
  case (Some wd)
  with assms have "fold_outcome (stop_watch_getter key) (hm_keys (wd_guards wd))
      (st\<lparr>wm_watchers := hm_remove key (wm_watchers st)\<rparr>) = Done st'"
    by (auto simp: stop_watch_def watch_map_remove_def split: if_splits)
  then show ?thesis
    by (rule fold_outcome_keeps [where P = "\<lambda>st. \<not> hm_has (wm_watchers st) key"])
      (auto simp: hm_has_def stop_watch_getter_def Let_def split: option.splits if_splits)
qed

lemma thread_releases:
  assumes run: "handle_watch reg m = Done m'" and inv: "releases_inv m"
  shows "releases_inv m'"
proof -
  let ?st = "mg_backend m" and ?d = "st_dropped (mg_backend m)"
  have R: "released_but (queued_releases m) ?st" and D: "\<forall>key \<in> queued_releases m. is_dropped key ?st"
    using inv by (simp_all add: releases_inv_def)
  consider (commit) add where "mg_started m = Some add"
    | (idle) "mg_started m = None" "mg_queue m = []"
    | (start) req queue where "mg_started m = None" "mg_queue m = OpStart req # queue"
    | (release) key queue where "mg_started m = None" "mg_queue m = OpRelease key # queue"
    by (metis list.exhaust not_None_eq watch_op.exhaust)
  then show ?thesis
  proof cases
    case commit
    with run have "m' = m\<lparr>mg_backend := register_ongoing_watch add ?st, mg_started := None\<rparr>"
      by (simp add: handle_watch_def)
    with inv release.ongoing [OF R] dropped.ongoing [of ?st ?d add] show ?thesis
      by (simp add: releases_inv_def queued_releases_def)
  next
    case idle
    with run inv show ?thesis by (simp add: handle_watch_def)
  next
    case start
    then obtain add st where st: "start_watch reg req ?st = (add, st)"
      by (cases "start_watch reg req ?st")
    with run start have m': "m' = m\<lparr>mg_backend := st, mg_queue := queue, mg_started := Some add\<rparr>"
      by (simp add: handle_watch_def)
    from start have "queued_releases m' = queued_releases m" by (auto simp: queued_releases_def m')
    with inv release.start [OF st R] dropped.start [OF st, of ?d] show ?thesis
      by (simp add: releases_inv_def m')
  next
    case release
    with run obtain st where st: "stop_watch key ?st = Done st" and m': "m' = m\<lparr>mg_backend := st, mg_queue := queue\<rparr>"
      by (auto simp: handle_watch_def bind_outcome_Done_iff)
    from release have q: "queued_releases m = insert key (queued_releases m')"
      by (auto simp: queued_releases_def m')
    have d: "st_dropped st = ?d" using dropped.stop [OF st, of ?d] by simp
    have "released_but (queued_releases m') st"
      using release.stop [OF st R] stop_watch_forgets [OF st] unfolding q released_but_def by blast
    with D d show ?thesis by (auto simp: releases_inv_def q m')
  qed
qed

lemma manager_step_releases: "manager_step sip reg m m' \<Longrightarrow> releases_inv m \<Longrightarrow> releases_inv m'"
  using client_releases drop_releases thread_releases by (auto elim!: manager_step_cases)

lemma manager_steps_releases: "manager_steps sip reg m m' \<Longrightarrow> releases_inv m \<Longrightarrow> releases_inv m'"
  by (induction rule: manager_steps.induct) (auto intro: manager_step_releases)

lemma manager_reachable_releases: "manager_reachable sip reg m \<Longrightarrow> releases_inv m"
  by (auto simp: manager_reachable_def releases_inv_def released_but_def manager_new_def backend_new_def
      queued_releases_def dest!: manager_steps_releases)

section \<open>Properties\<close>



lemma handle_watches_drained:
  "handle_watches reg m = Done m' \<Longrightarrow> releases_inv m \<Longrightarrow>
    mg_queue m' = [] \<and> mg_started m' = None \<and> releases_inv m' \<and>
    (is_dropped key (mg_backend m) \<longrightarrow> is_dropped key (mg_backend m'))"
proof (induction reg m arbitrary: m' rule: handle_watches.induct)
  case (1 reg m)
  show ?case
  proof (cases "mg_started m = None \<and> mg_queue m = []")
    case True
    with 1 show ?thesis by (simp add: handle_watches.simps [of reg m])
  next
    case False
    with 1(2) obtain m1 where m1: "handle_watch reg m = Done m1" "handle_watches reg m1 = Done m'"
      by (auto simp: handle_watches.simps [of reg m] bind_outcome_Done_iff)
    have "is_dropped key (mg_backend m) \<longrightarrow> is_dropped key (mg_backend m1)"
      using handle_watch_backend [OF m1(1)] silence.backend_step [of _ reg "mg_backend m" "mg_backend m1" key] by metis
    with 1(1) [OF False m1] thread_releases [OF m1(1) 1(3)] show ?thesis by blast
  qed
qed

text \<open>C6: When the thread has nothing left to do, every watcher whose guard was dropped is gone: a
  release is not lost, in whatever order it was queued with registrations.\<close>

theorem dropped_watches_are_released:
  assumes "manager_reachable sip reg m" "handle_watches reg m = Done m'" "is_dropped key (mg_backend m)"
  shows "mg_queue m' = [] \<and> mg_started m' = None \<and> hm_get (wm_watchers (mg_backend m')) key = None"
  using handle_watches_drained [OF assms(2) manager_reachable_releases [OF assms(1)], of key] assms(3)
  by (auto simp: releases_inv_def released_but_def queued_releases_def hm_has_def)

section \<open>A race\<close>

lemma home_manager_run: "manager_reachable sip reg home_manager"
proof -
  let ?m = "\<lambda>st. (manager_new None)\<lparr>mg_backend := st\<rparr>"
  let ?st1 = "snd (add_adapter hue (backend_new None))"
  let ?st2 = "snd (install_service [] lamp ?st1)"
  let ?st3 = "snd (insert_getter lamp_power ?st2)"
  note run = with_lock_def with_lock_run_def install_service_def add_adapter_def backend_new_def home_defs
    adapter_data_new_def hm_has_def
  have "manager_add_adapter hue (manager_new None) = (Inr (), ?m ?st1)"
    by (simp add: manager_add_adapter_def run manager_new_def)
  then have 1: "manager_steps sip reg (manager_new None) (?m ?st1)"
    by (rule manager_steps.step [OF manager_steps.refl manager_step.add_adapter])
  have "manager_add_service lamp (?m ?st1) = Done (Inr (), ?m ?st2)"
    by (simp add: manager_add_service_def run add_service_result)
  then have 2: "manager_steps sip reg (manager_new None) (?m ?st2)"
    by (rule manager_steps.step [OF 1 manager_step.add_service])
  have "manager_add_getter lamp_power (?m ?st2) = Done (Inr (), ?m ?st3)"
    by (simp add: manager_add_getter_def run add_getter_def with_db_tags_def insert_getter_result
        service_data_new_def aux_getters_may_need_registration_def register_watches_def)
  then have 3: "manager_steps sip reg (manager_new None) (?m ?st3)"
    by (rule manager_steps.step [OF 2 manager_step.add_getter])
  have "manager_add_setter lamp_power (?m ?st3) = Done (Inr (), home_manager)"
    by (simp add: manager_add_setter_def run add_setter_def with_db_tags_def insert_getter_result
        insert_setter_result service_data_new_def getter_data_new_def setter_data_new_def home_manager_def)
  then have "manager_steps sip reg (manager_new None) home_manager"
    by (rule manager_steps.step [OF 3 manager_step.add_setter])
  then show ?thesis by (auto simp: manager_reachable_def)
qed

text \<open>A getter is removed while the thread is between the registration with the adapter and its
  commit, and then comes back.\<close>

definition race_watched :: manager where
  "race_watched = (case manager_watch_values watch_light home_manager of Done (_, m) \<Rightarrow> m | Panic \<Rightarrow> home_manager)"

definition race_started :: manager where
  "race_started = (case handle_watch no_watch race_watched of Done m \<Rightarrow> m | Panic \<Rightarrow> race_watched)"

definition race_removed :: manager where
  "race_removed = snd (manager_remove_getter ''power'' race_started)"

definition race_committed :: manager where
  "race_committed = (case handle_watch no_watch race_removed of Done m \<Rightarrow> m | Panic \<Rightarrow> race_removed)"

definition race_back :: manager where
  "race_back = (case manager_add_getter lamp_power race_committed of Done (_, m) \<Rightarrow> m | Panic \<Rightarrow> race_committed)"

lemmas race_run = watch_map_create_def with_getters_def watch_light_def any_light_def getter_with_kind_def
  getter_selector_new_def watcher_data_new_def getter_data_matches_def getter_matches_iff
  aux_start_channel_watch_result request_range_def hm_has_def home_defs with_lock_def with_lock_run_def

lemma race_watched:
  "manager_watch_values watch_light home_manager = Done (0, race_watched) \<and>
   race_watched = home_manager\<lparr>mg_backend := home\<lparr>
       st_getters := [\<lparr>gd_channel = lamp_power, gd_service_tags = 0, gd_watchers = [(0, 0)]\<rparr>],
       wm_watchers := [(0, \<lparr>wd_watch = watch_light, wd_key = 0, wd_guards = []\<rparr>)], wm_counter := 1\<rparr>,
     mg_queue := [OpStart [(''hue'', hue, [(''power'', None, 0)])]]\<rparr>"
  by (simp add: race_watched_def manager_watch_values_def prepare_channel_watch_def Let_def race_run
      home_manager_def manager_new_def register_watches_def)

lemma race_started:
  "handle_watch no_watch race_watched = Done race_started \<and>
   race_started = race_watched\<lparr>mg_queue := [], mg_started := Some [(0, [(''power'', 7)])]\<rparr>"
  by (simp add: race_started_def handle_watch_def race_watched start_watch_def no_watch_def
      home_defs home_manager_def manager_new_def)

lemma race_removed:
  "manager_remove_getter ''power'' race_started = (Inr (), race_removed) \<and>
   race_removed = race_started\<lparr>mg_backend := (mg_backend race_started)\<lparr>getter_by_id := [],
     st_services := [\<lparr>sd_tags = 0, sd_id = ''lamp'', sd_properties = [], sd_getters = [],
        sd_setters = [(''power'', 0)], sd_adapter = ''hue''\<rparr>],
     st_getters := [\<lparr>gd_channel = lamp_power, gd_service_tags = 0, gd_watchers = []\<rparr>],
     st_events := [(0, GetterRemoved ''power'')]\<rparr>\<rparr>"
  by (simp add: race_removed_def manager_remove_getter_def remove_getter_def race_started race_watched
      aux_getter_may_need_unregistration_def Let_def with_lock_def home_manager_def home_defs)

lemma race_committed:
  "handle_watch no_watch race_removed = Done race_committed \<and>
   race_committed = race_removed\<lparr>mg_started := None, mg_backend := (mg_backend race_removed)\<lparr>
     wm_watchers := [(0, \<lparr>wd_watch = watch_light, wd_key = 0, wd_guards = [(''power'', [7])]\<rparr>)]\<rparr>\<rparr>"
  by (simp add: race_committed_def handle_watch_def race_removed race_started race_watched
      register_ongoing_watch_def push_guard_def home_manager_def home_defs)

lemma race_back:
  "manager_add_getter lamp_power race_committed = Done (Inr (), race_back) \<and>
   race_back = race_committed\<lparr>mg_backend := (mg_backend race_committed)\<lparr>getter_by_id := [(''power'', 1)],
     st_services := [\<lparr>sd_tags = 0, sd_id = ''lamp'', sd_properties = [], sd_getters = [(''power'', 1)],
        sd_setters = [(''power'', 0)], sd_adapter = ''hue''\<rparr>],
     st_getters := [\<lparr>gd_channel = lamp_power, gd_service_tags = 0, gd_watchers = []\<rparr>,
                    \<lparr>gd_channel = lamp_power, gd_service_tags = 0, gd_watchers = []\<rparr>]\<rparr>\<rparr>"
  by (simp add: race_back_def manager_add_getter_def add_getter_def with_db_tags_def race_committed
      race_removed race_started race_watched insert_getter_result getter_data_new_def register_watches_def
      aux_getters_may_need_registration_def register_watcher_def race_run home_manager_def)

text \<open>The registration of a watch with the adapter is not atomic with its commit. When a getter
  is removed in between and comes back afterwards, its watcher is told of the removal but never of
  the return, it is not attached to the new getter, and releasing the watch panics in the watch
  thread (after which no watch is served).\<close>

theorem removal_during_registration_loses_the_watch:
  "manager_reachable sip reg home_manager \<and>
   manager_watch_values watch_light home_manager = Done (0, race_watched) \<and>
   handle_watch no_watch race_watched = Done race_started \<and>
   manager_remove_getter ''power'' race_started = (Inr (), race_removed) \<and>
   handle_watch no_watch race_removed = Done race_committed \<and>
   manager_add_getter lamp_power race_committed = Done (Inr (), race_back) \<and>
   mg_queue race_back = [] \<and> mg_started race_back = None \<and>
   events_of 0 (mg_backend race_back) = [GetterRemoved ''power''] \<and>
   handle_watches no_watch (watch_guard_drop 0 race_back) = Panic"
proof -
  have "handle_watch no_watch (watch_guard_drop 0 race_back) = Panic"
    by (simp add: handle_watch_def watch_guard_drop_def Let_def race_back race_committed race_removed
        race_started race_watched stop_watch_def watch_map_remove_def stop_watch_getter_def)
  then have "handle_watches no_watch (watch_guard_drop 0 race_back) = Panic"
    by (simp add: handle_watches.simps watch_guard_drop_def Let_def)
  moreover have "mg_queue race_back = [] \<and> mg_started race_back = None \<and>
      events_of 0 (mg_backend race_back) = [GetterRemoved ''power'']"
    by (simp add: race_back race_committed race_removed race_started race_watched events_of_def)
  ultimately show ?thesis
    using race_watched race_started race_removed race_committed race_back home_manager_run by blast
qed

section \<open>Witnesses\<close>

text \<open>A watch on an empty installation, dropped at once.\<close>

definition dropped_manager :: manager where
  "dropped_manager = watch_guard_drop 0 (case manager_watch_values watch_light (manager_new None) of
     Done (_, m) \<Rightarrow> m | Panic \<Rightarrow> manager_new None)"

lemma dropped_manager_run:
  "manager_watch_values watch_light (manager_new None) =
     Done (0, (manager_new None)\<lparr>mg_backend := (backend_new None)\<lparr>
       wm_watchers := [(0, \<lparr>wd_watch = watch_light, wd_key = 0, wd_guards = []\<rparr>)], wm_counter := 1\<rparr>\<rparr>)"
  by (simp add: manager_watch_values_def prepare_channel_watch_def Let_def race_run
      manager_new_def backend_new_def register_watches_def)

lemma dropped_manager_reachable: "manager_reachable no_hash no_watch dropped_manager"
proof -
  have "manager_steps no_hash no_watch (manager_new None) dropped_manager"
    unfolding dropped_manager_def dropped_manager_run
    by (rule manager_steps.step [OF manager_steps.step [OF manager_steps.refl
          manager_step.watch_values [OF dropped_manager_run]] manager_step.drop_guard]) simp_all
  then show ?thesis by (auto simp: manager_reachable_def)
qed



theorem dropped_watches_are_released_witness:
  "\<exists>m'. handle_watches no_watch dropped_manager = Done m' \<and> hm_get (wm_watchers (mg_backend m')) 0 = None"
proof -
  have m: "dropped_manager = \<lparr>mg_backend = (backend_new None)\<lparr>
       wm_watchers := [(0, \<lparr>wd_watch = watch_light, wd_key = 0, wd_guards = []\<rparr>)], wm_counter := 1,
       st_dropped := [0]\<rparr>, mg_queue = [OpRelease 0], mg_started = None\<rparr>"
    unfolding dropped_manager_def dropped_manager_run
    by (simp add: watch_guard_drop_def Let_def manager_new_def backend_new_def)
  obtain m' where run: "handle_watches no_watch dropped_manager = Done m'"
    unfolding m by (simp add: handle_watches.simps handle_watch_def stop_watch_def watch_map_remove_def)
  have "is_dropped 0 (mg_backend dropped_manager)"
    by (simp add: dropped_manager_def watch_guard_drop_def Let_def)
  with dropped_watches_are_released [OF dropped_manager_reachable run] run show ?thesis by blast
qed

end
