(* ===== verification/TB_Compile.thy ===== *)
theory TB_Compile
  imports Api
begin

text \<open>
  \<^verbatim>\<open>components/thinkerbell/src/ast.rs\<close>, \<^verbatim>\<open>compile.rs\<close> and \<^verbatim>\<open>util.rs\<close>: the scripts ("when some
  condition becomes true, do something"), their parser and the compiler that checks them and
  restricts their selectors. The context of a script, unchecked or compiled, is a phantom type in
  the code; here a compiled script is a script the compiler has returned.
\<close>

section \<open>Scripts\<close>

record tb_match =
  m_source :: "GetterSelector list"
  m_kind :: ChannelKind
  m_range :: Range
  m_duration :: "int option"

record tb_statement =
  s_destination :: "SetterSelector list"
  s_value :: Value
  s_kind :: ChannelKind

record tb_rule =
  r_conditions :: "tb_match list"
  r_execute :: "tb_statement list"

record tb_script =
  sc_name :: string
  sc_rules :: "tb_rule list"

section \<open>Parsing\<close>

definition parse_match :: "externals \<Rightarrow> tb_match parser" where
  "parse_match X path source =
     try_take (take_vec parse_getter_selector (path_push path ''source'') source ''source'')
       (\<lambda>sources source.
     try_take (take_field parse_channel_kind (path_push path ''kind'') source ''kind'')
       (\<lambda>kind source.
     try_take (take_field (parse_range X) (path_push path ''range'') source ''range'')
       (\<lambda>rng source.
     (let mk = (\<lambda>duration. Inr \<lparr>m_source = sources, m_kind = kind, m_range = rng, m_duration = duration\<rparr>)
      in case take_field parse_duration (path_push path ''range'') source ''duration'' of
           (Inl (MissingField _ _), _) \<Rightarrow> mk None
         | (Inl err, _) \<Rightarrow> Inl err
         | (Inr ok, _) \<Rightarrow> mk (Some ok)))))"

definition parse_statement :: "externals \<Rightarrow> tb_statement parser" where
  "parse_statement X path source =
     try_take (take_vec parse_setter_selector (path_push path ''destination'') source ''destination'')
       (\<lambda>destination source.
     try_take (take_field parse_channel_kind (path_push path ''kind'') source ''kind'')
       (\<lambda>kind source.
     try_take (take_field (parse_value X) (path_push path ''value'') source ''value'')
       (\<lambda>value source.
     Inr \<lparr>s_destination = destination, s_value = value, s_kind = kind\<rparr>)))"

definition parse_rule :: "externals \<Rightarrow> tb_rule parser" where
  "parse_rule X path source =
     try_take (take_vec (parse_match X) (path_push path ''conditions'') source ''conditions'')
       (\<lambda>conditions source.
     try_take (take_vec (parse_statement X) (path_push path ''execute'') source ''execute'')
       (\<lambda>execute source.
     Inr \<lparr>r_conditions = conditions, r_execute = execute\<rparr>))"

definition parse_script :: "externals \<Rightarrow> tb_script parser" where
  "parse_script X path source =
     try_take (take_field parse_string (path_push path ''name'') source ''name'')
       (\<lambda>name source.
     try_take (take_vec (parse_rule X) (path_push path ''rules'') source ''rules'')
       (\<lambda>rules source.
     Inr \<lparr>sc_name = name, sc_rules = rules\<rparr>))"

section \<open>The compiler\<close>

datatype SourceError = NoRule | NoStatement | NoMatch | NoMatchSource | NoStatementDestination

datatype CompileTypeError = InvalidRange | KindAndRangeDoNotAgree | KindAndValueDoNotAgree

datatype CompileError = SourceError SourceError | CompileTypeError CompileTypeError

text \<open>\<^verbatim>\<open>util::map\<close>: a map that stops at the first error.\<close>

fun map_results :: "'a list \<Rightarrow> ('a \<Rightarrow> 'e + 'b) \<Rightarrow> 'e + 'b list" where
  "map_results [] cb = Inr []"
| "map_results (val # vec) cb =
     try_result (cb val) (\<lambda>x. try_result (map_results vec cb) (\<lambda>result. Inr (x # result)))"

definition compile_match :: "tb_match \<Rightarrow> CompileError + tb_match" where
  "compile_match match =
     (if m_source match = [] then Inl (SourceError NoMatchSource)
      else case range_type (m_range match) of
        Inl _ \<Rightarrow> Inl (CompileTypeError InvalidRange)
      | Inr typ \<Rightarrow>
          if kind_type (m_kind match) \<noteq> typ then Inl (CompileTypeError KindAndRangeDoNotAgree)
          else Inr \<lparr>m_source = map (\<lambda>input. getter_with_kind input (m_kind match)) (m_source match),
                    m_kind = m_kind match, m_range = m_range match, m_duration = m_duration match\<rparr>)"

definition compile_statement :: "tb_statement \<Rightarrow> CompileError + tb_statement" where
  "compile_statement statement =
     (if s_destination statement = [] then Inl (SourceError NoStatementDestination)
      else if kind_type (s_kind statement) \<noteq> value_type (s_value statement)
      then Inl (CompileTypeError KindAndValueDoNotAgree)
      else Inr \<lparr>s_destination =
                  map (\<lambda>output. setter_with_kind output (s_kind statement)) (s_destination statement),
                s_value = s_value statement, s_kind = s_kind statement\<rparr>)"

definition compile_rule :: "tb_rule \<Rightarrow> CompileError + tb_rule" where
  "compile_rule trigger =
     (if r_execute trigger = [] then Inl (SourceError NoStatement)
      else if r_conditions trigger = [] then Inl (SourceError NoMatch)
      else try_result (map_results (r_conditions trigger) compile_match) (\<lambda>conditions.
           try_result (map_results (r_execute trigger) compile_statement) (\<lambda>execute.
           Inr \<lparr>r_conditions = conditions, r_execute = execute\<rparr>)))"

definition compile_script :: "tb_script \<Rightarrow> CompileError + tb_script" where
  "compile_script script =
     (if sc_rules script = [] then Inl (SourceError NoRule)
      else try_result (map_results (sc_rules script) compile_rule) (\<lambda>rules.
           Inr \<lparr>sc_name = sc_name script, sc_rules = rules\<rparr>))"

section \<open>What the compiler accepts\<close>

text \<open>The checks, as a predicate, and the restriction of the selectors, as a total function.\<close>

definition match_ok :: "tb_match \<Rightarrow> bool" where
  "match_ok m \<longleftrightarrow> m_source m \<noteq> [] \<and> range_type (m_range m) = Inr (kind_type (m_kind m))"

definition statement_ok :: "tb_statement \<Rightarrow> bool" where
  "statement_ok s \<longleftrightarrow> s_destination s \<noteq> [] \<and> value_type (s_value s) = kind_type (s_kind s)"

definition rule_ok :: "tb_rule \<Rightarrow> bool" where
  "rule_ok r \<longleftrightarrow> r_conditions r \<noteq> [] \<and> r_execute r \<noteq> [] \<and>
     list_all match_ok (r_conditions r) \<and> list_all statement_ok (r_execute r)"

definition script_ok :: "tb_script \<Rightarrow> bool" where
  "script_ok s \<longleftrightarrow> sc_rules s \<noteq> [] \<and> list_all rule_ok (sc_rules s)"

definition restrict_match :: "tb_match \<Rightarrow> tb_match" where
  "restrict_match m = m\<lparr>m_source := map (\<lambda>s. getter_with_kind s (m_kind m)) (m_source m)\<rparr>"

definition restrict_statement :: "tb_statement \<Rightarrow> tb_statement" where
  "restrict_statement s = s\<lparr>s_destination := map (\<lambda>d. setter_with_kind d (s_kind s)) (s_destination s)\<rparr>"

definition restrict_rule :: "tb_rule \<Rightarrow> tb_rule" where
  "restrict_rule r = r\<lparr>r_conditions := map restrict_match (r_conditions r),
     r_execute := map restrict_statement (r_execute r)\<rparr>"

definition restrict_script :: "tb_script \<Rightarrow> tb_script" where
  "restrict_script s = s\<lparr>sc_rules := map restrict_rule (sc_rules s)\<rparr>"

lemma compile_match_Inr: "compile_match m = Inr m' \<longleftrightarrow> match_ok m \<and> m' = restrict_match m"
  by (auto simp: compile_match_def match_ok_def restrict_match_def split: sum.splits)

lemma compile_statement_Inr: "compile_statement s = Inr s' \<longleftrightarrow> statement_ok s \<and> s' = restrict_statement s"
  by (auto simp: compile_statement_def statement_ok_def restrict_statement_def)

lemma map_results_Inr:
  assumes "\<And>x y. cb x = Inr y \<longleftrightarrow> ok x \<and> y = f x"
  shows "map_results xs cb = Inr ys \<longleftrightarrow> list_all ok xs \<and> ys = map f xs"
  by (induction xs arbitrary: ys) (auto simp: try_result_Inr_iff assms)

lemma compile_rule_Inr: "compile_rule r = Inr r' \<longleftrightarrow> rule_ok r \<and> r' = restrict_rule r"
  by (auto simp: compile_rule_def try_result_Inr_iff rule_ok_def restrict_rule_def
      map_results_Inr [OF compile_match_Inr] map_results_Inr [OF compile_statement_Inr])

lemma compile_script_Inr: "compile_script s = Inr s' \<longleftrightarrow> script_ok s \<and> s' = restrict_script s"
  by (auto simp: compile_script_def try_result_Inr_iff script_ok_def restrict_script_def
      map_results_Inr [OF compile_rule_Inr])

text \<open>Restricting twice is restricting once, and keeps the checks.\<close>

lemma restrict_match_simps [simp]:
  "restrict_match (restrict_match m) = restrict_match m" "match_ok (restrict_match m) = match_ok m"
  by (simp_all add: restrict_match_def match_ok_def getter_with_kind_def exactly_and_assoc exactly_and_idem)

lemma restrict_statement_simps [simp]:
  "restrict_statement (restrict_statement st) = restrict_statement st"
  "statement_ok (restrict_statement st) = statement_ok st"
  by (simp_all add: restrict_statement_def statement_ok_def setter_with_kind_def exactly_and_assoc exactly_and_idem)

lemma restrict_rule_simps [simp]:
  "restrict_rule (restrict_rule r) = restrict_rule r" "rule_ok (restrict_rule r) = rule_ok r"
  by (simp_all add: restrict_rule_def rule_ok_def list_all_iff)

lemma restrict_script_simps [simp]:
  "restrict_script (restrict_script s) = restrict_script s" "script_ok (restrict_script s) = script_ok s"
  by (simp_all add: restrict_script_def script_ok_def list_all_iff)

text \<open>C38: The compiler accepts exactly the scripts that have a rule, rules that have a condition and
  a statement, conditions and statements that have a selector and whose kind has the type of their
  range or value; it changes nothing but the selectors, which it restricts to the kind; and
  compiling the result again changes nothing.\<close>

theorem compile_exact:
  "(compile_script s = Inr s' \<longleftrightarrow>
      sc_rules s \<noteq> [] \<and>
      (\<forall>r \<in> set (sc_rules s). r_conditions r \<noteq> [] \<and> r_execute r \<noteq> [] \<and>
        (\<forall>m \<in> set (r_conditions r). m_source m \<noteq> [] \<and> range_type (m_range m) = Inr (kind_type (m_kind m))) \<and>
        (\<forall>st \<in> set (r_execute r). s_destination st \<noteq> [] \<and> value_type (s_value st) = kind_type (s_kind st))) \<and>
      s' = restrict_script s) \<and>
   (compile_script s = Inr s' \<longrightarrow> compile_script s' = Inr s')"
proof (intro conjI impI)
  show "compile_script s' = Inr s'" if "compile_script s = Inr s'"
    using that unfolding compile_script_Inr by simp
  show "compile_script s = Inr s' \<longleftrightarrow>
      sc_rules s \<noteq> [] \<and>
      (\<forall>r \<in> set (sc_rules s). r_conditions r \<noteq> [] \<and> r_execute r \<noteq> [] \<and>
        (\<forall>m \<in> set (r_conditions r). m_source m \<noteq> [] \<and> range_type (m_range m) = Inr (kind_type (m_kind m))) \<and>
        (\<forall>st \<in> set (r_execute r). s_destination st \<noteq> [] \<and> value_type (s_value st) = kind_type (s_kind st))) \<and>
      s' = restrict_script s"
    unfolding compile_script_Inr script_ok_def rule_ok_def match_ok_def statement_ok_def list_all_iff by simp
qed

text \<open>A script with one rule: when a light is on, another is switched on.\<close>

definition sample_script :: tb_script where
  "sample_script =
     \<lparr>sc_name = ''lights'', sc_rules =
       [\<lparr>r_conditions = [\<lparr>m_source = [getter_selector_new], m_kind = KLightOn,
           m_range = Eq (VOnOff On), m_duration = None\<rparr>],
         r_execute = [\<lparr>s_destination = [setter_selector_new], s_value = VOnOff On, s_kind = KLightOn\<rparr>]\<rparr>]\<rparr>"

theorem compile_exact_witness:
  "compile_script sample_script = Inr (restrict_script sample_script) \<and>
   compile_script (restrict_script sample_script) = Inr (restrict_script sample_script)"
  using compile_exact [of sample_script "restrict_script sample_script"]
  by (simp add: sample_script_def)

end
