(* ===== verification/TB_Run.thy ===== *)
theory TB_Run
  imports TB_Compile
begin

text \<open>
  \<^verbatim>\<open>components/thinkerbell/src/run.rs\<close>: the execution of a compiled script. The thread of the script
  is a loop over its message queue; its state is the state of the rules, the timers under way (a
  timer is identified by its guard, and dropping the guard cancels it), the queue it reads and
  also sends to, and the log of the events it reports. The devices are the parameter \<open>send\<close>, the
  answer of the API to a request to send values. An index out of the bounds of a vector panics.
\<close>

section \<open>Messages and state\<close>

datatype StartStopError = AlreadyRunning | NotRunning | ThreadError

datatype RunError = RunCompileError CompileError | RunStartStopError StartStopError | RunAPIError Error

datatype ExecutionEvent =
    Starting "RunError + unit"
  | Sent nat nat "(SetterId \<times> (RunError + unit)) list" \<comment> \<open>rule, statement, result\<close>
  | TimerStart nat nat \<comment> \<open>rule, condition\<close>
  | TimerCancel nat nat
  | ChannelError GetterId Error

datatype ExecutionOp =
    OpUpdate WatchEvent nat nat \<comment> \<open>event, rule, condition\<close>
  | OpUpdateCondition GetterId bool nat nat \<comment> \<open>id, is met, rule, condition\<close>
  | OpStop

record condition_state =
  cs_match_is_met :: bool
  cs_per_getter :: "GetterId hashset"
  cs_duration :: "int option"

record rule_state =
  rs_rule_is_met :: bool
  rs_per_condition :: "condition_state list"
  rs_ongoing_timer :: "nat option"

record execution =
  ex_per_rule :: "rule_state list"
  ex_queue :: "ExecutionOp list"
  ex_timers :: "(nat \<times> int \<times> ExecutionOp) list" \<comment> \<open>guard, duration, message\<close>
  ex_next_timer :: nat
  ex_events :: "ExecutionEvent list"
  ex_stopped :: bool

type_synonym api_send = "(SetterSelector, Value) TargetMap \<Rightarrow> User \<Rightarrow> (SetterId, unit, Error) ResultMap"

section \<open>Statements\<close>

definition statement_eval :: "api_send \<Rightarrow> tb_statement \<Rightarrow> User \<Rightarrow> (SetterId \<times> (RunError + unit)) list" where
  "statement_eval send self owner =
     map (\<lambda>(i, result). (i, case result of Inl err \<Rightarrow> Inl (RunAPIError err) | Inr x \<Rightarrow> Inr x))
       (send [Targetted (s_destination self) (s_value self)] owner)"

text \<open>The statements of a rule, in order, each reported.\<close>

fun trigger_statements ::
    "api_send \<Rightarrow> User \<Rightarrow> nat \<Rightarrow> tb_statement list \<Rightarrow> nat \<Rightarrow> ExecutionEvent list" where
  "trigger_statements send owner rule_index [] statement_index = []"
| "trigger_statements send owner rule_index (statement # rest) statement_index =
     Sent rule_index statement_index (statement_eval send statement owner) #
     trigger_statements send owner rule_index rest (statement_index + 1)"

section \<open>Conditions\<close>

text \<open>\<^verbatim>\<open>update_conditions\<close>: a getter enters or leaves the range of a condition.\<close>

definition update_conditions ::
    "api_send \<Rightarrow> User \<Rightarrow> tb_script \<Rightarrow> GetterId \<Rightarrow> bool \<Rightarrow> nat \<Rightarrow> nat \<Rightarrow> execution \<Rightarrow> execution outcome" where
  "update_conditions send owner script i getter_is_met rule_index condition_index self =
     (if rule_index \<ge> length (ex_per_rule self) then Panic
      else
        let rule = ex_per_rule self ! rule_index in
        if condition_index \<ge> length (rs_per_condition rule) then Panic
        else
          let condition = rs_per_condition rule ! condition_index;
              (was_met, per_getter) =
                (if getter_is_met then
                   (case hs_insert i (cs_per_getter condition) of (fresh, s) \<Rightarrow> (\<not> fresh, s))
                 else hs_remove i (cs_per_getter condition));
              put = (\<lambda>condition rule. rule\<lparr>rs_per_condition :=
                        (rs_per_condition rule)[condition_index := condition]\<rparr>);
              put_rule = (\<lambda>rule. self\<lparr>ex_per_rule := (ex_per_rule self)[rule_index := rule]\<rparr>);
              condition = condition\<lparr>cs_per_getter := per_getter\<rparr>
          in if was_met = getter_is_met then Done (put_rule (put condition rule))
             else
               let some_getter_is_met = (getter_is_met \<or> 0 < length per_getter);
                   rule = put (condition\<lparr>cs_match_is_met := some_getter_is_met\<rparr>) rule;
                   condition_is_met = (find cs_match_is_met (rs_per_condition rule) \<noteq> None);
                   condition_was_met = rs_rule_is_met rule;
                   self = put_rule (rule\<lparr>rs_rule_is_met := condition_is_met\<rparr>)
               in if \<not> condition_was_met \<and> condition_is_met then
                    (if rule_index \<ge> length (sc_rules script) then Panic
                     else Done (self\<lparr>ex_events := ex_events self @
                       trigger_statements send owner rule_index (r_execute (sc_rules script ! rule_index)) 0\<rparr>))
                  else Done self)"

section \<open>Timers\<close>

text \<open>Dropping a guard cancels its timer.\<close>

definition drop_timer :: "nat option \<Rightarrow> execution \<Rightarrow> execution" where
  "drop_timer guard self =
     (case guard of
        None \<Rightarrow> self
      | Some g \<Rightarrow> self\<lparr>ex_timers := filter (\<lambda>(g', _). g' \<noteq> g) (ex_timers self)\<rparr>)"

definition put_timer :: "nat \<Rightarrow> nat option \<Rightarrow> execution \<Rightarrow> execution" where
  "put_timer rule_index guard self =
     self\<lparr>ex_per_rule := (ex_per_rule self)
            [rule_index := (ex_per_rule self ! rule_index)\<lparr>rs_ongoing_timer := guard\<rparr>]\<rparr>"

text \<open>A new timer replaces the ongoing one of the rule; the old guard is dropped by the assignment,
  after the new timer has started.\<close>

definition start_rule_timer :: "int \<Rightarrow> ExecutionOp \<Rightarrow> nat \<Rightarrow> execution \<Rightarrow> execution" where
  "start_rule_timer duration msg rule_index self =
     (let guard = ex_next_timer self;
          old = rs_ongoing_timer (ex_per_rule self ! rule_index);
          self = self\<lparr>ex_timers := ex_timers self @ [(guard, duration, msg)], ex_next_timer := guard + 1\<rparr>
      in drop_timer old (put_timer rule_index (Some guard) self))"

text \<open>A timer that has not been cancelled elapses: its message is sent.\<close>

definition elapse :: "nat \<Rightarrow> execution \<Rightarrow> execution option" where
  "elapse guard self =
     (case map_of (ex_timers self) guard of
        None \<Rightarrow> None
      | Some (_, msg) \<Rightarrow>
          Some (self\<lparr>ex_timers := filter (\<lambda>(g', _). g' \<noteq> guard) (ex_timers self),
                     ex_queue := ex_queue self @ [msg]\<rparr>))"

section \<open>The loop\<close>

definition handle_update :: "WatchEvent \<Rightarrow> nat \<Rightarrow> nat \<Rightarrow> execution \<Rightarrow> execution outcome" where
  "handle_update event rule_index condition_index self =
     (let tell = (\<lambda>op self. self\<lparr>ex_queue := ex_queue self @ [op]\<rparr>);
          report = (\<lambda>ev self. self\<lparr>ex_events := ex_events self @ [ev]\<rparr>)
      in case event of
        InitializationError chan error \<Rightarrow> Done (report (ChannelError chan error) self)
      | GetterRemoved i \<Rightarrow> Done (tell (OpUpdateCondition i False rule_index condition_index) self)
      | GetterAdded i \<Rightarrow> Done self
      | EnterRange i value \<Rightarrow>
          if rule_index \<ge> length (ex_per_rule self) \<or>
             condition_index \<ge> length (rs_per_condition (ex_per_rule self ! rule_index)) then Panic
          else
            let msg = OpUpdateCondition i True rule_index condition_index
            in (case cs_duration (rs_per_condition (ex_per_rule self ! rule_index) ! condition_index) of
                  None \<Rightarrow> Done (tell msg self)
                | Some duration \<Rightarrow>
                    Done (report (TimerStart rule_index condition_index)
                      (start_rule_timer duration msg rule_index self)))
      | ExitRange i value \<Rightarrow>
          if rule_index \<ge> length (ex_per_rule self) then Panic
          else
            let ongoing = rs_ongoing_timer (ex_per_rule self ! rule_index);
                self = (if ongoing \<noteq> None then
                          report (TimerCancel rule_index condition_index)
                            (drop_timer ongoing (put_timer rule_index None self))
                        else self)
            in Done (tell (OpUpdateCondition i False rule_index condition_index) self))"

text \<open>A stop leaves the loop; the guards the rules hold are dropped with them.\<close>

definition handle_op :: "api_send \<Rightarrow> User \<Rightarrow> tb_script \<Rightarrow> ExecutionOp \<Rightarrow> execution \<Rightarrow> execution outcome" where
  "handle_op send owner script msg self =
     (case msg of
        OpStop \<Rightarrow> Done (self\<lparr>ex_stopped := True,
          ex_timers := filter (\<lambda>(g, _). Some g \<notin> rs_ongoing_timer ` set (ex_per_rule self)) (ex_timers self)\<rparr>)
      | OpUpdateCondition i is_met rule_index condition_index \<Rightarrow>
          update_conditions send owner script i is_met rule_index condition_index self
      | OpUpdate event rule_index condition_index \<Rightarrow>
          handle_update event rule_index condition_index self)"

text \<open>One turn: the thread takes a message, unless it has stopped.\<close>

definition run_turn :: "api_send \<Rightarrow> User \<Rightarrow> tb_script \<Rightarrow> execution \<Rightarrow> execution outcome" where
  "run_turn send owner script self =
     (if ex_stopped self then Done self
      else case ex_queue self of
        [] \<Rightarrow> Done self
      | msg # queue \<Rightarrow> handle_op send owner script msg (self\<lparr>ex_queue := queue\<rparr>))"

text \<open>The state the thread starts with, and the instruction it watches for each condition.\<close>

definition condition_init :: "tb_match \<Rightarrow> condition_state" where
  "condition_init condition = \<lparr>cs_match_is_met = False, cs_per_getter = [], cs_duration = m_duration condition\<rparr>"

definition rule_init :: "tb_rule \<Rightarrow> rule_state" where
  "rule_init rule =
     \<lparr>rs_rule_is_met = False, rs_per_condition = map condition_init (r_conditions rule), rs_ongoing_timer = None\<rparr>"

definition run_init :: "tb_script \<Rightarrow> execution" where
  "run_init script =
     \<lparr>ex_per_rule = map rule_init (sc_rules script), ex_queue = [], ex_timers = [], ex_next_timer = 0,
      ex_events = [Starting (Inr ())], ex_stopped = False\<rparr>"

definition condition_watch :: "tb_match \<Rightarrow> (GetterSelector, Value Exactly) TargetMap" where
  "condition_watch condition = [Targetted (m_source condition) (Exactly (VRange (m_range condition)))]"

definition script_watches :: "tb_script \<Rightarrow> (nat \<times> nat \<times> (GetterSelector, Value Exactly) TargetMap) list" where
  "script_watches script =
     concat (map (\<lambda>(rule_index, rule).
         map (\<lambda>(condition_index, condition). (rule_index, condition_index, condition_watch condition))
           (enumerate 0 (r_conditions rule)))
       (enumerate 0 (sc_rules script)))"

end
