(* ===== verification/TB_Props.thy ===== *)
theory TB_Props
  imports TB_Run Manager_Calls
begin

text \<open>
  The runs of a script: its watches and timers send messages in any order, its thread takes them
  one by one. The abstract state of a run is the set of getters each condition is met for; the
  flags the thread keeps are determined by it, and its effects are those of an edge-triggered
  disjunction.
\<close>

section \<open>Runs\<close>

abbreviation conditions_at :: "execution \<Rightarrow> nat \<Rightarrow> condition_state list" where
  "conditions_at self r \<equiv> rs_per_condition (ex_per_rule self ! r)"

inductive exec_step :: "api_send \<Rightarrow> User \<Rightarrow> tb_script \<Rightarrow> execution \<Rightarrow> execution \<Rightarrow> bool"
  for send :: api_send and owner :: User and script :: tb_script where
  event: "r < length (sc_rules script) \<Longrightarrow> c < length (r_conditions (sc_rules script ! r)) \<Longrightarrow>
    exec_step send owner script self (self\<lparr>ex_queue := ex_queue self @ [OpUpdate ev r c]\<rparr>)"
| stop: "exec_step send owner script self (self\<lparr>ex_queue := ex_queue self @ [OpStop]\<rparr>)"
| elapse: "elapse g self = Some self' \<Longrightarrow> exec_step send owner script self self'"
| turn: "run_turn send owner script self = Done self' \<Longrightarrow> exec_step send owner script self self'"

inductive exec_reachable :: "api_send \<Rightarrow> User \<Rightarrow> tb_script \<Rightarrow> execution \<Rightarrow> bool"
  for send :: api_send and owner :: User and script :: tb_script where
  init: "exec_reachable send owner script (run_init script)"
| step: "exec_reachable send owner script self \<Longrightarrow> exec_step send owner script self self' \<Longrightarrow>
    exec_reachable send owner script self'"

section \<open>Invariants\<close>

text \<open>The flags are those of the sets of getters.\<close>

definition condition_inv :: "condition_state \<Rightarrow> bool" where
  "condition_inv c \<longleftrightarrow> distinct (cs_per_getter c) \<and> (cs_match_is_met c \<longleftrightarrow> cs_per_getter c \<noteq> [])"

definition rule_inv :: "rule_state \<Rightarrow> bool" where
  "rule_inv r \<longleftrightarrow> (\<forall>c \<in> set (rs_per_condition r). condition_inv c) \<and>
     (rs_rule_is_met r \<longleftrightarrow> list_ex cs_match_is_met (rs_per_condition r))"

text \<open>The indices of the messages are in range.\<close>

definition index_ok :: "tb_script \<Rightarrow> nat \<Rightarrow> nat \<Rightarrow> bool" where
  "index_ok script r c \<longleftrightarrow> r < length (sc_rules script) \<and> c < length (r_conditions (sc_rules script ! r))"

fun op_ok :: "tb_script \<Rightarrow> ExecutionOp \<Rightarrow> bool" where
  "op_ok script (OpUpdate _ r c) = index_ok script r c"
| "op_ok script (OpUpdateCondition _ _ r c) = index_ok script r c"
| "op_ok script OpStop = True"

definition shape_inv :: "tb_script \<Rightarrow> execution \<Rightarrow> bool" where
  "shape_inv script self \<longleftrightarrow> length (ex_per_rule self) = length (sc_rules script) \<and>
     (\<forall>r < length (sc_rules script). length (conditions_at self r) = length (r_conditions (sc_rules script ! r)))"

definition flags_inv :: "tb_script \<Rightarrow> execution \<Rightarrow> bool" where
  "flags_inv script self \<longleftrightarrow> shape_inv script self \<and> (\<forall>r \<in> set (ex_per_rule self). rule_inv r) \<and>
     (\<forall>op \<in> set (ex_queue self). op_ok script op) \<and>
     (\<forall>(g, d, op) \<in> set (ex_timers self). op_ok script op)"

text \<open>A live timer is the ongoing timer of some rule.\<close>

definition ongoing :: "execution \<Rightarrow> nat option list" where
  "ongoing self = map rs_ongoing_timer (ex_per_rule self)"

definition timers_inv :: "execution \<Rightarrow> bool" where
  "timers_inv self \<longleftrightarrow> distinct (map fst (ex_timers self)) \<and>
     Some ` fst ` set (ex_timers self) \<subseteq> set (ongoing self) \<and>
     (\<forall>g. Some g \<in> set (ongoing self) \<longrightarrow> g < ex_next_timer self)"

lemma rule_invI:
  assumes "rule_inv rule" "c < length (rs_per_condition rule)" "condition_inv cond"
    "rs_per_condition rule' = (rs_per_condition rule)[c := cond]"
    "rs_rule_is_met rule' \<longleftrightarrow> list_ex cs_match_is_met (rs_per_condition rule')"
  shows "rule_inv rule'"
  using assms set_update_subset_insert [of "rs_per_condition rule" c cond]
  by (auto simp: rule_inv_def)

text \<open>The getters a condition is met for.\<close>

definition met :: "execution \<Rightarrow> nat \<Rightarrow> nat \<Rightarrow> GetterId set" where
  "met self r c = set (cs_per_getter (conditions_at self r ! c))"

definition some_met :: "execution \<Rightarrow> nat \<Rightarrow> bool" where
  "some_met self r \<longleftrightarrow> (\<exists>c < length (conditions_at self r). met self r c \<noteq> {})"

lemma rule_met_iff:
  assumes "flags_inv script self" "r < length (sc_rules script)"
  shows "rs_rule_is_met (ex_per_rule self ! r) \<longleftrightarrow> some_met self r"
proof -
  have "rule_inv (ex_per_rule self ! r)" using assms by (auto simp: flags_inv_def shape_inv_def)
  then have "rs_rule_is_met (ex_per_rule self ! r) \<longleftrightarrow> (\<exists>c \<in> set (conditions_at self r). cs_per_getter c \<noteq> [])"
    by (auto simp: rule_inv_def condition_inv_def list_ex_iff)
  also have "\<dots> \<longleftrightarrow> some_met self r"
    by (simp add: some_met_def met_def) (metis in_set_conv_nth)
  finally show ?thesis .
qed

text \<open>What an update of a condition does.\<close>

definition new_condition :: "GetterId \<Rightarrow> bool \<Rightarrow> condition_state \<Rightarrow> condition_state" where
  "new_condition i b cond =
     (let per_getter = snd (if b then hs_insert i (cs_per_getter cond) else hs_remove i (cs_per_getter cond))
      in cond\<lparr>cs_per_getter := per_getter, cs_match_is_met := per_getter \<noteq> []\<rparr>)"

definition new_rule :: "nat \<Rightarrow> GetterId \<Rightarrow> bool \<Rightarrow> rule_state \<Rightarrow> rule_state" where
  "new_rule c i b rule =
     (let conds = (rs_per_condition rule)[c := new_condition i b (rs_per_condition rule ! c)]
      in rule\<lparr>rs_per_condition := conds, rs_rule_is_met := list_ex cs_match_is_met conds\<rparr>)"

lemma new_condition_inv: "condition_inv cond \<Longrightarrow> condition_inv (new_condition i b cond)"
  by (auto simp: condition_inv_def new_condition_def Let_def hs_insert_distinct hs_remove_distinct)

lemma find_None_list_ex: "find P xs = None \<longleftrightarrow> \<not> list_ex P xs"
  by (auto simp: find_None_iff list_ex_iff)

lemma update_conditions_result:
  assumes inv: "flags_inv script self" and ix: "index_ok script r c"
  shows "update_conditions send owner script i b r c self =
    (let self' = self\<lparr>ex_per_rule := (ex_per_rule self)[r := new_rule c i b (ex_per_rule self ! r)]\<rparr>
     in Done (if \<not> rs_rule_is_met (ex_per_rule self ! r) \<and> rs_rule_is_met (ex_per_rule self' ! r)
              then self'\<lparr>ex_events := ex_events self @
                     trigger_statements send owner r (r_execute (sc_rules script ! r)) 0\<rparr>
              else self'))"
proof -
  let ?rule = "ex_per_rule self ! r"
  let ?cond = "rs_per_condition ?rule ! c"
  have r: "r < length (ex_per_rule self)" "r < length (sc_rules script)" "c < length (rs_per_condition ?rule)"
    using inv ix by (auto simp: flags_inv_def shape_inv_def index_ok_def)
  have ri: "rule_inv ?rule" using inv r(1) by (simp add: flags_inv_def)
  then have ci: "condition_inv ?cond" using r(3) by (simp add: rule_inv_def)
  let ?p = "if b then hs_insert i (cs_per_getter ?cond) else hs_remove i (cs_per_getter ?cond)"
  show ?thesis
  proof (cases "(i \<in> set (cs_per_getter ?cond)) = b")
    case True
    then have "snd ?p = cs_per_getter ?cond"
      by (auto simp: hs_insert_def hs_remove_def)
    then have same: "new_condition i b ?cond = ?cond"
      using ci by (simp add: new_condition_def condition_inv_def)
    then have same_rule: "new_rule c i b ?rule = ?rule"
      using ri by (simp add: new_rule_def rule_inv_def)
    have "cs_per_getter ?cond = snd ?p" using \<open>snd ?p = cs_per_getter ?cond\<close> by simp
    then show ?thesis
      using True r unfolding update_conditions_def same_rule
      by (auto simp: Let_def hs_insert_def hs_remove_def split: prod.splits)
  next
    case False
    show ?thesis
    proof (cases b)
      case True
      with False have "i \<notin> set (cs_per_getter ?cond)" by simp
      with True r show ?thesis
        by (simp add: update_conditions_def Let_def hs_insert_def new_rule_def new_condition_def find_None_list_ex
            del: not_None_eq)
    next
      case b: False
      with False have "i \<in> set (cs_per_getter ?cond)" by simp
      with b r show ?thesis
        by (simp add: update_conditions_def Let_def hs_remove_def new_rule_def new_condition_def find_None_list_ex
            del: not_None_eq)
    qed
  qed
qed

lemma new_rule_inv:
  assumes "rule_inv rule" "c < length (rs_per_condition rule)"
  shows "rule_inv (new_rule c i b rule)"
proof (rule rule_invI [OF assms])
  show "condition_inv (new_condition i b (rs_per_condition rule ! c))"
    using assms by (simp add: rule_inv_def new_condition_inv)
qed (simp_all add: new_rule_def Let_def)

lemma new_rule_simps [simp]:
  "length (rs_per_condition (new_rule c i b rule)) = length (rs_per_condition rule)"
  "rs_ongoing_timer (new_rule c i b rule) = rs_ongoing_timer rule"
  by (simp_all add: new_rule_def Let_def)

text \<open>Replacing one rule by another of the same shape.\<close>

lemma flags_inv_put_rule:
  assumes inv: "flags_inv script self" and r: "r < length (sc_rules script)" and rule: "rule_inv rule"
    and len: "length (rs_per_condition rule) = length (conditions_at self r)"
    and q: "\<forall>op \<in> set q. op_ok script op" and t: "\<forall>(g, d, op) \<in> set t. op_ok script op"
    and self': "ex_per_rule self' = (ex_per_rule self)[r := rule]" "ex_queue self' = q" "ex_timers self' = t"
  shows "flags_inv script self'"
proof -
  have "shape_inv script self'"
    using inv r len by (auto simp: flags_inv_def shape_inv_def self' nth_list_update)
  moreover have "\<forall>r \<in> set (ex_per_rule self'). rule_inv r"
    using inv rule set_update_subset_insert [of "ex_per_rule self" r rule]
    by (auto simp: flags_inv_def self')
  ultimately show ?thesis using q t by (simp add: flags_inv_def self')
qed

lemma flags_inv_same_rules:
  assumes "flags_inv script self" "ex_per_rule self' = ex_per_rule self"
    and "\<forall>op \<in> set (ex_queue self'). op_ok script op" "\<forall>(g, d, op) \<in> set (ex_timers self'). op_ok script op"
  shows "flags_inv script self'"
  using assms by (simp add: flags_inv_def shape_inv_def)

lemma update_conditions_flags:
  assumes inv: "flags_inv script self" and ix: "index_ok script r c"
    and run: "update_conditions send owner script i b r c self = Done self'"
  shows "flags_inv script self'"
proof -
  have r: "r < length (ex_per_rule self)" "r < length (sc_rules script)" "c < length (conditions_at self r)"
    using inv ix by (auto simp: flags_inv_def shape_inv_def index_ok_def)
  then have "rule_inv (new_rule c i b (ex_per_rule self ! r))"
    using inv new_rule_inv by (simp add: flags_inv_def)
  then show ?thesis
    by (rule flags_inv_put_rule [OF inv r(2)])
      (use run inv in \<open>auto simp: update_conditions_result [OF inv ix] Let_def flags_inv_def split: if_splits\<close>)
qed

lemma put_timer_flags:
  assumes "flags_inv script self" "r < length (sc_rules script)"
  shows "flags_inv script (put_timer r g self)"
proof (rule flags_inv_put_rule [OF assms])
  show "rule_inv ((ex_per_rule self ! r)\<lparr>rs_ongoing_timer := g\<rparr>)"
    using assms by (auto simp: flags_inv_def shape_inv_def rule_inv_def)
qed (use assms(1) in \<open>auto simp: put_timer_def flags_inv_def\<close>)

lemma drop_timer_simps [simp]:
  "ex_per_rule (drop_timer g self) = ex_per_rule self" "ex_queue (drop_timer g self) = ex_queue self"
  "ex_next_timer (drop_timer g self) = ex_next_timer self" "ex_events (drop_timer g self) = ex_events self"
  "set (ex_timers (drop_timer g self)) = {t \<in> set (ex_timers self). Some (fst t) \<noteq> g}"
  by (auto simp: drop_timer_def split: option.splits)

lemma drop_timer_flags: "flags_inv script self \<Longrightarrow> flags_inv script (drop_timer g self)"
  by (rule flags_inv_same_rules, assumption) (auto simp: flags_inv_def)

lemma start_rule_timer_flags:
  assumes "flags_inv script self" "r < length (sc_rules script)" "op_ok script op"
  shows "flags_inv script (start_rule_timer d op r self)"
proof -
  have "flags_inv script (self\<lparr>ex_timers := ex_timers self @ [(ex_next_timer self, d, op)],
      ex_next_timer := ex_next_timer self + 1\<rparr>)"
    using assms(1) by (rule flags_inv_same_rules) (use assms in \<open>auto simp: flags_inv_def\<close>)
  then show ?thesis
    unfolding start_rule_timer_def Let_def by (intro drop_timer_flags put_timer_flags assms(2))
qed

lemma handle_update_flags:
  assumes inv: "flags_inv script self" and ix: "index_ok script r c"
  shows "\<exists>self'. handle_update ev r c self = Done self' \<and> flags_inv script self'"
proof -
  have r: "r < length (ex_per_rule self)" "r < length (sc_rules script)" "c < length (conditions_at self r)"
    using inv ix by (auto simp: flags_inv_def shape_inv_def index_ok_def)
  have tell: "flags_inv script (s\<lparr>ex_queue := ex_queue s @ [op]\<rparr>)" if "flags_inv script s" "op_ok script op" for s op
    using that(1) by (rule flags_inv_same_rules) (use that in \<open>auto simp: flags_inv_def\<close>)
  have report: "flags_inv script (s\<lparr>ex_events := e\<rparr>)" if "flags_inv script s" for s e
    using that by (rule flags_inv_same_rules) (use that in \<open>auto simp: flags_inv_def\<close>)
  have both: "flags_inv script (s\<lparr>ex_events := e, ex_queue := q\<rparr>)"
    if "flags_inv script s" "op_ok script op" "q = ex_queue s @ [op]" for s e q op
    using that(1) by (rule flags_inv_same_rules) (use that in \<open>auto simp: flags_inv_def\<close>)
  have exit: "flags_inv script (drop_timer g (put_timer r None self)\<lparr>ex_events := e,
      ex_queue := ex_queue (put_timer r None self) @ [OpUpdateCondition i False r c]\<rparr>)" for g e i
    by (rule both [OF drop_timer_flags [OF put_timer_flags [OF inv r(2)]]]) (simp_all add: ix)
  show ?thesis
    using r ix exit unfolding handle_update_def
    by (cases ev) (auto simp: Let_def intro!: tell report start_rule_timer_flags drop_timer_flags put_timer_flags inv
        split: option.splits)
qed

lemma handle_op_flags:
  assumes inv: "flags_inv script self" and op: "op_ok script op"
  shows "\<exists>self'. handle_op send owner script op self = Done self' \<and> flags_inv script self'"
proof (cases op)
  case (OpUpdate ev r c)
  with handle_update_flags [OF inv, of r c ev] op show ?thesis by (simp add: handle_op_def)
next
  case (OpUpdateCondition i b r c)
  with op have ix: "index_ok script r c" by simp
  obtain self' where "update_conditions send owner script i b r c self = Done self'"
    using update_conditions_result [OF inv ix] by (auto simp: Let_def)
  with update_conditions_flags [OF inv ix this] OpUpdateCondition show ?thesis by (simp add: handle_op_def)
next
  case OpStop
  have "flags_inv script (self\<lparr>ex_stopped := True,
      ex_timers := filter (\<lambda>(g, _). Some g \<notin> rs_ongoing_timer ` set (ex_per_rule self)) (ex_timers self)\<rparr>)"
    using inv by (rule flags_inv_same_rules) (use inv in \<open>auto simp: flags_inv_def\<close>)
  with OpStop show ?thesis by (simp add: handle_op_def)
qed

lemma run_turn_flags:
  assumes inv: "flags_inv script self"
  shows "\<exists>self'. run_turn send owner script self = Done self' \<and> flags_inv script self'"
proof (cases "ex_queue self")
  case Nil
  with inv show ?thesis by (simp add: run_turn_def)
next
  case (Cons op queue)
  have "flags_inv script (self\<lparr>ex_queue := queue\<rparr>)"
    using inv by (rule flags_inv_same_rules) (use inv Cons in \<open>auto simp: flags_inv_def\<close>)
  moreover have "op_ok script op" using inv Cons by (simp add: flags_inv_def)
  ultimately show ?thesis using handle_op_flags inv Cons by (simp add: run_turn_def)
qed

lemma elapse_flags: "elapse g self = Some self' \<Longrightarrow> flags_inv script self \<Longrightarrow> flags_inv script self'"
proof -
  assume run: "elapse g self = Some self'" and inv: "flags_inv script self"
  then obtain d op where t: "map_of (ex_timers self) g = Some (d, op)"
    and self': "self' = self\<lparr>ex_timers := filter (\<lambda>(g', _). g' \<noteq> g) (ex_timers self), ex_queue := ex_queue self @ [op]\<rparr>"
    by (auto simp: elapse_def split: option.splits)
  from inv map_of_SomeD [OF t] have "op_ok script op" by (auto simp: flags_inv_def)
  then show "flags_inv script self'"
    unfolding self' by (intro flags_inv_same_rules [OF inv]) (use inv in \<open>auto simp: flags_inv_def\<close>)
qed

lemma run_init_flags: "flags_inv script (run_init script)"
  by (auto simp: flags_inv_def shape_inv_def run_init_def rule_init_def rule_inv_def condition_init_def
      condition_inv_def list_ex_iff)

lemma exec_reachable_flags: "exec_reachable send owner script self \<Longrightarrow> flags_inv script self"
proof (induction rule: exec_reachable.induct)
  case init
  show ?case by (rule run_init_flags)
next
  case (step self self')
  from step(2) show ?case
  proof cases
    case (event r c ev)
    then show ?thesis
      using step(3) by (intro flags_inv_same_rules [OF step(3)]) (auto simp: flags_inv_def index_ok_def)
  next
    case stop
    then show ?thesis
      using step(3) by (intro flags_inv_same_rules [OF step(3)]) (auto simp: flags_inv_def)
  next
    case (elapse g)
    then show ?thesis using elapse_flags step(3) by blast
  next
    case turn
    then show ?thesis using run_turn_flags [OF step(3), of send owner] by auto
  qed
qed

section \<open>Timers\<close>

lemma timers_inv_cong:
  "timers_inv self \<Longrightarrow> ongoing self' = ongoing self \<Longrightarrow> ex_timers self' = ex_timers self \<Longrightarrow>
   ex_next_timer self' = ex_next_timer self \<Longrightarrow> timers_inv self'"
  by (simp add: timers_inv_def)

text \<open>Cancelling or ending timers.\<close>

lemma timers_inv_fewer:
  "timers_inv self \<Longrightarrow> ongoing self' = ongoing self \<Longrightarrow> ex_timers self' = filter P (ex_timers self) \<Longrightarrow>
   ex_next_timer self' = ex_next_timer self \<Longrightarrow> timers_inv self'"
  by (auto simp: timers_inv_def distinct_map_filter)

text \<open>Replacing the ongoing timer of a rule, the old one dropped.\<close>

lemma timers_inv_replace:
  assumes inv: "timers_inv self" and r: "r < length (ongoing self)"
    and self': "ongoing self' = (ongoing self)[r := g]" "distinct (map fst (ex_timers self'))"
      "\<forall>t \<in> set (ex_timers self'). Some (fst t) = g \<or> t \<in> set (ex_timers self) \<and> Some (fst t) \<noteq> ongoing self ! r"
      "ex_next_timer self \<le> ex_next_timer self'" "\<forall>x. g = Some x \<longrightarrow> x < ex_next_timer self'"
  shows "timers_inv self'"
proof -
  have "Some (fst t) \<in> set (ongoing self')" if t: "t \<in> set (ex_timers self')" for t
  proof (cases "Some (fst t) = g")
    case True
    then show ?thesis using r by (simp add: self'(1) set_update_memI)
  next
    case False
    with self'(3) t have "t \<in> set (ex_timers self)" "Some (fst t) \<noteq> ongoing self ! r" by auto
    with inv have "Some (fst t) \<in> set (ongoing self)" by (auto simp: timers_inv_def)
    then obtain k where "k < length (ongoing self)" "ongoing self ! k = Some (fst t)"
      by (metis in_set_conv_nth)
    moreover from this \<open>Some (fst t) \<noteq> ongoing self ! r\<close> have "k \<noteq> r" by auto
    ultimately show ?thesis
      unfolding self'(1) by (metis length_list_update nth_list_update_neq nth_mem)
  qed
  moreover have "x < ex_next_timer self'" if "Some x \<in> set (ongoing self')" for x
  proof -
    from that have "Some x = g \<or> Some x \<in> set (ongoing self)"
      unfolding self'(1) using set_update_subset_insert by fastforce
    with inv self'(4,5) show ?thesis by (auto simp: timers_inv_def)
  qed
  ultimately show ?thesis using self'(2) by (auto simp: timers_inv_def)
qed

lemma ongoing_put_timer [simp]: "ongoing (put_timer r g self) = (ongoing self)[r := g]"
  by (simp add: ongoing_def put_timer_def map_update)

lemma put_timer_simps [simp]:
  "ex_timers (put_timer r g self) = ex_timers self" "ex_next_timer (put_timer r g self) = ex_next_timer self"
  "ex_queue (put_timer r g self) = ex_queue self" "ex_events (put_timer r g self) = ex_events self"
  by (simp_all add: put_timer_def)

lemma ongoing_drop_timer [simp]: "ongoing (drop_timer g self) = ongoing self"
  by (simp add: ongoing_def)

lemma ongoing_ignored [simp]:
  "ongoing (self\<lparr>ex_queue := q\<rparr>) = ongoing self" "ongoing (self\<lparr>ex_events := e\<rparr>) = ongoing self"
  "ongoing (self\<lparr>ex_timers := t\<rparr>) = ongoing self" "ongoing (self\<lparr>ex_stopped := b\<rparr>) = ongoing self"
  "ongoing (self\<lparr>ex_next_timer := n\<rparr>) = ongoing self"
  by (simp_all add: ongoing_def)

lemma drop_timer_distinct: "distinct (map fst (ex_timers self)) \<Longrightarrow> distinct (map fst (ex_timers (drop_timer g self)))"
  by (auto simp: drop_timer_def distinct_map_filter split: option.split)

lemma fresh_timer: "timers_inv self \<Longrightarrow> ex_next_timer self \<notin> fst ` set (ex_timers self)"
  by (fastforce simp: timers_inv_def)

lemma start_rule_timer_inv:
  assumes inv: "timers_inv self" and r: "r < length (ex_per_rule self)"
  shows "timers_inv (start_rule_timer d op r self)"
proof (rule timers_inv_replace [OF inv, of r _ "Some (ex_next_timer self)"])
  show "distinct (map fst (ex_timers (start_rule_timer d op r self)))"
    unfolding start_rule_timer_def Let_def
    by (rule drop_timer_distinct) (use inv fresh_timer [OF inv] in \<open>simp add: timers_inv_def\<close>)
qed (use r in \<open>auto simp: start_rule_timer_def Let_def ongoing_def [of self]\<close>)

lemma cancel_rule_timer_inv:
  assumes inv: "timers_inv self" and r: "r < length (ex_per_rule self)"
  shows "timers_inv (drop_timer (rs_ongoing_timer (ex_per_rule self ! r)) (put_timer r None self))"
proof (rule timers_inv_replace [OF inv, of r _ None])
  show "distinct (map fst (ex_timers (drop_timer (rs_ongoing_timer (ex_per_rule self ! r)) (put_timer r None self))))"
    by (rule drop_timer_distinct) (use inv in \<open>simp add: timers_inv_def\<close>)
qed (use r in \<open>auto simp: ongoing_def [of self]\<close>)

lemma handle_update_timers:
  assumes inv: "timers_inv self" and run: "handle_update ev r c self = Done self'"
  shows "timers_inv self'"
proof -
  have ignored: "timers_inv (s\<lparr>ex_queue := q\<rparr>)" "timers_inv (s\<lparr>ex_events := e\<rparr>)" if "timers_inv s" for s q e
    using that by (auto simp: timers_inv_def)
  show ?thesis
  proof (cases "r < length (ex_per_rule self)")
    case True
    show ?thesis
    proof (cases ev)
      case (ExitRange i v)
      with run True ignored inv ignored(1) [OF ignored(2) [OF cancel_rule_timer_inv [OF inv True]]] show ?thesis
        by (auto simp: handle_update_def Let_def split: if_splits)
    qed (use run True ignored inv start_rule_timer_inv [OF inv True] in
        \<open>auto simp: handle_update_def Let_def split: if_splits option.splits\<close>)
  next
    case False
    with run inv ignored show ?thesis by (cases ev) (auto simp: handle_update_def Let_def)
  qed
qed

lemma handle_op_timers:
  assumes inv: "timers_inv self" and fl: "flags_inv script self" and op: "op_ok script op"
    and run: "handle_op send owner script op self = Done self'"
  shows "timers_inv self'"
proof (cases op)
  case (OpUpdate ev r c)
  with run handle_update_timers [OF inv] show ?thesis by (simp add: handle_op_def)
next
  case (OpUpdateCondition i b r c)
  with op have ix: "index_ok script r c" by simp
  then have "r < length (ex_per_rule self)" using fl by (auto simp: flags_inv_def shape_inv_def index_ok_def)
  then have "ongoing (self\<lparr>ex_per_rule := (ex_per_rule self)[r := new_rule c i b (ex_per_rule self ! r)]\<rparr>) = ongoing self"
    by (simp add: ongoing_def map_update list_update_same_conv)
  with OpUpdateCondition run show ?thesis
    by (intro timers_inv_cong [OF inv])
      (auto simp: handle_op_def update_conditions_result [OF fl ix] Let_def split: if_splits)
next
  case OpStop
  with run show ?thesis by (intro timers_inv_fewer [OF inv]) (auto simp: handle_op_def)
qed

lemma elapse_timers: "elapse g self = Some self' \<Longrightarrow> timers_inv self \<Longrightarrow> timers_inv self'"
  by (rule timers_inv_fewer, assumption) (auto simp: elapse_def split: option.splits)

lemma run_turn_timers:
  assumes inv: "timers_inv self" and fl: "flags_inv script self" and run: "run_turn send owner script self = Done self'"
  shows "timers_inv self'"
proof (cases "ex_stopped self \<or> ex_queue self = []")
  case True
  with run inv show ?thesis by (auto simp: run_turn_def split: if_splits)
next
  case False
  then obtain op queue where q: "ex_queue self = op # queue" by (cases "ex_queue self") auto
  have "timers_inv (self\<lparr>ex_queue := queue\<rparr>)" using inv by (rule timers_inv_cong) simp_all
  moreover have "flags_inv script (self\<lparr>ex_queue := queue\<rparr>)"
    using fl by (rule flags_inv_same_rules) (use fl q in \<open>auto simp: flags_inv_def\<close>)
  moreover have "op_ok script op" using fl q by (simp add: flags_inv_def)
  ultimately show ?thesis
    using run False q handle_op_timers [of "self\<lparr>ex_queue := queue\<rparr>" script op send owner self'] by (simp add: run_turn_def)
qed

lemma run_init_timers: "timers_inv (run_init script)"
  by (auto simp: timers_inv_def run_init_def ongoing_def rule_init_def)

lemma exec_reachable_timers: "exec_reachable send owner script self \<Longrightarrow> timers_inv self"
proof (induction rule: exec_reachable.induct)
  case init
  show ?case by (rule run_init_timers)
next
  case (step self self')
  from step(2) show ?case
  proof cases
    case (elapse g)
    then show ?thesis using elapse_timers step(3) by blast
  next
    case turn
    then show ?thesis using run_turn_timers [OF step(3) exec_reachable_flags [OF step(1)]] by blast
  qed (use step(3) in \<open>auto intro: timers_inv_cong\<close>)
qed

lemma timers_at_most_rules:
  assumes "timers_inv self"
  shows "length (ex_timers self) \<le> length (ex_per_rule self)"
proof -
  have "length (ex_timers self) = card (fst ` set (ex_timers self))"
    using assms distinct_card [of "map fst (ex_timers self)"] by (simp add: timers_inv_def)
  also have "\<dots> = card (Some ` fst ` set (ex_timers self))"
    by (simp add: card_image)
  also have "\<dots> \<le> card (set (ongoing self))"
    using assms by (intro card_mono) (simp_all add: timers_inv_def)
  also have "\<dots> \<le> length (ex_per_rule self)"
    using card_length [of "ongoing self"] by (simp add: ongoing_def)
  finally show ?thesis .
qed

section \<open>The thread\<close>


text \<open>A turn that updates a condition.\<close>

lemma met_new_rule:
  assumes "r < length (ex_per_rule self)" "c < length (conditions_at self r)"
    and "condition_inv (conditions_at self r ! c)"
    and self': "ex_per_rule self' = (ex_per_rule self)[r := new_rule c i b (ex_per_rule self ! r)]"
  shows "met self' = (\<lambda>r' c'. if r' = r \<and> c' = c then (if b then insert i (met self r c) else met self r c - {i})
    else met self r' c')"
proof (intro ext)
  fix r' c'
  show "met self' r' c' = (if r' = r \<and> c' = c then (if b then insert i (met self r c) else met self r c - {i})
    else met self r' c')"
    using assms by (cases "r' = r"; cases "c' = c")
      (auto simp: met_def new_rule_def new_condition_def Let_def hs_insert_def hs_remove_def condition_inv_def)
qed

lemma condition_update:
  assumes "exec_reachable send owner script self" "\<not> ex_stopped self"
    and "ex_queue self = OpUpdateCondition i b r c # queue"
  shows "\<exists>self'. run_turn send owner script self = Done self' \<and> ex_queue self' = queue \<and>
    met self' = (\<lambda>r' c'. if r' = r \<and> c' = c then (if b then insert i (met self r c) else met self r c - {i})
      else met self r' c') \<and>
    ex_events self' = ex_events self @
      (if \<not> some_met self r \<and> some_met self' r
       then trigger_statements send owner r (r_execute (sc_rules script ! r)) 0 else [])"
proof -
  let ?self = "self\<lparr>ex_queue := queue\<rparr>"
  have fl: "flags_inv script self" using assms(1) by (rule exec_reachable_flags)
  then have fl1: "flags_inv script ?self"
    by (rule flags_inv_same_rules) (use fl assms(3) in \<open>auto simp: flags_inv_def\<close>)
  from fl assms(3) have ix: "index_ok script r c" by (simp add: flags_inv_def)
  then have r: "r < length (sc_rules script)" "r < length (ex_per_rule self)" "c < length (conditions_at self r)"
    using fl by (auto simp: flags_inv_def shape_inv_def index_ok_def)
  from assms(2,3) have run: "run_turn send owner script self = update_conditions send owner script i b r c ?self"
    by (simp add: run_turn_def handle_op_def)
  then obtain self' where run': "run_turn send owner script self = Done self'" and fl': "flags_inv script self'"
    using run_turn_flags [OF fl] by blast
  from run' have rules: "ex_per_rule self' = (ex_per_rule self)[r := new_rule c i b (ex_per_rule self ! r)]"
    and q: "ex_queue self' = queue"
    and ev: "ex_events self' = ex_events self @
      (if \<not> rs_rule_is_met (ex_per_rule self ! r) \<and> rs_rule_is_met (ex_per_rule self' ! r)
       then trigger_statements send owner r (r_execute (sc_rules script ! r)) 0 else [])"
    unfolding run update_conditions_result [OF fl1 ix] by (auto simp: Let_def split: if_splits)
  have "rule_inv (ex_per_rule self ! r)" using fl r(2) by (simp add: flags_inv_def)
  then have "condition_inv (conditions_at self r ! c)" using r(3) by (simp add: rule_inv_def)
  with met_new_rule r(2,3) rules have "met self' = (\<lambda>r' c'. if r' = r \<and> c' = c
      then (if b then insert i (met self r c) else met self r c - {i}) else met self r' c')" by blast
  with run' q ev rule_met_iff [OF fl r(1)] rule_met_iff [OF fl' r(1)] show ?thesis by auto
qed


text \<open>One condition is enough to execute a rule: when a getter enters the range of a condition and
  no condition of the rule was met before, the statements of the rule are executed, whatever its
  other conditions are.\<close>

theorem one_condition_fires_the_rule:
  assumes "exec_reachable send owner script self" "\<not> ex_stopped self"
    and "ex_queue self = OpUpdateCondition i True r c # queue"
    and "\<forall>c < length (r_conditions (sc_rules script ! r)). met self r c = {}"
  shows "\<exists>self'. run_turn send owner script self = Done self' \<and>
    (\<forall>c' < length (r_conditions (sc_rules script ! r)). c' \<noteq> c \<longrightarrow> met self' r c' = {}) \<and>
    ex_events self' = ex_events self @ trigger_statements send owner r (r_execute (sc_rules script ! r)) 0"
proof -
  from condition_update [OF assms(1,2,3)] obtain self' where
    run: "run_turn send owner script self = Done self'"
    and m: "met self' = (\<lambda>r' c'. if r' = r \<and> c' = c then insert i (met self r c) else met self r' c')"
    and ev: "ex_events self' = ex_events self @ (if \<not> some_met self r \<and> some_met self' r
       then trigger_statements send owner r (r_execute (sc_rules script ! r)) 0 else [])" by auto
  have fl: "flags_inv script self" using assms(1) by (rule exec_reachable_flags)
  then have fl': "flags_inv script self'" using run_turn_flags [OF fl, of send owner] run by simp
  from fl assms(3) have ix: "index_ok script r c" by (simp add: flags_inv_def)
  have len: "length (conditions_at s r) = length (r_conditions (sc_rules script ! r))" if "flags_inv script s" for s
    using that ix by (auto simp: flags_inv_def shape_inv_def index_ok_def)
  have "\<not> some_met self r" using assms(4) len [OF fl] by (simp add: some_met_def)
  moreover have "some_met self' r" using ix len [OF fl'] by (auto simp: some_met_def m index_ok_def)
  ultimately show ?thesis using run m ev assms(4) by auto
qed

text \<open>Turns of the thread with no message from outside.\<close>

primrec run_turns :: "nat \<Rightarrow> api_send \<Rightarrow> User \<Rightarrow> tb_script \<Rightarrow> execution \<Rightarrow> execution outcome" where
  "run_turns 0 send owner script self = Done self"
| "run_turns (Suc n) send owner script self =
     bind_outcome (run_turn send owner script self) (run_turns n send owner script)"

fun op_cost :: "ExecutionOp \<Rightarrow> nat" where
  "op_cost (OpUpdate _ _ _) = 2"
| "op_cost _ = 1"

definition queue_cost :: "execution \<Rightarrow> nat" where
  "queue_cost self = sum_list (map op_cost (ex_queue self))"

lemma queue_cost_le: "queue_cost self \<le> 2 * length (ex_queue self)"
proof -
  have "op_cost op \<le> 2" for op by (cases op) auto
  then show ?thesis using sum_list_mono [of "ex_queue self" op_cost "\<lambda>_. 2"]
    by (simp add: queue_cost_def sum_list_triv)
qed

lemma handle_update_queue:
  assumes "handle_update ev r c self = Done self'"
  shows "queue_cost self' \<le> queue_cost self + 1"
  using assms
  by (cases ev) (auto simp: handle_update_def Let_def queue_cost_def start_rule_timer_def split: if_splits option.splits)

lemma update_conditions_queue:
  "update_conditions send owner script i b r c self = Done self' \<Longrightarrow> ex_queue self' = ex_queue self"
  by (auto simp: update_conditions_def Let_def split: if_splits prod.splits)

lemma run_turn_cost:
  assumes "run_turn send owner script self = Done self'" "\<not> ex_stopped self" "ex_queue self \<noteq> []"
  shows "queue_cost self' < queue_cost self"
proof -
  from assms(3) obtain op queue where q: "ex_queue self = op # queue" by (cases "ex_queue self") auto
  show ?thesis
  proof (cases op)
    case (OpUpdate ev r c)
    with assms q handle_update_queue [of ev r c "self\<lparr>ex_queue := queue\<rparr>" self'] show ?thesis
      by (simp add: run_turn_def handle_op_def queue_cost_def)
  next
    case (OpUpdateCondition i b r c)
    with assms q update_conditions_queue [of send owner script i b r c "self\<lparr>ex_queue := queue\<rparr>" self'] show ?thesis
      by (simp add: run_turn_def handle_op_def queue_cost_def)
  next
    case OpStop
    with assms q show ?thesis by (auto simp: run_turn_def handle_op_def queue_cost_def)
  qed
qed

lemma run_turns_rest:
  "flags_inv script self \<Longrightarrow> queue_cost self \<le> n \<Longrightarrow>
   \<exists>self'. run_turns n send owner script self = Done self' \<and> (ex_stopped self' \<or> ex_queue self' = [])"
proof (induction n arbitrary: self)
  case 0
  then have "ex_queue self = []"
    by (cases "ex_queue self"; cases "hd (ex_queue self)") (auto simp: queue_cost_def)
  then show ?case by simp
next
  case (Suc n)
  from run_turn_flags [OF Suc.prems(1)] obtain self1 where
    run: "run_turn send owner script self = Done self1" and fl: "flags_inv script self1" by blast
  show ?case
  proof (cases "ex_stopped self \<or> ex_queue self = []")
    case True
    have rest: "run_turns m send owner script self = Done self" for m
      using True by (induction m) (auto simp: run_turn_def)
    show ?thesis using rest [of "Suc n"] True by blast
  next
    case False
    then have "queue_cost self1 \<le> n" using run_turn_cost [OF run] Suc.prems(2) by simp
    from Suc.IH [OF fl this] run show ?thesis by simp
  qed
qed

text \<open>C18: With no more messages from outside, the thread of a script comes to rest: it stops or
  empties its queue in at most two turns per message, whatever the messages are.\<close>

theorem script_thread_comes_to_rest:
  assumes "exec_reachable send owner script self" "2 * length (ex_queue self) \<le> n"
  shows "\<exists>self'. run_turns n send owner script self = Done self' \<and> (ex_stopped self' \<or> ex_queue self' = [])"
  using run_turns_rest [OF exec_reachable_flags [OF assms(1)]] queue_cost_le [of self] assms(2) by simp

section \<open>Timers belong to rules\<close>

text \<open>A rule has one timer for all the getters of all its timed conditions: after a getter enters
  the range of a timed condition, another getter that enters the range of a timed condition of the
  same rule, or leaves the range of any of its conditions, cancels the timer, so that the first
  getter never counts although it stays in range.\<close>

theorem timers_belong_to_the_rule:
  assumes "exec_reachable send owner script self" "index_ok script r c" "index_ok script r c'"
    and "cs_duration (conditions_at self r ! c) = Some d"
  shows "\<exists>self1. handle_update (EnterRange i v) r c self = Done self1 \<and>
    elapse (ex_next_timer self) self1 \<noteq> None \<and>
    (\<forall>j w ev. ev = ExitRange j w \<or> ev = EnterRange j w \<and> cs_duration (conditions_at self r ! c') \<noteq> None \<longrightarrow>
      (\<exists>self2. handle_update ev r c' self1 = Done self2 \<and> elapse (ex_next_timer self) self2 = None))"
proof -
  let ?g = "ex_next_timer self"
  let ?self1 = "start_rule_timer d (OpUpdateCondition i True r c) r self
    \<lparr>ex_events := ex_events (start_rule_timer d (OpUpdateCondition i True r c) r self) @ [TimerStart r c]\<rparr>"
  have fl: "flags_inv script self" using assms(1) by (rule exec_reachable_flags)
  then have r: "r < length (ex_per_rule self)" "c < length (conditions_at self r)" "c' < length (conditions_at self r)"
    using assms(2,3) by (auto simp: flags_inv_def shape_inv_def index_ok_def)
  have run: "handle_update (EnterRange i v) r c self = Done ?self1"
    using r assms(4) by (simp add: handle_update_def Let_def)
  have ti: "timers_inv self" using assms(1) by (rule exec_reachable_timers)
  have rules: "ex_per_rule ?self1 = (ex_per_rule self)[r := (ex_per_rule self ! r)\<lparr>rs_ongoing_timer := Some ?g\<rparr>]"
    by (simp add: start_rule_timer_def Let_def put_timer_def)
  have "Some ?g \<notin> set (ongoing self)" using ti by (auto simp: timers_inv_def)
  then have old: "rs_ongoing_timer (ex_per_rule self ! r) \<noteq> Some ?g"
    using r(1) by (metis ongoing_def image_eqI nth_mem set_map)
  then have "(?g, d, OpUpdateCondition i True r c) \<in> set (ex_timers ?self1)"
    by (auto simp: start_rule_timer_def Let_def)
  moreover have dropped: "map_of (ex_timers s) ?g = None" if "\<forall>t \<in> set (ex_timers s). fst t \<noteq> ?g" for s
    using that by (auto simp: map_of_eq_None_iff)
  ultimately have live: "elapse ?g ?self1 \<noteq> None"
    by (auto simp: elapse_def map_of_eq_None_iff intro: rev_image_eqI split: option.splits)
  have "\<exists>self2. handle_update ev r c' ?self1 = Done self2 \<and> elapse ?g self2 = None"
    if ev: "ev = ExitRange j w \<or> ev = EnterRange j w \<and> cs_duration (conditions_at self r ! c') \<noteq> None" for j w ev
  proof (cases "ev = ExitRange j w")
    case True
    then show ?thesis
      using r rules by (auto simp: handle_update_def Let_def elapse_def dropped)
  next
    case False
    with ev obtain d' where "ev = EnterRange j w" "cs_duration (conditions_at self r ! c') = Some d'" by auto
    then show ?thesis
      using r rules by (auto simp: handle_update_def Let_def elapse_def start_rule_timer_def [of d'] dropped)
  qed
  with run live show ?thesis by blast
qed

section \<open>Compiled statements\<close>

lemma compiled_statement:
  assumes "compile_script source = Inr script" "rule \<in> set (sc_rules script)" "s \<in> set (r_execute rule)"
  shows "statement_ok s \<and> (\<forall>sel \<in> set (s_destination s). \<exists>sel'. sel = setter_with_kind sel' (s_kind s))"
proof -
  from assms(1) have ok: "script_ok source" and script: "script = restrict_script source"
    by (simp_all add: compile_script_Inr)
  from assms(2,3) script obtain rule' s' where "rule' \<in> set (sc_rules source)" "s' \<in> set (r_execute rule')"
    and s: "s = restrict_statement s'"
    by (auto simp: restrict_script_def restrict_rule_def)
  with ok have "statement_ok s'" by (auto simp: script_ok_def rule_ok_def list_all_iff)
  with s show ?thesis by (auto simp: restrict_statement_def statement_ok_def)
qed

lemma setter_with_kind_kind:
  "setter_matches (setter_with_kind sel k) tags c \<Longrightarrow> ch_kind c = k"
  by (simp add: setter_matches_iff setter_with_kind_def exactly_and_matches)

text \<open>C15: A statement of a compiled script never sends a value of a wrong type: in every state the
  back-end can reach, preparing the request of the statement does not panic and reports no type
  error, for whichever setters the statement selects by then.\<close>

theorem compiled_statements_are_well_typed:
  assumes "compile_script source = Inr script" "rule \<in> set (sc_rules script)" "s \<in> set (r_execute rule)"
    and "reachable sip reg st"
  shows "\<exists>req. prepare_send_values [Targetted (s_destination s) (s_value s)] st = Done req \<and>
    (\<forall>k ad rq fl. hm_get req k = Some (ad, rq, fl) \<longrightarrow> fl = [])"
proof -
  have inv: "registry_inv st" using reachable_inv [OF assms(4)] by (simp add: backend_inv_def)
  let ?t = "Targetted (s_destination s) (s_value s)"
  from prepare_send_ok [OF inv, of "[?t]"] obtain req where
    run: "prepare_send_values [?t] st = Done req" and ok: "send_ok st (targets st ?t) req" by auto
  have ty: "value_type v = setter_type st b" if "(b, v) \<in> targets st ?t" for b v
  proof -
    from that obtain sel where "v = s_value s" "sel \<in> set (s_destination s)"
      "setter_data_matches st (st_setters st ! b) sel"
      by (auto simp: targets_def list_ex_iff)
    moreover from this(2) compiled_statement [OF assms(1,2,3)] obtain sel' where
      "sel = setter_with_kind sel' (s_kind s)" "statement_ok s" by blast
    ultimately have "ch_kind (setter_at st b) = s_kind s"
      using setter_with_kind_kind unfolding setter_data_matches_def by metis
    with \<open>v = s_value s\<close> \<open>statement_ok s\<close> show ?thesis by (simp add: statement_ok_def setter_type_def)
  qed
  have "fl = []" if "hm_get req k = Some (ad, rq, fl)" for k ad rq fl
  proof -
    have "hm_get fl i \<noteq> Some e" for i e
    proof
      assume "hm_get fl i = Some e"
      with ok that obtain b v where "(b, v) \<in> targets st ?t" "value_type v \<noteq> setter_type st b"
        unfolding send_ok_def by meson
      with ty show False by blast
    qed
    then have "\<forall>i. hm_get fl i = None" by (meson not_None_eq)
    then show ?thesis by (cases fl) (auto split: if_splits)
  qed
  with run show ?thesis by blast
qed

section \<open>Witnesses\<close>

text \<open>The sample script, compiled, after the power of a lamp was found on.\<close>

definition no_send :: api_send where
  "no_send kvs owner = []"

definition lights :: tb_script where
  "lights = restrict_script sample_script"

definition lights_told :: execution where
  "lights_told = (run_init lights)\<lparr>ex_queue := [OpUpdateCondition ''power'' True 0 0]\<rparr>"

lemmas lights_defs = lights_def sample_script_def restrict_script_def restrict_rule_def
  run_init_def rule_init_def condition_init_def

lemma lights_told_reachable: "exec_reachable no_send NoUser lights lights_told"
proof -
  let ?ev = "EnterRange ''power'' (VOnOff On)"
  have "exec_step no_send NoUser lights (run_init lights) ((run_init lights)\<lparr>ex_queue := ex_queue (run_init lights) @ [OpUpdate ?ev 0 0]\<rparr>)"
    by (rule exec_step.event) (simp_all add: lights_defs)
  moreover have "run_turn no_send NoUser lights ((run_init lights)\<lparr>ex_queue := ex_queue (run_init lights) @ [OpUpdate ?ev 0 0]\<rparr>)
    = Done lights_told"
    by (simp add: run_turn_def handle_op_def handle_update_def lights_told_def lights_defs restrict_match_def)
  ultimately show ?thesis
    by (meson exec_reachable.intros exec_step.turn)
qed



theorem one_condition_fires_the_rule_witness:
  "\<exists>self'. run_turn no_send NoUser lights lights_told = Done self' \<and>
     ex_events self' = [Starting (Inr ()), Sent 0 0 []]"
proof -
  have "\<not> ex_stopped lights_told" "ex_queue lights_told = OpUpdateCondition ''power'' True 0 0 # []"
    "\<forall>c < length (r_conditions (sc_rules lights ! 0)). met lights_told 0 c = {}"
    by (simp_all add: lights_told_def lights_defs met_def)
  from one_condition_fires_the_rule [OF lights_told_reachable this] show ?thesis
    by (auto simp: lights_told_def lights_defs statement_eval_def no_send_def restrict_statement_def)
qed

theorem script_thread_comes_to_rest_witness:
  "\<exists>self'. run_turns 2 no_send NoUser lights lights_told = Done self' \<and> (ex_stopped self' \<or> ex_queue self' = [])"
  using script_thread_comes_to_rest [OF lights_told_reachable, of 2] by (simp add: lights_told_def)

definition timed :: tb_script where
  "timed = \<lparr>sc_name = ''timed'', sc_rules = [\<lparr>r_conditions =
     [\<lparr>m_source = [getter_selector_new], m_kind = KLightOn, m_range = Eq (VOnOff On), m_duration = Some 1000\<rparr>],
     r_execute = []\<rparr>]\<rparr>"

theorem timers_belong_to_the_rule_witness:
  "\<exists>self1 self2. handle_update (EnterRange ''a'' (VOnOff On)) 0 0 (run_init timed) = Done self1 \<and>
     elapse 0 self1 \<noteq> None \<and>
     handle_update (EnterRange ''b'' (VOnOff On)) 0 0 self1 = Done self2 \<and> elapse 0 self2 = None"
proof -
  have "index_ok timed 0 0" by (simp add: index_ok_def timed_def)
  moreover have "cs_duration (conditions_at (run_init timed) 0 ! 0) = Some 1000"
    by (simp add: run_init_def rule_init_def condition_init_def timed_def)
  moreover have "ex_next_timer (run_init timed) = 0" by (simp add: run_init_def)
  ultimately show ?thesis
    using timers_belong_to_the_rule [OF exec_reachable.init [of no_send NoUser timed], of 0 0 0 1000 "''a''" "VOnOff On"]
    by (metis option.distinct(1))
qed

theorem compiled_statements_are_well_typed_witness:
  "\<exists>req. prepare_send_values [Targetted [setter_with_kind setter_selector_new KLightOn] (VOnOff On)] home = Done req \<and>
     (\<forall>k ad rq fl. hm_get req k = Some (ad, rq, fl) \<longrightarrow> fl = [])"
proof -
  have "compile_script sample_script = Inr lights"
    by (simp add: compile_script_Inr lights_def script_ok_def rule_ok_def match_ok_def statement_ok_def sample_script_def)
  moreover have "restrict_rule (sc_rules sample_script ! 0) \<in> set (sc_rules lights)"
    by (simp add: lights_defs)
  moreover have "restrict_statement \<lparr>s_destination = [setter_selector_new], s_value = VOnOff On, s_kind = KLightOn\<rparr>
      \<in> set (r_execute (restrict_rule (sc_rules sample_script ! 0)))"
    by (simp add: lights_defs)
  ultimately show ?thesis
    using compiled_statements_are_well_typed [OF _ _ _ home_reachable [of no_hash no_watch]]
    by (fastforce simp: restrict_statement_def)
qed

end
