(* ===== verification/TB_Manager.thy ===== *)
theory TB_Manager
  imports TB_Run
begin

text \<open>
  \<^verbatim>\<open>components/thinkerbell/src/manager.rs\<close>, with the handle of an execution of \<^verbatim>\<open>run.rs\<close>: the scripts
  stored in an SQLite file and the ones that run. The file is a table of rows and the outcomes of
  the next calls to the engine (see \<open>Tag_Storage\<close>); a connection is opened by every operation. A
  thread is the script it runs and its owner (its behaviour is the one of \<open>TB_Run\<close>), or nothing once
  it has died. The reader of JSON text is the parameter \<open>read\<close>.
\<close>

section \<open>Execution\<close>

record tb_runner =
  rn_sender :: bool
  rn_thread :: "(tb_script \<times> User) option"

definition execution_new :: tb_runner where
  "execution_new = \<lparr>rn_sender = False, rn_thread = None\<rparr>"

text \<open>The result and the event it reports.\<close>

definition execution_start :: "tb_script \<Rightarrow> User \<Rightarrow> tb_runner \<Rightarrow> (RunError + unit) \<times> ExecutionEvent \<times> tb_runner" where
  "execution_start script owner self =
     (if rn_sender self then
        (let err = Inl (RunStartStopError AlreadyRunning) in (err, Starting err, self))
      else
        case compile_script script of
          Inl er \<Rightarrow>
            (Inl (RunCompileError er), Starting (Inl (RunCompileError er)), self\<lparr>rn_sender := True\<rparr>)
        | Inr script \<Rightarrow>
            (Inr (), Starting (Inr ()), self\<lparr>rn_sender := True, rn_thread := Some (script, owner)\<rparr>))"

text \<open>What the callback is called with, if it is: a dead thread drops the message that holds it.\<close>

definition execution_stop :: "tb_runner \<Rightarrow> (RunError + unit) option \<times> tb_runner" where
  "execution_stop self =
     (if \<not> rn_sender self then (Some (Inl (RunStartStopError NotRunning)), self)
      else (if rn_thread self = None then None else Some (Inr ()), \<lparr>rn_sender = False, rn_thread = None\<rparr>))"

section \<open>The database\<close>

datatype TBError = NoSuchScriptError | SQLError string | TBRunError RunError | TBParseError ParseError

type_synonym ScriptId = string

type_synonym script_row = "ScriptId \<times> string \<times> bool \<times> int" \<comment> \<open>id, source, is_enabled, owner\<close>

record script_manager =
  sm_rows :: "script_row list"
  sm_outcomes :: "string option list"
  sm_runners :: "(ScriptId, tb_runner) hashmap"
  sm_events :: "(ScriptId \<times> ExecutionEvent) list"

type_synonym 'a tb = "script_manager \<Rightarrow> (TBError + 'a) \<times> script_manager"

definition tb_ret :: "'a \<Rightarrow> 'a tb" where
  "tb_ret x self = (Inr x, self)"

definition tb_try :: "'a tb \<Rightarrow> ('a \<Rightarrow> 'b tb) \<Rightarrow> 'b tb" where
  "tb_try m k self = (case m self of (Inl err, self) \<Rightarrow> (Inl err, self) | (Inr x, self) \<Rightarrow> k x self)"

text \<open>One call to the engine.\<close>

definition sql_call :: "unit tb" where
  "sql_call self =
     (case sm_outcomes self of
        [] \<Rightarrow> (Inr (), self)
      | None # rest \<Rightarrow> (Inr (), self\<lparr>sm_outcomes := rest\<rparr>)
      | Some err # rest \<Rightarrow> (Inl (SQLError err), self\<lparr>sm_outcomes := rest\<rparr>))"

text \<open>Opening a connection and executing a statement on it.\<close>

definition sql_execute :: "(script_row list \<Rightarrow> script_row list) \<Rightarrow> unit tb" where
  "sql_execute stmt =
     tb_try sql_call (\<lambda>_. tb_try sql_call (\<lambda>_ self. (Inr (), self\<lparr>sm_rows := stmt (sm_rows self)\<rparr>)))"

definition sql_insert_or_replace :: "script_row \<Rightarrow> script_row list \<Rightarrow> script_row list" where
  "sql_insert_or_replace row rows = filter (\<lambda>r. fst r \<noteq> fst row) rows @ [row]"

definition sql_set_enabled :: "ScriptId \<Rightarrow> bool \<Rightarrow> script_row list \<Rightarrow> script_row list" where
  "sql_set_enabled i enabled rows =
     map (\<lambda>(i', source, e, owner). (i', source, if i' = i then enabled else e, owner)) rows"

definition owner_value :: "User \<Rightarrow> int" where
  "owner_value owner = (case owner of UserId i \<Rightarrow> i | NoUser \<Rightarrow> -1)"

definition owner_of_value :: "int \<Rightarrow> User" where
  "owner_of_value v = (if v = -1 then NoUser else UserId v)"

section \<open>ScriptManager\<close>

definition tb_manager_new :: "script_row list \<Rightarrow> string option list \<Rightarrow> (TBError + unit) \<times> script_manager" where
  "tb_manager_new rows outcomes =
     sql_execute (\<lambda>rows. rows) \<lparr>sm_rows = rows, sm_outcomes = outcomes, sm_runners = [], sm_events = []\<rparr>"

text \<open>Starting a script stops the one that runs under its id.\<close>

definition start_script ::
    "externals \<Rightarrow> (string \<Rightarrow> string + JSON) \<Rightarrow> ScriptId \<Rightarrow> string \<Rightarrow> User \<Rightarrow> unit tb" where
  "start_script X read i source owner self =
     (let self = (case hm_get (sm_runners self) i of
                    None \<Rightarrow> self
                  | Some runner \<Rightarrow> self\<lparr>sm_runners := hm_remove i (sm_runners self)\<rparr>)
      in case from_str_at read (parse_script X) ''recipe'' source of
           Inl err \<Rightarrow> (Inl (TBParseError err), self)
         | Inr script \<Rightarrow>
             (case execution_start script owner execution_new of
                (result, event, runner) \<Rightarrow>
                  (let self = self\<lparr>sm_events := sm_events self @ [(i, event)]\<rparr>
                   in case result of
                        Inl err \<Rightarrow> (Inl (TBRunError err), self)
                      | Inr _ \<Rightarrow> (Inr (), self\<lparr>sm_runners := hm_insert i runner (sm_runners self)\<rparr>))))"

text \<open>The rows are stepped through one by one; each step may fail.\<close>

fun load_rows ::
    "externals \<Rightarrow> (string \<Rightarrow> string + JSON) \<Rightarrow> script_row list \<Rightarrow> (ScriptId, TBError + unit) hashmap \<Rightarrow>
     (ScriptId, TBError + unit) hashmap tb" where
  "load_rows X read [] result_map = tb_ret result_map"
| "load_rows X read ((i, source, is_enabled, owner) # rows) result_map =
     tb_try sql_call (\<lambda>_.
       if is_enabled then
         (\<lambda>self. case start_script X read i source (owner_of_value owner) self of
            (result, self) \<Rightarrow> load_rows X read rows (hm_insert i result result_map) self)
       else load_rows X read rows (hm_insert i (Inr ()) result_map))"

definition tb_load ::
    "externals \<Rightarrow> (string \<Rightarrow> string + JSON) \<Rightarrow> (ScriptId, TBError + unit) hashmap tb" where
  "tb_load X read =
     tb_try sql_call (\<lambda>_. tb_try sql_call (\<lambda>_. tb_try sql_call (\<lambda>_ self.
       load_rows X read (sm_rows self) [] self)))"

definition tb_put :: "externals \<Rightarrow> (string \<Rightarrow> string + JSON) \<Rightarrow> ScriptId \<Rightarrow> string \<Rightarrow> User \<Rightarrow> unit tb" where
  "tb_put X read i source owner =
     tb_try (start_script X read i source owner) (\<lambda>_.
       sql_execute (sql_insert_or_replace (i, source, True, owner_value owner)))"

definition get_source_and_owner :: "ScriptId \<Rightarrow> (string \<times> User) tb" where
  "get_source_and_owner i =
     tb_try sql_call (\<lambda>_. tb_try sql_call (\<lambda>_. tb_try sql_call (\<lambda>_ self.
       case map_of (sm_rows self) i of
         None \<Rightarrow> (Inl NoSuchScriptError, self)
       | Some (source, _, owner) \<Rightarrow>
           tb_try sql_call (\<lambda>_. tb_ret (source, owner_of_value owner)) self)))"

definition set_enabled ::
    "externals \<Rightarrow> (string \<Rightarrow> string + JSON) \<Rightarrow> ScriptId \<Rightarrow> bool \<Rightarrow> unit tb" where
  "set_enabled X read i enabled =
     tb_try (get_source_and_owner i) (\<lambda>(source, owner) self.
       case (enabled, hm_get (sm_runners self) i) of
         (False, Some runner) \<Rightarrow>
           (let self = self\<lparr>sm_runners := hm_remove i (sm_runners self)\<rparr>
            in case fst (execution_stop runner) of
                 None \<Rightarrow> (Inl (TBRunError (RunStartStopError ThreadError)), self)
               | Some _ \<Rightarrow> sql_execute (sql_set_enabled i False) self)
       | (True, None) \<Rightarrow>
           tb_try (start_script X read i source owner) (\<lambda>_. sql_execute (sql_set_enabled i True)) self
       | _ \<Rightarrow> (Inr (), self))"

definition tb_remove :: "externals \<Rightarrow> (string \<Rightarrow> string + JSON) \<Rightarrow> ScriptId \<Rightarrow> unit tb" where
  "tb_remove X read i =
     tb_try (set_enabled X read i False) (\<lambda>_. sql_execute (filter (\<lambda>r. fst r \<noteq> i)))"

fun remove_keys ::
    "externals \<Rightarrow> (string \<Rightarrow> string + JSON) \<Rightarrow> ScriptId list \<Rightarrow> script_manager \<Rightarrow> TBError list \<times> script_manager" where
  "remove_keys X read [] self = ([], self)"
| "remove_keys X read (i # keys) self =
     (case tb_remove X read i self of
        (result, self) \<Rightarrow>
          (case remove_keys X read keys self of
             (errors, self) \<Rightarrow> (case result of Inl err \<Rightarrow> err # errors | Inr _ \<Rightarrow> errors, self)))"

definition tb_remove_all :: "externals \<Rightarrow> (string \<Rightarrow> string + JSON) \<Rightarrow> TBError list tb" where
  "tb_remove_all X read self =
     (case remove_keys X read (hm_keys (sm_runners self)) self of
        (errors, self) \<Rightarrow> tb_try (sql_execute (\<lambda>_. [])) (\<lambda>_. tb_ret errors) self)"

definition get_running_count :: "script_manager \<Rightarrow> nat" where
  "get_running_count self = length (sm_runners self)"

definition tb_is_enabled :: "script_manager \<Rightarrow> ScriptId \<Rightarrow> bool" where
  "tb_is_enabled self i = hm_has (sm_runners self) i"

end
