(* ===== verification/TB_Manager_Props.thy ===== *)
theory TB_Manager_Props
  imports TB_Manager
begin

text \<open>
  The script manager against its abstract state: the table of the stored scripts, a map from an id
  to a source, a flag and an owner, and the map of the running ones. While the database answers,
  every operation is the expected update of the two maps, and what runs is what is stored and
  enabled; when the database fails the two come apart, which the last section shows.
\<close>

section \<open>Abstract state\<close>

definition stored :: "script_manager \<Rightarrow> ScriptId \<Rightarrow> (string \<times> bool \<times> int) option" where
  "stored self = map_of (sm_rows self)"

definition running :: "script_manager \<Rightarrow> ScriptId \<Rightarrow> tb_runner option" where
  "running self = hm_get (sm_runners self)"

definition launch :: "externals \<Rightarrow> (string \<Rightarrow> string + JSON) \<Rightarrow> string \<Rightarrow> TBError + tb_script" where
  "launch X read source =
     (case from_str_at read (parse_script X) ''recipe'' source of
        Inl err \<Rightarrow> Inl (TBParseError err)
      | Inr script \<Rightarrow>
          (case compile_script script of
             Inl er \<Rightarrow> Inl (TBRunError (RunCompileError er))
           | Inr script \<Rightarrow> Inr script))"

definition runs :: "tb_script \<Rightarrow> User \<Rightarrow> tb_runner" where
  "runs script owner = \<lparr>rn_sender = True, rn_thread = Some (script, owner)\<rparr>"

definition db_ok :: "script_manager \<Rightarrow> bool" where
  "db_ok self \<longleftrightarrow> sm_outcomes self = [] \<and> hm_ok (sm_runners self)"

lemma sql_call_ok [simp]: "sm_outcomes self = [] \<Longrightarrow> sql_call self = (Inr (), self)"
  by (simp add: sql_call_def)

lemma sql_execute_ok [simp]:
  "sm_outcomes self = [] \<Longrightarrow> sql_execute stmt self = (Inr (), self\<lparr>sm_rows := stmt (sm_rows self)\<rparr>)"
  by (simp add: sql_execute_def tb_try_def)

lemma stored_insert: "map_of (sql_insert_or_replace (i, v) rows) = (map_of rows)(i \<mapsto> v)"
proof -
  have "map_of (filter (\<lambda>r. fst r \<noteq> i) rows) = (map_of rows)(i := None)"
    by (induction rows) auto
  then show ?thesis by (simp add: sql_insert_or_replace_def map_add_def fun_eq_iff split: option.split)
qed

lemma stored_delete: "map_of (filter (\<lambda>r. fst r \<noteq> i) rows) = (map_of rows)(i := None)"
  by (induction rows) auto

lemma stored_set_enabled:
  "map_of (sql_set_enabled i e rows) =
     (case map_of rows i of None \<Rightarrow> map_of rows | Some (s, _, ow) \<Rightarrow> (map_of rows)(i \<mapsto> (s, e, ow)))"
proof -
  have "map_of (sql_set_enabled i e rows) k =
     (if k = i then map_option (\<lambda>(s, _, ow). (s, e, ow)) (map_of rows i) else map_of rows k)" for k
    by (induction rows) (auto simp: sql_set_enabled_def)
  then show ?thesis by (auto simp: fun_eq_iff split: option.splits)
qed

text \<open>Starting a script.\<close>

lemma start_script_result:
  assumes "db_ok self"
  shows "\<exists>self'. start_script X read i source owner self =
      (case launch X read source of Inl e \<Rightarrow> Inl e | Inr _ \<Rightarrow> Inr (), self') \<and>
    db_ok self' \<and> sm_rows self' = sm_rows self \<and>
    running self' = (running self)(i := case launch X read source of Inl _ \<Rightarrow> None | Inr s \<Rightarrow> Some (runs s owner))"
  using assms
  by (auto simp: start_script_def launch_def Let_def db_ok_def running_def runs_def execution_start_def
      execution_new_def fun_eq_iff split: option.splits sum.splits)

lemma get_source_and_owner_result:
  assumes "db_ok self"
  shows "get_source_and_owner i self =
    (case stored self i of None \<Rightarrow> Inl NoSuchScriptError | Some (s, _, ow) \<Rightarrow> Inr (s, owner_of_value ow), self)"
  using assms
  by (auto simp: get_source_and_owner_def db_ok_def stored_def tb_try_def tb_ret_def split: option.splits)

lemma tb_put_result:
  assumes "db_ok self"
  shows "\<exists>self'. tb_put X read i source owner self =
      (case launch X read source of Inl e \<Rightarrow> Inl e | Inr _ \<Rightarrow> Inr (), self') \<and> db_ok self' \<and>
    stored self' = (case launch X read source of Inl _ \<Rightarrow> stored self
       | Inr _ \<Rightarrow> (stored self)(i \<mapsto> (source, True, owner_value owner))) \<and>
    running self' = (running self)(i := case launch X read source of Inl _ \<Rightarrow> None | Inr s \<Rightarrow> Some (runs s owner))"
proof -
  from start_script_result [OF assms, of X read i source owner] show ?thesis
    by (auto simp: tb_put_def tb_try_def db_ok_def stored_def running_def stored_insert split: sum.splits)
qed

text \<open>What enabling and disabling do.\<close>

definition stop_error :: "TBError" where
  "stop_error = TBRunError (RunStartStopError ThreadError)"

definition enabled_state :: "bool \<Rightarrow> string \<times> bool \<times> int \<Rightarrow> string \<times> bool \<times> int" where
  "enabled_state e = (\<lambda>(s, _, ow). (s, e, ow))"

lemma set_enabled_result:
  assumes ok: "db_ok self"
  shows "\<exists>r self'. set_enabled X read i enabled self = (r, self') \<and> db_ok self' \<and>
    (case stored self i of
       None \<Rightarrow> r = Inl NoSuchScriptError \<and> self' = self
     | Some row \<Rightarrow>
         (case (enabled, running self i) of
            (False, Some runner) \<Rightarrow>
              (if rn_sender runner \<and> rn_thread runner = None
               then r = Inl stop_error \<and> stored self' = stored self
               else r = Inr () \<and> stored self' = (stored self)(i \<mapsto> enabled_state False row)) \<and>
              running self' = (running self)(i := None)
          | (True, None) \<Rightarrow>
              (case launch X read (fst row) of
                 Inl e \<Rightarrow> r = Inl e \<and> stored self' = stored self \<and> running self' = running self
               | Inr s \<Rightarrow> r = Inr () \<and> stored self' = (stored self)(i \<mapsto> enabled_state True row) \<and>
                   running self' = (running self)(i \<mapsto> runs s (owner_of_value (snd (snd row)))))
          | _ \<Rightarrow> r = Inr () \<and> self' = self))"
proof (cases "stored self i")
  case None
  then show ?thesis
    using ok get_source_and_owner_result [OF ok, of i] by (simp add: set_enabled_def tb_try_def)
next
  case (Some row)
  obtain s e ow where row: "row = (s, e, ow)" by (cases row)
  have get: "get_source_and_owner i self = (Inr (s, owner_of_value ow), self)"
    using Some row get_source_and_owner_result [OF ok, of i] by simp
  have set: "stored (self'\<lparr>sm_rows := sql_set_enabled i b (sm_rows self')\<rparr>) = (stored self)(i \<mapsto> (s, b, ow))"
    if "sm_rows self' = sm_rows self" for self' b
    using that Some row by (simp add: stored_def stored_set_enabled)
  show ?thesis
  proof (cases "running self i")
    case stopped: None
    show ?thesis
    proof (cases enabled)
      case True
      from start_script_result [OF ok, of X read i s "owner_of_value ow"] obtain self1 where
        st: "start_script X read i s (owner_of_value ow) self =
          (case launch X read s of Inl e \<Rightarrow> Inl e | Inr _ \<Rightarrow> Inr (), self1)" "db_ok self1"
        "sm_rows self1 = sm_rows self"
        "running self1 = (running self)(i := case launch X read s of Inl _ \<Rightarrow> None | Inr sc \<Rightarrow> Some (runs sc (owner_of_value ow)))"
        by blast
      have same: "(running self)(i := None) = running self" using stopped by (simp add: fun_upd_idem)
      show ?thesis
        using st True stopped get set [OF st(3)] Some row same
        by (cases "launch X read s")
          (auto simp: set_enabled_def tb_try_def running_def [symmetric] db_ok_def enabled_state_def stored_def
            simp: running_def [of "self1\<lparr>sm_rows := _\<rparr>"])
    next
      case False
      then show ?thesis
        using stopped get ok Some by (simp add: set_enabled_def tb_try_def running_def)
    qed
  next
    case (Some runner)
    show ?thesis
    proof (cases enabled)
      case True
      then show ?thesis
        using Some \<open>stored self i = Some row\<close> get ok by (simp add: set_enabled_def tb_try_def running_def)
    next
      case False
      let ?self = "self\<lparr>sm_runners := hm_remove i (sm_runners self)\<rparr>"
      have "db_ok ?self" "running ?self = (running self)(i := None)"
        using ok by (auto simp: db_ok_def running_def)
      then show ?thesis
        using False Some \<open>stored self i = Some row\<close> get set [of ?self False] row
        by (auto simp: set_enabled_def tb_try_def running_def execution_stop_def db_ok_def stop_error_def stored_def
            enabled_state_def)
    qed
  qed
qed

lemma tb_remove_result:
  assumes ok: "db_ok self"
  shows "\<exists>r self'. tb_remove X read i self = (r, self') \<and> db_ok self' \<and>
    (case stored self i of
       None \<Rightarrow> r = Inl NoSuchScriptError \<and> self' = self
     | Some row \<Rightarrow>
         running self' = (running self)(i := None) \<and>
         (if \<exists>runner. running self i = Some runner \<and> rn_sender runner \<and> rn_thread runner = None
          then r = Inl stop_error \<and> stored self' = stored self
          else r = Inr () \<and> stored self' = (stored self)(i := None)))"
proof -
  obtain r self1 where run: "set_enabled X read i False self = (r, self1)" by fastforce
  note res = set_enabled_result [OF ok, of X read i False, unfolded run]
  then have ok1: "db_ok self1" by auto
  have del: "sql_execute (filter (\<lambda>r. fst r \<noteq> i)) self1 =
      (Inr (), self1\<lparr>sm_rows := filter (\<lambda>r. fst r \<noteq> i) (sm_rows self1)\<rparr>)"
    using ok1 by (simp add: db_ok_def)
  have st: "stored (self1\<lparr>sm_rows := filter (\<lambda>r. fst r \<noteq> i) (sm_rows self1)\<rparr>) = (stored self1)(i := None)"
    "running (self1\<lparr>sm_rows := filter (\<lambda>r. fst r \<noteq> i) (sm_rows self1)\<rparr>) = running self1"
    "db_ok (self1\<lparr>sm_rows := filter (\<lambda>r. fst r \<noteq> i) (sm_rows self1)\<rparr>)"
    using ok1 by (simp_all add: stored_def stored_delete running_def db_ok_def)
  show ?thesis
  proof (cases "stored self i")
    case None
    with res run ok1 show ?thesis by (simp add: tb_remove_def tb_try_def)
  next
    case (Some row)
    show ?thesis
    proof (cases "running self i")
      case None
      with Some res run del st show ?thesis by (simp add: tb_remove_def tb_try_def fun_upd_idem)
    next
      case running: (Some runner)
      with Some res run ok1 del st show ?thesis
        by (cases "rn_sender runner \<and> rn_thread runner = None") (simp_all add: tb_remove_def tb_try_def fun_upd_idem)
    qed
  qed
qed

section \<open>The specification\<close>

type_synonym scripts = "(ScriptId \<Rightarrow> (string \<times> bool \<times> int) option) \<times> (ScriptId \<Rightarrow> tb_runner option)"

definition scripts_of :: "script_manager \<Rightarrow> scripts" where
  "scripts_of self = (stored self, running self)"

definition spec_put ::
    "(string \<Rightarrow> TBError + tb_script) \<Rightarrow> ScriptId \<Rightarrow> string \<Rightarrow> User \<Rightarrow> scripts \<Rightarrow> (TBError + unit) \<times> scripts" where
  "spec_put compiled i source owner = (\<lambda>(st, rn).
     case compiled source of
       Inl e \<Rightarrow> (Inl e, st, rn(i := None))
     | Inr s \<Rightarrow> (Inr (), st(i \<mapsto> (source, True, owner_value owner)), rn(i \<mapsto> runs s owner)))"

definition spec_disable :: "ScriptId \<Rightarrow> (string \<times> bool \<times> int) option \<Rightarrow> scripts \<Rightarrow> (TBError + unit) \<times> scripts" where
  "spec_disable i row' = (\<lambda>(st, rn).
     if \<exists>runner. rn i = Some runner \<and> rn_sender runner \<and> rn_thread runner = None
     then (Inl stop_error, st, rn(i := None))
     else (Inr (), st(i := row'), rn(i := None)))"

definition spec_set_enabled ::
    "(string \<Rightarrow> TBError + tb_script) \<Rightarrow> ScriptId \<Rightarrow> bool \<Rightarrow> scripts \<Rightarrow> (TBError + unit) \<times> scripts" where
  "spec_set_enabled compiled i enabled = (\<lambda>(st, rn).
     case st i of
       None \<Rightarrow> (Inl NoSuchScriptError, st, rn)
     | Some (source, e, ow) \<Rightarrow>
         if enabled = (rn i \<noteq> None) then (Inr (), st, rn)
         else if \<not> enabled then spec_disable i (Some (source, False, ow)) (st, rn)
         else (case compiled source of
                 Inl e \<Rightarrow> (Inl e, st, rn)
               | Inr s \<Rightarrow> (Inr (), st(i \<mapsto> (source, True, ow)), rn(i \<mapsto> runs s (owner_of_value ow)))))"

definition spec_remove :: "ScriptId \<Rightarrow> scripts \<Rightarrow> (TBError + unit) \<times> scripts" where
  "spec_remove i = (\<lambda>(st, rn).
     if st i = None then (Inl NoSuchScriptError, st, rn) else spec_disable i None (st, rn))"

text \<open>Every operation implements its specification, and needs nothing but a database that answers.\<close>

definition implements :: "'a tb \<Rightarrow> (scripts \<Rightarrow> (TBError + 'a) \<times> scripts) \<Rightarrow> bool" where
  "implements m spec \<longleftrightarrow> (\<forall>self. db_ok self \<longrightarrow> db_ok (snd (m self)) \<and> map_prod id scripts_of (m self) = spec (scripts_of self))"

lemma put_implements: "implements (tb_put X read i source owner) (spec_put (launch X read) i source owner)"
  unfolding implements_def
proof (intro allI impI)
  fix self
  assume "db_ok self"
  from tb_put_result [OF this, of X read i source owner]
  show "db_ok (snd (tb_put X read i source owner self)) \<and>
    map_prod id scripts_of (tb_put X read i source owner self) = spec_put (launch X read) i source owner (scripts_of self)"
    by (auto simp: spec_put_def scripts_of_def split: sum.splits)
qed

lemma set_enabled_implements:
  "implements (set_enabled X read i enabled) (spec_set_enabled (launch X read) i enabled)"
  unfolding implements_def
proof (intro allI impI)
  fix self
  assume "db_ok self"
  note res = set_enabled_result [OF this, of X read i enabled]
  then have "db_ok (snd (set_enabled X read i enabled self))" by (elim exE conjE) simp
  moreover from res have "map_prod id scripts_of (set_enabled X read i enabled self) =
      spec_set_enabled (launch X read) i enabled (scripts_of self)"
    by (cases enabled; cases "stored self i"; cases "running self i")
      (auto simp: spec_set_enabled_def spec_disable_def scripts_of_def enabled_state_def split: sum.splits)
  ultimately show "db_ok (snd (set_enabled X read i enabled self)) \<and>
    map_prod id scripts_of (set_enabled X read i enabled self) =
      spec_set_enabled (launch X read) i enabled (scripts_of self)" ..
qed

lemma remove_implements: "implements (tb_remove X read i) (spec_remove i)"
  unfolding implements_def
proof (intro allI impI)
  fix self
  assume "db_ok self"
  from tb_remove_result [OF this, of X read i]
  show "db_ok (snd (tb_remove X read i self)) \<and>
    map_prod id scripts_of (tb_remove X read i self) = spec_remove i (scripts_of self)"
    by (cases "stored self i") (auto simp: spec_remove_def spec_disable_def scripts_of_def)
qed

lemma implementsD:
  assumes "implements m spec" "db_ok self" "m self = (r, self')"
  shows "db_ok self'" "spec (scripts_of self) = (r, scripts_of self')"
  using assms by (auto simp: implements_def dest!: spec [of _ self])

text \<open>C13: While the database answers, the script manager implements a table of stored scripts beside
  a table of running ones: putting a script replaces the stored and the running one when the source
  parses and compiles, and only stops the running one otherwise; enabling starts a stored script
  with its stored owner, disabling stops it, and removing stops and forgets it, unless its thread
  has died, which is reported once.\<close>

theorem script_manager_refines_tables:
  assumes "db_ok self"
  shows "map_prod id scripts_of (tb_put X read i source owner self) =
      spec_put (launch X read) i source owner (scripts_of self) \<and>
    map_prod id scripts_of (set_enabled X read i enabled self) =
      spec_set_enabled (launch X read) i enabled (scripts_of self) \<and>
    map_prod id scripts_of (tb_remove X read i self) = spec_remove i (scripts_of self)"
  using assms put_implements set_enabled_implements remove_implements unfolding implements_def by blast

section \<open>What runs is what is stored\<close>

definition in_sync :: "externals \<Rightarrow> (string \<Rightarrow> string + JSON) \<Rightarrow> script_manager \<Rightarrow> bool" where
  "in_sync X read self \<longleftrightarrow> distinct (map fst (sm_rows self)) \<and>
     (\<forall>i runner. running self i = Some runner \<longrightarrow> rn_sender runner \<and>
        (\<exists>source ow. stored self i = Some (source, True, ow) \<and>
          (\<forall>s owner. rn_thread runner = Some (s, owner) \<longrightarrow> launch X read source = Inr s \<and> owner_value owner = ow)))"

text \<open>A thread that dies.\<close>

definition thread_dies :: "ScriptId \<Rightarrow> script_manager \<Rightarrow> script_manager" where
  "thread_dies i self =
     (case hm_get (sm_runners self) i of
        None \<Rightarrow> self
      | Some runner \<Rightarrow> self\<lparr>sm_runners := hm_insert i (runner\<lparr>rn_thread := None\<rparr>) (sm_runners self)\<rparr>)"

inductive sm_reachable :: "externals \<Rightarrow> (string \<Rightarrow> string + JSON) \<Rightarrow> script_manager \<Rightarrow> bool"
  for X :: externals and read :: "string \<Rightarrow> string + JSON" where
  init: "distinct (map fst rows) \<Longrightarrow> sm_reachable X read (snd (tb_manager_new rows []))"
| load: "sm_reachable X read self \<Longrightarrow> sm_reachable X read (snd (tb_load X read self))"
| put: "sm_reachable X read self \<Longrightarrow> sm_reachable X read (snd (tb_put X read i source owner self))"
| set_enabled: "sm_reachable X read self \<Longrightarrow> sm_reachable X read (snd (set_enabled X read i enabled self))"
| remove: "sm_reachable X read self \<Longrightarrow> sm_reachable X read (snd (tb_remove X read i self))"
| remove_all: "sm_reachable X read self \<Longrightarrow> sm_reachable X read (snd (tb_remove_all X read self))"
| dies: "sm_reachable X read self \<Longrightarrow> sm_reachable X read (thread_dies i self)"

lemma distinct_rows:
  assumes "distinct (map fst rows)"
  shows "distinct (map fst (sql_insert_or_replace row rows))" "distinct (map fst (sql_set_enabled i e rows))"
    "distinct (map fst (filter P rows))"
proof -
  have "map fst (sql_set_enabled i e rows) = map fst rows" by (induction rows) (auto simp: sql_set_enabled_def)
  with assms show "distinct (map fst (sql_insert_or_replace row rows))" "distinct (map fst (sql_set_enabled i e rows))"
    "distinct (map fst (filter P rows))"
    by (auto simp: sql_insert_or_replace_def distinct_map_filter)
qed

text \<open>The rows stay distinct whatever happens.\<close>

definition keeps_distinct :: "'a tb \<Rightarrow> bool" where
  "keeps_distinct m \<longleftrightarrow> (\<forall>self. distinct (map fst (sm_rows self)) \<longrightarrow> distinct (map fst (sm_rows (snd (m self)))))"

lemma keeps_distinctD:
  "keeps_distinct m \<Longrightarrow> m self = (r, self') \<Longrightarrow> distinct (map fst (sm_rows self)) \<Longrightarrow> distinct (map fst (sm_rows self'))"
  by (metis keeps_distinct_def snd_conv)

lemma keeps_distinct_sql_call [intro]: "keeps_distinct sql_call"
  by (auto simp: keeps_distinct_def sql_call_def split: list.splits option.splits)

lemma keeps_distinct_try [intro]:
  "keeps_distinct m \<Longrightarrow> (\<And>x. keeps_distinct (k x)) \<Longrightarrow> keeps_distinct (tb_try m k)"
  unfolding keeps_distinct_def tb_try_def by (auto split: prod.split sum.split)

lemma keeps_distinct_execute [intro]:
  "(\<And>rows. distinct (map fst rows) \<Longrightarrow> distinct (map fst (stmt rows))) \<Longrightarrow> keeps_distinct (sql_execute stmt)"
  unfolding sql_execute_def by (intro keeps_distinct_try keeps_distinct_sql_call) (simp add: keeps_distinct_def)

lemma keeps_distinct_start [intro]: "keeps_distinct (start_script X read i source owner)"
  by (auto simp: keeps_distinct_def start_script_def Let_def split: option.splits sum.splits prod.splits)

lemma keeps_distinct_get [intro]: "keeps_distinct (get_source_and_owner i)"
  unfolding get_source_and_owner_def
  by (intro keeps_distinct_try keeps_distinct_sql_call)
    (auto simp: keeps_distinct_def tb_try_def tb_ret_def sql_call_def split: option.splits list.splits)

lemma keeps_distinct_put [intro]: "keeps_distinct (tb_put X read i source owner)"
  unfolding tb_put_def by (intro keeps_distinct_try keeps_distinct_start keeps_distinct_execute distinct_rows)

lemma keeps_distinct_set_enabled [intro]: "keeps_distinct (set_enabled X read i enabled)"
proof -
  have "keeps_distinct (tb_try (start_script X read i source owner) (\<lambda>_. sql_execute (sql_set_enabled i True)))"
    "keeps_distinct (sql_execute (sql_set_enabled i e))" for source owner e
    by (intro keeps_distinct_try keeps_distinct_start keeps_distinct_execute distinct_rows; assumption)+
  then have "keeps_distinct (\<lambda>self. case (enabled, hm_get (sm_runners self) i) of
         (False, Some runner) \<Rightarrow>
           (let self = self\<lparr>sm_runners := hm_remove i (sm_runners self)\<rparr>
            in case fst (execution_stop runner) of
                 None \<Rightarrow> (Inl (TBRunError (RunStartStopError ThreadError)), self)
               | Some _ \<Rightarrow> sql_execute (sql_set_enabled i False) self)
       | (True, None) \<Rightarrow>
           tb_try (start_script X read i source owner) (\<lambda>_. sql_execute (sql_set_enabled i True)) self
       | _ \<Rightarrow> (Inr (), self))" for source owner
    by (cases enabled) (auto simp: keeps_distinct_def Let_def split: option.split)
  then show ?thesis
    unfolding set_enabled_def by (intro keeps_distinct_try keeps_distinct_get) (auto simp: split_beta)
qed

lemma keeps_distinct_remove [intro]: "keeps_distinct (tb_remove X read i)"
  unfolding tb_remove_def by (intro keeps_distinct_try keeps_distinct_set_enabled keeps_distinct_execute distinct_rows)

text \<open>What runs, as a property of the two tables.\<close>

definition synced :: "externals \<Rightarrow> (string \<Rightarrow> string + JSON) \<Rightarrow> scripts \<Rightarrow> bool" where
  "synced X read = (\<lambda>(st, rn). \<forall>i runner. rn i = Some runner \<longrightarrow> rn_sender runner \<and>
     (\<exists>source ow. st i = Some (source, True, ow) \<and>
       (\<forall>s owner. rn_thread runner = Some (s, owner) \<longrightarrow> launch X read source = Inr s \<and> owner_value owner = ow)))"

lemma in_sync_iff:
  "in_sync X read self \<longleftrightarrow> distinct (map fst (sm_rows self)) \<and> synced X read (scripts_of self)"
  by (simp add: in_sync_def synced_def scripts_of_def)

lemma owner_of_value_value [simp]: "owner_value (owner_of_value ow) = ow"
  by (simp add: owner_value_def owner_of_value_def)

lemma synced_runs:
  assumes "synced X read (st, rn)" "launch X read source = Inr s" "st' i = Some (source, True, owner_value owner)"
    and "\<And>k. k \<noteq> i \<Longrightarrow> st' k = st k"
  shows "synced X read (st', rn(i \<mapsto> runs s owner))"
  using assms by (auto simp: synced_def runs_def)

lemma synced_stopped:
  "synced X read (st, rn) \<Longrightarrow> (\<And>k. k \<noteq> i \<Longrightarrow> st' k = st k) \<Longrightarrow> synced X read (st', rn(i := None))"
  by (auto simp: synced_def)

lemma spec_put_synced: "synced X read sc \<Longrightarrow> synced X read (snd (spec_put (launch X read) i source owner sc))"
  by (cases sc) (auto simp: spec_put_def intro: synced_stopped synced_runs split: sum.split)

lemma spec_disable_synced: "synced X read sc \<Longrightarrow> synced X read (snd (spec_disable i row sc))"
  by (cases sc) (auto simp: spec_disable_def intro: synced_stopped)

lemma spec_set_enabled_synced:
  "synced X read sc \<Longrightarrow> synced X read (snd (spec_set_enabled (launch X read) i enabled sc))"
  by (cases sc) (auto simp: spec_set_enabled_def intro: spec_disable_synced synced_runs split: option.split sum.split)

lemma spec_remove_synced: "synced X read sc \<Longrightarrow> synced X read (snd (spec_remove i sc))"
  by (cases sc) (auto simp: spec_remove_def intro: spec_disable_synced)

definition good :: "externals \<Rightarrow> (string \<Rightarrow> string + JSON) \<Rightarrow> script_manager \<Rightarrow> bool" where
  "good X read self \<longleftrightarrow> db_ok self \<and> in_sync X read self"

lemma good_step:
  assumes "implements m spec" "keeps_distinct m" "\<And>sc. synced X read sc \<Longrightarrow> synced X read (snd (spec sc))"
    and "good X read self" "m self = (r, self')"
  shows "good X read self'"
proof -
  have "db_ok self" "distinct (map fst (sm_rows self))" "synced X read (scripts_of self)"
    using assms(4) by (simp_all add: good_def in_sync_iff)
  with implementsD [OF assms(1) _ assms(5)] assms(3) [of "scripts_of self"] keeps_distinctD [OF assms(2,5)]
  show ?thesis by (simp add: good_def in_sync_iff)
qed

lemma put_good: "good X read self \<Longrightarrow> tb_put X read i source owner self = (r, self') \<Longrightarrow> good X read self'"
  by (rule good_step [OF put_implements keeps_distinct_put]) (rule spec_put_synced)

lemma set_enabled_good: "good X read self \<Longrightarrow> set_enabled X read i e self = (r, self') \<Longrightarrow> good X read self'"
  by (rule good_step [OF set_enabled_implements keeps_distinct_set_enabled]) (rule spec_set_enabled_synced)

lemma remove_good: "good X read self \<Longrightarrow> tb_remove X read i self = (r, self') \<Longrightarrow> good X read self'"
  by (rule good_step [OF remove_implements keeps_distinct_remove]) (rule spec_remove_synced)

text \<open>Loading.\<close>

lemma start_stored_good:
  assumes good: "good X read self" and row: "stored self i = Some (source, True, ow)"
    and run: "start_script X read i source (owner_of_value ow) self = (r, self')"
  shows "good X read self' \<and> sm_rows self' = sm_rows self"
proof -
  have "db_ok self" using good by (simp add: good_def)
  from start_script_result [OF this, of X read i source "owner_of_value ow"] run have
    "db_ok self'" and rows: "sm_rows self' = sm_rows self"
    and rn: "running self' = (running self)(i := case launch X read source of Inl _ \<Rightarrow> None | Inr s \<Rightarrow> Some (runs s (owner_of_value ow)))"
    by auto
  have "synced X read (stored self, running self)" using good by (simp add: good_def in_sync_iff scripts_of_def)
  then have "synced X read (stored self, running self')"
    unfolding rn using row synced_runs [of X read "stored self" "running self" source _ "stored self" i "owner_of_value ow"]
    by (cases "launch X read source") (auto intro: synced_stopped)
  with \<open>db_ok self'\<close> rows good show ?thesis
    by (simp add: good_def in_sync_iff scripts_of_def stored_def)
qed

lemma load_rows_good:
  assumes "good X read self" "set rows \<subseteq> set (sm_rows self)"
  shows "\<exists>m self'. load_rows X read rows result_map self = (Inr m, self') \<and> good X read self' \<and> sm_rows self' = sm_rows self"
  using assms
proof (induction rows arbitrary: result_map self)
  case Nil
  then show ?case by (simp add: tb_ret_def)
next
  case (Cons row rows)
  obtain i source e ow where row: "row = (i, source, e, ow)" by (cases row)
  have call: "sql_call self = (Inr (), self)" using Cons.prems(1) by (simp add: good_def db_ok_def)
  show ?case
  proof (cases e)
    case True
    have "distinct (map fst (sm_rows self))" using Cons.prems(1) by (simp add: good_def in_sync_iff)
    then have st: "stored self i = Some (source, True, ow)"
      using Cons.prems(2) row True by (simp add: stored_def)
    obtain r self1 where run: "start_script X read i source (owner_of_value ow) self = (r, self1)" by fastforce
    from start_stored_good [OF Cons.prems(1) st run] have "good X read self1" "sm_rows self1 = sm_rows self" by auto
    with Cons.IH [of self1 "hm_insert i r result_map"] Cons.prems(2) show ?thesis
      using run call True by (auto simp: row tb_try_def)
  next
    case False
    with Cons.IH [of self "hm_insert i (Inr ()) result_map"] Cons.prems call show ?thesis
      by (auto simp: row tb_try_def)
  qed
qed

lemma load_good: "good X read self \<Longrightarrow> good X read (snd (tb_load X read self))"
  using load_rows_good [of X read self "sm_rows self" "[]"]
  by (auto simp: tb_load_def tb_try_def good_def db_ok_def)

text \<open>Removing everything.\<close>

lemma remove_running:
  assumes "good X read self" "tb_remove X read i self = (r, self')"
  shows "good X read self' \<and> running self' = (running self)(i := None)"
proof -
  have good': "good X read self'" by (rule remove_good [OF assms])
  have "spec_remove i (scripts_of self) = (r, scripts_of self')"
    using implementsD(2) [OF remove_implements _ assms(2)] assms(1) by (simp add: good_def)
  moreover have "stored self i \<noteq> None" if "running self i \<noteq> None"
  proof -
    from that obtain runner where "running self i = Some runner" by auto
    with assms(1) obtain source ow where "stored self i = Some (source, True, ow)"
      unfolding good_def in_sync_def by meson
    then show ?thesis by simp
  qed
  ultimately show ?thesis
    using good' by (cases "running self i")
      (auto simp: spec_remove_def spec_disable_def scripts_of_def fun_upd_idem split: if_splits)
qed

lemma remove_keys_good:
  assumes "good X read self"
  shows "\<exists>errors self'. remove_keys X read keys self = (errors, self') \<and> good X read self' \<and>
    (\<forall>i. running self' i = (if i \<in> set keys then None else running self i))"
  using assms
proof (induction keys arbitrary: self)
  case (Cons i keys)
  obtain r self1 where run: "tb_remove X read i self = (r, self1)" by fastforce
  have good1: "good X read self1" and rn: "\<forall>k. running self1 k = (if k = i then None else running self k)"
    using remove_running [OF Cons.prems run] by auto
  from Cons.IH [OF good1] obtain errors self2 where "remove_keys X read keys self1 = (errors, self2)" "good X read self2"
    "\<forall>k. running self2 k = (if k \<in> set keys then None else running self1 k)" by blast
  with run rn show ?case by (auto split: sum.split)
qed simp

lemma remove_all_good:
  assumes "good X read self"
  shows "\<exists>errors self'. tb_remove_all X read self = (Inr errors, self') \<and> good X read self' \<and>
    sm_rows self' = [] \<and> sm_runners self' = []"
proof -
  from remove_keys_good [OF assms, of "hm_keys (sm_runners self)"] obtain errors self1 where
    run: "remove_keys X read (hm_keys (sm_runners self)) self = (errors, self1)" and good1: "good X read self1"
    and rn: "\<forall>i. running self1 i = (if i \<in> set (hm_keys (sm_runners self)) then None else running self i)" by blast
  have "hm_get (sm_runners self1) = Map.empty"
    using rn by (auto simp: running_def map_of_eq_None_iff fun_eq_iff)
  then have none: "sm_runners self1 = []" by simp
  with run good1 show ?thesis
    by (auto simp: tb_remove_all_def tb_try_def tb_ret_def good_def db_ok_def in_sync_def running_def)
qed

lemma synced_dies:
  assumes "synced X read (st, rn)" "rn i = Some runner"
  shows "synced X read (st, rn(i \<mapsto> runner\<lparr>rn_thread := None\<rparr>))"
proof -
  from assms obtain source ow where "rn_sender runner" "st i = Some (source, True, ow)"
    unfolding synced_def by blast
  with assms(1) show ?thesis by (simp add: synced_def)
qed

lemma thread_dies_good: "good X read self \<Longrightarrow> good X read (thread_dies i self)"
  using synced_dies [of X read "stored self" "running self" i]
  by (cases "running self i")
    (auto simp: good_def db_ok_def in_sync_iff scripts_of_def thread_dies_def running_def stored_def fun_upd_def)

lemma sm_reachable_good: "sm_reachable X read self \<Longrightarrow> good X read self"
proof (induction rule: sm_reachable.induct)
  case (init rows)
  then show ?case
    by (simp add: tb_manager_new_def good_def db_ok_def in_sync_def running_def)
next
  case (load self)
  from load.IH show ?case by (rule load_good)
next
  case (put self i source owner)
  then show ?case using put_good by (metis prod.collapse)
next
  case (set_enabled self i enabled)
  then show ?case using set_enabled_good by (metis prod.collapse)
next
  case (remove self i)
  then show ?case using remove_good by (metis prod.collapse)
next
  case (remove_all self)
  then show ?case using remove_all_good by (metis snd_conv)
next
  case (dies self i)
  from dies.IH show ?case by (rule thread_dies_good)
qed


section \<open>When the tables come apart\<close>

text \<open>When the database cannot be opened, putting a new script starts it and fails; from then on
  it runs and cannot be stopped: disabling and removing report that there is no such script, even
  once the database answers again.\<close>

theorem unpersisted_script_cannot_be_stopped:
  assumes "launch X read source = Inr s" "sm_outcomes self = [Some e]" "map_of (sm_rows self) i = None"
  shows "\<exists>self'. tb_put X read i source owner self = (Inl (SQLError e), self') \<and>
    hm_get (sm_runners self') i = Some (runs s owner) \<and>
    set_enabled X read i False self' = (Inl NoSuchScriptError, self') \<and>
    tb_remove X read i self' = (Inl NoSuchScriptError, self')"
proof -
  from assms(1) obtain src where src: "from_str_at read (parse_script X) ''recipe'' source = Inr src"
    and s: "compile_script src = Inr s"
    by (auto simp: launch_def split: sum.splits)
  let ?self = "\<lparr>sm_rows = sm_rows self, sm_outcomes = [Some e],
     sm_runners = hm_insert i (runs s owner) (hm_remove i (sm_runners self)),
     sm_events = sm_events self @ [(i, Starting (Inr ()))]\<rparr>"
  have "hm_remove i (sm_runners self) = (case hm_get (sm_runners self) i of None \<Rightarrow> sm_runners self
      | Some _ \<Rightarrow> hm_remove i (sm_runners self))"
    by (simp add: hm_remove_absent split: option.split)
  then have start: "start_script X read i source owner self = (Inr (), ?self)"
    using src s assms(2) by (cases "hm_get (sm_runners self) i")
      (simp_all add: start_script_def Let_def execution_start_def execution_new_def runs_def)
  let ?self' = "?self\<lparr>sm_outcomes := []\<rparr>"
  have put: "tb_put X read i source owner self = (Inl (SQLError e), ?self')"
    by (simp add: tb_put_def tb_try_def start sql_execute_def sql_call_def)
  have "set_enabled X read i False ?self' = (Inl NoSuchScriptError, ?self')"
    by (simp add: set_enabled_def get_source_and_owner_def tb_try_def assms(3))
  moreover from this have "tb_remove X read i ?self' = (Inl NoSuchScriptError, ?self')"
    by (simp add: tb_remove_def tb_try_def)
  ultimately show ?thesis using put by (intro exI [of _ ?self']) simp
qed

text \<open>Disabling a script that is stored as enabled but could not be started succeeds and changes
  nothing: the script stays enabled, and is started again by the next load.\<close>

theorem disabling_a_failed_script_changes_nothing:
  assumes "sm_reachable X read self" "map_of (sm_rows self) i = Some (source, True, ow)"
    and "hm_get (sm_runners self) i = None"
  shows "set_enabled X read i False self = (Inr (), self)"
proof -
  have "db_ok self" using sm_reachable_good [OF assms(1)] by (simp add: good_def)
  then show ?thesis
    using assms(2,3) by (simp add: set_enabled_def tb_try_def get_source_and_owner_result stored_def)
qed

section \<open>Witnesses\<close>

text \<open>A script as JSON, which the reader is assumed to find in any text.\<close>

definition lights_json :: JSON where
  "lights_json = JObject [(''name'', JString ''lights''), (''rules'', JArray [JObject
     [(''conditions'', JArray [JObject [(''source'', JArray [JObject [(''id'', JString ''a'')]]),
        (''kind'', JString ''LightOn''), (''range'', JObject [(''Eq'', JObject [(''OnOff'', JString ''On'')])])]]),
      (''execute'', JArray [JObject [(''destination'', JArray [JObject [(''id'', JString ''b'')]]),
        (''kind'', JString ''LightOn''), (''value'', JObject [(''OnOff'', JString ''On'')])]])]])]"

definition read_lights :: "string \<Rightarrow> string + JSON" where
  "read_lights source = Inr lights_json"

lemma lights_launch: "(case launch sample_externals read_lights ''x'' of Inl _ \<Rightarrow> False | Inr _ \<Rightarrow> True)"
  by code_simp

definition empty_manager :: script_manager where
  "empty_manager = \<lparr>sm_rows = [], sm_outcomes = [], sm_runners = [], sm_events = []\<rparr>"

lemma empty_manager_reachable: "sm_reachable X read empty_manager"
  using sm_reachable.init [of "[]" X read] by (simp add: tb_manager_new_def empty_manager_def)

theorem script_manager_refines_tables_witness:
  "\<exists>s. scripts_of (snd (tb_put sample_externals read_lights ''lights'' ''x'' (UserId 3) empty_manager)) =
     ([''lights'' \<mapsto> (''x'', True, 3)], [''lights'' \<mapsto> runs s (UserId 3)])"
proof -
  have "db_ok empty_manager" by (simp add: db_ok_def empty_manager_def)
  note refines = script_manager_refines_tables [OF this, of sample_externals read_lights "''lights''" "''x''" "UserId 3" True]
  from lights_launch obtain s where "launch sample_externals read_lights ''x'' = Inr s"
    by (auto split: sum.splits)
  then have "spec_put (launch sample_externals read_lights) ''lights'' ''x'' (UserId 3) (scripts_of empty_manager) =
      (Inr (), [''lights'' \<mapsto> (''x'', True, 3)], [''lights'' \<mapsto> runs s (UserId 3)])"
    by (simp add: spec_put_def scripts_of_def stored_def running_def empty_manager_def owner_value_def)
  with refines show ?thesis by (metis snd_conv snd_map_prod)
qed

text \<open>A manager with the script running.\<close>

definition lights_manager :: script_manager where
  "lights_manager = snd (tb_put sample_externals read_lights ''lights'' ''x'' (UserId 3) empty_manager)"

lemma lights_manager_reachable: "sm_reachable sample_externals read_lights lights_manager"
  unfolding lights_manager_def by (rule sm_reachable.put [OF empty_manager_reachable])

lemma lights_manager_runs: "hm_get (sm_runners lights_manager) ''lights'' \<noteq> None"
proof -
  have "db_ok empty_manager" by (simp add: db_ok_def empty_manager_def)
  from tb_put_result [OF this, of sample_externals read_lights "''lights''" "''x''" "UserId 3"] lights_launch
  show ?thesis by (auto simp: lights_manager_def running_def split: sum.splits)
qed


theorem unpersisted_script_cannot_be_stopped_witness:
  "\<exists>s self'. tb_put sample_externals read_lights ''lights'' ''x'' NoUser (empty_manager\<lparr>sm_outcomes := [Some ''full'']\<rparr>)
       = (Inl (SQLError ''full''), self') \<and>
     hm_get (sm_runners self') ''lights'' = Some (runs s NoUser) \<and>
     tb_remove sample_externals read_lights ''lights'' self' = (Inl NoSuchScriptError, self')"
proof -
  from lights_launch obtain s where "launch sample_externals read_lights ''x'' = Inr s"
    by (auto split: sum.splits)
  from unpersisted_script_cannot_be_stopped [OF this, of "empty_manager\<lparr>sm_outcomes := [Some ''full'']\<rparr>" "''full''"
      "''lights''" NoUser]
  show ?thesis by (auto simp: empty_manager_def)
qed

text \<open>A script that does not parse was enabled by an earlier version of the program.\<close>

theorem disabling_a_failed_script_changes_nothing_witness:
  "set_enabled sample_externals (\<lambda>_. Inl ''syntax'') ''old'' False
     (snd (tb_manager_new [(''old'', ''?'', True, -1)] [])) = (Inr (), snd (tb_manager_new [(''old'', ''?'', True, -1)] []))"
  by (rule disabling_a_failed_script_changes_nothing [OF sm_reachable.init, where source = "''?''" and ow = "-1"])
    (simp_all add: tb_manager_new_def)

end
