(* ===== verification/Router.thy ===== *)
theory Router
  imports Manager
begin

text \<open>
  \<^verbatim>\<open>src/taxonomy_router.rs\<close>: the HTTP interface of the adapter manager. A request is its method, the
  components of its path, its bearer token and its body (or the error of reading it); an answer is
  a status and a body. The parameters of the router are collected in \<open>router_env\<close>: the adapters, the
  session tokens of the library of users, the reader of JSON text, the derived serializer of errors
  and the reader of MIME types.
\<close>

section \<open>Requests and responses\<close>

datatype http_method = GET | POST | PUT | DELETE | OtherMethod string

record http_request =
  rq_method :: http_method
  rq_path :: "string list"
  rq_bearer :: "string option"
  rq_body :: "string + string"

datatype status = StOk | StBadRequest | StUnauthorized | StNotFound | StMethodNotAllowed | StInternalServerError

datatype http_body =
    NoBody
  | JsonBody JSON
  | BinaryBody Binary
  | ParseErrorBody ParseError
  | TextBody string

datatype response = Response (response_status: status) (response_body: http_body)

record router_env =
  rt_externals :: externals
  rt_read :: "string \<Rightarrow> string + JSON"
  rt_fetch :: fetch_fn
  rt_send :: send_fn
  rt_sip :: "string \<Rightarrow> string \<Rightarrow> nat"
  rt_error_json :: "Error \<Rightarrow> JSON"
  rt_token :: "string \<Rightarrow> int option"
  rt_mime_ok :: "string \<Rightarrow> bool"

text \<open>The answer, the values sent to the adapters and the manager after the request.\<close>

type_synonym routed = "(response \<times> (adapter \<times> (SetterId, Value) hashmap) list \<times> manager) outcome"

section \<open>Building answers\<close>

definition build_binary_response :: "router_env \<Rightarrow> Binary \<Rightarrow> response outcome" where
  "build_binary_response E data =
     (if rt_mime_ok E (bin_mimetype data) then Done (Response StOk (BinaryBody data)) else Panic)"

definition build_response :: "JSON \<Rightarrow> response" where
  "build_response json = Response StOk (JsonBody json)"

definition build_parse_error :: "ParseError \<Rightarrow> response" where
  "build_parse_error err = Response StBadRequest (ParseErrorBody err)"

text \<open>A result with a single element that holds binary data.\<close>

definition get_binary :: "fetched \<Rightarrow> Binary option" where
  "get_binary m =
     (if length m \<noteq> 1 then None
      else case hm_values m of
        [Inr (Some (VBinary data))] \<Rightarrow> Some data
      | _ \<Rightarrow> None)"

definition tag_count_json :: "nat \<Rightarrow> JSON" where
  "tag_count_json n = U64 n"

definition fetched_json :: "router_env \<Rightarrow> fetched \<Rightarrow> JSON" where
  "fetched_json E = result_map_to_json (option_to_json (value_to_json (rt_externals E))) (rt_error_json E)"

definition sent_json :: "router_env \<Rightarrow> sent \<Rightarrow> JSON" where
  "sent_json E = result_map_to_json (\<lambda>_. Null) (rt_error_json E)"

section \<open>The generic calls\<close>

text \<open>The body of a request, or the error \<^verbatim>\<open>itry!\<close> answers with.\<close>

definition with_body :: "http_request \<Rightarrow> (string \<Rightarrow> routed) \<Rightarrow> manager \<Rightarrow> routed" where
  "with_body req k self =
     (case rq_body req of
        Inl err \<Rightarrow> Done (Response StInternalServerError (TextBody err), [], self)
      | Inr source \<Rightarrow> k source)"

text \<open>\<^verbatim>\<open>get_post_api!\<close>: everything for a GET, what the selectors of the body select for a POST.\<close>

definition get_post_api ::
    "router_env \<Rightarrow> 's parser \<Rightarrow> 's \<Rightarrow> ('s list \<Rightarrow> manager \<Rightarrow> 'r list outcome) \<Rightarrow> ('r \<Rightarrow> JSON) \<Rightarrow>
     http_request \<Rightarrow> manager \<Rightarrow> routed" where
  "get_post_api E parse sel call to_json req self =
     (case rq_method req of
        GET \<Rightarrow> bind_outcome (call [sel] self) (\<lambda>r. Done (build_response (vec_to_json to_json r), [], self))
      | POST \<Rightarrow>
          with_body req (\<lambda>source.
            case from_str_at (rt_read E) (parse_vec parse) ''body'' source of
              Inr arg \<Rightarrow>
                bind_outcome (call arg self) (\<lambda>r. Done (build_response (vec_to_json to_json r), [], self))
            | Inl err \<Rightarrow> Done (build_parse_error err, [], self)) self
      | _ \<Rightarrow> Done (Response StMethodNotAllowed (TextBody ''Bad method''), [], self))"

text \<open>\<^verbatim>\<open>payload_api!\<close>: an argument parsed from the body.\<close>

definition payload_api ::
    "router_env \<Rightarrow> 'a parser \<Rightarrow> ('a \<Rightarrow> manager \<Rightarrow> routed) \<Rightarrow> http_request \<Rightarrow> manager \<Rightarrow> routed" where
  "payload_api E parse action req self =
     with_body req (\<lambda>source.
       case from_str_at (rt_read E) parse ''body'' source of
         Inr arg \<Rightarrow> action arg self
       | Inl err \<Rightarrow> Done (build_parse_error err, [], self)) self"

definition binary_action :: "router_env \<Rightarrow> User \<Rightarrow> GetterSelector list \<Rightarrow> manager \<Rightarrow> routed" where
  "binary_action E user arg self =
     bind_outcome (manager_fetch_values (rt_fetch E) arg user self) (\<lambda>res.
       case get_binary res of
         Some data \<Rightarrow> bind_outcome (build_binary_response E data) (\<lambda>r. Done (r, [], self))
       | None \<Rightarrow> Done (build_response (fetched_json E res), [], self))"

definition send_action :: "router_env \<Rightarrow> User \<Rightarrow> (SetterSelector, Value) TargetMap \<Rightarrow> manager \<Rightarrow> routed" where
  "send_action E user arg self =
     bind_outcome (manager_send_values (rt_send E) arg user self) (\<lambda>(res, calls).
       Done (build_response (sent_json E res), calls, self))"

text \<open>\<^verbatim>\<open>payload_api2!\<close>: two arguments, the fields of the body.\<close>

definition payload_api2 ::
    "router_env \<Rightarrow> string \<Rightarrow> 'a parser \<Rightarrow> ('a list \<Rightarrow> TagId list \<Rightarrow> manager \<Rightarrow> (nat \<times> manager) outcome) \<Rightarrow>
     http_request \<Rightarrow> manager \<Rightarrow> routed" where
  "payload_api2 E name1 parse call req self =
     with_body req (\<lambda>source.
       case rt_read E source of
         Inl err \<Rightarrow> Done (build_parse_error (PE_JSON err), [], self)
       | Inr json \<Rightarrow>
           (case take_field (parse_vec parse) (''body.'' @ name1) json name1 of
              (Inl err, _) \<Rightarrow> Done (build_parse_error err, [], self)
            | (Inr arg1, json) \<Rightarrow>
                (case take_field (parse_vec parse_id) ''body.tags'' json ''tags'' of
                   (Inl err, _) \<Rightarrow> Done (build_parse_error err, [], self)
                 | (Inr arg2, _) \<Rightarrow>
                     bind_outcome (call arg1 arg2 self)
                       (\<lambda>(n, self). Done (build_response (tag_count_json n), [], self))))) self"

section \<open>The handler\<close>

definition route :: "router_env \<Rightarrow> User \<Rightarrow> http_request \<Rightarrow> manager \<Rightarrow> routed" where
  "route E user req self =
     (let X = rt_externals E; sip = rt_sip E; path = rq_path req; method = rq_method req in
      if path = [''services''] then
        get_post_api E parse_service_selector service_selector_new manager_get_services (service_to_json X) req self
      else if path = [''channels'', ''getters''] then
        get_post_api E parse_getter_selector getter_selector_new manager_get_getter_channels (getter_to_json X) req self
      else if path = [''channels'', ''setters''] then
        get_post_api E parse_setter_selector setter_selector_new manager_get_setter_channels (setter_to_json X) req self
      else if path = [''channels'', ''get''] \<and> method = PUT then
        payload_api E (parse_vec parse_getter_selector) (binary_action E user) req self
      else if path = [''channels'', ''set''] \<and> method = PUT then
        payload_api E (parse_vec (parse_targetted_value X ''Targetted<SetterSelector, Value>'' parse_setter_selector))
          (send_action E user) req self
      else if path = [''services'', ''tags''] \<and> method = POST then
        payload_api2 E ''services'' parse_service_selector (manager_add_service_tags sip) req self
      else if path = [''channels'', ''getter'', ''tags''] \<and> method = POST then
        payload_api2 E ''getters'' parse_getter_selector (manager_add_getter_tags sip) req self
      else if path = [''channels'', ''setter'', ''tags''] \<and> method = POST then
        payload_api2 E ''setters'' parse_setter_selector (manager_add_setter_tags sip) req self
      else if path = [''services'', ''tags''] \<and> method = DELETE then
        payload_api2 E ''services'' parse_service_selector (manager_remove_service_tags sip) req self
      else if path = [''channels'', ''getter'', ''tags''] \<and> method = DELETE then
        payload_api2 E ''getters'' parse_getter_selector (manager_remove_getter_tags sip) req self
      else if path = [''channels'', ''setter'', ''tags''] \<and> method = DELETE then
        payload_api2 E ''setters'' parse_setter_selector (manager_remove_setter_tags sip) req self
      else Done (Response StNotFound (TextBody ''Unknown url''), [], self))"

definition handle_request :: "router_env \<Rightarrow> http_request \<Rightarrow> manager \<Rightarrow> routed" where
  "handle_request E req self =
     (case rq_bearer req of
        Some token \<Rightarrow>
          (case rt_token E token of
             Some i \<Rightarrow> route E (UserId i) req self
           | None \<Rightarrow> Done (Response StUnauthorized NoBody, [], self))
      | None \<Rightarrow> route E NoUser req self)"

text \<open>The paths and methods that need a session, as given to the library of users.\<close>

definition auth_endpoints :: "bool \<Rightarrow> (http_method list \<times> string) list" where
  "auth_endpoints authentication =
     (if authentication then
        [([GET, POST], ''services''),
         ([POST, DELETE], ''services/tags''),
         ([GET, POST], ''channels/getters''),
         ([GET, POST], ''channels/setters''),
         ([GET], ''channels/get''),
         ([PUT], ''channels/set''),
         ([POST, DELETE], ''channel/getters/tags''),
         ([POST, DELETE], ''channel/setters/tags'')]
      else [])"

end
