(* ===== verification/Router_Props.thy ===== *)
theory Router_Props
  imports Router Backend_Props
begin

text \<open>
  What the router serves, what a request can change, and the paths that need a session.
\<close>

section \<open>Dispatch\<close>

definition query_paths :: "string list list" where
  "query_paths = [[''services''], [''channels'', ''getters''], [''channels'', ''setters'']]"

definition tag_paths :: "string list list" where
  "tag_paths = [[''services'', ''tags''], [''channels'', ''getter'', ''tags''], [''channels'', ''setter'', ''tags'']]"

text \<open>The requests that have an answer.\<close>

definition served_requests :: "(http_method \<times> string list) list" where
  "served_requests = List.product [GET, POST] query_paths @
     [(PUT, [''channels'', ''get'']), (PUT, [''channels'', ''set''])] @ List.product [POST, DELETE] tag_paths"

definition served :: "http_method \<Rightarrow> string list \<Rightarrow> bool" where
  "served m p \<longleftrightarrow> (m, p) \<in> set served_requests"

lemma served_iff:
  "served m p \<longleftrightarrow> p \<in> set query_paths \<and> m \<in> {GET, POST} \<or> p = [''channels'', ''get''] \<and> m = PUT \<or>
     p = [''channels'', ''set''] \<and> m = PUT \<or> p \<in> set tag_paths \<and> m \<in> {POST, DELETE}"
  unfolding served_def served_requests_def by auto

definition requester :: "router_env \<Rightarrow> http_request \<Rightarrow> User option" where
  "requester E req =
     (case rq_bearer req of None \<Rightarrow> Some NoUser | Some token \<Rightarrow> map_option UserId (rt_token E token))"

lemma handle_request_requester:
  "handle_request E req self =
     (case requester E req of
        None \<Rightarrow> Done (Response StUnauthorized NoBody, [], self)
      | Some user \<Rightarrow> route E user req self)"
  by (simp add: handle_request_def requester_def split: option.split)

text \<open>What a call answers: never one of the statuses of the dispatch.\<close>

definition answers :: "(manager \<Rightarrow> manager \<Rightarrow> bool) \<Rightarrow> bool \<Rightarrow> manager \<Rightarrow> routed \<Rightarrow> bool" where
  "answers P may_send self r \<longleftrightarrow> (\<forall>resp calls self'. r = Done (resp, calls, self') \<longrightarrow>
     response_status resp \<in> {StOk, StBadRequest, StInternalServerError} \<and> P self self' \<and> (may_send \<or> calls = []))"

lemma answers_simps [simp]:
  "answers P b self Panic"
  "answers P b self (Done (Response s body, calls, self')) \<longleftrightarrow>
     s \<in> {StOk, StBadRequest, StInternalServerError} \<and> P self self' \<and> (b \<or> calls = [])"
  by (auto simp: answers_def)

lemma answers_bind:
  "(\<And>x. m = Done x \<Longrightarrow> answers P b self (k x)) \<Longrightarrow> answers P b self (bind_outcome m k)"
  by (cases m) auto

lemma answers_with_body:
  "P self self \<Longrightarrow> (\<And>source. answers P b self (k source)) \<Longrightarrow> answers P b self (with_body req k self)"
  by (auto simp: with_body_def split: sum.split)

lemma get_post_api_answers:
  "rq_method req \<in> {GET, POST} \<Longrightarrow> answers (=) False self (get_post_api E parse sel call to_json req self)"
  unfolding get_post_api_def
  by (auto simp: build_response_def build_parse_error_def intro!: answers_bind answers_with_body split: sum.split)

lemma get_post_api_bad_method:
  "rq_method req \<notin> {GET, POST} \<Longrightarrow>
   get_post_api E parse sel call to_json req self = Done (Response StMethodNotAllowed (TextBody ''Bad method''), [], self)"
  by (simp add: get_post_api_def split: http_method.split)

lemma payload_api_answers:
  assumes "\<And>arg. answers P b self (action arg self)" "P self self"
  shows "answers P b self (payload_api E parse action req self)"
  using assms unfolding payload_api_def
  by (auto simp: build_parse_error_def intro!: answers_with_body split: sum.split)

lemma binary_action_answers: "answers (=) False self (binary_action E user arg self)"
  unfolding binary_action_def
  by (auto simp: build_response_def build_binary_response_def intro!: answers_bind split: option.split)

lemma send_action_answers: "answers (=) True self (send_action E user arg self)"
  unfolding send_action_def by (auto simp: build_response_def intro!: answers_bind)

lemma payload_api2_answers: "answers (\<lambda>_ _. True) False self (payload_api2 E name1 parse call req self)"
  unfolding payload_api2_def
  by (intro answers_with_body)
    (auto simp: build_response_def build_parse_error_def intro!: answers_bind split: sum.split prod.split)

text \<open>The branches of the dispatch.\<close>

lemma query_path_cases:
  assumes "rq_path req \<in> set query_paths"
  obtains "rq_path req = [''services'']" | "rq_path req = [''channels'', ''getters'']"
    | "rq_path req = [''channels'', ''setters'']"
  using assms unfolding query_paths_def set_simps by blast

lemma route_query:
  assumes "rq_path req \<in> set query_paths" "rq_method req \<in> {GET, POST}"
  shows "answers (=) False self (route E user req self)"
  using assms(1) by (cases rule: query_path_cases)
    (simp_all add: route_def get_post_api_answers [OF assms(2)])

lemma route_query_bad:
  assumes "rq_path req \<in> set query_paths" "rq_method req \<notin> {GET, POST}"
  shows "route E user req self = Done (Response StMethodNotAllowed (TextBody ''Bad method''), [], self)"
  using assms(1) by (cases rule: query_path_cases) (simp_all add: route_def get_post_api_bad_method [OF assms(2)])

lemma route_get:
  "rq_path req = [''channels'', ''get''] \<Longrightarrow> rq_method req = PUT \<Longrightarrow> answers (=) False self (route E user req self)"
  by (simp add: route_def Let_def payload_api_answers [OF binary_action_answers])

lemma route_set:
  "rq_path req = [''channels'', ''set''] \<Longrightarrow> rq_method req = PUT \<Longrightarrow> answers (=) True self (route E user req self)"
  by (simp add: route_def Let_def payload_api_answers [OF send_action_answers])

lemma tag_path_cases:
  assumes "rq_path req \<in> set tag_paths" "rq_method req \<in> {POST, DELETE}"
  obtains (s) "rq_path req = [''services'', ''tags'']" "rq_method req = POST"
    | (g) "rq_path req = [''channels'', ''getter'', ''tags'']" "rq_method req = POST"
    | (w) "rq_path req = [''channels'', ''setter'', ''tags'']" "rq_method req = POST"
    | (s') "rq_path req = [''services'', ''tags'']" "rq_method req = DELETE"
    | (g') "rq_path req = [''channels'', ''getter'', ''tags'']" "rq_method req = DELETE"
    | (w') "rq_path req = [''channels'', ''setter'', ''tags'']" "rq_method req = DELETE"
  using assms unfolding tag_paths_def set_simps by blast

lemma route_tags:
  assumes "rq_path req \<in> set tag_paths" "rq_method req \<in> {POST, DELETE}"
  shows "answers (\<lambda>_ _. True) False self (route E user req self)"
  using assms by (cases rule: tag_path_cases) (simp_all add: route_def payload_api2_answers)

lemma route_other:
  assumes "\<not> served (rq_method req) (rq_path req)" "rq_path req \<notin> set query_paths"
  shows "route E user req self = Done (Response StNotFound (TextBody ''Unknown url''), [], self)"
proof -
  have "rq_path req \<noteq> [''services'']" "rq_path req \<noteq> [''channels'', ''getters'']" "rq_path req \<noteq> [''channels'', ''setters'']"
    using assms(2) by (auto simp: query_paths_def)
  moreover have "\<not> (rq_path req = [''channels'', ''get''] \<and> rq_method req = PUT)"
    "\<not> (rq_path req = [''channels'', ''set''] \<and> rq_method req = PUT)"
    using assms(1) by (auto simp: served_iff)
  moreover have "\<not> (rq_path req = p \<and> rq_method req = m)" if "p \<in> set tag_paths" "m \<in> {POST, DELETE}" for p m
    using assms(1) that unfolding served_iff by blast
  from this [of "[''services'', ''tags'']" POST] this [of "[''channels'', ''getter'', ''tags'']" POST]
    this [of "[''channels'', ''setter'', ''tags'']" POST] this [of "[''services'', ''tags'']" DELETE]
    this [of "[''channels'', ''getter'', ''tags'']" DELETE] this [of "[''channels'', ''setter'', ''tags'']" DELETE]
  have "\<not> (rq_path req = [''services'', ''tags''] \<and> rq_method req = POST)"
    "\<not> (rq_path req = [''channels'', ''getter'', ''tags''] \<and> rq_method req = POST)"
    "\<not> (rq_path req = [''channels'', ''setter'', ''tags''] \<and> rq_method req = POST)"
    "\<not> (rq_path req = [''services'', ''tags''] \<and> rq_method req = DELETE)"
    "\<not> (rq_path req = [''channels'', ''getter'', ''tags''] \<and> rq_method req = DELETE)"
    "\<not> (rq_path req = [''channels'', ''setter'', ''tags''] \<and> rq_method req = DELETE)"
    by (simp_all add: tag_paths_def)
  ultimately show ?thesis unfolding route_def Let_def by (simp only: if_False)
qed

text \<open>C10: The router answers 404 or 405 exactly to the requests it does not serve, and 401 exactly to
  those with a bad token, without calling the manager for either; a request that is not about tags
  leaves the manager unchanged, and values are sent to adapters only by a PUT on
  \<^verbatim>\<open>channels/set\<close>.\<close>

theorem router_dispatch_exact:
  assumes "handle_request E req self = Done (resp, calls, self')"
  shows "(response_status resp = StUnauthorized \<longleftrightarrow> requester E req = None) \<and>
    (response_status resp \<in> {StNotFound, StMethodNotAllowed} \<longleftrightarrow>
       requester E req \<noteq> None \<and> \<not> served (rq_method req) (rq_path req)) \<and>
    (self' = self \<or> requester E req \<noteq> None \<and> rq_path req \<in> set tag_paths \<and> rq_method req \<in> {POST, DELETE}) \<and>
    (calls = [] \<or> requester E req \<noteq> None \<and> rq_path req = [''channels'', ''set''] \<and> rq_method req = PUT)"
proof (cases "requester E req")
  case None
  with assms show ?thesis by (auto simp: handle_request_requester)
next
  case (Some user)
  let ?m = "rq_method req" and ?p = "rq_path req"
  have run: "route E user req self = Done (resp, calls, self')"
    using assms Some by (simp add: handle_request_requester)
  have ok: ?thesis if "answers P b self (route E user req self)" "served ?m ?p"
    "\<And>s. P self s \<Longrightarrow> s = self \<or> ?p \<in> set tag_paths \<and> ?m \<in> {POST, DELETE}"
    "b \<Longrightarrow> ?p = [''channels'', ''set''] \<and> ?m = PUT" for P b
  proof -
    have "response_status resp \<in> {StOk, StBadRequest, StInternalServerError}" and P: "P self self'" and b: "b \<or> calls = []"
      using that(1) run unfolding answers_def by blast+
    then have "response_status resp \<notin> {StUnauthorized, StNotFound, StMethodNotAllowed}" by auto
    moreover have "calls = [] \<or> ?p = [''channels'', ''set''] \<and> ?m = PUT" using b that(4) by argo
    ultimately show ?thesis using that(2) that(3) [OF P] Some by simp
  qed
  have refused: ?thesis if "\<not> served ?m ?p" "response_status resp \<in> {StNotFound, StMethodNotAllowed}" "self' = self" "calls = []"
    using that Some by auto
  consider (query) "?p \<in> set query_paths" "?m \<in> {GET, POST}" | (get) "?p = [''channels'', ''get'']" "?m = PUT"
    | (set) "?p = [''channels'', ''set'']" "?m = PUT" | (tags) "?p \<in> set tag_paths" "?m \<in> {POST, DELETE}"
    | (bad) "\<not> served ?m ?p"
    using served_iff [of ?m ?p] by argo
  then show ?thesis
  proof cases
    case query
    show ?thesis by (rule ok [OF route_query [OF query]]) (use query in \<open>simp_all add: served_iff\<close>)
  next
    case get
    show ?thesis by (rule ok [OF route_get [OF get]]) (use get in \<open>simp_all add: served_iff\<close>)
  next
    case set
    show ?thesis by (rule ok [OF route_set [OF set]]) (use set in \<open>simp_all add: served_iff\<close>)
  next
    case tags
    show ?thesis by (rule ok [OF route_tags [OF tags]]) (use tags in \<open>simp_all add: served_iff\<close>)
  next
    case bad
    show ?thesis
    proof (cases "?p \<in> set query_paths")
      case True
      with bad have "?m \<notin> {GET, POST}" by (simp add: served_iff)
      from route_query_bad [OF True this] run show ?thesis by (intro refused [OF bad]) auto
    next
      case False
      from route_other [OF bad False] run show ?thesis by (intro refused [OF bad]) auto
    qed
  qed
qed

section \<open>Sessions\<close>

fun join_path :: "string list \<Rightarrow> string" where
  "join_path [] = []"
| "join_path [s] = s"
| "join_path (s # rest) = s @ ''/'' @ join_path rest"

definition needs_session :: "http_method \<Rightarrow> string list \<Rightarrow> bool" where
  "needs_session m p \<longleftrightarrow> (\<exists>(methods, endpoint) \<in> set (auth_endpoints True). m \<in> set methods \<and> endpoint = join_path p)"

text \<open>The list of the endpoints that need a session is not the list of those the router serves:
  reading values and changing the tags of channels need none.\<close>

theorem unprotected_requests:
  "{(m, p). served m p \<and> \<not> needs_session m p} =
     {(PUT, [''channels'', ''get'']),
      (POST, [''channels'', ''getter'', ''tags'']), (DELETE, [''channels'', ''getter'', ''tags'']),
      (POST, [''channels'', ''setter'', ''tags'']), (DELETE, [''channels'', ''setter'', ''tags''])}"
proof -
  have "{(m, p). served m p \<and> \<not> needs_session m p} = set (filter (\<lambda>(m, p). \<not> needs_session m p) served_requests)"
    by (auto simp: served_def)
  also have "filter (\<lambda>(m, p). \<not> needs_session m p) served_requests =
    [(PUT, [''channels'', ''get'']),
      (POST, [''channels'', ''getter'', ''tags'']), (POST, [''channels'', ''setter'', ''tags'']),
      (DELETE, [''channels'', ''getter'', ''tags'']), (DELETE, [''channels'', ''setter'', ''tags''])]"
    by code_simp
  finally show ?thesis by auto
qed

section \<open>Witness\<close>

definition sample_env :: router_env where
  "sample_env = \<lparr>rt_externals = sample_externals, rt_read = (\<lambda>_. Inl ''syntax''), rt_fetch = (\<lambda>_ _ _. []),
     rt_send = (\<lambda>_ _ _. []), rt_sip = (\<lambda>_ _. 0), rt_error_json = (\<lambda>_. Null),
     rt_token = (\<lambda>t. if t = ''token'' then Some 1 else None), rt_mime_ok = (\<lambda>_. True)\<rparr>"

definition bad_request :: http_request where
  "bad_request = \<lparr>rq_method = PUT, rq_path = [''channels'', ''set''], rq_bearer = Some ''token'', rq_body = Inr ''{''\<rparr>"

theorem router_dispatch_exact_witness:
  "handle_request sample_env bad_request (manager_new None) =
     Done (Response StBadRequest (ParseErrorBody (PE_JSON ''syntax'')), [], manager_new None) \<and>
   requester sample_env bad_request \<noteq> None \<and> served PUT [''channels'', ''set'']"
proof -
  have run: "handle_request sample_env bad_request (manager_new None) =
     Done (Response StBadRequest (ParseErrorBody (PE_JSON ''syntax'')), [], manager_new None)"
    by (simp add: handle_request_def sample_env_def bad_request_def route_def payload_api_def with_body_def
        from_str_at_def build_parse_error_def)
  have "rq_method bad_request = PUT" "rq_path bad_request = [''channels'', ''set'']"
    by (simp_all add: bad_request_def)
  with router_dispatch_exact [OF run] run show ?thesis by auto
qed

end
