(* ===== verification/Think_Adapter.thy ===== *)
theory Think_Adapter
  imports TB_Manager Manager
begin

text \<open>
  \<^verbatim>\<open>src/adapters/thinkerbell/mod.rs\<close>: the adapter that offers the scripts as services. A thread owns
  the script manager and the list of the rules, and takes its messages from a queue; the adapter
  sends it a message for each getter or setter of a request and waits for the reply. A reply
  channel is a number, and the replies are logged. The text of an error of the script manager is
  the parameter \<open>show_err\<close>, the one of a broken channel \<open>recv_error\<close>.
\<close>

section \<open>State\<close>

datatype ThinkAction =
    AddRuleService ScriptId
  | RemoveRuleService ScriptId
  | RespondToGetter nat GetterId
  | RespondToSetter nat SetterId Value User

datatype think_reply = GetterReply "Error + Value option" | SetterReply "Error + unit"

record think_rule =
  tr_script_id :: ScriptId
  tr_service_id :: ServiceId
  tr_getter_source_id :: GetterId
  tr_getter_is_enabled_id :: GetterId
  tr_setter_is_enabled_id :: SetterId
  tr_setter_remove_id :: SetterId

record think =
  th_queue :: "ThinkAction list"
  th_replies :: "(nat \<times> think_reply) list"
  th_next :: nat
  th_adapter_id :: AdapterId
  th_setter_add_rule_id :: SetterId
  th_manager :: manager
  th_scripts :: script_manager
  th_rules :: "think_rule list"
  th_dead :: bool

record think_env =
  te_externals :: externals
  te_read :: "string \<Rightarrow> string + JSON"
  te_show_err :: "TBError \<Rightarrow> string"
  te_recv_error :: string

definition sm_error :: "think_env \<Rightarrow> TBError \<Rightarrow> Error" where
  "sm_error E e = ErrInternal (GenericError (te_show_err E e))"

definition tell_think :: "ThinkAction \<Rightarrow> think \<Rightarrow> think" where
  "tell_think msg self = self\<lparr>th_queue := th_queue self @ [msg]\<rparr>"

definition reply_think :: "nat \<Rightarrow> think_reply \<Rightarrow> think \<Rightarrow> think" where
  "reply_think tx r self = self\<lparr>th_replies := th_replies self @ [(tx, r)]\<rparr>"

section \<open>The services of the rules\<close>

definition rule_of :: "ScriptId \<Rightarrow> think_rule" where
  "rule_of script_id =
     (let service_id = ''thinkerbell/'' @ script_id
      in \<lparr>tr_script_id = script_id, tr_service_id = service_id,
          tr_getter_source_id = service_id @ ''/source'',
          tr_getter_is_enabled_id = service_id @ ''/get_enabled'',
          tr_setter_is_enabled_id = service_id @ ''/set_enabled'',
          tr_setter_remove_id = service_id @ ''/remove''\<rparr>)"

definition rule_channel :: "AdapterId \<Rightarrow> ServiceId \<Rightarrow> string \<Rightarrow> ChannelKind \<Rightarrow> channel" where
  "rule_channel adapter service i kind =
     \<lparr>ch_tags = [], ch_id = i, ch_service = service, ch_kind = kind, ch_updated = None,
      ch_adapter = adapter, ch_last_seen = None\<rparr>"

text \<open>A call to the adapter manager that may fail, followed by the rest of the operation.\<close>

definition call_manager ::
    "(manager \<Rightarrow> ((Error + unit) \<times> manager) outcome) \<Rightarrow>
     (think \<Rightarrow> ((Error + 'a) \<times> think) outcome) \<Rightarrow> think \<Rightarrow> ((Error + 'a) \<times> think) outcome" where
  "call_manager f k self =
     bind_outcome (f (th_manager self)) (\<lambda>(r, m).
       let self = self\<lparr>th_manager := m\<rparr>
       in case r of Inl err \<Rightarrow> Done (Inl err, self) | Inr _ \<Rightarrow> k self)"

definition add_rule_service :: "ScriptId \<Rightarrow> think \<Rightarrow> ((Error + think_rule) \<times> think) outcome" where
  "add_rule_service script_id self =
     (let rule = rule_of script_id; service_id = tr_service_id rule; adapter = th_adapter_id self in
      call_manager (manager_add_service (service_empty service_id adapter))
      (call_manager (manager_add_getter
         (rule_channel adapter service_id (tr_getter_is_enabled_id rule) KThinkerbellRuleOn))
      (call_manager (manager_add_getter
         (rule_channel adapter service_id (tr_getter_source_id rule) KThinkerbellRuleSource))
      (call_manager (manager_add_setter
         (rule_channel adapter service_id (tr_setter_is_enabled_id rule) KThinkerbellRuleOn))
      (call_manager (manager_add_setter
         (rule_channel adapter service_id (tr_setter_remove_id rule) KRemoveThinkerbellRule))
      (\<lambda>self. Done (Inr rule, self)))))) self)"

definition remove_rule_service :: "think_rule \<Rightarrow> think \<Rightarrow> (Error + unit) \<times> think" where
  "remove_rule_service rule self =
     (case manager_remove_service (tr_service_id rule) (th_manager self) of
        (r, m) \<Rightarrow> (r, self\<lparr>th_manager := m\<rparr>))"

section \<open>The main loop\<close>

text \<open>An operation of the script manager.\<close>

definition with_scripts :: "'a tb \<Rightarrow> think \<Rightarrow> (TBError + 'a) \<times> think" where
  "with_scripts f self = (case f (th_scripts self) of (r, s) \<Rightarrow> (r, self\<lparr>th_scripts := s\<rparr>))"

definition setter_reply :: "think_env \<Rightarrow> TBError + unit \<Rightarrow> think_reply" where
  "setter_reply E r = SetterReply (case r of Inl e \<Rightarrow> Inl (sm_error E e) | Inr _ \<Rightarrow> Inr ())"

definition respond_to_getter :: "think_env \<Rightarrow> nat \<Rightarrow> GetterId \<Rightarrow> think \<Rightarrow> think" where
  "respond_to_getter E tx getter_id self =
     (case find (\<lambda>rule. getter_id = tr_getter_is_enabled_id rule \<or> getter_id = tr_getter_source_id rule)
             (th_rules self) of
        None \<Rightarrow> reply_think tx (GetterReply (Inl (ErrInternal (NoSuchGetter getter_id)))) self
      | Some rule \<Rightarrow>
          if getter_id = tr_getter_is_enabled_id rule then
            (let is_enabled = tb_is_enabled (th_scripts self) (tr_script_id rule)
             in reply_think tx (GetterReply (Inr (Some (VOnOff (if is_enabled then On else Off))))) self)
          else
            (case with_scripts (get_source_and_owner (tr_script_id rule)) self of
               (Inr (source, _), self) \<Rightarrow> reply_think tx (GetterReply (Inr (Some (VString source)))) self
             | (Inl e, self) \<Rightarrow> reply_think tx (GetterReply (Inl (sm_error E e))) self))"

definition respond_to_setter :: "think_env \<Rightarrow> nat \<Rightarrow> SetterId \<Rightarrow> Value \<Rightarrow> User \<Rightarrow> think \<Rightarrow> think" where
  "respond_to_setter E tx setter_id value user self =
     (let X = te_externals E; read = te_read E in
      if setter_id = th_setter_add_rule_id self then
        (case value of
           VThinkerbellRule rule_source \<Rightarrow>
             (case with_scripts (tb_put X read (tbr_name rule_source) (tbr_source rule_source) user) self of
                (Inl err, self) \<Rightarrow> reply_think tx (SetterReply (Inl (sm_error E err))) self
              | (Inr _, self) \<Rightarrow>
                  tell_think (AddRuleService (tbr_name rule_source)) (reply_think tx (SetterReply (Inr ())) self))
         | _ \<Rightarrow>
             reply_think tx (SetterReply (Inl (ErrType (TypeError TyThinkerbellRule (value_type value))))) self)
      else
        (case find (\<lambda>rule. setter_id = tr_setter_is_enabled_id rule \<or> setter_id = tr_setter_remove_id rule)
                (th_rules self) of
           None \<Rightarrow> reply_think tx (SetterReply (Inl (ErrInternal (NoSuchSetter setter_id)))) self
         | Some rule \<Rightarrow>
             if setter_id = tr_setter_is_enabled_id rule then
               (case value of
                  VOnOff onoff \<Rightarrow>
                    (case with_scripts (set_enabled X read (tr_script_id rule) (onoff = On)) self of
                       (r, self) \<Rightarrow> reply_think tx (setter_reply E r) self)
                | _ \<Rightarrow> reply_think tx (SetterReply (Inl (ErrType (TypeError TyOnOff (value_type value))))) self)
             else
               (case with_scripts (tb_remove X read (tr_script_id rule)) self of
                  (r, self) \<Rightarrow>
                    tell_think (RemoveRuleService (tr_script_id rule)) (reply_think tx (setter_reply E r) self))))"

definition handle_action :: "think_env \<Rightarrow> ThinkAction \<Rightarrow> think \<Rightarrow> think outcome" where
  "handle_action E action self =
     (case action of
        AddRuleService script_id \<Rightarrow>
          if list_ex (\<lambda>rule. tr_script_id rule = script_id) (th_rules self) then Done self
          else bind_outcome (add_rule_service script_id self) (\<lambda>(r, self).
                 case r of
                   Inr rule \<Rightarrow> Done (self\<lparr>th_rules := th_rules self @ [rule]\<rparr>)
                 | Inl e \<Rightarrow> Done self)
      | RemoveRuleService script_id \<Rightarrow>
          (case List.extract (\<lambda>rule. tr_script_id rule = script_id) (th_rules self) of
             None \<Rightarrow> Done self
           | Some (before, rule, after) \<Rightarrow>
               Done (snd (remove_rule_service rule (self\<lparr>th_rules := before @ after\<rparr>))))
      | RespondToGetter tx getter_id \<Rightarrow> Done (respond_to_getter E tx getter_id self)
      | RespondToSetter tx setter_id value user \<Rightarrow> Done (respond_to_setter E tx setter_id value user self))"

text \<open>A turn of the thread; a panic kills it, and drops the messages left.\<close>

definition think_turn :: "think_env \<Rightarrow> think \<Rightarrow> think" where
  "think_turn E self =
     (case th_queue self of
        [] \<Rightarrow> self
      | action # queue \<Rightarrow>
          (case handle_action E action (self\<lparr>th_queue := queue\<rparr>) of
             Done self' \<Rightarrow> self'
           | Panic \<Rightarrow> self\<lparr>th_queue := [], th_dead := True\<rparr>))"

section \<open>The adapter\<close>

text \<open>A request for one channel: the message, and the turns of the thread until it has been taken.
  A message to a dead thread is dropped.\<close>

definition ask_think :: "think_env \<Rightarrow> (nat \<Rightarrow> ThinkAction) \<Rightarrow> think \<Rightarrow> think_reply option \<times> think" where
  "ask_think E msg self =
     (let tx = th_next self; self = self\<lparr>th_next := tx + 1\<rparr> in
      if th_dead self then (None, self)
      else
        let self = (think_turn E ^^ (length (th_queue self) + 1)) (tell_think (msg tx) self)
        in (map_of (th_replies self) tx, self))"

fun think_fetch_values ::
    "think_env \<Rightarrow> GetterId list \<Rightarrow> think \<Rightarrow> (GetterId, Value option, Error) ResultMap \<times> think" where
  "think_fetch_values E [] self = ([], self)"
| "think_fetch_values E (i # ids) self =
     (case ask_think E (\<lambda>tx. RespondToGetter tx i) self of
        (r, self) \<Rightarrow>
          (case think_fetch_values E ids self of
             (results, self) \<Rightarrow>
               (hm_extend [(i, case r of
                    Some (GetterReply result) \<Rightarrow> result
                  | _ \<Rightarrow> Inl (ErrInternal (GenericError (te_recv_error E))))] results, self)))"

fun think_send_values ::
    "think_env \<Rightarrow> (SetterId \<times> Value) list \<Rightarrow> User \<Rightarrow> think \<Rightarrow> (SetterId, unit, Error) ResultMap \<times> think" where
  "think_send_values E [] user self = ([], self)"
| "think_send_values E ((i, value) # values) user self =
     (case ask_think E (\<lambda>tx. RespondToSetter tx i value user) self of
        (r, self) \<Rightarrow>
          (case think_send_values E values user self of
             (results, self) \<Rightarrow>
               (hm_extend [(i, case r of
                    Some (SetterReply result) \<Rightarrow> result
                  | _ \<Rightarrow> Inl (ErrInternal (GenericError (te_recv_error E))))] results, self)))"

definition think_register_watch :: "(GetterId \<times> Value option) list \<Rightarrow> (GetterId \<times> (Error + nat)) list" where
  "think_register_watch watch = map (\<lambda>(i, _). (i, Inl (GetterDoesNotSupportWatching i))) watch"

text \<open>The set-up: the stored scripts are loaded, and their services are requested from the thread,
  which starts last.\<close>

definition think_adapter :: adapter where
  "think_adapter = Adapter ''thinkerbell@link.mozilla.org'' 0"

definition think_init ::
    "think_env \<Rightarrow> script_row list \<Rightarrow> string option list \<Rightarrow> manager \<Rightarrow> ((Error + unit) \<times> think option \<times> manager) outcome" where
  "think_init E rows outcomes manager =
     (let adapter_id = ''thinkerbell@link.mozilla.org''; setter_add_rule_id = ''thinkerbell-add-rule'';
          root_service_id = ''thinkerbell-root-service'' in
      case tb_manager_new rows outcomes of
        (Inl e, _) \<Rightarrow> Done (Inl (sm_error E e), None, manager)
      | (Inr _, scripts) \<Rightarrow>
          (case tb_load (te_externals E) (te_read E) scripts of
             (Inl e, _) \<Rightarrow> Done (Inl (sm_error E e), None, manager)
           | (Inr result_map, scripts) \<Rightarrow>
               (case manager_add_adapter think_adapter manager of
                  (Inl e, manager) \<Rightarrow> Done (Inl e, None, manager)
                | (Inr _, manager) \<Rightarrow>
                    bind_outcome (manager_add_service (service_empty root_service_id adapter_id) manager) (\<lambda>(r, manager).
                      case r of
                        Inl e \<Rightarrow> Done (Inl e, None, manager)
                      | Inr _ \<Rightarrow>
                          bind_outcome (manager_add_setter
                            (rule_channel adapter_id root_service_id setter_add_rule_id KAddThinkerbellRule) manager) (\<lambda>(r, manager).
                              case r of
                                Inl e \<Rightarrow> Done (Inl e, None, manager)
                              | Inr _ \<Rightarrow>
                                  Done (Inr (), Some \<lparr>th_queue = map AddRuleService (hm_keys result_map), th_replies = [],
                                    th_next = 0, th_adapter_id = adapter_id, th_setter_add_rule_id = setter_add_rule_id,
                                    th_manager = manager, th_scripts = scripts, th_rules = [], th_dead = False\<rparr>,
                                    manager))))))"

end
