(* ===== verification/Think_Props.thy ===== *)
theory Think_Props
  imports Think_Adapter TB_Manager_Props
begin

text \<open>
  The adapter of the scripts: its thread takes the messages in order, so that a request that is
  asked is answered, by the script its channel names, unless the thread dies.
\<close>

section \<open>Runs\<close>

text \<open>Requests, turns of the thread, and whatever else happens to the adapter manager.\<close>

inductive th_reachable :: "think_env \<Rightarrow> think \<Rightarrow> bool" for E :: think_env where
  init: "think_init E rows outcomes m = Done (Inr (), Some self, m') \<Longrightarrow> th_reachable E self"
| get: "th_reachable E self \<Longrightarrow>
    th_reachable E (tell_think (RespondToGetter (th_next self) i) (self\<lparr>th_next := th_next self + 1\<rparr>))"
| set: "th_reachable E self \<Longrightarrow>
    th_reachable E (tell_think (RespondToSetter (th_next self) i value user) (self\<lparr>th_next := th_next self + 1\<rparr>))"
| turn: "th_reachable E self \<Longrightarrow> th_reachable E (think_turn E self)"
| others: "th_reachable E self \<Longrightarrow> th_reachable E (self\<lparr>th_manager := m\<rparr>)"

text \<open>The reply channel of a message.\<close>

fun reply_to :: "ThinkAction \<Rightarrow> nat set" where
  "reply_to (RespondToGetter tx _) = {tx}"
| "reply_to (RespondToSetter tx _ _ _) = {tx}"
| "reply_to _ = {}"

definition rules_inv :: "think \<Rightarrow> bool" where
  "rules_inv self \<longleftrightarrow> (\<forall>rule \<in> set (th_rules self). rule = rule_of (tr_script_id rule)) \<and>
     distinct (map tr_script_id (th_rules self)) \<and> th_setter_add_rule_id self = ''thinkerbell-add-rule''"

definition replies_inv :: "think \<Rightarrow> bool" where
  "replies_inv self \<longleftrightarrow> (\<forall>tx \<in> fst ` set (th_replies self). tx < th_next self) \<and>
     (\<forall>msg \<in> set (th_queue self). \<forall>tx \<in> reply_to msg. tx < th_next self)"

section \<open>Turns\<close>

lemma call_managerE:
  assumes "call_manager f k self = Done (r, s')"
  obtains (err) e m where "f (th_manager self) = Done (Inl e, m)" "r = Inl e" "s' = self\<lparr>th_manager := m\<rparr>"
    | (ok) m where "f (th_manager self) = Done (Inr (), m)" "k (self\<lparr>th_manager := m\<rparr>) = Done (r, s')"
proof -
  obtain x m where f: "f (th_manager self) = Done (x, m)"
    using assms by (cases "f (th_manager self)") (auto simp: call_manager_def)
  with assms have rest: "(case x of Inl err \<Rightarrow> Done (Inl err, self\<lparr>th_manager := m\<rparr>) | Inr _ \<Rightarrow> k (self\<lparr>th_manager := m\<rparr>)) = Done (r, s')"
    by (simp add: call_manager_def Let_def)
  show thesis
  proof (cases x)
    case (Inl e)
    with f rest err show thesis by simp
  next
    case (Inr u)
    with f rest ok show thesis by simp
  qed
qed

text \<open>Adding a service touches nothing but the adapter manager.\<close>

lemma add_rule_service_same:
  assumes "add_rule_service i self = Done (r, self')"
  shows "\<exists>m. self' = self\<lparr>th_manager := m\<rparr> \<and> (\<forall>rule. r = Inr rule \<longrightarrow> rule = rule_of i)"
  using assms unfolding add_rule_service_def Let_def by (elim call_managerE) auto

lemma extract_rule:
  assumes "rules_inv self" "List.extract (\<lambda>rule. tr_script_id rule = i) (th_rules self) = Some (xs, rule, ys)"
  shows "th_rules self = xs @ rule # ys" "tr_script_id rule = i"
    "\<forall>rule \<in> set (xs @ ys). tr_script_id rule \<noteq> i"
proof -
  from extract_SomeE [OF assms(2)] have eq: "th_rules self = xs @ rule # ys" and i: "tr_script_id rule = i"
    by auto
  then show "th_rules self = xs @ rule # ys" "tr_script_id rule = i" by simp_all
  from assms(1) eq i show "\<forall>rule \<in> set (xs @ ys). tr_script_id rule \<noteq> i"
    by (auto simp: rules_inv_def)
qed

text \<open>What a message can change besides the two managers: at the end of the queue, at the end of the
  replies, and the rules.\<close>

definition extends :: "nat set \<Rightarrow> think \<Rightarrow> think \<Rightarrow> bool" where
  "extends txs self self' \<longleftrightarrow>
     (\<exists>q. th_queue self' = th_queue self @ q \<and> (\<forall>msg \<in> set q. reply_to msg = {})) \<and>
     (\<exists>rs. th_replies self' = th_replies self @ rs \<and> (\<forall>r \<in> set rs. fst r \<in> txs)) \<and>
     th_next self' = th_next self \<and> th_dead self' = th_dead self"

lemma extends_scripts: "with_scripts f self = (r, self') \<Longrightarrow> \<exists>s. self' = self\<lparr>th_scripts := s\<rparr>"
  by (auto simp: with_scripts_def split: prod.splits)

lemma extends_reply: "extends {tx} self (reply_think tx r (self\<lparr>th_scripts := s\<rparr>))" "extends {tx} self (reply_think tx r self)"
  by (auto simp: extends_def reply_think_def)

lemma extends_tell:
  "extends txs self s \<Longrightarrow> reply_to msg = {} \<Longrightarrow> extends txs self (tell_think msg s)"
  by (auto simp: extends_def tell_think_def)

lemma respond_to_getter_extends: "extends {tx} self (respond_to_getter E tx i self)"
  unfolding respond_to_getter_def Let_def
  by (auto split: option.split prod.split sum.split dest!: extends_scripts intro: extends_reply)

lemma respond_to_setter_extends: "extends {tx} self (respond_to_setter E tx i v u self)"
  unfolding respond_to_setter_def Let_def setter_reply_def
  by (auto split: option.split prod.split sum.split Value.split dest!: extends_scripts
      intro!: extends_reply extends_tell)

lemma handle_action_extends:
  assumes "handle_action E action self = Done self'"
  shows "extends (reply_to action) self self'"
proof (cases action)
  case (AddRuleService i)
  have refl: "extends {} self self" by (simp add: extends_def)
  show ?thesis
  proof (cases "list_ex (\<lambda>rule. tr_script_id rule = i) (th_rules self)")
    case True
    with assms AddRuleService refl show ?thesis by (simp add: handle_action_def)
  next
    case False
    with assms AddRuleService obtain r s where run: "add_rule_service i self = Done (r, s)"
      and rest: "(case r of Inr rule \<Rightarrow> Done (s\<lparr>th_rules := th_rules s @ [rule]\<rparr>) | Inl e \<Rightarrow> Done s) = Done self'"
      by (cases "add_rule_service i self") (auto simp: handle_action_def)
    from add_rule_service_same [OF run] rest AddRuleService show ?thesis
      by (cases r) (auto simp: extends_def)
  qed
next
  case (RemoveRuleService i)
  with assms show ?thesis
    by (auto simp: handle_action_def extends_def remove_rule_service_def split: option.splits prod.splits)
next
  case (RespondToGetter tx i)
  with assms respond_to_getter_extends show ?thesis by (auto simp: handle_action_def)
next
  case (RespondToSetter tx i v u)
  with assms respond_to_setter_extends show ?thesis by (auto simp: handle_action_def)
qed

lemma think_turn_cases:
  assumes "th_queue self = action # queue"
  obtains (dies) "handle_action E action (self\<lparr>th_queue := queue\<rparr>) = Panic"
      "think_turn E self = self\<lparr>th_queue := [], th_dead := True\<rparr>"
    | (lives) self' where "handle_action E action (self\<lparr>th_queue := queue\<rparr>) = Done self'" "think_turn E self = self'"
      "extends (reply_to action) (self\<lparr>th_queue := queue\<rparr>) self'"
  using assms handle_action_extends [of E action "self\<lparr>th_queue := queue\<rparr>"]
  by (cases "handle_action E action (self\<lparr>th_queue := queue\<rparr>)") (auto simp: think_turn_def)

text \<open>The rules stay those of their scripts.\<close>

lemma with_scripts_rules:
  "with_scripts f self = (r, s) \<Longrightarrow> th_rules s = th_rules self \<and> th_setter_add_rule_id s = th_setter_add_rule_id self"
  by (auto simp: with_scripts_def split: prod.splits)

lemma respond_rules:
  "th_rules (respond_to_getter E tx i self) = th_rules self"
  "th_rules (respond_to_setter E tx i v u self) = th_rules self"
  "th_setter_add_rule_id (respond_to_getter E tx i self) = th_setter_add_rule_id self"
  "th_setter_add_rule_id (respond_to_setter E tx i v u self) = th_setter_add_rule_id self"
  unfolding respond_to_getter_def respond_to_setter_def setter_reply_def Let_def reply_think_def tell_think_def
  by (auto split: option.split prod.split sum.split Value.split dest!: with_scripts_rules)

lemma handle_action_rules:
  assumes inv: "rules_inv self" and run: "handle_action E action self = Done self'"
  shows "rules_inv self'"
proof (cases action)
  case (AddRuleService i)
  show ?thesis
  proof (cases "list_ex (\<lambda>rule. tr_script_id rule = i) (th_rules self)")
    case True
    with run AddRuleService inv show ?thesis by (simp add: handle_action_def)
  next
    case False
    with run AddRuleService obtain r s where add: "add_rule_service i self = Done (r, s)"
      and rest: "(case r of Inr rule \<Rightarrow> Done (s\<lparr>th_rules := th_rules s @ [rule]\<rparr>) | Inl e \<Rightarrow> Done s) = Done self'"
      by (cases "add_rule_service i self") (auto simp: handle_action_def)
    from False have "i \<notin> tr_script_id ` set (th_rules self)" by (auto simp: list_ex_iff)
    moreover have "tr_script_id (rule_of i) = i" by (simp add: rule_of_def Let_def)
    ultimately show ?thesis
      using add_rule_service_same [OF add] rest inv by (cases r) (auto simp: rules_inv_def)
  qed
next
  case (RemoveRuleService i)
  show ?thesis
  proof (cases "List.extract (\<lambda>rule. tr_script_id rule = i) (th_rules self)")
    case None
    with run RemoveRuleService inv show ?thesis by (simp add: handle_action_def)
  next
    case (Some found)
    obtain xs rule ys where "found = (xs, rule, ys)" by (cases found)
    with Some run RemoveRuleService have "th_rules self' = xs @ ys"
      and "th_setter_add_rule_id self' = th_setter_add_rule_id self"
      by (auto simp: handle_action_def remove_rule_service_def split: prod.splits)
    moreover from extract_rule(1) [OF inv, of i xs rule ys] Some \<open>found = _\<close>
    have "th_rules self = xs @ rule # ys" by simp
    ultimately show ?thesis using inv by (auto simp: rules_inv_def)
  qed
next
  case (RespondToGetter tx i)
  with run inv show ?thesis by (auto simp: handle_action_def rules_inv_def respond_rules)
next
  case (RespondToSetter tx i v u)
  with run inv show ?thesis by (auto simp: handle_action_def rules_inv_def respond_rules)
qed

lemma think_turn_rules: "rules_inv self \<Longrightarrow> rules_inv (think_turn E self)"
proof (cases "th_queue self")
  case Nil
  then show "rules_inv self \<Longrightarrow> ?thesis" by (simp add: think_turn_def)
next
  case (Cons action queue)
  assume "rules_inv self"
  then have inv: "rules_inv (self\<lparr>th_queue := queue\<rparr>)" by (simp add: rules_inv_def)
  from Cons show ?thesis
  proof (cases rule: think_turn_cases [where E = E])
    case dies
    with \<open>rules_inv self\<close> show ?thesis by (simp add: rules_inv_def)
  next
    case (lives self')
    from handle_action_rules [OF inv lives(1)] lives(2) show ?thesis by simp
  qed
qed

lemma think_turn_replies:
  assumes inv: "replies_inv self"
  shows "replies_inv (think_turn E self)"
proof (cases "th_queue self")
  case Nil
  with inv show ?thesis by (simp add: think_turn_def)
next
  case (Cons action queue)
  from Cons show ?thesis
  proof (cases rule: think_turn_cases [where E = E])
    case dies
    with inv show ?thesis by (simp add: replies_inv_def)
  next
    case (lives self')
    then obtain q rs where "th_queue self' = queue @ q" "\<forall>msg \<in> set q. reply_to msg = {}"
      "th_replies self' = th_replies self @ rs" "\<forall>r \<in> set rs. fst r \<in> reply_to action" "th_next self' = th_next self"
      by (auto simp: extends_def)
    then show ?thesis using inv Cons lives(2) by (auto simp: replies_inv_def)
  qed
qed

lemma bind_sumE:
  assumes "bind_outcome f (\<lambda>(r, m). case r of Inl e \<Rightarrow> g e m | Inr _ \<Rightarrow> h m) = Done y"
  obtains e m where "f = Done (Inl e, m)" "g e m = Done y" | m where "f = Done (Inr (), m)" "h m = Done y"
proof -
  obtain r m where f: "f = Done (r, m)" using assms by (cases f) auto
  show thesis
  proof (cases r)
    case (Inl e)
    with f assms that(1) show thesis by simp
  next
    case (Inr u)
    with f assms that(2) show thesis by simp
  qed
qed

lemma think_init_result:
  assumes "think_init E rows outcomes m = Done (Inr (), Some self, m')"
  shows "\<exists>scripts (result_map :: (ScriptId \<times> (TBError + unit)) list) m1.
    self = \<lparr>th_queue = map AddRuleService (hm_keys result_map), th_replies = [],
      th_next = 0, th_adapter_id = ''thinkerbell@link.mozilla.org'', th_setter_add_rule_id = ''thinkerbell-add-rule'',
      th_manager = m1, th_scripts = scripts, th_rules = [], th_dead = False\<rparr>"
proof -
  obtain r scripts0 where new: "tb_manager_new rows outcomes = (r, scripts0)" by fastforce
  with assms have "r = Inr ()" by (cases r) (auto simp: think_init_def Let_def)
  obtain r1 scripts where load: "tb_load (te_externals E) (te_read E) scripts0 = (r1, scripts)" by fastforce
  with assms new \<open>r = _\<close> obtain result_map where "r1 = Inr result_map" by (cases r1) (auto simp: think_init_def Let_def)
  obtain r2 m2 where ad: "manager_add_adapter think_adapter m = (r2, m2)" by fastforce
  with assms new load \<open>r = _\<close> \<open>r1 = _\<close> have "r2 = Inr ()" by (cases r2) (auto simp: think_init_def Let_def)
  from assms show ?thesis
    unfolding think_init_def Let_def new load ad \<open>r = _\<close> \<open>r1 = _\<close> \<open>r2 = _\<close> prod.case sum.case
    by (elim bind_sumE) auto
qed

lemma th_reachable_inv: "th_reachable E self \<Longrightarrow> rules_inv self \<and> replies_inv self"
proof (induction rule: th_reachable.induct)
  case (init rows outcomes m self m')
  from think_init_result [OF this]
  show ?case by (auto simp: rules_inv_def replies_inv_def)
next
  case (get self i)
  then show ?case by (auto simp: rules_inv_def replies_inv_def tell_think_def less_Suc_eq)
next
  case (set self i v user)
  then show ?case by (auto simp: rules_inv_def replies_inv_def tell_think_def less_Suc_eq)
next
  case (turn self)
  then show ?case using think_turn_rules think_turn_replies by blast
next
  case (others self m)
  then show ?case by (simp add: rules_inv_def replies_inv_def)
qed

section \<open>Every request is answered\<close>

lemma turns_reach:
  assumes "th_queue self = pre @ msg # post" "\<not> th_dead self"
  shows "let s = (think_turn E ^^ length pre) self in
    (th_dead s \<and> th_queue s = [] \<or> \<not> th_dead s \<and> (\<exists>post'. th_queue s = msg # post')) \<and>
    (\<exists>rs. th_replies s = th_replies self @ rs \<and> (\<forall>r \<in> set rs. \<exists>m \<in> set pre. fst r \<in> reply_to m))"
  using assms
proof (induction pre arbitrary: self post)
  case (Cons action pre)
  have dead: "(think_turn E ^^ n) s = s" if "th_queue s = []" for n s
    using that by (induction n) (auto simp: think_turn_def)
  from Cons.prems(1) have q: "th_queue self = action # (pre @ msg # post)" by simp
  then show ?case
  proof (cases rule: think_turn_cases [where E = E])
    case dies
    then show ?thesis by (simp add: funpow_Suc_right dead del: funpow.simps)
  next
    case (lives self')
    then obtain q' rs where q': "th_queue self' = pre @ msg # (post @ q')" and rs: "th_replies self' = th_replies self @ rs"
      "\<forall>r \<in> set rs. fst r \<in> reply_to action" and "\<not> th_dead self'"
      using Cons.prems(2) by (auto simp: extends_def)
    from Cons.IH [OF q' \<open>\<not> th_dead self'\<close>] rs lives(2) show ?thesis
      by (auto simp: Let_def funpow_Suc_right image_Un simp del: funpow.simps)
  qed
qed simp

lemma respond_replies:
  "\<exists>res. th_replies (respond_to_getter E tx i self) = th_replies self @ [(tx, GetterReply res)]"
  "\<exists>res. th_replies (respond_to_setter E tx i v u self) = th_replies self @ [(tx, SetterReply res)]"
proof -
  have same: "th_replies s = th_replies self" if "with_scripts f self = (r, s)" for f :: "'a tb" and r s
    using that by (auto simp: with_scripts_def split: prod.splits)
  show "\<exists>res. th_replies (respond_to_getter E tx i self) = th_replies self @ [(tx, GetterReply res)]"
    by (auto simp: respond_to_getter_def Let_def reply_think_def with_scripts_def
        split: option.split prod.split sum.split)
  show "\<exists>res. th_replies (respond_to_setter E tx i v u self) = th_replies self @ [(tx, SetterReply res)]"
    by (auto simp: respond_to_setter_def Let_def reply_think_def tell_think_def with_scripts_def setter_reply_def
        split: option.split prod.split sum.split Value.split)
qed

text \<open>What a request that is asked gets.\<close>

lemma ask_answered:
  assumes inv: "replies_inv self" and alive: "\<not> th_dead self"
    and tx: "reply_to (msg (th_next self)) = {th_next self}"
    and reply: "\<And>s. \<exists>s' r. handle_action E (msg (th_next self)) s = Done s' \<and> K r \<and>
      th_replies s' = th_replies s @ [(th_next self, r)] \<and> th_dead s' = th_dead s"
  shows "\<exists>r self'. ask_think E msg self = (r, self') \<and> (r = None \<longleftrightarrow> th_dead self') \<and> (\<forall>x. r = Some x \<longrightarrow> K x)"
proof -
  define start where "start = tell_think (msg (th_next self)) (self\<lparr>th_next := th_next self + 1\<rparr>)"
  define s where "s = (think_turn E ^^ length (th_queue self)) start"
  have q: "th_queue start = th_queue self @ msg (th_next self) # []" and "\<not> th_dead start"
    and replies: "th_replies start = th_replies self"
    using alive by (simp_all add: start_def tell_think_def)
  from turns_reach [OF q \<open>\<not> th_dead start\<close>, of E] obtain rs where
    s: "th_dead s \<and> th_queue s = [] \<or> \<not> th_dead s \<and> (\<exists>post'. th_queue s = msg (th_next self) # post')"
    and rs: "th_replies s = th_replies self @ rs" "\<forall>r \<in> set rs. \<exists>m \<in> set (th_queue self). fst r \<in> reply_to m"
    by (auto simp: Let_def s_def replies)
  have ask: "ask_think E msg self = (map_of (th_replies (think_turn E s)) (th_next self), think_turn E s)"
    using alive by (simp add: ask_think_def Let_def s_def start_def tell_think_def funpow_swap1)
  have "th_next self \<notin> fst ` set (th_replies s)"
    using inv rs by (fastforce simp: replies_inv_def image_Un)
  then have fresh: "map_of (th_replies s) (th_next self) = None" by (simp add: map_of_eq_None_iff)
  from s show ?thesis
  proof (elim disjE conjE exE)
    assume "th_dead s" "th_queue s = []"
    with ask fresh show ?thesis by (auto simp: think_turn_def)
  next
    fix post'
    assume "\<not> th_dead s" and q: "th_queue s = msg (th_next self) # post'"
    from reply [of "s\<lparr>th_queue := post'\<rparr>"] obtain s' r where
      "handle_action E (msg (th_next self)) (s\<lparr>th_queue := post'\<rparr>) = Done s'" "K r"
      "th_replies s' = th_replies s @ [(th_next self, r)]" "\<not> th_dead s'"
      using \<open>\<not> th_dead s\<close> by auto
    with ask q fresh show ?thesis
      by (auto simp: think_turn_def map_add_def)
  qed
qed

lemma ask_getter:
  assumes "replies_inv self" "\<not> th_dead self"
  shows "\<exists>r self'. ask_think E (\<lambda>tx. RespondToGetter tx i) self = (r, self') \<and> (r = None \<longleftrightarrow> th_dead self') \<and>
    (\<forall>x. r = Some x \<longrightarrow> (\<exists>res. x = GetterReply res))"
proof (rule ask_answered [OF assms])
  fix s
  from respond_replies(1) [of E "th_next self" i s] respond_to_getter_extends [of "th_next self" s E i]
  show "\<exists>s' r. handle_action E (RespondToGetter (th_next self) i) s = Done s' \<and> (\<exists>res. r = GetterReply res) \<and>
      th_replies s' = th_replies s @ [(th_next self, r)] \<and> th_dead s' = th_dead s"
    by (auto simp: handle_action_def extends_def)
qed simp

lemma ask_setter:
  assumes "replies_inv self" "\<not> th_dead self"
  shows "\<exists>r self'. ask_think E (\<lambda>tx. RespondToSetter tx i v u) self = (r, self') \<and> (r = None \<longleftrightarrow> th_dead self') \<and>
    (\<forall>x. r = Some x \<longrightarrow> (\<exists>res. x = SetterReply res))"
proof (rule ask_answered [OF assms])
  fix s
  from respond_replies(2) [of E "th_next self" i v u s] respond_to_setter_extends [of "th_next self" s E i v u]
  show "\<exists>s' r. handle_action E (RespondToSetter (th_next self) i v u) s = Done s' \<and> (\<exists>res. r = SetterReply res) \<and>
      th_replies s' = th_replies s @ [(th_next self, r)] \<and> th_dead s' = th_dead s"
    by (auto simp: handle_action_def extends_def)
qed simp


section \<open>Requests reach their script\<close>

lemma find_unique:
  assumes "x \<in> set xs" "P x" "\<And>y. y \<in> set xs \<Longrightarrow> P y \<Longrightarrow> y = x"
  shows "find P xs = Some x"
proof (cases "find P xs")
  case None
  with assms(1,2) show ?thesis by (auto simp: find_None_iff)
next
  case (Some y)
  then have "P y" "y \<in> set xs" by (auto simp: find_Some_iff)
  with Some assms(3) show ?thesis by simp
qed

lemma append_last_neq:
  assumes "last xs \<noteq> last ys" "xs \<noteq> []" "ys \<noteq> []"
  shows "a @ xs \<noteq> b @ ys"
proof
  assume "a @ xs = b @ ys"
  then have "last (a @ xs) = last (b @ ys)" by simp
  with assms show False by simp
qed

lemma rule_of_simps [simp]:
  "tr_script_id (rule_of i) = i"
  "tr_service_id (rule_of i) = ''thinkerbell/'' @ i"
  "tr_getter_is_enabled_id (rule_of i) = ''thinkerbell/'' @ i @ ''/get_enabled''"
  "tr_getter_source_id (rule_of i) = ''thinkerbell/'' @ i @ ''/source''"
  "tr_setter_is_enabled_id (rule_of i) = ''thinkerbell/'' @ i @ ''/set_enabled''"
  "tr_setter_remove_id (rule_of i) = ''thinkerbell/'' @ i @ ''/remove''"
  by (simp_all add: rule_of_def Let_def)

lemma id_suffixes [simp]:
  "i @ ''/get_enabled'' \<noteq> j @ ''/source''" "i @ ''/source'' \<noteq> j @ ''/get_enabled''"
  "i @ ''/set_enabled'' \<noteq> j @ ''/remove''" "i @ ''/remove'' \<noteq> j @ ''/set_enabled''"
  by (rule append_last_neq; simp)+

lemma find_rule:
  assumes inv: "rules_inv self" and i: "i \<in> tr_script_id ` set (th_rules self)"
  shows "find (\<lambda>rule. ''thinkerbell/'' @ i @ ''/get_enabled'' = tr_getter_is_enabled_id rule \<or>
      ''thinkerbell/'' @ i @ ''/get_enabled'' = tr_getter_source_id rule) (th_rules self) = Some (rule_of i)"
    "find (\<lambda>rule. ''thinkerbell/'' @ i @ ''/source'' = tr_getter_is_enabled_id rule \<or>
      ''thinkerbell/'' @ i @ ''/source'' = tr_getter_source_id rule) (th_rules self) = Some (rule_of i)"
    "find (\<lambda>rule. ''thinkerbell/'' @ i @ ''/set_enabled'' = tr_setter_is_enabled_id rule \<or>
      ''thinkerbell/'' @ i @ ''/set_enabled'' = tr_setter_remove_id rule) (th_rules self) = Some (rule_of i)"
    "find (\<lambda>rule. ''thinkerbell/'' @ i @ ''/remove'' = tr_setter_is_enabled_id rule \<or>
      ''thinkerbell/'' @ i @ ''/remove'' = tr_setter_remove_id rule) (th_rules self) = Some (rule_of i)"
proof -
  have rule: "\<exists>j. rule = rule_of j" if "rule \<in> set (th_rules self)" for rule
    using inv that by (auto simp: rules_inv_def)
  have mem: "rule_of i \<in> set (th_rules self)" using inv i by (auto simp: rules_inv_def)
  show "find (\<lambda>rule. ''thinkerbell/'' @ i @ ''/get_enabled'' = tr_getter_is_enabled_id rule \<or>
      ''thinkerbell/'' @ i @ ''/get_enabled'' = tr_getter_source_id rule) (th_rules self) = Some (rule_of i)"
    by (rule find_unique [OF mem]) (auto dest!: rule)
  show "find (\<lambda>rule. ''thinkerbell/'' @ i @ ''/source'' = tr_getter_is_enabled_id rule \<or>
      ''thinkerbell/'' @ i @ ''/source'' = tr_getter_source_id rule) (th_rules self) = Some (rule_of i)"
    by (rule find_unique [OF mem]) (auto dest!: rule)
  show "find (\<lambda>rule. ''thinkerbell/'' @ i @ ''/set_enabled'' = tr_setter_is_enabled_id rule \<or>
      ''thinkerbell/'' @ i @ ''/set_enabled'' = tr_setter_remove_id rule) (th_rules self) = Some (rule_of i)"
    by (rule find_unique [OF mem]) (auto dest!: rule)
  show "find (\<lambda>rule. ''thinkerbell/'' @ i @ ''/remove'' = tr_setter_is_enabled_id rule \<or>
      ''thinkerbell/'' @ i @ ''/remove'' = tr_setter_remove_id rule) (th_rules self) = Some (rule_of i)"
    by (rule find_unique [OF mem]) (auto dest!: rule)
qed

lemma respond_to_remove:
  assumes "rules_inv self" "i \<in> tr_script_id ` set (th_rules self)"
  shows "respond_to_setter E tx (''thinkerbell/'' @ i @ ''/remove'') v u self =
      (case with_scripts (tb_remove (te_externals E) (te_read E) i) self of
         (r, self) \<Rightarrow> tell_think (RemoveRuleService i) (reply_think tx (setter_reply E r) self))"
  using find_rule(4) [OF assms] assms(1) by (simp add: respond_to_setter_def rules_inv_def)

text \<open>C12: A request to a channel of the service of a script is answered by this script: whether it runs,
  its stored source, its being enabled, disabled or removed, whatever the ids of the other scripts
  are.\<close>

theorem requests_reach_their_script:
  assumes "th_reachable E self" "i \<in> tr_script_id ` set (th_rules self)"
  shows "respond_to_getter E tx (''thinkerbell/'' @ i @ ''/get_enabled'') self =
      reply_think tx (GetterReply (Inr (Some (VOnOff (if tb_is_enabled (th_scripts self) i then On else Off))))) self \<and>
    respond_to_getter E tx (''thinkerbell/'' @ i @ ''/source'') self =
      (case with_scripts (get_source_and_owner i) self of
         (Inr (source, _), self) \<Rightarrow> reply_think tx (GetterReply (Inr (Some (VString source)))) self
       | (Inl e, self) \<Rightarrow> reply_think tx (GetterReply (Inl (sm_error E e))) self) \<and>
    respond_to_setter E tx (''thinkerbell/'' @ i @ ''/set_enabled'') (VOnOff onoff) u self =
      (case with_scripts (set_enabled (te_externals E) (te_read E) i (onoff = On)) self of
         (r, self) \<Rightarrow> reply_think tx (setter_reply E r) self) \<and>
    respond_to_setter E tx (''thinkerbell/'' @ i @ ''/remove'') v u self =
      (case with_scripts (tb_remove (te_externals E) (te_read E) i) self of
         (r, self) \<Rightarrow> tell_think (RemoveRuleService i) (reply_think tx (setter_reply E r) self))"
proof -
  have inv: "rules_inv self" using th_reachable_inv [OF assms(1)] by simp
  note find_rule [OF inv assms(2)]
  with inv respond_to_remove [OF inv assms(2)] show ?thesis
    by (simp add: respond_to_getter_def respond_to_setter_def rules_inv_def split: sum.split prod.split)
qed

text \<open>When removing a script fails, its service is removed all the same: the requester gets the
  error, and no channel is left to disable or remove the script, which stays as it was.\<close>

theorem failed_removal_hides_the_script:
  assumes "th_reachable E self" "i \<in> tr_script_id ` set (th_rules self)"
    and "th_queue self = [RespondToSetter tx (''thinkerbell/'' @ i @ ''/remove'') v u]"
    and "tb_remove (te_externals E) (te_read E) i (th_scripts self) = (Inl e, scripts)"
  shows "\<exists>self'. think_turn E (think_turn E self) = self' \<and> th_scripts self' = scripts \<and>
    th_replies self' = th_replies self @ [(tx, SetterReply (Inl (sm_error E e)))] \<and>
    i \<notin> tr_script_id ` set (th_rules self') \<and> th_queue self' = []"
proof -
  have inv: "rules_inv self" using th_reachable_inv [OF assms(1)] by simp
  let ?self1 = "self\<lparr>th_queue := [RemoveRuleService i], th_scripts := scripts,
    th_replies := th_replies self @ [(tx, SetterReply (Inl (sm_error E e)))]\<rparr>"
  have inv0: "rules_inv (self\<lparr>th_queue := []\<rparr>)" "i \<in> tr_script_id ` set (th_rules (self\<lparr>th_queue := []\<rparr>))"
    using inv assms(2) by (simp_all add: rules_inv_def)
  define rid where "rid = ''thinkerbell/'' @ i @ ''/remove''"
  have q: "th_queue self = [RespondToSetter tx rid v u]" using assms(3) by (simp only: rid_def)
  have turn1: "think_turn E self = ?self1"
    using q assms(4) by (simp add: think_turn_def handle_action_def respond_to_remove [OF inv0, folded rid_def]
        with_scripts_def setter_reply_def reply_think_def tell_think_def)
  have "List.extract (\<lambda>rule. tr_script_id rule = i) (th_rules self) \<noteq> None"
    using assms(2) by (auto simp: extract_None_iff)
  then obtain xs rule ys where ex: "List.extract (\<lambda>rule. tr_script_id rule = i) (th_rules self) = Some (xs, rule, ys)"
    by auto
  obtain r m where rem: "manager_remove_service (tr_service_id rule) (th_manager self) = (r, m)" by fastforce
  have "think_turn E ?self1 = ?self1\<lparr>th_queue := [], th_rules := xs @ ys, th_manager := m\<rparr>"
    using ex rem by (simp add: think_turn_def handle_action_def remove_rule_service_def)
  with turn1 extract_rule(3) [OF inv ex] show ?thesis by auto
qed

section \<open>Witnesses\<close>

text \<open>A stored script that does not parse any more; the database fails after it has been loaded.\<close>

definition think_sample_env :: think_env where
  "think_sample_env = \<lparr>te_externals = sample_externals, te_read = (\<lambda>_. Inl ''syntax''), te_show_err = (\<lambda>_. ''error''),
     te_recv_error = ''RecvError''\<rparr>"

definition think_start :: "((Error + unit) \<times> think option \<times> manager) outcome" where
  "think_start = think_init think_sample_env [(''x'', ''?'', True, -1)] (replicate 6 None @ [Some ''io'']) (manager_new None)"

definition think0 :: think where
  "think0 = (case think_start of Done (_, Some self, _) \<Rightarrow> think_turn think_sample_env self)"

lemma think0_ok:
  "(case think_start of Done (Inr _, Some self, _) \<Rightarrow> True | _ \<Rightarrow> False) \<and>
   map tr_script_id (th_rules think0) = [''x''] \<and> th_queue think0 = [] \<and> \<not> th_dead think0 \<and> th_replies think0 = [] \<and>
   sm_outcomes (th_scripts think0) = [Some ''io''] \<and> th_next think0 = 0"
  by code_simp

lemma think0_reachable: "th_reachable think_sample_env think0"
proof -
  from think0_ok have ok: "case think_start of Done (Inr _, Some self, _) \<Rightarrow> True | _ \<Rightarrow> False" by simp
  obtain r th m where start: "think_start = Done (r, th, m)" using ok by (cases think_start) auto
  from ok [unfolded start] obtain self where "r = Inr ()" "th = Some self" by (cases r; cases th) auto
  with start have "think_start = Done (Inr (), Some self, m)" by simp
  then show ?thesis
    unfolding think0_def by (simp add: th_reachable.turn [OF th_reachable.init] think_start_def)
qed

lemma think0_rule: "''x'' \<in> tr_script_id ` set (th_rules think0)"
proof -
  have "''x'' \<in> set (map tr_script_id (th_rules think0))" using think0_ok by simp
  then show ?thesis by simp
qed


theorem requests_reach_their_script_witness:
  "th_replies (respond_to_getter think_sample_env 7 ''thinkerbell/x/get_enabled'' think0) =
     [(7, GetterReply (Inr (Some (VOnOff Off))))]"
proof -
  have "\<not> tb_is_enabled (th_scripts think0) ''x'' \<and> th_replies think0 = []" by code_simp
  with requests_reach_their_script [OF think0_reachable think0_rule] show ?thesis by (simp add: reply_think_def)
qed

definition think1 :: think where
  "think1 = tell_think (RespondToSetter (th_next think0) ''thinkerbell/x/remove'' VUnit NoUser)
     (think0\<lparr>th_next := th_next think0 + 1\<rparr>)"

theorem failed_removal_hides_the_script_witness:
  "\<exists>self'. think_turn think_sample_env (think_turn think_sample_env think1) = self' \<and>
     th_replies self' = [(0, SetterReply (Inl (sm_error think_sample_env (SQLError ''io''))))] \<and>
     ''x'' \<notin> tr_script_id ` set (th_rules self')"
proof -
  have reach: "th_reachable think_sample_env think1"
    unfolding think1_def by (rule th_reachable.set [OF think0_reachable])
  have rule: "''x'' \<in> tr_script_id ` set (th_rules think1)"
    using think0_rule by (simp add: think1_def tell_think_def)
  have q: "th_queue think1 = [RespondToSetter 0 (''thinkerbell/'' @ ''x'' @ ''/remove'') VUnit NoUser]"
    "th_replies think1 = []"
    using think0_ok by (simp_all add: think1_def tell_think_def)
  have "fst (tb_remove (te_externals think_sample_env) (te_read think_sample_env) ''x'' (th_scripts think1)) = Inl (SQLError ''io'')"
    by code_simp
  then have "tb_remove (te_externals think_sample_env) (te_read think_sample_env) ''x'' (th_scripts think1) =
      (Inl (SQLError ''io''), snd (tb_remove (te_externals think_sample_env) (te_read think_sample_env) ''x'' (th_scripts think1)))"
    by (simp add: prod_eq_iff)
  from failed_removal_hides_the_script [OF reach rule q(1) this] q(2) show ?thesis by auto
qed

end
