(* ===== verification/Openzwave.thy ===== *)
theory Openzwave
  imports Backend_State
begin

text \<open>
  \<^verbatim>\<open>components/openzwave-adapter/src\<close>: the adapter of Z-Wave devices: the maps between the ids of the
  taxonomy and those of the devices (\<^verbatim>\<open>id_map.rs\<close>), the watchers (\<^verbatim>\<open>watchers.rs\<close>), the thread that
  handles the notifications of the library and the operations of the adapter (\<^verbatim>\<open>lib.rs\<close>). The library
  that drives the devices is the parameter \<open>device\<close>: what it says of a value when it is asked, and the
  error of setting one. The calls to the adapter manager are logged, since their results are only
  printed; so are the events, with the key of the watcher they are sent to.
\<close>

section \<open>Ids\<close>

type_synonym ('i, 'o) id_map = "('i \<times> 'o) list"

definition id_map_push :: "'i \<Rightarrow> 'o \<Rightarrow> ('i, 'o) id_map \<Rightarrow> ('i, 'o) id_map" where
  "id_map_push i ozw_object m = m @ [(i, ozw_object)]"

definition find_taxo_id_from_ozw :: "'o \<Rightarrow> ('i, 'o) id_map \<Rightarrow> 'i option" where
  "find_taxo_id_from_ozw needle m = map_option fst (find (\<lambda>(_, item). item = needle) m)"

definition find_ozw_from_taxo_id :: "'i \<Rightarrow> ('i, 'o) id_map \<Rightarrow> 'o option" where
  "find_ozw_from_taxo_id needle m = map_option snd (find (\<lambda>(i, _). i = needle) m)"

section \<open>Watchers\<close>

text \<open>The sender of a watcher lives in the map until the guard is dropped; the lists of a getter only
  hold weak references to it, its key.\<close>

record watchers =
  ow_current_index :: nat
  ow_map :: "(nat, nat) hashmap"
  ow_getter_map :: "(GetterId, (Range option \<times> nat) list) hashmap"

definition watchers_new :: watchers where
  "watchers_new = \<lparr>ow_current_index = 0, ow_map = [], ow_getter_map = []\<rparr>"

definition watchers_push :: "GetterId \<Rightarrow> Range option \<Rightarrow> nat \<Rightarrow> watchers \<Rightarrow> nat \<times> watchers" where
  "watchers_push taxo_id rng watcher self =
     (let index = ow_current_index self;
          entry = (case hm_get (ow_getter_map self) taxo_id of None \<Rightarrow> [] | Some v \<Rightarrow> v)
      in (index, self\<lparr>ow_current_index := index + 1, ow_map := hm_insert index watcher (ow_map self),
            ow_getter_map := hm_insert taxo_id (entry @ [(rng, index)]) (ow_getter_map self)\<rparr>))"

definition get_from_taxo_id :: "GetterId \<Rightarrow> watchers \<Rightarrow> (Range option \<times> nat) list option" where
  "get_from_taxo_id taxo_id self =
     (case hm_get (ow_getter_map self) taxo_id of
        None \<Rightarrow> None
      | Some v \<Rightarrow>
          (let v = filter (\<lambda>(_, sender). hm_has (ow_map self) sender) v
           in if v = [] then None else Some v))"

definition watcher_guard_drop :: "nat \<Rightarrow> watchers \<Rightarrow> watchers" where
  "watcher_guard_drop key self = self\<lparr>ow_map := hm_remove key (ow_map self)\<rparr>"

section \<open>Devices\<close>

datatype zw_type = ValueType_Bool | OtherType string

datatype zw_class = ClassDoorLock | ClassSensorBinary | OtherClass nat

record zw_node =
  zn_home_id :: nat
  zn_id :: nat
  zn_name :: string
  zn_product_name :: string
  zn_manufacturer_name :: string
  zn_location :: string

record value_id =
  vid_home_id :: nat
  vid_id :: nat
  vid_label :: string
  vid_node :: zw_node
  vid_type :: zw_type
  vid_command_class :: "zw_class option"
  vid_command_class_id :: nat
  vid_index :: nat
  vid_user_genre :: bool
  vid_write_only :: bool
  vid_read_only :: bool

record device =
  dev_is_set :: "value_id \<Rightarrow> bool"
  dev_as_bool :: "value_id \<Rightarrow> bool option"
  dev_set_bool :: "value_id \<Rightarrow> bool \<Rightarrow> string option" \<comment> \<open>the error, if it fails\<close>

datatype event_type = EventEnter | EventExit

definition should_send :: "Range option \<Rightarrow> Value \<Rightarrow> event_type \<Rightarrow> bool outcome" where
  "should_send self value event_type =
     (case self of
        None \<Rightarrow> Done (event_type = EventEnter)
      | Some rng \<Rightarrow> range_contains rng value)"

definition taxo_kind_from_ozw_vid :: "value_id \<Rightarrow> ChannelKind option" where
  "taxo_kind_from_ozw_vid vid =
     (case (vid_type vid, vid_command_class vid) of
        (ValueType_Bool, Some ClassDoorLock) \<Rightarrow> if vid_index vid = 0 then Some KDoorLocked else None
      | (ValueType_Bool, Some ClassSensorBinary) \<Rightarrow> Some KOpenClosed
      | _ \<Rightarrow> None)"

definition ozw_vid_as_taxo_value :: "device \<Rightarrow> value_id \<Rightarrow> Value option" where
  "ozw_vid_as_taxo_value dev vid =
     (if vid_command_class vid = None then None
      else case vid_type vid of
        ValueType_Bool \<Rightarrow>
          (case dev_as_bool dev vid of
             Some value \<Rightarrow>
               (case taxo_kind_from_ozw_vid vid of
                  Some KOpenClosed \<Rightarrow> Some (VOpenClosed (if value then Open else Closed))
                | Some KDoorLocked \<Rightarrow> Some (VDoorLocked (if value then Locked else Unlocked))
                | _ \<Rightarrow> None)
           | None \<Rightarrow> None)
      | _ \<Rightarrow> None)"

text \<open>The result, and the command to the device.\<close>

definition set_ozw_vid_from_taxo_value ::
    "device \<Rightarrow> value_id \<Rightarrow> Value \<Rightarrow> (Error + unit) \<times> (value_id \<times> bool) list" where
  "set_ozw_vid_from_taxo_value dev vid value =
     (let set_bool = (\<lambda>b. (case dev_set_bool dev vid b of
              None \<Rightarrow> Inr ()
            | Some e \<Rightarrow> Inl (ErrInternal (GenericError (''Error while setting a value: '' @ e))), [(vid, b)]))
      in if vid_command_class vid = None then
           (Inl (ErrInternal (GenericError (''Unknown command class: '' @ show_nat (vid_command_class_id vid)))), [])
         else case vid_type vid of
           ValueType_Bool \<Rightarrow>
             (case value of
                VOpenClosed open_closed \<Rightarrow> set_bool (open_closed = Open)
              | VDoorLocked locked_unlocked \<Rightarrow> set_bool (locked_unlocked = Locked)
              | _ \<Rightarrow> (Inl (InvalidValue value), []))
         | OtherType typ \<Rightarrow> (Inl (ErrInternal (GenericError (''Unsupported OZW type: '' @ typ))), []))"

section \<open>The adapter\<close>

datatype manager_call = AddService service | AddGetter channel | AddSetter channel

record ozw_adapter =
  oz_id :: AdapterId
  oz_node_map :: "(ServiceId, zw_node) id_map"
  oz_getter_map :: "(GetterId, value_id) id_map"
  oz_setter_map :: "(SetterId, value_id) id_map"
  oz_watchers :: watchers
  oz_value_cache :: "(GetterId, Value) hashmap"
  oz_calls :: "manager_call list"
  oz_sent :: "(nat \<times> AdapterWatchEvent) list"

definition ozw_new :: ozw_adapter where
  "ozw_new = \<lparr>oz_id = ''OpenZwave Adapter'', oz_node_map = [], oz_getter_map = [], oz_setter_map = [],
     oz_watchers = watchers_new, oz_value_cache = [], oz_calls = [], oz_sent = []\<rparr>"

text \<open>Formatting in hexadecimal, padded with zeros.\<close>

definition hex_char :: "nat \<Rightarrow> char" where
  "hex_char d = (if d < 10 then char_of (48 + d) else char_of (87 + d))"

fun show_hex :: "nat \<Rightarrow> string" where
  "show_hex n = (if n < 16 then [hex_char n] else show_hex (n div 16) @ [hex_char (n mod 16)])"

declare show_hex.simps [simp del]

definition pad_hex :: "nat \<Rightarrow> nat \<Rightarrow> string" where
  "pad_hex width n = replicate (width - length (show_hex n)) (CHR ''0'') @ show_hex n"

definition node_service_id :: "zw_node \<Rightarrow> ServiceId" where
  "node_service_id node = ''OpenZWave-'' @ pad_hex 8 (zn_home_id node) @ ''-'' @ pad_hex 2 (zn_id node)"

definition vid_channel_id :: "value_id \<Rightarrow> string" where
  "vid_channel_id vid =
     ''OpenZWave-'' @ pad_hex 8 (vid_home_id vid) @ ''-'' @ pad_hex 16 (vid_id vid) @ '' ('' @ vid_label vid @ '')''"

definition node_added :: "zw_node \<Rightarrow> ozw_adapter \<Rightarrow> ozw_adapter" where
  "node_added node self =
     (let service_id = node_service_id node;
          service = (service_empty service_id (oz_id self))\<lparr>svc_properties :=
            [(''name'', zn_name node), (''product_name'', zn_product_name node),
             (''manufacturer_name'', zn_manufacturer_name node), (''location'', zn_location node)]\<rparr>
      in self\<lparr>oz_node_map := id_map_push service_id node (oz_node_map self),
              oz_calls := oz_calls self @ [AddService service]\<rparr>)"

definition ozw_channel :: "AdapterId \<Rightarrow> ServiceId \<Rightarrow> string \<Rightarrow> ChannelKind \<Rightarrow> channel" where
  "ozw_channel adapter service i kind =
     \<lparr>ch_tags = [], ch_id = i, ch_service = service, ch_kind = kind, ch_updated = None,
      ch_adapter = adapter, ch_last_seen = None\<rparr>"

definition value_added :: "value_id \<Rightarrow> ozw_adapter \<Rightarrow> ozw_adapter outcome" where
  "value_added vid self =
     (if \<not> vid_user_genre vid then Done self
      else case find_taxo_id_from_ozw (vid_node vid) (oz_node_map self) of
        None \<Rightarrow> Panic
      | Some node_id \<Rightarrow>
          (case taxo_kind_from_ozw_vid vid of
             None \<Rightarrow> Done self
           | Some kind \<Rightarrow>
               (let value_id = vid_channel_id vid;
                    channel = ozw_channel (oz_id self) node_id value_id kind;
                    self = (if \<not> vid_write_only vid
                            then self\<lparr>oz_getter_map := id_map_push value_id vid (oz_getter_map self),
                                      oz_calls := oz_calls self @ [AddGetter channel]\<rparr>
                            else self);
                    self = (if \<not> vid_read_only vid
                            then self\<lparr>oz_setter_map := id_map_push value_id vid (oz_setter_map self),
                                      oz_calls := oz_calls self @ [AddSetter channel]\<rparr>
                            else self)
                in Done self)))"

text \<open>The events for the watchers of a getter, from its previous and its new value.\<close>

definition watcher_events ::
    "GetterId \<Rightarrow> Value option \<Rightarrow> Value \<Rightarrow> Range option \<Rightarrow> AdapterWatchEvent list outcome" where
  "watcher_events taxo_id previous_value taxo_value rng =
     bind_outcome (should_send rng taxo_value EventEnter) (\<lambda>should_send_value.
       let enter = (if should_send_value then [Enter taxo_id taxo_value] else [])
       in case previous_value of
            None \<Rightarrow> Done enter
          | Some previous_value \<Rightarrow>
              bind_outcome (should_send rng previous_value EventExit) (\<lambda>should_send_previous.
                if should_send_value \<and> should_send_previous then Done []
                else Done ((if should_send_previous then [Exit taxo_id taxo_value] else []) @ enter)))"

fun notify_watchers ::
    "GetterId \<Rightarrow> Value option \<Rightarrow> Value \<Rightarrow> (Range option \<times> nat) list \<Rightarrow> ozw_adapter \<Rightarrow> ozw_adapter outcome" where
  "notify_watchers taxo_id previous_value taxo_value [] self = Done self"
| "notify_watchers taxo_id previous_value taxo_value ((rng, sender) # watchers) self =
     bind_outcome (watcher_events taxo_id previous_value taxo_value rng) (\<lambda>events.
       notify_watchers taxo_id previous_value taxo_value watchers
         (self\<lparr>oz_sent := oz_sent self @ map (Pair sender) events\<rparr>))"

definition value_changed :: "device \<Rightarrow> value_id \<Rightarrow> ozw_adapter \<Rightarrow> ozw_adapter outcome" where
  "value_changed dev vid self =
     (if vid_type vid \<noteq> ValueType_Bool then Done self
      else case find_taxo_id_from_ozw vid (oz_getter_map self) of
        None \<Rightarrow> Done self
      | Some taxo_id \<Rightarrow>
          (case ozw_vid_as_taxo_value dev vid of
             None \<Rightarrow> Done self
           | Some taxo_value \<Rightarrow>
               (case get_from_taxo_id taxo_id (oz_watchers self) of
                  None \<Rightarrow> Done self
                | Some watchers \<Rightarrow>
                    notify_watchers taxo_id (hm_get (oz_value_cache self) taxo_id) taxo_value watchers
                      (self\<lparr>oz_value_cache := hm_insert taxo_id taxo_value (oz_value_cache self)\<rparr>))))"

datatype notification =
    NodeAdded zw_node | ValueAdded value_id | ValueChanged value_id | OtherNotification

definition handle_notification :: "device \<Rightarrow> notification \<Rightarrow> ozw_adapter \<Rightarrow> ozw_adapter outcome" where
  "handle_notification dev notification self =
     (case notification of
        NodeAdded node \<Rightarrow> Done (node_added node self)
      | ValueAdded vid \<Rightarrow> value_added vid self
      | ValueChanged vid \<Rightarrow> value_changed dev vid self
      | OtherNotification \<Rightarrow> Done self)"

section \<open>Operations\<close>

definition ozw_fetch_values :: "device \<Rightarrow> ozw_adapter \<Rightarrow> GetterId list \<Rightarrow> (GetterId, Value option, Error) ResultMap" where
  "ozw_fetch_values dev self ids =
     hm_extend [] (map (\<lambda>i. (i,
       case find_ozw_from_taxo_id i (oz_getter_map self) of
         None \<Rightarrow> Inl (ErrInternal (NoSuchGetter i))
       | Some vid \<Rightarrow> Inr (if \<not> dev_is_set dev vid then None else ozw_vid_as_taxo_value dev vid))) ids)"

definition ozw_send_values ::
    "device \<Rightarrow> ozw_adapter \<Rightarrow> (SetterId, Value) hashmap \<Rightarrow> (SetterId, unit, Error) ResultMap \<times> (value_id \<times> bool) list" where
  "ozw_send_values dev self values =
     (let sent = map (\<lambda>(i, value). (i,
            case find_ozw_from_taxo_id i (oz_setter_map self) of
              Some vid \<Rightarrow> set_ozw_vid_from_taxo_value dev vid value
            | None \<Rightarrow> (Inl (ErrInternal (NoSuchSetter i)), []))) values
      in (hm_extend [] (map (\<lambda>(i, r, _). (i, r)) sent), concat (map (\<lambda>(_, _, commands). commands) sent)))"

text \<open>A watch of one getter: the guard, if the range is one, and the events sent at once.\<close>

definition register_ranged ::
    "device \<Rightarrow> GetterId \<Rightarrow> Range option \<Rightarrow> nat \<Rightarrow> ozw_adapter \<Rightarrow> (nat option \<times> ozw_adapter) outcome" where
  "register_ranged dev i rng sender self =
     (case watchers_push i rng sender (oz_watchers self) of
        (key, watchers) \<Rightarrow>
          (let self = self\<lparr>oz_watchers := watchers\<rparr>
           in case find_ozw_from_taxo_id i (oz_getter_map self) of
                None \<Rightarrow> Done (Some key, self)
              | Some vid \<Rightarrow>
                  if dev_is_set dev vid \<and> vid_type vid = ValueType_Bool then
                    (case ozw_vid_as_taxo_value dev vid of
                       None \<Rightarrow> Done (Some key, self)
                     | Some value \<Rightarrow>
                         (let self = self\<lparr>oz_value_cache := hm_insert i value (oz_value_cache self)\<rparr>
                          in bind_outcome (should_send rng value EventEnter) (\<lambda>b.
                               Done (Some key,
                                 if b then self\<lparr>oz_sent := oz_sent self @ [(key, Enter i value)]\<rparr> else self))))
                  else Done (Some key, self)))"

definition register_one ::
    "device \<Rightarrow> GetterId \<Rightarrow> Value option \<Rightarrow> nat \<Rightarrow> ozw_adapter \<Rightarrow> (nat option \<times> ozw_adapter) outcome" where
  "register_one dev i rng sender self =
     (case rng of
        None \<Rightarrow> register_ranged dev i None sender self
      | Some (VRange rng) \<Rightarrow> register_ranged dev i (Some rng) sender self
      | Some _ \<Rightarrow> Done (None, self))"

fun ozw_register_watch ::
    "device \<Rightarrow> (GetterId \<times> Value option \<times> nat) list \<Rightarrow> ozw_adapter \<Rightarrow>
     ((GetterId \<times> (Error + nat)) list \<times> ozw_adapter) outcome" where
  "ozw_register_watch dev [] self = Done ([], self)"
| "ozw_register_watch dev ((i, rng, sender) # values) self =
     bind_outcome (register_one dev i rng sender self) (\<lambda>(guard, self).
     bind_outcome (ozw_register_watch dev values self) (\<lambda>(rest, self).
       Done ((case guard of None \<Rightarrow> [] | Some key \<Rightarrow> [(i, Inr key)]) @ rest, self)))"

end
