(* ===== verification/Openzwave_Props.thy ===== *)
theory Openzwave_Props
  imports Openzwave
begin

text \<open>
  What the watchers of a Z-Wave getter are told. The events of a watcher alternate, and the last one
  says whether the last value is in its range, as long as a new watch does not overtake a
  notification; when it does, the older watchers miss the change.
\<close>

section \<open>Values\<close>

text \<open>A value sent to a setter of its kind is a single command to the device, and the value the
  getter reports once the device has obeyed.\<close>

theorem sent_value_is_reported:
  assumes "taxo_kind_from_ozw_vid vid = Some kind" "value_type v = kind_type kind"
  shows "\<exists>b. snd (set_ozw_vid_from_taxo_value dev vid v) = [(vid, b)] \<and>
    (dev_as_bool dev' vid = Some b \<longrightarrow> ozw_vid_as_taxo_value dev' vid = Some v)"
proof -
  from assms(1) have vid: "vid_type vid = ValueType_Bool" "vid_command_class vid \<noteq> None"
    and kind: "kind \<in> {KDoorLocked, KOpenClosed}"
    by (auto simp: taxo_kind_from_ozw_vid_def split: zw_type.splits option.splits zw_class.splits if_splits)
  from kind consider "kind = KDoorLocked" | "kind = KOpenClosed" by blast
  then show ?thesis
  proof cases
    case 1
    with assms(2) obtain x where "v = VDoorLocked x" by (cases v) auto
    with vid assms(1) 1 show ?thesis
      by (cases x) (auto simp: set_ozw_vid_from_taxo_value_def ozw_vid_as_taxo_value_def)
  next
    case 2
    with assms(2) obtain x where "v = VOpenClosed x" by (cases v) auto
    with vid assms(1) 2 show ?thesis
      by (cases x) (auto simp: set_ozw_vid_from_taxo_value_def ozw_vid_as_taxo_value_def)
  qed
qed

section \<open>Runs\<close>

definition watches :: "ozw_adapter \<Rightarrow> GetterId \<Rightarrow> Range option \<Rightarrow> nat \<Rightarrow> bool" where
  "watches self g rng k \<longleftrightarrow>
     (\<exists>ws. hm_get (ow_getter_map (oz_watchers self)) g = Some ws \<and> (rng, k) \<in> set ws) \<and>
     hm_has (ow_map (oz_watchers self)) k"

definition current_value :: "device \<Rightarrow> ozw_adapter \<Rightarrow> GetterId \<Rightarrow> Value option" where
  "current_value dev self g =
     (case find_ozw_from_taxo_id g (oz_getter_map self) of
        None \<Rightarrow> None
      | Some vid \<Rightarrow>
          if dev_is_set dev vid \<and> vid_type vid = ValueType_Bool then ozw_vid_as_taxo_value dev vid else None)"

text \<open>The value a new watch reads is the one the watchers of the getter know.\<close>

definition settled :: "device \<Rightarrow> GetterId \<Rightarrow> ozw_adapter \<Rightarrow> bool" where
  "settled dev g self \<longleftrightarrow>
     (case current_value dev self g of
        None \<Rightarrow> hm_get (oz_value_cache self) g = None
      | Some v \<Rightarrow> (\<forall>rng k. watches self g rng k \<longrightarrow> hm_get (oz_value_cache self) g = Some v))"

inductive ozw_reachable :: "ozw_adapter \<Rightarrow> bool" where
  init: "ozw_reachable ozw_new"
| notification: "ozw_reachable self \<Longrightarrow> handle_notification dev n self = Done self' \<Longrightarrow> ozw_reachable self'"
| register: "ozw_reachable self \<Longrightarrow> settled dev g self \<Longrightarrow> register_one dev g rng tx self = Done (guard, self') \<Longrightarrow>
    ozw_reachable self'"
| drop: "ozw_reachable self \<Longrightarrow> ozw_reachable (self\<lparr>oz_watchers := watcher_guard_drop k (oz_watchers self)\<rparr>)"

section \<open>The events of a watcher\<close>

definition events_to :: "nat \<Rightarrow> (nat \<times> AdapterWatchEvent) list \<Rightarrow> AdapterWatchEvent list" where
  "events_to k sent = map snd (filter (\<lambda>(k', _). k' = k) sent)"

fun is_enter :: "AdapterWatchEvent \<Rightarrow> bool" where
  "is_enter (Enter _ _) = True"
| "is_enter (Exit _ _) = False"

text \<open>Enter and Exit in turn, and whether the last is Enter.\<close>

fun alternate :: "bool \<Rightarrow> AdapterWatchEvent list \<Rightarrow> bool" where
  "alternate inside [] = True"
| "alternate inside (e # es) = (is_enter e \<noteq> inside \<and> alternate (\<not> inside) es)"

fun inside_after :: "bool \<Rightarrow> AdapterWatchEvent list \<Rightarrow> bool" where
  "inside_after inside [] = inside"
| "inside_after inside (e # es) = inside_after (is_enter e) es"

lemma alternate_append:
  "alternate b (xs @ ys) \<longleftrightarrow> alternate b xs \<and> alternate (inside_after b xs) ys"
proof (induction xs arbitrary: b)
  case (Cons e xs)
  then show ?case by (cases "is_enter e"; cases b) auto
qed simp

lemma inside_after_append: "inside_after b (xs @ ys) = inside_after (inside_after b xs) ys"
  by (induction b xs rule: inside_after.induct) auto

lemma events_to_append [simp]: "events_to k (xs @ ys) = events_to k xs @ events_to k ys"
  by (simp add: events_to_def)

lemma events_to_pairs [simp]: "events_to k (map (Pair k') es) = (if k = k' then es else [])"
  by (induction es) (auto simp: events_to_def)

lemma events_to_none: "k \<notin> fst ` set sent \<Longrightarrow> events_to k sent = []"
  by (force simp: events_to_def filter_empty_conv)

text \<open>One change, seen by a watcher of a range.\<close>

definition in_range :: "Range \<Rightarrow> Value option \<Rightarrow> bool" where
  "in_range r v = (\<exists>x. v = Some x \<and> range_contains r x = Done True)"

lemma watcher_events_edge:
  assumes "watcher_events g previous v (Some r) = Done es"
  shows "alternate (in_range r previous) es \<and> inside_after (in_range r previous) es = in_range r (Some v)"
  using assms
  by (cases previous) (auto simp: watcher_events_def should_send_def in_range_def Let_def bind_outcome_Done_iff split: if_splits)

lemma notify_watchers_events:
  assumes "notify_watchers g previous v ws self = Done self'" "distinct (map snd ws)"
  shows "\<exists>sent. self' = self\<lparr>oz_sent := oz_sent self @ sent\<rparr> \<and> fst ` set sent \<subseteq> snd ` set ws \<and>
    (\<forall>(rng, k) \<in> set ws. watcher_events g previous v rng = Done (events_to k sent))"
  using assms
proof (induction ws arbitrary: self)
  case Nil
  then show ?case by (intro exI [of _ "[]"]) simp
next
  case (Cons w ws)
  obtain rng key where w: "w = (rng, key)" by (cases w)
  from Cons.prems(1) w obtain es where es: "watcher_events g previous v rng = Done es"
    and rest: "notify_watchers g previous v ws (self\<lparr>oz_sent := oz_sent self @ map (Pair key) es\<rparr>) = Done self'"
    by (auto simp: bind_outcome_Done_iff)
  from Cons.IH [OF rest] Cons.prems(2) obtain sent where
    self': "self' = self\<lparr>oz_sent := oz_sent self @ map (Pair key) es @ sent\<rparr>"
    and keys: "fst ` set sent \<subseteq> snd ` set ws"
    and ev: "\<forall>(rng, k) \<in> set ws. watcher_events g previous v rng = Done (events_to k sent)" by auto
  have "events_to key sent = []" using keys Cons.prems(2) w by (intro events_to_none) auto
  moreover have "k \<noteq> key" if "(rng', k) \<in> set ws" for rng' k
    using Cons.prems(2) w that by force
  ultimately show ?case
    using self' keys ev es w by (intro exI [of _ "map (Pair key) es @ sent"]) auto
qed

section \<open>The invariant\<close>

definition watchers_ok :: "ozw_adapter \<Rightarrow> bool" where
  "watchers_ok self \<longleftrightarrow>
     (\<forall>g ws. hm_get (ow_getter_map (oz_watchers self)) g = Some ws \<longrightarrow> distinct (map snd ws) \<and>
        (\<forall>k \<in> snd ` set ws. k < ow_current_index (oz_watchers self))) \<and>
     (\<forall>g ws g' ws'. hm_get (ow_getter_map (oz_watchers self)) g = Some ws \<longrightarrow>
        hm_get (ow_getter_map (oz_watchers self)) g' = Some ws' \<longrightarrow> g \<noteq> g' \<longrightarrow> snd ` set ws \<inter> snd ` set ws' = {}) \<and>
     (\<forall>k \<in> fst ` set (oz_sent self). k < ow_current_index (oz_watchers self))"

definition told :: "ozw_adapter \<Rightarrow> GetterId \<Rightarrow> Range \<Rightarrow> nat \<Rightarrow> bool" where
  "told self g r k \<longleftrightarrow> alternate False (events_to k (oz_sent self)) \<and>
     inside_after False (events_to k (oz_sent self)) = in_range r (hm_get (oz_value_cache self) g)"

definition ozw_inv :: "ozw_adapter \<Rightarrow> bool" where
  "ozw_inv self \<longleftrightarrow> watchers_ok self \<and> (\<forall>g r k. watches self g (Some r) k \<longrightarrow> told self g r k)"

lemma ozw_inv_cong:
  assumes "ozw_inv self" "oz_watchers self' = oz_watchers self" "oz_value_cache self' = oz_value_cache self"
    "oz_sent self' = oz_sent self"
  shows "ozw_inv self'"
proof -
  have "watchers_ok self' = watchers_ok self" using assms(2,4) by (simp add: watchers_ok_def)
  moreover have "watches self' = watches self" using assms(2) by (simp add: watches_def fun_eq_iff)
  moreover have "told self' = told self" using assms(3,4) by (simp add: told_def fun_eq_iff)
  ultimately show ?thesis using assms(1) by (simp add: ozw_inv_def)
qed

lemma drop_inv:
  assumes "ozw_inv self"
  shows "ozw_inv (self\<lparr>oz_watchers := watcher_guard_drop k (oz_watchers self)\<rparr>)"
proof -
  let ?self' = "self\<lparr>oz_watchers := watcher_guard_drop k (oz_watchers self)\<rparr>"
  have "watchers_ok ?self' = watchers_ok self" by (simp add: watchers_ok_def watcher_guard_drop_def)
  moreover have "watches self g r k'" if "watches ?self' g r k'" for g r k'
    using that by (auto simp: watches_def watcher_guard_drop_def hm_has_def split: if_splits)
  moreover have "told ?self' = told self" by (simp add: told_def fun_eq_iff)
  ultimately show ?thesis using assms by (auto simp: ozw_inv_def)
qed

lemma watchers_okD:
  assumes "watchers_ok self"
  shows "hm_get (ow_getter_map (oz_watchers self)) g = Some ws \<Longrightarrow> distinct (map snd ws)"
    and "hm_get (ow_getter_map (oz_watchers self)) g = Some ws \<Longrightarrow> k \<in> snd ` set ws \<Longrightarrow>
      k < ow_current_index (oz_watchers self)"
    and "hm_get (ow_getter_map (oz_watchers self)) g = Some ws \<Longrightarrow>
      hm_get (ow_getter_map (oz_watchers self)) g' = Some ws' \<Longrightarrow> g \<noteq> g' \<Longrightarrow> k \<in> snd ` set ws \<Longrightarrow> k \<notin> snd ` set ws'"
    and "k \<in> fst ` set (oz_sent self) \<Longrightarrow> k < ow_current_index (oz_watchers self)"
  using assms unfolding watchers_ok_def by blast+

lemma value_changed_inv:
  assumes inv: "ozw_inv self" and run: "value_changed dev vid self = Done self'"
  shows "ozw_inv self'"
proof (cases "self' = self")
  case True
  with inv show ?thesis by simp
next
  case False
  from run False obtain g v live where
    live: "get_from_taxo_id g (oz_watchers self) = Some live"
    and notify: "notify_watchers g (hm_get (oz_value_cache self) g) v live
      (self\<lparr>oz_value_cache := hm_insert g v (oz_value_cache self)\<rparr>) = Done self'"
    by (auto simp: value_changed_def split: if_splits option.splits)
  from live obtain ws where ws: "hm_get (ow_getter_map (oz_watchers self)) g = Some ws"
    and live': "live = filter (\<lambda>(_, k). hm_has (ow_map (oz_watchers self)) k) ws"
    by (auto simp: get_from_taxo_id_def Let_def split: option.splits if_splits)
  have ok: "watchers_ok self" using inv by (simp add: ozw_inv_def)
  then have "distinct (map snd ws)" using ws by (simp add: watchers_ok_def)
  then have dist: "distinct (map snd live)" by (simp add: live' distinct_map_filter)
  from notify_watchers_events [OF notify dist] obtain sent where
    self': "self' = self\<lparr>oz_value_cache := hm_insert g v (oz_value_cache self), oz_sent := oz_sent self @ sent\<rparr>"
    and keys: "fst ` set sent \<subseteq> snd ` set live"
    and ev: "\<forall>(rng, k) \<in> set live. watcher_events g (hm_get (oz_value_cache self) g) v rng = Done (events_to k sent)"
    by auto
  have keys': "fst ` set sent \<subseteq> snd ` set ws" using keys by (auto simp: live')
  have "\<forall>k \<in> fst ` set sent. k < ow_current_index (oz_watchers self)"
    using keys' watchers_okD(2) [OF ok ws] by blast
  then have "watchers_ok self'"
    using ok unfolding self' watchers_ok_def by (simp add: ball_Un)
  moreover have "told self' g' r k" if w: "watches self' g' (Some r) k" for g' r k
  proof -
    from w have w0: "watches self g' (Some r) k" by (simp add: watches_def self')
    then have t: "told self g' r k" using inv by (simp add: ozw_inv_def)
    show ?thesis
    proof (cases "g' = g")
      case True
      with w0 ws have "(Some r, k) \<in> set live" by (auto simp: watches_def live')
      with ev have "watcher_events g (hm_get (oz_value_cache self) g) v (Some r) = Done (events_to k sent)" by auto
      from watcher_events_edge [OF this] t True show ?thesis
        by (simp add: told_def self' alternate_append inside_after_append)
    next
      case False
      from w0 obtain ws' where ws': "hm_get (ow_getter_map (oz_watchers self)) g' = Some ws'" "k \<in> snd ` set ws'"
        unfolding watches_def by (metis image_eqI snd_conv)
      from watchers_okD(3) [OF ok ws'(1) ws False ws'(2)] have "k \<notin> snd ` set ws" .
      with keys' have "events_to k sent = []" by (intro events_to_none) blast
      with t False show ?thesis by (simp add: told_def self')
    qed
  qed
  ultimately show ?thesis by (simp add: ozw_inv_def)
qed

lemma notification_inv:
  assumes inv: "ozw_inv self" and run: "handle_notification dev n self = Done self'"
  shows "ozw_inv self'"
proof (cases n)
  case (ValueChanged vid)
  with value_changed_inv [OF inv] run show ?thesis by (simp add: handle_notification_def)
next
  case (NodeAdded node)
  with run have "self' = node_added node self" by (simp add: handle_notification_def)
  then show ?thesis by (intro ozw_inv_cong [OF inv]) (simp_all add: node_added_def Let_def)
next
  case (ValueAdded vid)
  with run have "value_added vid self = Done self'" by (simp add: handle_notification_def)
  then show ?thesis
    by (intro ozw_inv_cong [OF inv]) (auto simp: value_added_def Let_def split: if_splits option.splits)
next
  case OtherNotification
  with inv run show ?thesis by (simp add: handle_notification_def)
qed

text \<open>A new watch.\<close>

lemma register_one_result:
  assumes "register_one dev g rng tx self = Done (guard, self')" "self' \<noteq> self"
  obtains r w where "watchers_push g r tx (oz_watchers self) = (ow_current_index (oz_watchers self), w)"
    "oz_watchers self' = w"
    "current_value dev self g = None \<and> oz_value_cache self' = oz_value_cache self \<and> oz_sent self' = oz_sent self \<or>
     (\<exists>v b. current_value dev self g = Some v \<and> should_send r v EventEnter = Done b \<and>
        oz_value_cache self' = hm_insert g v (oz_value_cache self) \<and>
        oz_sent self' = oz_sent self @ (if b then [(ow_current_index (oz_watchers self), Enter g v)] else []))"
proof -
  obtain r where r: "register_ranged dev g r tx self = Done (guard, self')"
    using assms by (auto simp: register_one_def split: option.splits Value.splits)
  obtain w where w: "watchers_push g r tx (oz_watchers self) = (ow_current_index (oz_watchers self), w)"
    by (simp add: watchers_push_def Let_def)
  show thesis
  proof (cases "current_value dev self g")
    case None
    then have "self' = self\<lparr>oz_watchers := w\<rparr>"
      using r w by (auto simp: register_ranged_def current_value_def Let_def split: option.splits if_splits)
    with None w that show thesis by simp
  next
    case (Some v)
    then obtain b where "should_send r v EventEnter = Done b"
      and "self' = self\<lparr>oz_watchers := w, oz_value_cache := hm_insert g v (oz_value_cache self),
        oz_sent := oz_sent self @ (if b then [(ow_current_index (oz_watchers self), Enter g v)] else [])\<rparr>"
      using r w by (auto simp: register_ranged_def current_value_def Let_def bind_outcome_Done_iff
          split: option.splits if_splits)
    with Some w that show thesis by auto
  qed
qed

lemma register_inv:
  assumes inv: "ozw_inv self" and settled: "settled dev g self"
    and run: "register_one dev g rng tx self = Done (guard, self')"
  shows "ozw_inv self'"
proof (cases "self' = self")
  case True
  with inv show ?thesis by simp
next
  case False
  let ?key = "ow_current_index (oz_watchers self)"
  from register_one_result [OF run False] obtain r w where
    push: "watchers_push g r tx (oz_watchers self) = (?key, w)" and w: "oz_watchers self' = w" and
    res: "current_value dev self g = None \<and> oz_value_cache self' = oz_value_cache self \<and> oz_sent self' = oz_sent self \<or>
     (\<exists>v b. current_value dev self g = Some v \<and> should_send r v EventEnter = Done b \<and>
        oz_value_cache self' = hm_insert g v (oz_value_cache self) \<and>
        oz_sent self' = oz_sent self @ (if b then [(?key, Enter g v)] else []))" by metis
  have ok: "watchers_ok self" using inv by (simp add: ozw_inv_def)
  define old where "old = (case hm_get (ow_getter_map (oz_watchers self)) g of None \<Rightarrow> [] | Some v \<Rightarrow> v)"
  have w': "w = (oz_watchers self)\<lparr>ow_current_index := ?key + 1, ow_map := hm_insert ?key tx (ow_map (oz_watchers self)),
      ow_getter_map := hm_insert g (old @ [(r, ?key)]) (ow_getter_map (oz_watchers self))\<rparr>"
    using push by (auto simp: watchers_push_def Let_def old_def)
  have old: "distinct (map snd old)" "\<forall>k \<in> snd ` set old. k < ?key"
    "\<And>g' ws k. hm_get (ow_getter_map (oz_watchers self)) g' = Some ws \<Longrightarrow> g' \<noteq> g \<Longrightarrow> k \<in> snd ` set ws \<Longrightarrow> k \<notin> snd ` set old"
  proof -
    consider "old = []" | "hm_get (ow_getter_map (oz_watchers self)) g = Some old"
      by (cases "hm_get (ow_getter_map (oz_watchers self)) g") (auto simp: old_def)
    note cases = this
    show "distinct (map snd old)" "\<forall>k \<in> snd ` set old. k < ?key"
      using watchers_okD(1,2) [OF ok] by (cases rule: cases; auto)+
    show "k \<notin> snd ` set old" if "hm_get (ow_getter_map (oz_watchers self)) g' = Some ws" "g' \<noteq> g" "k \<in> snd ` set ws" for g' ws k
      using watchers_okD(3) [OF ok that(1) _ that(2,3)] by (cases rule: cases) auto
  qed
  have fresh: "?key \<notin> snd ` set ws" if "hm_get (ow_getter_map (oz_watchers self)) g' = Some ws" for g' ws
    using watchers_okD(2) [OF ok that] by blast
  have sent: "\<forall>k \<in> fst ` set (oz_sent self'). k < ?key + 1"
  proof
    fix k
    assume "k \<in> fst ` set (oz_sent self')"
    with res have "k = ?key \<or> k \<in> fst ` set (oz_sent self)" by (auto split: if_splits)
    then show "k < ?key + 1"
    proof
      assume "k \<in> fst ` set (oz_sent self)"
      from watchers_okD(4) [OF ok this] show ?thesis by simp
    qed simp
  qed
  have "watchers_ok self'"
    unfolding watchers_ok_def w w'
  proof (intro conjI allI impI)
    fix g' ws
    assume "hm_get (ow_getter_map ((oz_watchers self)\<lparr>ow_current_index := ?key + 1,
      ow_map := hm_insert ?key tx (ow_map (oz_watchers self)),
      ow_getter_map := hm_insert g (old @ [(r, ?key)]) (ow_getter_map (oz_watchers self))\<rparr>)) g' = Some ws"
    then have ws: "if g' = g then ws = old @ [(r, ?key)] else hm_get (ow_getter_map (oz_watchers self)) g' = Some ws"
      by (auto split: if_splits)
    then show "distinct (map snd ws)"
      using old(1,2) watchers_okD(1) [OF ok] by (auto split: if_splits)
    show "\<forall>k \<in> snd ` set ws. k < ow_current_index ((oz_watchers self)\<lparr>ow_current_index := ?key + 1,
      ow_map := hm_insert ?key tx (ow_map (oz_watchers self)),
      ow_getter_map := hm_insert g (old @ [(r, ?key)]) (ow_getter_map (oz_watchers self))\<rparr>)"
      using ws old(2) watchers_okD(2) [OF ok] by (auto simp: less_Suc_eq split: if_splits)
    fix g'' ws''
    assume "hm_get (ow_getter_map ((oz_watchers self)\<lparr>ow_current_index := ?key + 1,
      ow_map := hm_insert ?key tx (ow_map (oz_watchers self)),
      ow_getter_map := hm_insert g (old @ [(r, ?key)]) (ow_getter_map (oz_watchers self))\<rparr>)) g'' = Some ws''"
    then have ws'': "if g'' = g then ws'' = old @ [(r, ?key)] else hm_get (ow_getter_map (oz_watchers self)) g'' = Some ws''"
      by (auto split: if_splits)
    assume "g' \<noteq> g''"
    show "snd ` set ws \<inter> snd ` set ws'' = {}"
    proof (cases "g' = g \<or> g'' = g")
      case True
      with \<open>g' \<noteq> g''\<close> ws ws'' old(3) fresh show ?thesis by (auto split: if_splits)
    next
      case False
      with ws ws'' \<open>g' \<noteq> g''\<close> watchers_okD(3) [OF ok, of g' ws g'' ws''] show ?thesis by auto
    qed
  next
    show "\<forall>k \<in> fst ` set (oz_sent self'). k < ow_current_index ((oz_watchers self)\<lparr>ow_current_index := ?key + 1,
      ow_map := hm_insert ?key tx (ow_map (oz_watchers self)),
      ow_getter_map := hm_insert g (old @ [(r, ?key)]) (ow_getter_map (oz_watchers self))\<rparr>)" using sent by simp
  qed
  moreover have "told self' g' x k" if wt: "watches self' g' (Some x) k" for g' x k
  proof (cases "k = ?key")
    case True
    have "events_to ?key (oz_sent self) = []" using watchers_okD(4) [OF ok] by (intro events_to_none) blast
    moreover have "(y, ?key) \<notin> set ws" if "hm_get (ow_getter_map (oz_watchers self)) g' = Some ws" for g' ws y
      using fresh [OF that] by force
    then have "g' = g \<and> r = Some x"
      using wt True old(2) by (auto simp: watches_def w w' split: if_splits)
    ultimately show ?thesis
      using res settled True
      by (auto simp: told_def settled_def in_range_def should_send_def events_to_def split: if_splits)
  next
    case False
    then have w0: "watches self g' (Some x) k"
      using wt by (cases "hm_get (ow_getter_map (oz_watchers self)) g")
        (auto simp: watches_def w w' hm_has_def old_def split: if_splits)
    then have t: "told self g' x k" using inv by (simp add: ozw_inv_def)
    have "events_to k (oz_sent self') = events_to k (oz_sent self)"
      using res False by (auto simp: events_to_def)
    moreover have "hm_get (oz_value_cache self') g' = hm_get (oz_value_cache self) g'"
      using res settled w0 by (auto simp: settled_def)
    ultimately show ?thesis using t by (simp add: told_def)
  qed
  ultimately show ?thesis by (simp add: ozw_inv_def)
qed

lemma ozw_reachable_inv: "ozw_reachable self \<Longrightarrow> ozw_inv self"
proof (induction rule: ozw_reachable.induct)
  case init
  show ?case by (simp add: ozw_inv_def watchers_ok_def watches_def ozw_new_def watchers_new_def)
qed (auto intro: notification_inv register_inv drop_inv)


section \<open>A new watch that overtakes a notification\<close>

definition door :: value_id where
  "door = \<lparr>vid_home_id = 1, vid_id = 2, vid_label = ''door'', vid_node = \<lparr>zn_home_id = 1, zn_id = 3, zn_name = [],
     zn_product_name = [], zn_manufacturer_name = [], zn_location = []\<rparr>, vid_type = ValueType_Bool,
     vid_command_class = Some ClassSensorBinary, vid_command_class_id = 48, vid_index = 0, vid_user_genre = True,
     vid_write_only = False, vid_read_only = True\<rparr>"

definition door_is :: "bool \<Rightarrow> device" where
  "door_is b = \<lparr>dev_is_set = (\<lambda>_. True), dev_as_bool = (\<lambda>_. Some b), dev_set_bool = (\<lambda>_ _. None)\<rparr>"

text \<open>The door is found closed by a first watch, opens, and is found open by a second one before its
  notification is handled.\<close>

definition overtaking :: "ozw_adapter outcome" where
  "overtaking =
     (let g = vid_channel_id door; open_door = Some (VRange (Eq (VOpenClosed Open))) in
      bind_outcome (handle_notification (door_is False) (NodeAdded (vid_node door)) ozw_new) (\<lambda>self.
      bind_outcome (handle_notification (door_is False) (ValueAdded door) self) (\<lambda>self.
      bind_outcome (register_one (door_is False) g open_door 7 self) (\<lambda>(_, self).
      bind_outcome (register_one (door_is True) g open_door 8 self) (\<lambda>(_, self).
      handle_notification (door_is True) (ValueChanged door) self)))))"

text \<open>When a new watch of a getter reads its new value before the notification of the change is
  handled, the older watcher, for which the door enters the range, is never told.\<close>

theorem overtaken_watcher_is_not_told:
  "\<exists>self. overtaking = Done self \<and> watches self (vid_channel_id door) (Some (Eq (VOpenClosed Open))) 0 \<and>
     hm_get (oz_value_cache self) (vid_channel_id door) = Some (VOpenClosed Open) \<and>
     events_to 0 (oz_sent self) = [] \<and> events_to 1 (oz_sent self) = [Enter (vid_channel_id door) (VOpenClosed Open)]"
proof -
  have "case overtaking of
      Done self \<Rightarrow> (case hm_get (ow_getter_map (oz_watchers self)) (vid_channel_id door) of
           Some ws \<Rightarrow> (Some (Eq (VOpenClosed Open)), 0) \<in> set ws | None \<Rightarrow> False) \<and>
         hm_has (ow_map (oz_watchers self)) 0 \<and>
         hm_get (oz_value_cache self) (vid_channel_id door) = Some (VOpenClosed Open) \<and>
         events_to 0 (oz_sent self) = [] \<and> events_to 1 (oz_sent self) = [Enter (vid_channel_id door) (VOpenClosed Open)]
    | Panic \<Rightarrow> False"
    by code_simp
  then show ?thesis by (auto simp: watches_def split: outcome.splits option.splits)
qed

section \<open>Witnesses\<close>

theorem sent_value_is_reported_witness:
  "\<exists>b. snd (set_ozw_vid_from_taxo_value (door_is False) door (VOpenClosed Open)) = [(door, b)] \<and>
     (b \<longrightarrow> ozw_vid_as_taxo_value (door_is b) door = Some (VOpenClosed Open))"
proof -
  have "taxo_kind_from_ozw_vid door = Some KOpenClosed" "value_type (VOpenClosed Open) = kind_type KOpenClosed"
    by (simp_all add: taxo_kind_from_ozw_vid_def door_def)
  from sent_value_is_reported [OF this, of "door_is False" "door_is True"] show ?thesis
    by (auto simp: door_is_def)
qed

text \<open>The first watch alone: the door opens, and the watcher is told.\<close>

definition watched_door :: "ozw_adapter outcome" where
  "watched_door =
     (bind_outcome (handle_notification (door_is False) (NodeAdded (vid_node door)) ozw_new) (\<lambda>self.
      bind_outcome (handle_notification (door_is False) (ValueAdded door) self) (\<lambda>self.
      bind_outcome (register_one (door_is False) (vid_channel_id door) (Some (VRange (Eq (VOpenClosed Open)))) 7 self) (\<lambda>(_, self).
      handle_notification (door_is True) (ValueChanged door) self))))"


end
