(* ===== verification/Adapter_Setup.thy ===== *)
theory Adapter_Setup
  imports Manager
begin

text \<open>
  What the adapters of \<^verbatim>\<open>src/adapters\<close> do when they start: a sequence of registrations with the
  adapter manager, each under \<^verbatim>\<open>try!\<close>, so that the first error ends it and what was registered stays.
  Here is also the text that the adapters without watches share.
\<close>

datatype registration = AddAdapter adapter | AddService service | AddGetter channel | AddSetter channel

fun setup_step :: "registration \<Rightarrow> manager \<Rightarrow> ((Error + unit) \<times> manager) outcome" where
  "setup_step (AddAdapter adapter) manager = Done (manager_add_adapter adapter manager)"
| "setup_step (AddService service) manager = manager_add_service service manager"
| "setup_step (AddGetter getter) manager = manager_add_getter getter manager"
| "setup_step (AddSetter setter) manager = manager_add_setter setter manager"

fun run_setup :: "registration list \<Rightarrow> manager \<Rightarrow> ((Error + unit) \<times> manager) outcome" where
  "run_setup [] manager = Done (Inr (), manager)"
| "run_setup (step # steps) manager =
     bind_outcome (setup_step step manager) (\<lambda>(r, manager).
       case r of
         Inl e \<Rightarrow> Done (Inl e, manager)
       | Inr _ \<Rightarrow> run_setup steps manager)"

text \<open>A channel that has not been seen yet, and has no tags.\<close>

definition new_channel :: "AdapterId \<Rightarrow> ServiceId \<Rightarrow> string \<Rightarrow> ChannelKind \<Rightarrow> channel" where
  "new_channel adapter service i kind =
     \<lparr>ch_tags = [], ch_id = i, ch_service = service, ch_kind = kind, ch_updated = None,
      ch_adapter = adapter, ch_last_seen = None\<rparr>"

definition watching_not_supported :: "(GetterId \<times> Value option) list \<Rightarrow> (GetterId \<times> (Error + guard)) list" where
  "watching_not_supported watch = map (\<lambda>(i, _). (i, Inl (GetterDoesNotSupportWatching i))) watch"

definition no_such_getters :: "GetterId list \<Rightarrow> (GetterId, Value option, Error) ResultMap" where
  "no_such_getters ids = hm_extend [] (map (\<lambda>i. (i, Inl (ErrInternal (NoSuchGetter i)))) ids)"

text \<open>\<^verbatim>\<open>try!\<close> of an error of type.\<close>

definition try_type :: "TypeError + 'a \<Rightarrow> ('a \<Rightarrow> Error + 'b) \<Rightarrow> Error + 'b" where
  "try_type r k = (case r of Inl e \<Rightarrow> Inl (ErrType e) | Inr x \<Rightarrow> k x)"

section \<open>Sequences\<close>

lemma run_setup_append:
  "run_setup (xs @ ys) m =
     bind_outcome (run_setup xs m) (\<lambda>(r, m). case r of Inl e \<Rightarrow> Done (Inl e, m) | Inr _ \<Rightarrow> run_setup ys m)"
proof (induction xs arbitrary: m)
  case (Cons x xs)
  show ?case
  proof (cases "setup_step x m")
    case (Done p)
    then show ?thesis using Cons by (cases p; cases "fst p") auto
  qed simp
qed simp

end
