(* ===== verification/Clock.thy ===== *)
theory Clock
  imports Adapter_Setup
begin

text \<open>
  \<^verbatim>\<open>src/adapters/clock/mod.rs\<close>: the clock. Instants and durations are in nanoseconds; the local time is
  counted from the last local midnight, so that a time of day is an instant of today. A timer of the
  library is the instant it first fires at, the period it repeats with and what its closure sends.
  Local times that do not exist (\<^verbatim>\<open>and_time\<close> of the library of dates) are the parameter \<open>ce_local_ok\<close>.
\<close>

section \<open>Time\<close>

definition second :: int where "second = 1000000000"

definition day :: int where "day = 86400 * second"

record clock_env =
  ce_local_now :: int
  ce_utc_now :: int
  ce_local_ok :: "int \<Rightarrow> bool"

datatype movement = MoveEnter | MoveExit

datatype clock_action = ClockMove movement | ClockTick int

record clock_timer =
  ct_first :: int
  ct_repeat :: "int option"
  ct_action :: clock_action

text \<open>The seconds of the time of day.\<close>

definition seconds_from_midnight :: "int \<Rightarrow> int" where
  "seconds_from_midnight now = (now mod day) div second"

text \<open>The next instant with a time of day: today, or tomorrow.\<close>

definition get_next_date :: "clock_env \<Rightarrow> int \<Rightarrow> Error + int" where
  "get_next_date env time_of_day =
     (let date = time_of_day mod day in
      if \<not> ce_local_ok env date then Inl (InvalidValue (VDuration time_of_day))
      else if date \<ge> ce_local_now env then Inr date
      else Inr (date + day))"

section \<open>The adapter\<close>

definition clock_id :: AdapterId where "clock_id = ''clock@link.mozilla.org''"
definition service_clock_id :: ServiceId where "service_clock_id = ''service:clock@link.mozilla.org''"
definition getter_timestamp_id :: GetterId where "getter_timestamp_id = ''getter:timestamp.clock@link.mozilla.org''"
definition getter_time_of_day_id :: GetterId where "getter_time_of_day_id = ''getter:timeofday.clock@link.mozilla.org''"
definition getter_interval_id :: GetterId where "getter_interval_id = ''getter:interval.clock@link.mozilla.org''"

definition clock_fetch_values :: "clock_env \<Rightarrow> GetterId list \<Rightarrow> (GetterId, Value option, Error) ResultMap" where
  "clock_fetch_values env ids =
     hm_extend [] (map (\<lambda>i. (i,
       if i = getter_timestamp_id then Inr (Some (VTimeStamp (ce_utc_now env)))
       else if i = getter_time_of_day_id then
         Inr (Some (VDuration (seconds_from_midnight (ce_local_now env) * second)))
       else Inl (ErrInternal (NoSuchGetter i)))) ids)"

definition clock_send_values :: "(SetterId, Value) hashmap \<Rightarrow> (SetterId, unit, Error) ResultMap" where
  "clock_send_values values = hm_extend [] (map (\<lambda>(i, _). (i, Inl (ErrInternal (NoSuchSetter i)))) values)"

text \<open>A repeating timer, whose every tick enters and leaves the range.\<close>

definition register_watch_interval :: "clock_env \<Rightarrow> Range \<Rightarrow> Error + clock_timer list" where
  "register_watch_interval env rng =
     try_type (range_type rng) (\<lambda>typ. try_type (ensure_eq TyDuration typ) (\<lambda>_.
       let schedule = (\<lambda>val. try_type (as_duration val) (\<lambda>duration.
             Inr [\<lparr>ct_first = ce_local_now env + duration, ct_repeat = Some duration, ct_action = ClockTick duration\<rparr>]))
       in case rng of
            Eq val \<Rightarrow> schedule val
          | Geq val \<Rightarrow> schedule val
          | _ \<Rightarrow> Inl (InvalidValue (VRange rng))))"

definition timeofday_thresholds :: "Range \<Rightarrow> Error + (movement \<times> int) list" where
  "timeofday_thresholds rng =
     (case rng of
        Leq val \<Rightarrow> try_type (as_duration val) (\<lambda>ts. Inr [(MoveEnter, 0), (MoveExit, ts)])
      | Geq val \<Rightarrow> try_type (as_duration val) (\<lambda>ts. Inr [(MoveEnter, ts), (MoveExit, day)])
      | BetweenEq mn mx \<Rightarrow>
          try_type (as_duration mn) (\<lambda>ts_min. try_type (as_duration mx) (\<lambda>ts_max.
            Inr [(MoveEnter, ts_min), (MoveExit, ts_max)]))
      | OutOfStrict mn mx \<Rightarrow>
          try_type (as_duration mn) (\<lambda>ts_min. try_type (as_duration mx) (\<lambda>ts_max.
            Inr [(MoveExit, ts_min), (MoveEnter, ts_max)]))
      | Eq val \<Rightarrow> try_type (as_duration val) (\<lambda>ts. Inr [(MoveEnter, ts), (MoveExit, ts)]))"

text \<open>A timer per threshold, daily; a threshold that is no local time is dropped.\<close>

definition register_watch_timeofday :: "clock_env \<Rightarrow> Range \<Rightarrow> Error + clock_timer list" where
  "register_watch_timeofday env rng =
     try_type (range_type rng) (\<lambda>typ. try_type (ensure_eq TyDuration typ) (\<lambda>_.
       case timeofday_thresholds rng of
         Inl e \<Rightarrow> Inl e
       | Inr thresholds \<Rightarrow>
           Inr (List.map_filter (\<lambda>(movement, threshold).
             case get_next_date env threshold of
               Inl _ \<Rightarrow> None
             | Inr date \<Rightarrow> Some \<lparr>ct_first = date, ct_repeat = Some day, ct_action = ClockMove movement\<rparr>) thresholds)))"

definition timestamp_thresholds :: "Range \<Rightarrow> Error + (movement \<times> int) list" where
  "timestamp_thresholds rng =
     (let enter = (\<lambda>val. try_type (as_timestamp val) (\<lambda>ts. Inr [(MoveEnter, ts)]))
      in case rng of
        Leq _ \<Rightarrow> Inr []
      | Geq val \<Rightarrow> enter val
      | Eq val \<Rightarrow> enter val
      | OutOfStrict mn mx \<Rightarrow>
          try_type (as_timestamp mn) (\<lambda>ts_min. try_type (as_timestamp mx) (\<lambda>ts_max.
            Inr [(MoveExit, ts_min), (MoveEnter, ts_max)]))
      | BetweenEq mn mx \<Rightarrow>
          try_type (as_timestamp mn) (\<lambda>ts_min. try_type (as_timestamp mx) (\<lambda>ts_max.
            Inr [(MoveEnter, ts_min), (MoveExit, ts_max)])))"

definition register_watch_timestamp :: "clock_env \<Rightarrow> Range \<Rightarrow> Error + clock_timer list" where
  "register_watch_timestamp env rng =
     try_type (range_type rng) (\<lambda>typ. try_type (ensure_eq TyTimeStamp typ) (\<lambda>_.
       case timestamp_thresholds rng of
         Inl e \<Rightarrow> Inl e
       | Inr thresholds \<Rightarrow>
           Inr (List.map_filter (\<lambda>(movement, date).
             if date < ce_utc_now env then None
             else Some \<lparr>ct_first = date, ct_repeat = None, ct_action = ClockMove movement\<rparr>) thresholds)))"

definition clock_aux_register_watch :: "clock_env \<Rightarrow> GetterId \<Rightarrow> Range \<Rightarrow> Error + clock_timer list" where
  "clock_aux_register_watch env i rng =
     (if i = getter_time_of_day_id then register_watch_timeofday env rng
      else if i = getter_timestamp_id then register_watch_timestamp env rng
      else if i = getter_interval_id then register_watch_interval env rng
      else Inl (GetterDoesNotSupportWatching i))"

definition clock_register_watch :: "clock_env \<Rightarrow> (GetterId \<times> Value option) list \<Rightarrow> (GetterId \<times> (Error + clock_timer list)) list" where
  "clock_register_watch env watch =
     map (\<lambda>(i, filter). (i, case filter of
        Some (VRange rng) \<Rightarrow> clock_aux_register_watch env i rng
      | _ \<Rightarrow> Inl (GetterRequiresThresholdForWatching i))) watch"

text \<open>What the closure of a timer sends when it fires at a local time.\<close>

definition clock_fire :: "GetterId \<Rightarrow> clock_timer \<Rightarrow> int \<Rightarrow> AdapterWatchEvent list" where
  "clock_fire i timer now =
     (case ct_action timer of
        ClockTick duration \<Rightarrow> [Enter i (VDuration duration), Exit i (VDuration duration)]
      | ClockMove movement \<Rightarrow>
          (let duration = seconds_from_midnight now * second
           in [case movement of MoveEnter \<Rightarrow> Enter i (VDuration duration) | MoveExit \<Rightarrow> Exit i (VDuration duration)]))"

text \<open>The service of the clock and its getters.\<close>

definition clock_setup :: "nat \<Rightarrow> registration list" where
  "clock_setup inst =
     [AddAdapter (Adapter clock_id inst),
      AddService ((service_empty service_clock_id clock_id)\<lparr>svc_properties := [(''model'', ''Mozilla clock v1'')]\<rparr>),
      AddGetter (new_channel clock_id service_clock_id getter_time_of_day_id KCurrentTimeOfDay),
      AddGetter (new_channel clock_id service_clock_id getter_timestamp_id KCurrentTime),
      AddGetter (new_channel clock_id service_clock_id getter_interval_id KCountEveryInterval)]"

end
