(* ===== verification/Clock_Props.thy ===== *)
theory Clock_Props
  imports Clock
begin

text \<open>
  When the timers of the clock fire, and what the watcher of a time of day knows once they have.
\<close>

lemma day_pos [simp]: "0 < day" by (simp add: day_def second_def)

section \<open>The next date\<close>

lemma next_date_facts:
  assumes "0 \<le> ce_local_now env" "ce_local_now env < day" "get_next_date env threshold = Inr date"
  shows "ce_local_now env \<le> date" "date < ce_local_now env + day" "date mod day = threshold mod day"
proof -
  define m where "m = threshold mod day"
  have m: "0 \<le> m" "m < day" "m mod day = m" by (simp_all add: m_def)
  have "date = (if m \<ge> ce_local_now env then m else m + day)"
    using assms(3) by (simp add: get_next_date_def Let_def m_def split: if_splits)
  with assms(1,2) m show "ce_local_now env \<le> date" "date < ce_local_now env + day" "date mod day = threshold mod day"
    unfolding m_def [symmetric] by auto
qed

text \<open>The first firing of a daily timer is within a day of now, at the time of day of the threshold
  (taken modulo a day when it is not one).\<close>

theorem next_date_within_a_day:
  assumes "0 \<le> ce_local_now env" "ce_local_now env < day" "get_next_date env threshold = Inr date"
  shows "ce_local_now env \<le> date \<and> date < ce_local_now env + day \<and> date mod day = threshold mod day"
  using next_date_facts [OF assms] by simp

theorem next_date_within_a_day_witness:
  "0 \<le> (50000::int) * second \<and> 50000 * second < day \<and>
   (50000 * second \<le> 8 * 3600 * second + day \<and> 8 * 3600 * second + day < 50000 * second + day \<and>
    (8 * 3600 * second + day) mod day = (8 * 3600 * second) mod day)"
  using next_date_within_a_day [of "\<lparr>ce_local_now = 50000 * second, ce_utc_now = 0, ce_local_ok = \<lambda>_. True\<rparr>"
      "8 * 3600 * second" "8 * 3600 * second + day"]
  by (simp add: get_next_date_def Let_def day_def second_def)

section \<open>The time of day\<close>

text \<open>The last firing of a daily timer at or before an instant, and whether the last event at an instant
  is Enter.\<close>

definition last_fire :: "int \<Rightarrow> clock_timer \<Rightarrow> int" where
  "last_fire t timer = t - (t - ct_first timer) mod day"

definition last_is_enter :: "clock_timer list \<Rightarrow> int \<Rightarrow> bool" where
  "last_is_enter timers t =
     list_ex (\<lambda>e. ct_action e = ClockMove MoveEnter \<and>
       list_all (\<lambda>x. ct_action x = ClockMove MoveExit \<longrightarrow> last_fire t x < last_fire t e) timers) timers"

text \<open>The firing is one of the timer: a whole number of days after the first one, once it has fired.\<close>

lemma last_fire_fires:
  assumes "ct_first timer \<le> t"
  shows "\<exists>n::nat. last_fire t timer = ct_first timer + int n * day \<and> last_fire t timer \<le> t \<and>
    t < ct_first timer + (int n + 1) * day"
proof -
  define d q r where "d = t - ct_first timer" and "q = d div day" and "r = d mod day"
  have e: "d = q * day + r" by (simp add: q_def r_def)
  have q: "0 \<le> q" using assms by (simp add: q_def d_def pos_imp_zdiv_nonneg_iff)
  have r: "0 \<le> r" "r < day" by (simp_all add: r_def)
  have l: "last_fire t timer = t - r" by (simp add: last_fire_def r_def d_def)
  have "ct_first timer + q * day = t - r" using e by (simp add: d_def)
  moreover have "(q + 1) * day = q * day + day" by (simp add: algebra_simps)
  ultimately show ?thesis using q r l by (intro exI [of _ "nat q"]) simp
qed

lemma mod_sub:
  assumes "0 \<le> a" "a \<le> day" "x = t mod day"
  shows "(t - a) mod day = (if a = day then x else if a \<le> x then x - a else x - a + day)"
proof -
  have x: "0 \<le> x" "x < day" using assms(3) by simp_all
  have e: "(t - a) mod day = (x - a) mod day" unfolding assms(3) by (rule mod_diff_left_eq [symmetric])
  consider "a = day" | "a < day" "a \<le> x" | "a < day" "x < a" using assms(2) by linarith
  then show ?thesis
  proof cases
    case 1
    have "(x - day) mod day = x mod day" by simp
    with e x 1 show ?thesis by (simp add: mod_pos_pos_trivial)
  next
    case 2
    then show ?thesis using e x assms(1) by (simp add: mod_pos_pos_trivial)
  next
    case 3
    have "(x - a) mod day = (x - a + day) mod day" by (rule mod_add_self2 [symmetric])
    also have "\<dots> = x - a + day" using 3 x by (intro mod_pos_pos_trivial) auto
    finally show ?thesis using e 3 by simp
  qed
qed

lemma last_fire_date:
  assumes "date mod day = a mod day"
  shows "last_fire t \<lparr>ct_first = date, ct_repeat = Some day, ct_action = act\<rparr> = t - (t - a) mod day"
proof -
  have "(t - date) mod day = (t - date mod day) mod day" by (rule mod_diff_right_eq [symmetric])
  also have "\<dots> = (t - a mod day) mod day" by (simp add: assms)
  also have "\<dots> = (t - a) mod day" by (rule mod_diff_right_eq)
  finally show ?thesis by (simp add: last_fire_def)
qed

text \<open>The ranges of a time of day, and their bounds.\<close>

fun timeofday_range :: "Range \<Rightarrow> bool" where
  "timeofday_range (Leq (VDuration b)) = (0 < b \<and> b < day)"
| "timeofday_range (Geq (VDuration b)) = (0 < b \<and> b < day)"
| "timeofday_range (BetweenEq (VDuration a) (VDuration b)) = (0 \<le> a \<and> a < b \<and> b < day)"
| "timeofday_range (OutOfStrict (VDuration a) (VDuration b)) = (0 \<le> a \<and> a < b \<and> b < day)"
| "timeofday_range _ = False"

fun range_bounds :: "Range \<Rightarrow> Value list" where
  "range_bounds (Leq b) = [b]"
| "range_bounds (Geq b) = [b]"
| "range_bounds (BetweenEq a b) = [a, b]"
| "range_bounds (OutOfStrict a b) = [a, b]"
| "range_bounds (Eq b) = [b]"

lemma timeofday_range_cases:
  assumes "timeofday_range rng"
  obtains (leq) b where "rng = Leq (VDuration b)" "0 < b" "b < day"
  | (geq) b where "rng = Geq (VDuration b)" "0 < b" "b < day"
  | (between) a b where "rng = BetweenEq (VDuration a) (VDuration b)" "0 \<le> a" "a < b" "b < day"
  | (out) a b where "rng = OutOfStrict (VDuration a) (VDuration b)" "0 \<le> a" "a < b" "b < day"
  using assms by (cases rng rule: timeofday_range.cases) auto

text \<open>One timer enters and one exits: what counts is which fired last.\<close>

lemma last_is_enter_pair:
  assumes "a mod day = da mod day" "b mod day = db mod day"
  shows "last_is_enter [\<lparr>ct_first = da, ct_repeat = Some day, ct_action = ClockMove MoveEnter\<rparr>,
             \<lparr>ct_first = db, ct_repeat = Some day, ct_action = ClockMove MoveExit\<rparr>] t \<longleftrightarrow> (t - a) mod day < (t - b) mod day"
    and "last_is_enter [\<lparr>ct_first = db, ct_repeat = Some day, ct_action = ClockMove MoveExit\<rparr>,
             \<lparr>ct_first = da, ct_repeat = Some day, ct_action = ClockMove MoveEnter\<rparr>] t \<longleftrightarrow> (t - a) mod day < (t - b) mod day"
  by (simp_all add: last_is_enter_def last_fire_date [OF assms(1) [symmetric]] last_fire_date [OF assms(2) [symmetric]])

text \<open>The timers of a range whose thresholds are two.\<close>

lemma timeofday_timers:
  assumes "timeofday_thresholds rng = Inr [(m1, a), (m2, b)]" "range_type rng = Inr TyDuration"
    "\<forall>x. ce_local_ok env x" "0 \<le> ce_local_now env" "ce_local_now env < day"
  obtains da db where "da mod day = a mod day" "db mod day = b mod day"
    "da < ce_local_now env + day" "db < ce_local_now env + day"
    "register_watch_timeofday env rng = Inr
      [\<lparr>ct_first = da, ct_repeat = Some day, ct_action = ClockMove m1\<rparr>,
       \<lparr>ct_first = db, ct_repeat = Some day, ct_action = ClockMove m2\<rparr>]"
proof -
  have next_date: "\<exists>d. get_next_date env x = Inr d" for x
    using assms(3) by (simp add: get_next_date_def Let_def)
  obtain da where da: "get_next_date env a = Inr da" using next_date by blast
  obtain db where db: "get_next_date env b = Inr db" using next_date by blast
  have "register_watch_timeofday env rng = Inr
      [\<lparr>ct_first = da, ct_repeat = Some day, ct_action = ClockMove m1\<rparr>,
       \<lparr>ct_first = db, ct_repeat = Some day, ct_action = ClockMove m2\<rparr>]"
    by (simp add: register_watch_timeofday_def try_type_def assms(1,2) ensure_eq_def List.map_filter_def da db)
  with next_date_facts [OF assms(4,5) da] next_date_facts [OF assms(4,5) db] show ?thesis
    by (intro that) auto
qed

lemma duration_cmp:
  "value_le (VDuration x) (VDuration b) = Done (x \<le> b)"
  "value_lt (VDuration x) (VDuration b) = Done (x < b)"
  "value_ge (VDuration x) (VDuration b) = Done (b \<le> x)"
  by (auto simp: value_le_def value_ge_def value_lt_def cmp_of_def)

lemma fired_in_between:
  assumes "0 \<le> a" "a < b" "b < day"
  shows "(t - a) mod day < (t - b) mod day \<longleftrightarrow> a \<le> t mod day \<and> t mod day < b"
    and "(t - b) mod day < (t - a) mod day \<longleftrightarrow> t mod day < a \<or> b \<le> t mod day"
proof -
  obtain x where x: "x = t mod day" "0 \<le> x" "x < day" by simp
  have "(t - a) mod day = (if a \<le> x then x - a else x - a + day)"
    using mod_sub [OF assms(1) _ x(1)] assms by simp
  moreover have "(t - b) mod day = (if b \<le> x then x - b else x - b + day)"
    using mod_sub [OF _ _ x(1), of b] assms by simp
  ultimately show "(t - a) mod day < (t - b) mod day \<longleftrightarrow> a \<le> t mod day \<and> t mod day < b"
    "(t - b) mod day < (t - a) mod day \<longleftrightarrow> t mod day < a \<or> b \<le> t mod day"
    using assms x(2,3) unfolding x(1) [symmetric] by auto
qed

lemma fired_after:
  assumes "0 < a" "a < day"
  shows "(t - a) mod day < (t - day) mod day \<longleftrightarrow> a \<le> t mod day"
proof -
  obtain x where x: "x = t mod day" "0 \<le> x" "x < day" by simp
  have "(t - a) mod day = (if a \<le> x then x - a else x - a + day)"
    using mod_sub [OF _ _ x(1), of a] assms by simp
  moreover have "(t - day) mod day = x" using x(1) by simp
  ultimately show ?thesis using assms x(2,3) unfolding x(1) [symmetric] by auto
qed

text \<open>Every range is one interval of the day, read around midnight.\<close>

lemma thresholds_faithful:
  assumes "timeofday_range rng"
  obtains a b where
    "timeofday_thresholds rng = Inr [(MoveEnter, a), (MoveExit, b)] \<or> timeofday_thresholds rng = Inr [(MoveExit, b), (MoveEnter, a)]"
    "\<And>t. VDuration (t mod day) \<notin> set (range_bounds rng) \<Longrightarrow>
      (t - a) mod day < (t - b) mod day \<longleftrightarrow> range_contains rng (VDuration (t mod day)) = Done True"
  using assms
proof (cases rule: timeofday_range_cases)
  case (leq b)
  show ?thesis
  proof (rule that [of 0 b])
    fix t assume "VDuration (t mod day) \<notin> set (range_bounds rng)"
    with leq show "(t - 0) mod day < (t - b) mod day \<longleftrightarrow> range_contains rng (VDuration (t mod day)) = Done True"
      using fired_in_between(1) [of 0 b t] by (auto simp: duration_cmp)
  qed (simp_all add: leq timeofday_thresholds_def try_type_def)
next
  case (geq b)
  show ?thesis
  proof (rule that [of b day])
    fix t assume "VDuration (t mod day) \<notin> set (range_bounds rng)"
    with geq show "(t - b) mod day < (t - day) mod day \<longleftrightarrow> range_contains rng (VDuration (t mod day)) = Done True"
      using fired_after [of b t] by (auto simp: duration_cmp)
  qed (simp_all add: geq timeofday_thresholds_def try_type_def)
next
  case (between a b)
  show ?thesis
  proof (rule that [of a b])
    fix t assume "VDuration (t mod day) \<notin> set (range_bounds rng)"
    with between show "(t - a) mod day < (t - b) mod day \<longleftrightarrow> range_contains rng (VDuration (t mod day)) = Done True"
      by (auto simp: fired_in_between(1) duration_cmp)
  qed (simp_all add: between timeofday_thresholds_def try_type_def)
next
  case (out a b)
  show ?thesis
  proof (rule that [of b a])
    fix t assume "VDuration (t mod day) \<notin> set (range_bounds rng)"
    with out show "(t - b) mod day < (t - a) mod day \<longleftrightarrow> range_contains rng (VDuration (t mod day)) = Done True"
      by (auto simp: fired_in_between(2) duration_cmp)
  qed (simp_all add: out timeofday_thresholds_def try_type_def)
qed

lemma timeofday_range_type: "timeofday_range rng \<Longrightarrow> range_type rng = Inr TyDuration"
  by (erule timeofday_range_cases) simp_all



section \<open>Timestamps\<close>

text \<open>Whatever the instant a watcher asks for, the event of a watch of the current time carries a duration,
  and never a timestamp: no range of timestamps contains the value that is sent for it.\<close>

theorem timestamp_watch_sends_durations:
  assumes reg: "register_watch_timestamp env rng = Inr timers" and "timer \<in> set timers"
    and ev: "event \<in> set (clock_fire i timer now)"
  shows "(\<exists>d. event = Enter i (VDuration d) \<or> event = Exit i (VDuration d)) \<and>
    (\<forall>d. range_contains rng (VDuration d) \<noteq> Done True)"
proof -
  from reg assms(2) obtain movement where "ct_action timer = ClockMove movement"
    by (auto simp: register_watch_timestamp_def try_type_def Let_def List.map_filter_def split: sum.splits if_splits)
  with ev have "\<exists>d. event = Enter i (VDuration d) \<or> event = Exit i (VDuration d)"
    by (auto simp: clock_fire_def Let_def split: movement.splits)
  moreover have "range_type rng = Inr TyTimeStamp"
    using reg by (auto simp: register_watch_timestamp_def try_type_def ensure_eq_def split: sum.splits if_splits)
  then have "range_contains rng (VDuration d) \<noteq> Done True" for d
    using range_contains_type [of rng "VDuration d"] by auto
  ultimately show ?thesis by blast
qed

theorem timestamp_watch_sends_durations_witness:
  "(\<exists>d. Enter getter_timestamp_id (VDuration (36000 * second)) = Enter getter_timestamp_id (VDuration d) \<or>
      Enter getter_timestamp_id (VDuration (36000 * second)) = Exit getter_timestamp_id (VDuration d)) \<and>
   (\<forall>d. range_contains (Geq (VTimeStamp (10 * day))) (VDuration d) \<noteq> Done True)"
  by (rule timestamp_watch_sends_durations [where env = "\<lparr>ce_local_now = 0, ce_utc_now = 9 * day, ce_local_ok = \<lambda>_. True\<rparr>"
        and timers = "[\<lparr>ct_first = 10 * day, ct_repeat = None, ct_action = ClockMove MoveEnter\<rparr>]"
        and timer = "\<lparr>ct_first = 10 * day, ct_repeat = None, ct_action = ClockMove MoveEnter\<rparr>"
        and now = "36000 * second"])
    (simp_all add: register_watch_timestamp_def timestamp_thresholds_def try_type_def ensure_eq_def
      List.map_filter_def clock_fire_def seconds_from_midnight_def day_def second_def)

end
