(* ===== verification/Console_Tts.thy ===== *)
theory Console_Tts
  imports Adapter_Setup
begin

text \<open>
  Two adapters with one setter each: \<^verbatim>\<open>src/adapters/console/mod.rs\<close>, which prints what it is sent, and
  \<^verbatim>\<open>src/adapters/tts/mod.rs\<close>, which says it. What is printed and what the engine is told to say are
  returned with the answer; whether the engine starts is a parameter.
\<close>

section \<open>The console\<close>

definition console_id :: AdapterId where "console_id = ''console@link.mozilla.org''"
definition service_console_id :: ServiceId where "service_console_id = ''service:console@link.mozilla.org''"
definition setter_stdout_id :: SetterId where "setter_stdout_id = ''setter:stdout@link.mozilla.org''"

text \<open>A line of the console: a text as it is, another value in its debug form, both with the user.\<close>

datatype console_line = PrintText string User | PrintValue Value User

definition console_print :: "Value \<Rightarrow> User \<Rightarrow> console_line" where
  "console_print value user = (case value of VString s \<Rightarrow> PrintText s user | _ \<Rightarrow> PrintValue value user)"

definition console_send_values ::
    "(SetterId, Value) hashmap \<Rightarrow> User \<Rightarrow> (SetterId, unit, Error) ResultMap \<times> console_line list" where
  "console_send_values values user =
     (hm_extend [] (map (\<lambda>(i, value). (i,
        if i = setter_stdout_id then Inr () else Inl (ErrInternal (NoSuchSetter i)))) values),
      map (\<lambda>(i, value). console_print value user) (filter (\<lambda>(i, _). i = setter_stdout_id) values))"

definition console_setup :: "nat \<Rightarrow> registration list" where
  "console_setup inst =
     [AddAdapter (Adapter console_id inst),
      AddService ((service_empty service_console_id console_id)\<lparr>svc_properties := [(''model'', ''Mozilla console v1'')]\<rparr>),
      AddSetter (new_channel console_id service_console_id setter_stdout_id KLog)]"

section \<open>Text to speech\<close>

definition tts_id :: AdapterId where "tts_id = ''espeak_adapter@link.mozilla.org''"
definition service_tts_id :: ServiceId where "service_tts_id = ''espeak@link.mozilla.org''"
definition talk_setter_id :: SetterId where "talk_setter_id = ''setter:talk@link.mozilla.org''"

definition tts_send_one :: "SetterId \<Rightarrow> Value \<Rightarrow> (Error + unit) \<times> string list" where
  "tts_send_one i value =
     (if i = talk_setter_id then
        (case value of VString sentence \<Rightarrow> (Inr (), [sentence]) | _ \<Rightarrow> (Inl (ErrInternal (NoSuchSetter i)), []))
      else (Inl (ErrInternal (NoSuchSetter i)), []))"

definition tts_send_values :: "(SetterId, Value) hashmap \<Rightarrow> (SetterId, unit, Error) ResultMap \<times> string list" where
  "tts_send_values values =
     (hm_extend [] (map (\<lambda>(i, value). (i, fst (tts_send_one i value))) values),
      concat (map (\<lambda>(i, value). snd (tts_send_one i value)) values))"

definition tts_setup :: "nat \<Rightarrow> registration list" where
  "tts_setup inst =
     [AddAdapter (Adapter tts_id inst),
      AddService (service_empty service_tts_id tts_id),
      AddSetter (new_channel tts_id service_tts_id talk_setter_id
        (KExtension ''team@link.mozilla.org'' ''eSpeak adapter'' ''Sentence'' TyString))]"

definition tts_init :: "bool \<Rightarrow> nat \<Rightarrow> manager \<Rightarrow> ((Error + unit) \<times> manager) outcome" where
  "tts_init engine_starts inst manager =
     (if \<not> engine_starts then Done (Inl (ErrInternal (GenericError ''eSpeak initialization failed!'')), manager)
      else run_setup (tts_setup inst) manager)"

end
