(* ===== verification/Config_Store.thy ===== *)
theory Config_Store
  imports Foxbox_Prelude
begin

text \<open>
  \<^verbatim>\<open>src/config_store.rs\<close>: the properties of the adapters, by namespace, in a file, and overrides that
  are not stored. The text of the file is made and read by a library, a \<open>codec\<close>; the elements of the
  text are of any type. The file system is a map from names to texts, and a save is given the outcome
  of each of its four calls.
\<close>

type_synonym config_tree = "string btree btree"

record 'b codec =
  cc_print :: "config_tree \<Rightarrow> 'b list"
  cc_parse :: "'b list \<Rightarrow> config_tree option"

type_synonym 'b files = "(string, 'b list) hashmap"

text \<open>A call that fails leaves its target as it was, or with the first elements of what it should hold.\<close>

datatype io_result = IoOk | IoUntouched | IoTruncated nat

record save_io =
  io_create :: bool
  io_write :: "nat option" \<comment> \<open>how much was written before the error\<close>
  io_copy :: io_result
  io_remove :: bool

definition io_success :: "save_io \<Rightarrow> bool" where
  "io_success io \<longleftrightarrow> io_create io \<and> io_write io = None \<and> io_copy io = IoOk"

record config_store =
  cs_file_name :: string
  cs_config :: config_tree
  cs_overrides :: config_tree

section \<open>The store\<close>

definition config_load :: "'b codec \<Rightarrow> 'b files \<Rightarrow> string \<Rightarrow> config_tree" where
  "config_load codec files file_name =
     (case hm_get files file_name of
        None \<Rightarrow> []
      | Some file \<Rightarrow> (case cc_parse codec file of Some v \<Rightarrow> v | None \<Rightarrow> []))"

definition config_new :: "'b codec \<Rightarrow> 'b files \<Rightarrow> string \<Rightarrow> config_store" where
  "config_new codec files file_name =
     \<lparr>cs_file_name = file_name, cs_config = config_load codec files file_name, cs_overrides = []\<rparr>"

text \<open>The result of \<^verbatim>\<open>write_all\<close> is inside the \<^verbatim>\<open>Ok\<close> of \<^verbatim>\<open>map\<close>: nothing looks at it.\<close>

definition config_save :: "'b codec \<Rightarrow> save_io \<Rightarrow> config_store \<Rightarrow> 'b files \<Rightarrow> 'b files" where
  "config_save codec io self files =
     (let file_path = cs_file_name self;
          update_path = file_path @ ''.updated'';
          conf_as_json = cc_print codec (cs_config self)
      in if \<not> io_create io then files
         else
           let written = (case io_write io of None \<Rightarrow> conf_as_json | Some n \<Rightarrow> take n conf_as_json);
               files = hm_insert update_path written files
           in case io_copy io of
                IoUntouched \<Rightarrow> files
              | IoTruncated n \<Rightarrow> hm_insert file_path (take n written) files
              | IoOk \<Rightarrow>
                  (let files = hm_insert file_path written files
                   in if io_remove io then hm_remove update_path files else files))"

definition tree_set :: "string \<Rightarrow> string \<Rightarrow> string \<Rightarrow> config_tree \<Rightarrow> config_tree" where
  "tree_set namespace property val tree =
     (let tree = (if hm_has tree namespace then tree else bt_insert namespace [] tree)
      in case hm_get tree namespace of
           None \<Rightarrow> tree
         | Some space \<Rightarrow> bt_insert namespace (bt_insert property val space) tree)"

definition tree_get :: "string \<Rightarrow> string \<Rightarrow> config_tree \<Rightarrow> string option" where
  "tree_get namespace property tree =
     (case hm_get tree namespace of None \<Rightarrow> None | Some space \<Rightarrow> hm_get space property)"

definition config_set ::
    "'b codec \<Rightarrow> save_io \<Rightarrow> string \<Rightarrow> string \<Rightarrow> string \<Rightarrow> config_store \<times> 'b files \<Rightarrow> config_store \<times> 'b files" where
  "config_set codec io namespace property val = (\<lambda>(self, files).
     let self = self\<lparr>cs_config := tree_set namespace property val (cs_config self)\<rparr>
     in (self, config_save codec io self files))"

definition config_set_override :: "string \<Rightarrow> string \<Rightarrow> string \<Rightarrow> config_store \<Rightarrow> config_store" where
  "config_set_override namespace property val self =
     self\<lparr>cs_overrides := tree_set namespace property val (cs_overrides self)\<rparr>"

definition config_get_override :: "string \<Rightarrow> string \<Rightarrow> config_store \<Rightarrow> string option" where
  "config_get_override namespace property self = tree_get namespace property (cs_overrides self)"

definition config_get_no_override :: "string \<Rightarrow> string \<Rightarrow> config_store \<Rightarrow> string option" where
  "config_get_no_override namespace property self = tree_get namespace property (cs_config self)"

definition config_get :: "string \<Rightarrow> string \<Rightarrow> config_store \<Rightarrow> string option" where
  "config_get namespace property self =
     (case config_get_override namespace property self of
        Some val \<Rightarrow> Some val
      | None \<Rightarrow> config_get_no_override namespace property self)"

definition config_get_or_set_default ::
    "'b codec \<Rightarrow> save_io \<Rightarrow> string \<Rightarrow> string \<Rightarrow> string \<Rightarrow> config_store \<times> 'b files \<Rightarrow> string \<times> config_store \<times> 'b files" where
  "config_get_or_set_default codec io namespace property dflt = (\<lambda>(self, files).
     case config_get namespace property self of
       Some val \<Rightarrow> (val, self, files)
     | None \<Rightarrow> (dflt, config_set codec io namespace property dflt (self, files)))"

section \<open>Sequences of operations\<close>

datatype config_op =
    OpSet save_io string string string
  | OpOverride string string string
  | OpDefault save_io string string string

fun run_config_op :: "'b codec \<Rightarrow> config_op \<Rightarrow> config_store \<times> 'b files \<Rightarrow> config_store \<times> 'b files" where
  "run_config_op codec (OpSet io n p v) s = config_set codec io n p v s"
| "run_config_op codec (OpOverride n p v) s = (config_set_override n p v (fst s), snd s)"
| "run_config_op codec (OpDefault io n p v) s = snd (config_get_or_set_default codec io n p v s)"

fun op_io_success :: "config_op \<Rightarrow> bool" where
  "op_io_success (OpSet io _ _ _) = io_success io"
| "op_io_success (OpOverride _ _ _) = True"
| "op_io_success (OpDefault io _ _ _) = io_success io"

text \<open>The specification: the stored properties and the overrides, as partial maps.\<close>

type_synonym properties = "string \<times> string \<Rightarrow> string option"

fun spec_config_op :: "config_op \<Rightarrow> properties \<times> properties \<Rightarrow> properties \<times> properties" where
  "spec_config_op (OpSet _ n p v) (stored, over) = (stored((n, p) \<mapsto> v), over)"
| "spec_config_op (OpOverride n p v) (stored, over) = (stored, over((n, p) \<mapsto> v))"
| "spec_config_op (OpDefault _ n p v) (stored, over) =
     (if (stored ++ over) (n, p) = None then (stored((n, p) \<mapsto> v), over) else (stored, over))"

definition config_view :: "config_store \<Rightarrow> properties \<times> properties" where
  "config_view self = (\<lambda>(n, p). tree_get n p (cs_config self), \<lambda>(n, p). tree_get n p (cs_overrides self))"

lemma tree_get_set:
  "tree_get n' p' (tree_set n p v tree) = (if n' = n \<and> p' = p then Some v else tree_get n' p' tree)"
  by (auto simp: tree_get_def tree_set_def hm_has_def Let_def split: option.splits)

lemma tree_view_set: "(\<lambda>(n', p'). tree_get n' p' (tree_set n p v tree)) = (\<lambda>(n', p'). tree_get n' p' tree)((n, p) \<mapsto> v)"
  by (auto simp: fun_eq_iff tree_get_set)

lemma config_get_view: "config_get n p self = (fst (config_view self) ++ snd (config_view self)) (n, p)"
  by (simp add: config_get_def config_view_def config_get_override_def config_get_no_override_def map_add_def
      split: option.splits)

lemma config_set_fst: "fst (config_set codec io n p v (self, files)) = self\<lparr>cs_config := tree_set n p v (cs_config self)\<rparr>"
  by (simp add: config_set_def Let_def)

lemma view_run_config_op: "config_view (fst (run_config_op codec op s)) = spec_config_op op (config_view (fst s))"
proof (cases s)
  case (Pair self files)
  have set: "config_view (self\<lparr>cs_config := tree_set n p v (cs_config self)\<rparr>) =
      ((fst (config_view self))((n, p) \<mapsto> v), snd (config_view self))" for n p v
    by (simp add: config_view_def tree_view_set)
  show ?thesis
  proof (cases op)
    case (OpDefault io n p v)
    have "config_get n p self = (fst (config_view self) ++ snd (config_view self)) (n, p)" by (rule config_get_view)
    then show ?thesis
      using OpDefault Pair set [of n p v]
      by (cases "config_view self") (auto simp: config_get_or_set_default_def config_set_fst split: option.splits)
  next
    case (OpSet io n p v)
    then show ?thesis using Pair set [of n p v] by (cases "config_view self") (simp add: config_set_fst)
  next
    case (OpOverride n p v)
    then show ?thesis using Pair
      by (simp add: config_view_def config_set_override_def tree_view_set)
  qed
qed

text \<open>C25: The store implements two partial maps, of stored properties and of overrides: every sequence of
  operations updates them as the specification says, whatever happens to the file, and a property is
  read from the overrides first.\<close>

theorem config_refines_overlay:
  "config_view (fst (fold (run_config_op codec) ops s)) = fold spec_config_op ops (config_view (fst s)) \<and>
   config_get n p (fst (fold (run_config_op codec) ops s)) =
     (case fold spec_config_op ops (config_view (fst s)) of (stored, over) \<Rightarrow> (stored ++ over) (n, p))"
proof -
  have "config_view (fst (fold (run_config_op codec) ops s)) = fold spec_config_op ops (config_view (fst s))"
    by (induction ops arbitrary: s) (simp_all add: view_run_config_op)
  then show ?thesis by (simp add: config_get_view split: prod.splits)
qed

section \<open>The file\<close>

definition codec_ok :: "'b codec \<Rightarrow> bool" where
  "codec_ok codec \<longleftrightarrow> (\<forall>tree. cc_parse codec (cc_print codec tree) = Some tree)"

text \<open>The text of a tree is an object in braces: no proper prefix of it is a text.\<close>

definition codec_prefix_free :: "'b codec \<Rightarrow> bool" where
  "codec_prefix_free codec \<longleftrightarrow>
     (\<forall>tree n. n < length (cc_print codec tree) \<longrightarrow> cc_parse codec (take n (cc_print codec tree)) = None)"

lemma update_path_differs: "file_path @ ''.updated'' \<noteq> file_path"
  by simp

lemma save_stores:
  assumes "codec_ok codec" "io_success io"
  shows "config_load codec (config_save codec io self files) (cs_file_name self) = cs_config self"
  using assms by (simp add: config_save_def config_load_def io_success_def codec_ok_def Let_def)

lemma run_config_op_stores:
  assumes "codec_ok codec" "op_io_success op"
    "config_load codec (snd s) (cs_file_name (fst s)) = cs_config (fst s)"
  shows "config_load codec (snd (run_config_op codec op s)) (cs_file_name (fst s)) = cs_config (fst (run_config_op codec op s)) \<and>
    cs_file_name (fst (run_config_op codec op s)) = cs_file_name (fst s)"
proof (cases s)
  case (Pair self files)
  have set: "config_load codec (snd (config_set codec io n p v (self, files))) (cs_file_name self) =
      cs_config (fst (config_set codec io n p v (self, files)))" if "io_success io" for io n p v
    using save_stores [OF assms(1) that, of "self\<lparr>cs_config := tree_set n p v (cs_config self)\<rparr>" files]
    by (simp add: config_set_def Let_def)
  show ?thesis
    using assms(2,3) Pair
    by (cases op) (auto simp: set config_set_fst config_set_override_def config_get_or_set_default_def split: option.splits)
qed

text \<open>C26: As long as no save fails, a restart finds every property that was set, and no override.\<close>

theorem config_survives_restart:
  assumes "codec_ok codec" "\<forall>op \<in> set ops. op_io_success op"
    "(self, files') = fold (run_config_op codec) ops (config_new codec files file_name, files)"
  shows "config_new codec files' file_name = self\<lparr>cs_overrides := []\<rparr>"
proof -
  have "config_load codec (snd s') (cs_file_name (fst s)) = cs_config (fst s') \<and> cs_file_name (fst s') = cs_file_name (fst s)"
    if "\<forall>op \<in> set ops. op_io_success op" "config_load codec (snd s) (cs_file_name (fst s)) = cs_config (fst s)"
      "s' = fold (run_config_op codec) ops s" for s s'
    using that
  proof (induction ops arbitrary: s)
    case (Cons op ops)
    then have "op_io_success op" by simp
    note step = run_config_op_stores [OF assms(1) this Cons.prems(2)]
    show ?case using Cons.IH [of "run_config_op codec op s"] Cons.prems step by simp
  qed simp
  from this [OF assms(2) _ assms(3)]
  have "config_load codec files' file_name = cs_config self" "cs_file_name self = file_name"
    by (simp_all add: config_new_def)
  then show ?thesis by (simp add: config_new_def)
qed

text \<open>When the disk fills up during a save, the file is replaced by what was written of it, and a
  restart finds no property at all: not even the ones the file held before.\<close>

theorem failed_write_loses_the_configuration:
  assumes "codec_prefix_free codec" "io_create io" "io_write io = Some n" "io_copy io = IoOk"
    "n < length (cc_print codec (tree_set ns p v (cs_config self)))"
  shows "config_new codec (snd (config_set codec io ns p v (self, files))) (cs_file_name self) =
    \<lparr>cs_file_name = cs_file_name self, cs_config = [], cs_overrides = []\<rparr>"
  using assms
  by (simp add: config_set_def config_save_def config_new_def config_load_def codec_prefix_free_def Let_def)

section \<open>A codec\<close>

text \<open>A text is the list of the namespaces and an end mark.\<close>

definition sample_codec :: "(string \<times> string btree) option codec" where
  "sample_codec = \<lparr>cc_print = (\<lambda>tree. map Some tree @ [None]),
     cc_parse = (\<lambda>xs. if xs \<noteq> [] \<and> last xs = None \<and> None \<notin> set (butlast xs) then Some (map the (butlast xs)) else None)\<rparr>"

lemma sample_codec_ok: "codec_ok sample_codec"
  by (auto simp: codec_ok_def sample_codec_def map_idI)

lemma sample_codec_prefix_free: "codec_prefix_free sample_codec"
  unfolding codec_prefix_free_def
proof (intro allI impI)
  fix tree n assume n: "n < length (cc_print sample_codec tree)"
  then have "take n (cc_print sample_codec tree) = map Some (take n tree)"
    by (simp add: sample_codec_def take_map)
  moreover have "cc_parse sample_codec (map Some xs) = None" for xs
    by (cases xs rule: rev_cases) (simp_all add: sample_codec_def)
  ultimately show "cc_parse sample_codec (take n (cc_print sample_codec tree)) = None" by simp
qed

definition good_io :: save_io where
  "good_io = \<lparr>io_create = True, io_write = None, io_copy = IoOk, io_remove = True\<rparr>"

theorem config_survives_restart_witness:
  "config_new sample_codec (snd (fold (run_config_op sample_codec)
       [OpSet good_io ''hue'' ''token'' ''t'', OpOverride ''hue'' ''token'' ''u'', OpDefault good_io ''hue'' ''url'' ''v'']
       (config_new sample_codec [] ''conf'', []))) ''conf'' =
   \<lparr>cs_file_name = ''conf'', cs_config = [(''hue'', [(''token'', ''t''), (''url'', ''v'')])], cs_overrides = []\<rparr>"
  using config_survives_restart [OF sample_codec_ok,
      of "[OpSet good_io ''hue'' ''token'' ''t'', OpOverride ''hue'' ''token'' ''u'', OpDefault good_io ''hue'' ''url'' ''v'']"
         _ _ "[]" "''conf''", OF _ surjective_pairing [symmetric]]
  by (simp add: good_io_def io_success_def config_new_def config_load_def config_set_def config_set_override_def
      config_get_or_set_default_def config_get_def config_get_override_def config_get_no_override_def
      tree_set_def tree_get_def hm_has_def Let_def)

theorem failed_write_loses_the_configuration_witness:
  "config_new sample_codec
     (snd (config_set sample_codec \<lparr>io_create = True, io_write = Some 0, io_copy = IoOk, io_remove = True\<rparr> ''hue'' ''url'' ''v''
       (\<lparr>cs_file_name = ''conf'', cs_config = [(''hue'', [(''token'', ''t'')])], cs_overrides = []\<rparr>,
        [(''conf'', [Some (''hue'', [(''token'', ''t'')]), None])]))) ''conf'' =
   \<lparr>cs_file_name = ''conf'', cs_config = [], cs_overrides = []\<rparr>"
  using failed_write_loses_the_configuration [OF sample_codec_prefix_free,
      of "\<lparr>io_create = True, io_write = Some 0, io_copy = IoOk, io_remove = True\<rparr>" 0 "''hue''" "''url''" "''v''"
         "\<lparr>cs_file_name = ''conf'', cs_config = [(''hue'', [(''token'', ''t'')])], cs_overrides = []\<rparr>"
         "[(''conf'', [Some (''hue'', [(''token'', ''t'')]), None])]"]
  by (simp add: sample_codec_def)

end
