(* ===== verification/Webpush_Ffi.thy ===== *)
theory Webpush_Ffi
  imports Foxbox_Prelude "HOL-Library.Multiset"
begin

text \<open>
  \<^verbatim>\<open>src/adapters/webpush/crypto.rs\<close>, the half that calls OpenSSL through its C interface. An object of the
  library the program owns is a handle in \<open>ff_live\<close>, until the program frees it; freeing a handle that is
  not live is undefined behaviour, the outcome \<open>Panic\<close>. Whether the n-th call of the library succeeds
  is the oracle \<open>ff_succeeds\<close>. A pointer into an object the program does not own (\<^verbatim>\<open>get0\<close>) is no
  handle; a null pointer is \<open>None\<close>. The one-turn loops of the code, left by \<^verbatim>\<open>break\<close> to reach the
  clean-up, are nested tests.
\<close>

record ffi =
  ff_succeeds :: "nat \<Rightarrow> bool"
  ff_calls :: nat
  ff_next :: nat
  ff_live :: "nat list"

type_synonym handle = "nat option"

definition ffi_start :: "(nat \<Rightarrow> bool) \<Rightarrow> ffi" where
  "ffi_start succeeds = \<lparr>ff_succeeds = succeeds, ff_calls = 0, ff_next = 0, ff_live = []\<rparr>"

text \<open>A call that returns a status, one that returns a new object, and one that frees an object.\<close>

definition ffi_test :: "ffi \<Rightarrow> bool \<times> ffi" where
  "ffi_test st = (ff_succeeds st (ff_calls st), st\<lparr>ff_calls := ff_calls st + 1\<rparr>)"

definition ffi_new :: "ffi \<Rightarrow> handle \<times> ffi" where
  "ffi_new st =
     (case ffi_test st of (ok, st) \<Rightarrow>
        if ok then (Some (ff_next st), st\<lparr>ff_next := ff_next st + 1, ff_live := ff_next st # ff_live st\<rparr>)
        else (None, st))"

definition ffi_free :: "nat \<Rightarrow> ffi \<Rightarrow> ffi outcome" where
  "ffi_free h st = (if h \<in> set (ff_live st) then Done (st\<lparr>ff_live := remove1 h (ff_live st)\<rparr>) else Panic)"

text \<open>\<^verbatim>\<open>if !p.is_null() { free(p) }\<close>\<close>

definition ffi_free_unless_null :: "handle \<Rightarrow> ffi \<Rightarrow> ffi outcome" where
  "ffi_free_unless_null p st = (case p of None \<Rightarrow> Done st | Some h \<Rightarrow> ffi_free h st)"

section \<open>Keys\<close>

definition ecdh_import_public_key :: "ffi \<Rightarrow> (handle \<times> ffi) outcome" where
  "ecdh_import_public_key st =
     (case ffi_new st of (eckey, st) \<Rightarrow>
      bind_outcome
       (if eckey = None then Done (None, None, st)
        else case ffi_test st of (ecgroup, st) \<Rightarrow>
          if \<not> ecgroup then Done (None, None, st)
          else case ffi_new st of (ecpoint, st) \<Rightarrow>
            if ecpoint = None then Done (None, None, st)
            else case ffi_test st of (is_set, st) \<Rightarrow>
              if \<not> is_set then Done (ecpoint, None, st)
              else case ffi_new st of (peer_key, st) \<Rightarrow>
                (case peer_key of
                   None \<Rightarrow> Done (ecpoint, None, st)
                 | Some peer \<Rightarrow>
                     (case ffi_test st of (is_set, st) \<Rightarrow>
                        if is_set then Done (ecpoint, peer_key, st)
                        else bind_outcome (ffi_free peer st) (\<lambda>st. Done (ecpoint, None, st)))))
       (\<lambda>(ecpoint, peer_key, st).
         bind_outcome (ffi_free_unless_null eckey st) (\<lambda>st.
         bind_outcome (ffi_free_unless_null ecpoint st) (\<lambda>st. Done (peer_key, st)))))"

definition ecdh_generate_params :: "ffi \<Rightarrow> (handle \<times> ffi) outcome" where
  "ecdh_generate_params st =
     (case ffi_new st of (ctx, st) \<Rightarrow>
      case (if ctx = None then (None, st)
            else case ffi_test st of (is_init, st) \<Rightarrow>
              if \<not> is_init then (None, st)
              else case ffi_test st of (is_set, st) \<Rightarrow>
                if \<not> is_set then (None, st) else ffi_new st) of
        (params, st) \<Rightarrow> bind_outcome (ffi_free_unless_null ctx st) (\<lambda>st. Done (params, st)))"

definition ecdh_generate_key_pair :: "ffi \<Rightarrow> (handle \<times> ffi) outcome" where
  "ecdh_generate_key_pair st =
     bind_outcome (ecdh_generate_params st) (\<lambda>(params, st).
       case (if params = None then (None, None, st)
             else case ffi_new st of (ctx, st) \<Rightarrow>
               if ctx = None then (None, None, st)
               else case ffi_test st of (is_init, st) \<Rightarrow>
                 if \<not> is_init then (ctx, None, st)
                 else case ffi_new st of (key, st) \<Rightarrow> (ctx, key, st)) of
         (ctx, key, st) \<Rightarrow>
           bind_outcome (ffi_free_unless_null ctx st) (\<lambda>st.
           bind_outcome (ffi_free_unless_null params st) (\<lambda>st. Done (key, st))))"

text \<open>Whether a shared key was derived.\<close>

definition ecdh_derive_shared_key :: "handle \<Rightarrow> handle \<Rightarrow> ffi \<Rightarrow> (bool \<times> ffi) outcome" where
  "ecdh_derive_shared_key local_key peer_key st =
     (if local_key = None \<or> peer_key = None then Done (False, st)
      else case ffi_new st of (ctx, st) \<Rightarrow>
        case (if ctx = None then (False, st)
              else case ffi_test st of (is_init, st) \<Rightarrow>
                if \<not> is_init then (False, st)
                else case ffi_test st of (is_set, st) \<Rightarrow>
                  if \<not> is_set then (False, st)
                  else case ffi_test st of (has_length, st) \<Rightarrow>
                    if \<not> has_length then (False, st) else ffi_test st) of
          (status, st) \<Rightarrow> bind_outcome (ffi_free_unless_null ctx st) (\<lambda>st. Done (status, st)))"

text \<open>Whether the public key was exported. A null group is only logged.\<close>

definition ecdh_export_public_key :: "handle \<Rightarrow> ffi \<Rightarrow> (bool \<times> ffi) outcome" where
  "ecdh_export_public_key key st =
     (if key = None then Done (False, st)
      else case ffi_new st of (eckey, st) \<Rightarrow>
        case (if eckey = None then (None, st)
              else case ffi_test st of (ecpoint, st) \<Rightarrow>
                if \<not> ecpoint then (None, st)
                else case ffi_test st of (ecgroup, st) \<Rightarrow> ffi_new st) of
          (buf, st) \<Rightarrow>
            bind_outcome (ffi_free_unless_null buf st) (\<lambda>st.
            bind_outcome (ffi_free_unless_null eckey st) (\<lambda>st. Done (buf \<noteq> None, st))))"

text \<open>The context owns the pair of keys and frees it when its last owner is dropped. Decoding the public
  key (the parameter \<open>hex_ok\<close>) can fail too.\<close>

definition crypto_context_new :: "bool \<Rightarrow> ffi \<Rightarrow> (handle \<times> ffi) outcome" where
  "crypto_context_new hex_ok st =
     bind_outcome (ecdh_generate_key_pair st) (\<lambda>(local_key, st).
     bind_outcome (ecdh_export_public_key local_key st) (\<lambda>(public_key, st).
       if local_key = None \<or> \<not> public_key then Done (None, st)
       else if \<not> hex_ok then Done (None, st)
       else Done (local_key, st)))"

definition key_pair_store_drop :: "handle \<Rightarrow> ffi \<Rightarrow> ffi outcome" where
  "key_pair_store_drop = ffi_free_unless_null"

definition ecdh_derive_keys :: "handle \<Rightarrow> ffi \<Rightarrow> (bool \<times> ffi) outcome" where
  "ecdh_derive_keys key_pair st =
     bind_outcome (ecdh_import_public_key st) (\<lambda>(peer_key, st).
     bind_outcome (ecdh_derive_shared_key key_pair peer_key st) (\<lambda>(shared_key, st).
     bind_outcome (ffi_free_unless_null peer_key st) (\<lambda>st. Done (shared_key, st))))"

section \<open>Ownership\<close>

definition live :: "ffi \<Rightarrow> nat multiset" where
  "live st = mset (ff_live st)"

definition handle_mset :: "handle \<Rightarrow> nat multiset" where
  "handle_mset h = (case h of None \<Rightarrow> {#} | Some x \<Rightarrow> {#x#})"

lemma handle_mset_simps [simp]: "handle_mset None = {#}" "handle_mset (Some x) = {#x#}"
  by (simp_all add: handle_mset_def)

lemma ffi_test_cases:
  obtains b st' where "ffi_test st = (b, st')" "live st' = live st"
  by (cases "ffi_test st") (auto simp: ffi_test_def live_def)

lemma ffi_new_cases:
  obtains (null) st' where "ffi_new st = (None, st')" "live st' = live st"
  | (fresh) h st' where "ffi_new st = (Some h, st')" "live st' = add_mset h (live st)"
proof (cases "ff_succeeds st (ff_calls st)")
  case True
  then show ?thesis by (intro fresh) (auto simp: ffi_new_def ffi_test_def live_def)
next
  case False
  then show ?thesis by (intro null [of "st\<lparr>ff_calls := ff_calls st + 1\<rparr>"]) (auto simp: ffi_new_def ffi_test_def live_def)
qed

lemma free_null [simp]: "ffi_free_unless_null None st = Done st"
  by (simp add: ffi_free_unless_null_def)

lemma free_owned:
  assumes "live st = handle_mset p + M"
  obtains st' where "ffi_free_unless_null p st = Done st'" "live st' = M"
proof (cases p)
  case (Some h)
  then have m: "mset (ff_live st) = add_mset h M" using assms by (simp add: live_def)
  then have "h \<in> set (ff_live st)" by (metis set_mset_mset union_single_eq_member)
  with m Some show ?thesis by (intro that) (auto simp: ffi_free_unless_null_def ffi_free_def live_def)
qed (use assms that in \<open>simp add: ffi_free_unless_null_def\<close>)

lemma free_handle_owned:
  assumes "live st = add_mset h M"
  obtains st' where "ffi_free h st = Done st'" "live st' = M"
  using free_owned [of st "Some h" M] assms that by (auto simp: ffi_free_unless_null_def)

text \<open>The end of a function: what it cleans up, it owned.\<close>

lemma free_two_owned:
  assumes "live st = handle_mset p + (handle_mset q + M)"
  obtains st' where
    "bind_outcome (ffi_free_unless_null p st) (\<lambda>st. bind_outcome (ffi_free_unless_null q st) (\<lambda>st. Done (r, st))) = Done (r, st')"
    "live st' = M"
proof -
  from free_owned [OF assms] obtain st1 where st1: "ffi_free_unless_null p st = Done st1" "live st1 = handle_mset q + M" .
  from free_owned [OF st1(2)] obtain st2 where "ffi_free_unless_null q st1 = Done st2" "live st2 = M" .
  with st1(1) show ?thesis by (intro that) simp_all
qed

lemma import_owns:
  obtains key st' where "ecdh_import_public_key st = Done (key, st')" "live st' = handle_mset key + live st"
proof (cases rule: ffi_new_cases [of st])
  case (null st1)
  then show ?thesis by (intro that [of None st1]) (simp_all add: ecdh_import_public_key_def)
next
  case (fresh eckey st1)
  let ?body = "case ffi_test st1 of (ecgroup, st) \<Rightarrow>
          if \<not> ecgroup then Done (None, None, st)
          else case ffi_new st of (ecpoint, st) \<Rightarrow>
            if ecpoint = None then Done (None, None, st)
            else case ffi_test st of (is_set, st) \<Rightarrow>
              if \<not> is_set then Done (ecpoint, None, st)
              else case ffi_new st of (peer_key, st) \<Rightarrow>
                (case peer_key of
                   None \<Rightarrow> Done (ecpoint, None, st)
                 | Some peer \<Rightarrow>
                     (case ffi_test st of (is_set, st) \<Rightarrow>
                        if is_set then Done (ecpoint, peer_key, st)
                        else bind_outcome (ffi_free peer st) (\<lambda>st. Done (ecpoint, None, st))))"
  have "\<exists>p q st2. ?body = Done (p, q, st2) \<and> live st2 = handle_mset p + (handle_mset q + live st1)"
  proof (cases rule: ffi_test_cases [of st1])
    case (1 b1 st2)
    show ?thesis
    proof (cases rule: ffi_new_cases [of st2])
      case (fresh ecpoint st3)
      show ?thesis
      proof (cases rule: ffi_test_cases [of st3])
        case t3: (1 b3 st4)
        show ?thesis
        proof (cases rule: ffi_new_cases [of st4])
          case n4: (fresh peer st5)
          show ?thesis
          proof (cases rule: ffi_test_cases [of st5])
            case t5: (1 b5 st6)
            have "live st6 = add_mset peer (add_mset ecpoint (live st1))"
              using 1(2) fresh(2) t3(2) n4(2) t5(2) by simp
            from free_handle_owned [OF this] obtain st7 where
              st7: "ffi_free peer st6 = Done st7" "live st7 = add_mset ecpoint (live st1)" .
            show ?thesis using 1 fresh t3 n4 t5 st7 by auto
          qed
        qed (use 1 fresh t3 in auto)
      qed
    qed (use 1 in auto)
  qed
  then obtain p q st2 where body: "?body = Done (p, q, st2)" "live st2 = handle_mset p + (handle_mset q + live st1)" by blast
  have "live st2 = handle_mset (Some eckey) + (handle_mset p + (handle_mset q + live st))"
    using body(2) fresh(2) by simp
  from free_two_owned [OF this, of q] obtain st3 where
    "bind_outcome (ffi_free_unless_null (Some eckey) st2) (\<lambda>st. bind_outcome (ffi_free_unless_null p st) (\<lambda>st. Done (q, st))) = Done (q, st3)"
    "live st3 = handle_mset q + live st" .
  then show ?thesis using body(1) fresh(1)
    by (intro that [of q st3]) (simp_all add: ecdh_import_public_key_def)
qed

lemma generate_params_owns:
  obtains params st' where "ecdh_generate_params st = Done (params, st')" "live st' = handle_mset params + live st"
proof (cases rule: ffi_new_cases [of st])
  case (null st1)
  then show ?thesis by (intro that [of None st1]) (simp_all add: ecdh_generate_params_def)
next
  case (fresh ctx st1)
  let ?body = "case ffi_test st1 of (is_init, st) \<Rightarrow>
              if \<not> is_init then (None, st)
              else case ffi_test st of (is_set, st) \<Rightarrow>
                if \<not> is_set then (None, st) else ffi_new st"
  obtain params st2 where body: "?body = (params, st2)" by (cases ?body)
  obtain b1 s1 where t1: "ffi_test st1 = (b1, s1)" "live s1 = live st1" by (rule ffi_test_cases)
  obtain b2 s2 where t2: "ffi_test s1 = (b2, s2)" "live s2 = live s1" by (rule ffi_test_cases)
  have "live st2 = handle_mset params + live st1"
    using body t1 t2 by (cases rule: ffi_new_cases [of s2]) (auto split: if_splits)
  then have "live st2 = handle_mset (Some ctx) + (handle_mset params + live st)"
    using fresh(2) by simp
  from free_owned [OF this] obtain st3 where
    "ffi_free_unless_null (Some ctx) st2 = Done st3" "live st3 = handle_mset params + live st" .
  then show ?thesis using body fresh(1)
    by (intro that [of params st3]) (simp_all add: ecdh_generate_params_def)
qed

lemma generate_key_pair_owns:
  obtains key st' where "ecdh_generate_key_pair st = Done (key, st')" "live st' = handle_mset key + live st"
proof -
  obtain params st1 where g: "ecdh_generate_params st = Done (params, st1)" "live st1 = handle_mset params + live st"
    by (rule generate_params_owns)
  let ?body = "if params = None then (None, None, st1)
             else case ffi_new st1 of (ctx, st) \<Rightarrow>
               if ctx = None then (None, None, st)
               else case ffi_test st of (is_init, st) \<Rightarrow>
                 if \<not> is_init then (ctx, None, st)
                 else case ffi_new st of (key, st) \<Rightarrow> (ctx, key, st)"
  obtain ctx key st2 where body: "?body = (ctx, key, st2)" by (cases ?body)
  have "live st2 = handle_mset ctx + (handle_mset key + live st1)"
  proof (cases params)
    case (Some h)
    show ?thesis
    proof (cases rule: ffi_new_cases [of st1])
      case (fresh c s1)
      obtain b2 s2 where t2: "ffi_test s1 = (b2, s2)" "live s2 = live s1" by (rule ffi_test_cases)
      show ?thesis using body Some fresh t2
        by (cases rule: ffi_new_cases [of s2]) (auto split: if_splits)
    qed (use body Some in auto)
  qed (use body in auto)
  then have "live st2 = handle_mset ctx + (handle_mset params + (handle_mset key + live st))"
    using g(2) by simp
  from free_two_owned [OF this, of key] obtain st3 where
    "bind_outcome (ffi_free_unless_null ctx st2) (\<lambda>st. bind_outcome (ffi_free_unless_null params st) (\<lambda>st. Done (key, st))) = Done (key, st3)"
    "live st3 = handle_mset key + live st" .
  then show ?thesis using body g(1)
    by (intro that [of key st3]) (simp_all add: ecdh_generate_key_pair_def)
qed

lemma derive_shared_owns:
  obtains ok st' where "ecdh_derive_shared_key l p st = Done (ok, st')" "live st' = live st"
proof (cases "l = None \<or> p = None")
  case True
  then show ?thesis by (intro that [of False st]) (auto simp: ecdh_derive_shared_key_def)
next
  case False
  obtain ctx st1 where n: "ffi_new st = (ctx, st1)" "live st1 = handle_mset ctx + live st"
    by (rule ffi_new_cases [of st]) auto
  let ?body = "if ctx = None then (False, st1)
              else case ffi_test st1 of (is_init, st) \<Rightarrow>
                if \<not> is_init then (False, st)
                else case ffi_test st of (is_set, st) \<Rightarrow>
                  if \<not> is_set then (False, st)
                  else case ffi_test st of (has_length, st) \<Rightarrow>
                    if \<not> has_length then (False, st) else ffi_test st"
  obtain ok st2 where body: "?body = (ok, st2)" by (cases ?body)
  obtain b1 s1 where t1: "ffi_test st1 = (b1, s1)" "live s1 = live st1" by (rule ffi_test_cases)
  obtain b2 s2 where t2: "ffi_test s1 = (b2, s2)" "live s2 = live s1" by (rule ffi_test_cases)
  obtain b3 s3 where t3: "ffi_test s2 = (b3, s3)" "live s3 = live s2" by (rule ffi_test_cases)
  obtain b4 s4 where t4: "ffi_test s3 = (b4, s4)" "live s4 = live s3" by (rule ffi_test_cases)
  have "live st2 = handle_mset ctx + live st" using body t1 t2 t3 t4 n(2) by (auto split: if_splits)
  from free_owned [OF this] obtain st3 where "ffi_free_unless_null ctx st2 = Done st3" "live st3 = live st" .
  then show ?thesis using body n(1) False
    by (intro that [of ok st3]) (auto simp: ecdh_derive_shared_key_def simp del: bind_outcome_Done_iff)
qed

lemma export_owns:
  obtains ok st' where "ecdh_export_public_key key st = Done (ok, st')" "live st' = live st"
proof (cases "key = None")
  case True
  then show ?thesis by (intro that [of False st]) (auto simp: ecdh_export_public_key_def)
next
  case False
  obtain eckey st1 where n: "ffi_new st = (eckey, st1)" "live st1 = handle_mset eckey + live st"
    by (rule ffi_new_cases [of st]) auto
  let ?body = "if eckey = None then (None, st1)
              else case ffi_test st1 of (ecpoint, st) \<Rightarrow>
                if \<not> ecpoint then (None, st)
                else case ffi_test st of (ecgroup, st) \<Rightarrow> ffi_new st"
  obtain buf st2 where body: "?body = (buf, st2)" by (cases ?body)
  obtain b1 s1 where t1: "ffi_test st1 = (b1, s1)" "live s1 = live st1" by (rule ffi_test_cases)
  obtain b2 s2 where t2: "ffi_test s1 = (b2, s2)" "live s2 = live s1" by (rule ffi_test_cases)
  have "live st2 = handle_mset buf + (handle_mset eckey + live st)"
    using body t1 t2 n(2) by (cases rule: ffi_new_cases [of s2]) (auto split: if_splits)
  from free_two_owned [OF this, of "buf \<noteq> None"] obtain st3 where
    "bind_outcome (ffi_free_unless_null buf st2) (\<lambda>st. bind_outcome (ffi_free_unless_null eckey st) (\<lambda>st. Done (buf \<noteq> None, st)))
       = Done (buf \<noteq> None, st3)" "live st3 = live st" .
  then show ?thesis using body n(1) False
    by (intro that [of "buf \<noteq> None" st3]) (auto simp: ecdh_export_public_key_def)
qed

text \<open>Deriving the keys of a message leaves nothing behind.\<close>

lemma derive_keys_owns:
  obtains ok st' where "ecdh_derive_keys key_pair st = Done (ok, st')" "live st' = live st"
proof -
  obtain peer st1 where p: "ecdh_import_public_key st = Done (peer, st1)" "live st1 = handle_mset peer + live st"
    by (rule import_owns)
  obtain ok st2 where d: "ecdh_derive_shared_key key_pair peer st1 = Done (ok, st2)" "live st2 = live st1"
    by (rule derive_shared_owns)
  have "live st2 = handle_mset peer + live st" using p(2) d(2) by simp
  from free_owned [OF this] obtain st3 where "ffi_free_unless_null peer st2 = Done st3" "live st3 = live st" .
  then show ?thesis using p(1) d(1) by (intro that [of ok st3]) (simp_all add: ecdh_derive_keys_def)
qed


text \<open>The pair of keys is not freed when its public half cannot be decoded: there is no context to own it.\<close>

theorem failed_context_leaks_its_key:
  "case crypto_context_new False (ffi_start (\<lambda>_. True)) of
     Done (owner, st) \<Rightarrow> owner = None \<and> length (ff_live st) = 1
   | Panic \<Rightarrow> False"
  by code_simp

end
