(* ===== verification/Webpush_Crypto.thy ===== *)
theory Webpush_Crypto
  imports Webpush_Ffi "HOL-Library.Word"
begin

unbundle bit_operations_syntax

text \<open>
  \<^verbatim>\<open>src/adapters/webpush/crypto.rs\<close>, the encryption of a message: the derivation of its key and nonce,
  the records it is cut into and the nonces of the records. Encodings, hashes and the cipher are
  libraries, the parameters \<open>crypto_lib\<close>; a text is its bytes. What comes out of the exchange of keys is
  a parameter too; whether it succeeds is decided by the calls of \<open>Webpush_Ffi\<close>. The decryption, which
  the code only has for its tests, is modelled as well: it is the receiver of the round trip.
\<close>

type_synonym byte = "8 word"
type_synonym bytes = "byte list"

record crypto_lib =
  cl_from_base64 :: "bytes \<Rightarrow> bytes option"
  cl_to_base64 :: "bytes \<Rightarrow> bytes" \<comment> \<open>the variant safe in URLs\<close>
  cl_to_hex :: "bytes \<Rightarrow> bytes"
  cl_hmac :: "bytes \<Rightarrow> bytes \<Rightarrow> bytes" \<comment> \<open>key, input\<close>
  cl_hkdf_extract :: "bytes \<Rightarrow> bytes \<Rightarrow> bytes" \<comment> \<open>salt, input\<close>
  cl_hkdf_expand :: "bytes \<Rightarrow> bytes \<Rightarrow> bytes" \<comment> \<open>key, info\<close>
  cl_seal :: "bytes \<Rightarrow> bytes \<Rightarrow> bytes \<Rightarrow> bytes \<times> bytes" \<comment> \<open>key, nonce, input; output and tag\<close>
  cl_open :: "bytes \<Rightarrow> bytes \<Rightarrow> bytes \<Rightarrow> bytes \<Rightarrow> bytes option" \<comment> \<open>key, nonce, input, tag\<close>
  cl_shared :: "bytes \<Rightarrow> bytes \<Rightarrow> bytes" \<comment> \<open>of the pair with a public key and the public key of a peer\<close>
  cl_utf8 :: "bytes \<Rightarrow> bool"

definition AESGCM_TAG_LEN :: nat where "AESGCM_TAG_LEN = 16"

record auth_data =
  ad_auth :: bytes
  ad_key_context :: bytes

record crypto_context =
  cx_public_key :: bytes \<comment> \<open>in base 64\<close>
  cx_key_pair :: handle

record encrypt_data =
  ed_salt :: bytes
  ed_output :: bytes

definition ascii :: "string \<Rightarrow> bytes" where
  "ascii s = map (\<lambda>c. of_nat (of_char c)) s"

section \<open>Key derivation\<close>

text \<open>The padding of base 64 is dropped for the newer of the two standards.\<close>

definition get_public_key :: "crypto_context \<Rightarrow> bool \<Rightarrow> bytes" where
  "get_public_key self auth =
     (if auth then filter (\<lambda>b. b \<noteq> 61) (cx_public_key self) else cx_public_key self)"

definition aesgcm128_append_key :: "bytes \<Rightarrow> bytes \<Rightarrow> bytes outcome" where
  "aesgcm128_append_key key_context key =
     (if length key > 255 then Panic else Done (key_context @ [0, of_nat (length key)] @ key))"

definition aesgcm128_auth_data ::
    "crypto_lib \<Rightarrow> crypto_context \<Rightarrow> bytes option \<Rightarrow> bytes \<Rightarrow> bool \<Rightarrow> auth_data option outcome" where
  "aesgcm128_auth_data L self auth peer_key encrypt =
     (case auth of
        None \<Rightarrow> Done None
      | Some x \<Rightarrow>
          (case cl_from_base64 L x of
             None \<Rightarrow> Done None
           | Some auth_bytes \<Rightarrow>
               (case cl_from_base64 L (cx_public_key self) of
                  None \<Rightarrow> Panic
                | Some local_key \<Rightarrow>
                    (let key_context = ascii ''P-256'' @ [0]
                     in bind_outcome (aesgcm128_append_key key_context (if encrypt then peer_key else local_key)) (\<lambda>key_context.
                        bind_outcome (aesgcm128_append_key key_context (if encrypt then local_key else peer_key)) (\<lambda>key_context.
                        Done (Some \<lparr>ad_auth = auth_bytes, ad_key_context = key_context @ [1]\<rparr>)))))))"

definition aesgcm128_common :: "crypto_lib \<Rightarrow> bytes \<Rightarrow> bytes \<Rightarrow> auth_data option \<Rightarrow> bytes \<times> bytes \<times> bytes" where
  "aesgcm128_common L salt shared_key auth =
     (let (salt_input, encrypt_info, nonce_info) =
        (case auth of
           Some ad \<Rightarrow>
             (let prk = cl_hkdf_extract L (ad_auth ad) shared_key;
                  ikm = cl_hkdf_expand L prk (ascii ''Content-Encoding: auth'' @ [0])
              in (ikm, ascii ''Content-Encoding: aesgcm'' @ [0] @ ad_key_context ad,
                  ascii ''Content-Encoding: nonce'' @ [0] @ ad_key_context ad))
         | None \<Rightarrow> (shared_key, ascii ''Content-Encoding: aesgcm128'' @ [1], ascii ''Content-Encoding: nonce'' @ [1]));
        hkdf_salt = cl_hmac L salt salt_input
      in (cl_hkdf_extract L hkdf_salt encrypt_info, cl_hkdf_extract L hkdf_salt nonce_info, replicate 12 0))"

section \<open>The nonces of the records\<close>

text \<open>The sequence number is incremented in network order, from its last byte.\<close>

fun seq_increment_from :: "bytes \<Rightarrow> bytes" where \<comment> \<open>the last byte first\<close>
  "seq_increment_from [] = []"
| "seq_increment_from (b # bs) = (if b = 255 then 0 # seq_increment_from bs else (b + 1) # bs)"

definition seq_increment :: "bytes \<Rightarrow> bytes" where
  "seq_increment seq = rev (seq_increment_from (rev seq))"

definition aesgcm128_record_nonce :: "bytes \<Rightarrow> bytes \<Rightarrow> bytes \<times> bytes" where
  "aesgcm128_record_nonce nonce seq = (map2 (XOR) (take (length seq) nonce) seq, seq_increment seq)"

section \<open>Encryption\<close>

definition padding_of :: "bool \<Rightarrow> bytes" where
  "padding_of has_auth = (if has_auth then [0, 0] else [0])"

definition seal_record :: "crypto_lib \<Rightarrow> bytes \<Rightarrow> bytes \<Rightarrow> bytes \<Rightarrow> bytes" where
  "seal_record L encrypt_key record_nonce chunk =
     (case cl_seal L (take 16 encrypt_key) record_nonce chunk of (out, tag) \<Rightarrow> out @ tag)"

text \<open>The loop ends because a record holds more than its padding; it is called under that assertion.\<close>

partial_function (option) encrypt_loop ::
    "crypto_lib \<Rightarrow> bool \<Rightarrow> nat \<Rightarrow> bytes \<Rightarrow> bytes \<Rightarrow> bytes \<Rightarrow> bytes \<Rightarrow> bool \<Rightarrow> bytes list \<Rightarrow> bytes list option" where
  "encrypt_loop L has_auth record_size encrypt_key nonce seq raw_input padding chunks =
     (if raw_input = [] \<and> \<not> padding then Some chunks
      else
        let raw_input = padding_of has_auth @ raw_input;
            bound = min record_size (length raw_input);
            chunk = take bound raw_input;
            raw_input = drop bound raw_input;
            (record_nonce, seq) = aesgcm128_record_nonce nonce seq;
            padding = (bound = record_size \<and> raw_input = [])
        in encrypt_loop L has_auth record_size encrypt_key nonce seq raw_input padding
             (chunks @ [seal_record L encrypt_key record_nonce chunk]))"

declare encrypt_loop.simps [code]

definition aesgcm128_encrypt ::
    "crypto_lib \<Rightarrow> bytes \<Rightarrow> bytes \<Rightarrow> bytes \<Rightarrow> auth_data option \<Rightarrow> nat \<Rightarrow> bytes option outcome" where
  "aesgcm128_encrypt L input shared_key salt auth record_size =
     (if input = [] \<or> \<not> 2 < record_size then Panic
      else case aesgcm128_common L salt shared_key auth of (encrypt_key, nonce, seq) \<Rightarrow>
        Done (map_option concat
          (encrypt_loop L (auth \<noteq> None) record_size encrypt_key nonce seq input False [])))"

section \<open>Decryption\<close>

definition strip_padding :: "bool \<Rightarrow> bytes \<Rightarrow> bytes outcome" where
  "strip_padding has_auth output =
     (let n = (if has_auth then 2 else 1)
      in if length output < n then Panic
         else
           let padding_len = (if has_auth then unat (output ! 0) * 256 + unat (output ! 1) else unat (output ! 0));
               output = drop n output
           in if length output < padding_len then Panic else Done (drop padding_len output))"

text \<open>The test of a full last record compares the length without the tag with the one that includes it.\<close>

function decrypt_loop ::
    "crypto_lib \<Rightarrow> bool \<Rightarrow> nat \<Rightarrow> bytes \<Rightarrow> bytes \<Rightarrow> bytes \<Rightarrow> bytes \<Rightarrow> bytes list \<Rightarrow> bytes list option outcome" where
  "decrypt_loop L has_auth record_size decrypt_key nonce seq input chunks =
     (if input = [] then Done (Some chunks)
      else
        let bound = min record_size (length input)
        in if bound \<le> AESGCM_TAG_LEN then Done None
           else
             let bound = bound - AESGCM_TAG_LEN;
                 chunk = take bound input;
                 tag = take AESGCM_TAG_LEN (drop bound input);
                 input = drop (bound + AESGCM_TAG_LEN) input;
                 (record_nonce, seq) = aesgcm128_record_nonce nonce seq
             in if input = [] \<and> bound = record_size then Done None
                else case cl_open L (take 16 decrypt_key) record_nonce chunk tag of
                  None \<Rightarrow> Done None
                | Some output \<Rightarrow>
                    bind_outcome (strip_padding has_auth output) (\<lambda>output.
                      decrypt_loop L has_auth record_size decrypt_key nonce seq input (chunks @ [output])))"
  by pat_completeness auto
termination
  by (relation "measure (\<lambda>(_, _, _, _, _, _, input, _). length input)") (auto simp: AESGCM_TAG_LEN_def)

declare decrypt_loop.simps [simp del]

definition aesgcm128_decrypt ::
    "crypto_lib \<Rightarrow> bytes \<Rightarrow> bytes \<Rightarrow> bytes \<Rightarrow> auth_data option \<Rightarrow> nat \<Rightarrow> bytes option outcome" where
  "aesgcm128_decrypt L input shared_key salt auth record_size =
     (case aesgcm128_common L salt shared_key auth of (decrypt_key, nonce, seq) \<Rightarrow>
        bind_outcome (decrypt_loop L (auth \<noteq> None) record_size decrypt_key nonce seq input []) (\<lambda>chunks.
          case chunks of
            None \<Rightarrow> Done None
          | Some chunks \<Rightarrow> (let out = concat chunks in Done (if cl_utf8 L out then Some out else None))))"

section \<open>Messages\<close>

text \<open>The salt is drawn by the caller of the model.\<close>

definition crypto_encrypt ::
    "crypto_lib \<Rightarrow> crypto_context \<Rightarrow> bytes \<Rightarrow> bytes \<Rightarrow> bytes option \<Rightarrow> nat \<Rightarrow> bytes \<Rightarrow> ffi \<Rightarrow>
     (encrypt_data option \<times> ffi) outcome" where
  "crypto_encrypt L self peer_key input auth record_size salt st =
     (case cl_from_base64 L peer_key of
        None \<Rightarrow> Done (None, st)
      | Some peer_key_bytes \<Rightarrow>
          bind_outcome (aesgcm128_auth_data L self auth peer_key_bytes True) (\<lambda>auth_data.
          bind_outcome (ecdh_derive_keys (cx_key_pair self) st) (\<lambda>(derived, st).
            if \<not> derived then Done (None, st)
            else
              let shared_key = cl_shared L (cx_public_key self) (cl_to_hex L peer_key_bytes);
                  salt_b64 = (if auth_data \<noteq> None then filter (\<lambda>b. b \<noteq> 61) (cl_to_base64 L salt) else cl_to_base64 L salt)
              in bind_outcome (aesgcm128_encrypt L input shared_key salt auth_data record_size) (\<lambda>output.
                   Done (map_option (\<lambda>output. \<lparr>ed_salt = salt_b64, ed_output = output\<rparr>) output, st)))))"

definition crypto_decrypt ::
    "crypto_lib \<Rightarrow> crypto_context \<Rightarrow> bytes \<Rightarrow> bytes \<Rightarrow> bytes \<Rightarrow> bytes option \<Rightarrow> nat \<Rightarrow> ffi \<Rightarrow>
     (bytes option \<times> ffi) outcome" where
  "crypto_decrypt L self peer_key input salt auth record_size st =
     (case cl_from_base64 L peer_key of
        None \<Rightarrow> Done (None, st)
      | Some peer_key_bytes \<Rightarrow>
          bind_outcome (aesgcm128_auth_data L self auth peer_key_bytes False) (\<lambda>auth_data.
          bind_outcome (ecdh_derive_keys (cx_key_pair self) st) (\<lambda>(derived, st).
            if \<not> derived then Done (None, st)
            else case cl_from_base64 L salt of
              None \<Rightarrow> Done (None, st)
            | Some salt_bytes \<Rightarrow>
                bind_outcome (aesgcm128_decrypt L input (cl_shared L (cx_public_key self) (cl_to_hex L peer_key_bytes)) salt_bytes auth_data record_size)
                  (\<lambda>output. Done (output, st)))))"

end
