(* ===== verification/Webpush.thy ===== *)
theory Webpush
  imports Adapter_Setup Webpush_Crypto
begin

text \<open>
  \<^verbatim>\<open>src/adapters/webpush\<close>: push notifications. \<^verbatim>\<open>db.rs\<close> stores the subscriptions of the users and the
  resources they watch in two tables; an operation of the database may fail, as the next element of
  \<open>wp_errors\<close> says. \<^verbatim>\<open>mod.rs\<close> is the adapter. Reading and writing its JSON is derived by a library, a
  parameter, as is the library of \<open>Webpush_Crypto\<close>. A panic leaves the database as it is, so the state
  is returned beside the outcome. The threads that notify are recorded with what they have to send.
\<close>

section \<open>The database\<close>

record subscription =
  sub_push_uri :: string
  sub_public_key :: string
  sub_auth :: "string option"

record webpush_db =
  wp_subscriptions :: "(int \<times> subscription) list"
  wp_resources :: "(int \<times> string) list"
  wp_errors :: "string option list"
  wp_spawned :: "(subscription list \<times> string) list"

definition escape_option :: "string option \<Rightarrow> string option" where
  "escape_option opt = map_option escape opt"

definition escape_subscription :: "subscription \<Rightarrow> subscription" where
  "escape_subscription sub =
     \<lparr>sub_push_uri = escape (sub_push_uri sub), sub_public_key = escape (sub_public_key sub),
      sub_auth = escape_option (sub_auth sub)\<rparr>"

text \<open>The error of the next call, if it has one.\<close>

definition wp_call :: "webpush_db \<Rightarrow> string option \<times> webpush_db" where
  "wp_call db =
     (case wp_errors db of [] \<Rightarrow> (None, db) | e # es \<Rightarrow> (e, db\<lparr>wp_errors := es\<rparr>))"

definition wp_execute :: "(webpush_db \<Rightarrow> webpush_db) \<Rightarrow> webpush_db \<Rightarrow> (string + unit) \<times> webpush_db" where
  "wp_execute f db = (case wp_call db of (Some e, db) \<Rightarrow> (Inl e, db) | (None, db) \<Rightarrow> (Inr (), f db))"

definition unique_violation :: string where
  "unique_violation = ''UNIQUE constraint failed: subscriptions.push_uri''"

definition wp_subscribe :: "int \<Rightarrow> subscription \<Rightarrow> webpush_db \<Rightarrow> (string + unit) \<times> webpush_db" where
  "wp_subscribe user_id sub db =
     (let row = escape_subscription sub
      in case wp_call db of
           (Some e, db) \<Rightarrow> (Inl e, db)
         | (None, db) \<Rightarrow>
             if sub_push_uri row \<in> (sub_push_uri \<circ> snd) ` set (wp_subscriptions db) then (Inl unique_violation, db)
             else (Inr (), db\<lparr>wp_subscriptions := wp_subscriptions db @ [(user_id, row)]\<rparr>))"

text \<open>The user is not looked at.\<close>

definition wp_unsubscribe :: "int \<Rightarrow> string \<Rightarrow> webpush_db \<Rightarrow> (string + unit) \<times> webpush_db" where
  "wp_unsubscribe user_id push_uri =
     wp_execute (\<lambda>db. db\<lparr>wp_subscriptions := filter (\<lambda>(_, sub). sub_push_uri sub \<noteq> escape push_uri) (wp_subscriptions db)\<rparr>)"

fun wp_insert_resources :: "int \<Rightarrow> string list \<Rightarrow> webpush_db \<Rightarrow> (string + unit) \<times> webpush_db" where
  "wp_insert_resources user_id [] db = (Inr (), db)"
| "wp_insert_resources user_id (r # rs) db =
     (case wp_execute (\<lambda>db. db\<lparr>wp_resources := wp_resources db @ [(user_id, escape r)]\<rparr>) db of
        (Inl e, db) \<Rightarrow> (Inl e, db)
      | (Inr _, db) \<Rightarrow> wp_insert_resources user_id rs db)"

definition wp_set_resources :: "int \<Rightarrow> string list \<Rightarrow> webpush_db \<Rightarrow> (string + unit) \<times> webpush_db" where
  "wp_set_resources user_id resources db =
     (case wp_execute (\<lambda>db. db\<lparr>wp_resources := filter (\<lambda>(u, _). u \<noteq> user_id) (wp_resources db)\<rparr>) db of
        (Inl e, db) \<Rightarrow> (Inl e, db)
      | (Inr _, db) \<Rightarrow> wp_insert_resources user_id resources db)"

definition wp_query :: "(webpush_db \<Rightarrow> 'a list) \<Rightarrow> webpush_db \<Rightarrow> (string + 'a list) \<times> webpush_db" where
  "wp_query q db = (case wp_call db of (Some e, db) \<Rightarrow> (Inl e, db) | (None, db) \<Rightarrow> (Inr (q db), db))"

definition wp_get_resources :: "int \<Rightarrow> webpush_db \<Rightarrow> (string + string list) \<times> webpush_db" where
  "wp_get_resources user_id = wp_query (\<lambda>db. map snd (filter (\<lambda>(u, _). u = user_id) (wp_resources db)))"

definition wp_get_subscriptions :: "int \<Rightarrow> webpush_db \<Rightarrow> (string + subscription list) \<times> webpush_db" where
  "wp_get_subscriptions user_id = wp_query (\<lambda>db. map snd (filter (\<lambda>(u, _). u = user_id) (wp_subscriptions db)))"

definition wp_get_resource_subscriptions :: "string \<Rightarrow> webpush_db \<Rightarrow> (string + subscription list) \<times> webpush_db" where
  "wp_get_resource_subscriptions resource =
     wp_query (\<lambda>db. map snd (filter (\<lambda>(u, _). (u, escape resource) \<in> set (wp_resources db)) (wp_subscriptions db)))"

section \<open>The adapter\<close>

definition webpush_id :: AdapterId where "webpush_id = ''webpush@link.mozilla.org''"
definition service_webpush_id :: ServiceId where "service_webpush_id = ''service:webpush@link.mozilla.org''"
definition getter_resource_id :: GetterId where "getter_resource_id = ''getter:resource.webpush@link.mozilla.org''"
definition getter_subscription_id :: GetterId where "getter_subscription_id = ''getter:subscription.webpush@link.mozilla.org''"
definition setter_resource_id :: SetterId where "setter_resource_id = ''setter:resource.webpush@link.mozilla.org''"
definition setter_subscribe_id :: SetterId where "setter_subscribe_id = ''setter:subscribe.webpush@link.mozilla.org''"
definition setter_unsubscribe_id :: SetterId where "setter_unsubscribe_id = ''setter:unsubscribe.webpush@link.mozilla.org''"
definition setter_notify_id :: SetterId where "setter_notify_id = ''setter:notify.webpush@link.mozilla.org''"

record webpush_env =
  we_authentication :: bool
  we_subscriptions_to_json :: "subscription list \<Rightarrow> JSON"
  we_resources_to_json :: "string list \<Rightarrow> JSON"
  we_subscriptions_of_json :: "JSON \<Rightarrow> string + subscription list"
  we_resources_of_json :: "JSON \<Rightarrow> string + string list"
  we_message_text :: "string \<Rightarrow> string \<Rightarrow> string"
  we_show_json :: "JSON \<Rightarrow> string"

definition generic_error :: "string \<Rightarrow> Error" where
  "generic_error s = ErrInternal (GenericError s)"

definition webpush_user :: "webpush_env \<Rightarrow> User \<Rightarrow> int option" where
  "webpush_user E user =
     (if we_authentication E then (case user of NoUser \<Rightarrow> None | UserId i \<Rightarrow> Some i) else Some (- 1))"

definition webpush_fetch_one :: "webpush_env \<Rightarrow> User \<Rightarrow> GetterId \<Rightarrow> webpush_db \<Rightarrow> (Error + Value option) \<times> webpush_db" where
  "webpush_fetch_one E user i db =
     (case webpush_user E user of
        None \<Rightarrow> (Inl (generic_error ''Cannot fetch from this channel without a user.''), db)
      | Some user_id \<Rightarrow>
          if i = getter_subscription_id then
            (case wp_get_subscriptions user_id db of
               (Inl err, db) \<Rightarrow> (Inl (generic_error (''Database error: '' @ err)), db)
             | (Inr data, db) \<Rightarrow> (Inr (Some (VJson (we_subscriptions_to_json E data))), db))
          else if i = getter_resource_id then
            (case wp_get_resources user_id db of
               (Inl err, db) \<Rightarrow> (Inl (generic_error (''Database error: '' @ err)), db)
             | (Inr data, db) \<Rightarrow> (Inr (Some (VJson (we_resources_to_json E data))), db))
          else (Inl (ErrInternal (NoSuchGetter i)), db))"

fun webpush_fetch_values ::
    "webpush_env \<Rightarrow> User \<Rightarrow> GetterId list \<Rightarrow> webpush_db \<Rightarrow> (GetterId \<times> (Error + Value option)) list \<times> webpush_db" where
  "webpush_fetch_values E user [] db = ([], db)"
| "webpush_fetch_values E user (i # ids) db =
     (case webpush_fetch_one E user i db of (r, db) \<Rightarrow>
        case webpush_fetch_values E user ids db of (rs, db) \<Rightarrow> ((i, r) # rs, db))"

fun set_subscribe :: "int \<Rightarrow> subscription list \<Rightarrow> webpush_db \<Rightarrow> (string + unit) \<times> webpush_db" where
  "set_subscribe user_id [] db = (Inr (), db)"
| "set_subscribe user_id (sub # subs) db =
     (case wp_subscribe user_id sub db of
        (Inl e, db) \<Rightarrow> (Inl e, db)
      | (Inr _, db) \<Rightarrow> set_subscribe user_id subs db)"

fun set_unsubscribe :: "int \<Rightarrow> subscription list \<Rightarrow> webpush_db \<Rightarrow> (string + unit) \<times> webpush_db" where
  "set_unsubscribe user_id [] db = (Inr (), db)"
| "set_unsubscribe user_id (sub # subs) db =
     (case wp_unsubscribe user_id (sub_push_uri sub) db of
        (Inl e, db) \<Rightarrow> (Inl e, db)
      | (Inr _, db) \<Rightarrow> set_unsubscribe user_id subs db)"

definition set_notify :: "webpush_env \<Rightarrow> int \<Rightarrow> WebPushNotify \<Rightarrow> webpush_db \<Rightarrow> (string + unit) \<times> webpush_db" where
  "set_notify E user_id setter db =
     (case wp_get_resource_subscriptions (wpn_resource setter) db of
        (Inl e, db) \<Rightarrow> (Inl e, db)
      | (Inr subscriptions, db) \<Rightarrow>
          if subscriptions = [] then (Inr (), db)
          else (Inr (), db\<lparr>wp_spawned := wp_spawned db @
                  [(subscriptions, we_message_text E (wpn_resource setter) (wpn_message setter))]\<rparr>))"

text \<open>A setter that takes JSON: the error of its database is unwrapped.\<close>

definition setter_api ::
    "webpush_env \<Rightarrow> (JSON \<Rightarrow> string + 'a) \<Rightarrow> string \<Rightarrow> ('a \<Rightarrow> webpush_db \<Rightarrow> (string + unit) \<times> webpush_db) \<Rightarrow> JSON \<Rightarrow>
     webpush_db \<Rightarrow> (Error + unit) outcome \<times> webpush_db" where
  "setter_api E from_value setter_name setter json db =
     (case from_value json of
        Inl err \<Rightarrow> (Done (Inl (generic_error (''While handling '' @ setter_name @ '', cannot serialize value: '' @ err @ '', '' @ we_show_json E json))), db)
      | Inr x \<Rightarrow> (case setter x db of (Inl e, db) \<Rightarrow> (Panic, db) | (Inr _, db) \<Rightarrow> (Done (Inr ()), db)))"

definition webpush_send_one ::
    "webpush_env \<Rightarrow> User \<Rightarrow> SetterId \<Rightarrow> Value \<Rightarrow> webpush_db \<Rightarrow> (Error + unit) outcome \<times> webpush_db" where
  "webpush_send_one E user i val db =
     (case webpush_user E user of
        None \<Rightarrow> (Done (Inl (generic_error ''Cannot send to this channel without a user.'')), db)
      | Some user_id \<Rightarrow>
          if i = setter_notify_id then
            (case val of
               VWebPushNotify notification \<Rightarrow>
                 (case set_notify E user_id notification db of
                    (Inl err, db) \<Rightarrow> (Done (Inl (generic_error (''Database error: '' @ err))), db)
                  | (Inr _, db) \<Rightarrow> (Done (Inr ()), db))
             | _ \<Rightarrow> (Done (Inl (ErrType (TypeError TyWebPushNotify (value_type val)))), db))
          else
            (case val of
               VJson json \<Rightarrow>
                 if i = setter_resource_id then
                   setter_api E (we_resources_of_json E) ''set_resources'' (wp_set_resources user_id) json db
                 else if i = setter_subscribe_id then
                   setter_api E (we_subscriptions_of_json E) ''set_subscribe'' (set_subscribe user_id) json db
                 else if i = setter_unsubscribe_id then
                   setter_api E (we_subscriptions_of_json E) ''set_unsubscribe'' (set_unsubscribe user_id) json db
                 else (Done (Inl (ErrInternal (NoSuchSetter i))), db)
             | _ \<Rightarrow> (Done (Inl (ErrType (TypeError TyJson (value_type val)))), db)))"

fun webpush_send_values ::
    "webpush_env \<Rightarrow> User \<Rightarrow> (SetterId, Value) hashmap \<Rightarrow> webpush_db \<Rightarrow>
     (SetterId \<times> (Error + unit)) list outcome \<times> webpush_db" where
  "webpush_send_values E user [] db = (Done [], db)"
| "webpush_send_values E user ((i, val) # values) db =
     (case webpush_send_one E user i val db of
        (Panic, db) \<Rightarrow> (Panic, db)
      | (Done r, db) \<Rightarrow>
          (case webpush_send_values E user values db of
             (rs, db) \<Rightarrow> (bind_outcome rs (\<lambda>rs. Done ((i, r) # rs)), db)))"

definition webpush_kind :: "KindId \<Rightarrow> ChannelKind" where
  "webpush_kind kind = KExtension ''team@link.mozilla.org'' ''WebPush adapter (built-in)'' kind TyJson"

definition webpush_setup :: "nat \<Rightarrow> registration list" where
  "webpush_setup inst =
     [AddAdapter (Adapter webpush_id inst),
      AddService (service_empty service_webpush_id webpush_id),
      AddSetter (new_channel webpush_id service_webpush_id setter_notify_id KWebPushNotify),
      AddGetter (new_channel webpush_id service_webpush_id getter_resource_id (webpush_kind ''WebPushResource'')),
      AddGetter (new_channel webpush_id service_webpush_id getter_subscription_id (webpush_kind ''WebPushSubscription'')),
      AddSetter (new_channel webpush_id service_webpush_id setter_resource_id (webpush_kind ''WebPushResource'')),
      AddSetter (new_channel webpush_id service_webpush_id setter_subscribe_id (webpush_kind ''WebPushSubscription'')),
      AddSetter (new_channel webpush_id service_webpush_id setter_unsubscribe_id (webpush_kind ''WebPushSubscription''))]"

section \<open>Notifying a subscription\<close>

record push_request =
  pr_uri :: string
  pr_headers :: "(string \<times> bytes) list"
  pr_body :: bytes

definition push_record_size :: "bytes \<Rightarrow> nat" where
  "push_record_size message = min 4096 (length message + 18)"

definition subscription_notify ::
    "crypto_lib \<Rightarrow> crypto_context \<Rightarrow> bytes \<Rightarrow> bytes \<Rightarrow> subscription \<Rightarrow> ffi \<Rightarrow> (push_request option \<times> ffi) outcome" where
  "subscription_notify L crypto salt message self st =
     (let record_size = push_record_size message
      in bind_outcome (crypto_encrypt L crypto (ascii (sub_public_key self)) message (map_option ascii (sub_auth self))
            record_size salt st) (\<lambda>(enc, st).
         case enc of
           None \<Rightarrow> Done (None, st)
         | Some enc \<Rightarrow>
             (let has_auth = (sub_auth self \<noteq> None);
                  public_key = get_public_key crypto has_auth;
                  encryption = (''Encryption'', ascii ''keyid=p256dh;salt='' @ ed_salt enc @ ascii '';rs='' @ ascii (show_nat record_size));
                  dh = ascii ''keyid=p256dh;dh='' @ public_key
              in Done (Some \<lparr>pr_uri = sub_push_uri self,
                    pr_headers =
                      (if has_auth then
                         [encryption, (''Content-Encoding'', ascii ''aesgcm''), (''Crypto-Key'', dh), (''TTL'', ascii (show_nat 86400))]
                       else [encryption, (''Content-Encoding'', ascii ''aesgcm128''), (''Encryption-Key'', dh)]),
                    pr_body = ed_output enc\<rparr>, st))))"

end
