(* ===== verification/Webpush_Crypto_Props.thy ===== *)
theory Webpush_Crypto_Props
  imports Webpush_Crypto
begin

text \<open>
  The records of an encrypted message: what they are, that they are sealed under different nonces, and
  that a receiver gets the message back.
\<close>

section \<open>Sequence numbers\<close>

text \<open>The value of a byte string, its last byte first, and in network order.\<close>

fun le_value :: "bytes \<Rightarrow> nat" where
  "le_value [] = 0"
| "le_value (b # bs) = unat b + 256 * le_value bs"

definition be_value :: "bytes \<Rightarrow> nat" where
  "be_value bs = le_value (rev bs)"

lemma unat_byte_less: "unat (b :: byte) < 256"
  using unsigned_less [of b, where ?'a = nat] by simp

lemma le_value_less: "le_value bs < 256 ^ length bs"
proof (induction bs)
  case (Cons b bs)
  define p where "p = (256::nat) ^ length bs"
  have "le_value bs < p" "unat b < 256" using Cons unat_byte_less by (simp_all add: p_def)
  then have "unat b + 256 * le_value bs < 256 * p" by linarith
  then show ?case by (simp add: p_def)
qed simp

lemma low_byte_unique:
  fixes x y a b :: nat
  assumes "x + 256 * a = y + 256 * b" "x < 256" "y < 256"
  shows "x = y \<and> a = b"
proof -
  have "(x + 256 * a) mod 256 = (y + 256 * b) mod 256" using assms(1) by simp
  then have "x = y" using assms(2,3) by simp
  then show ?thesis using assms(1) by simp
qed

lemma le_value_inj: "length xs = length ys \<Longrightarrow> le_value xs = le_value ys \<Longrightarrow> xs = ys"
proof (induction xs ys rule: list_induct2)
  case (Cons x xs y ys)
  have "unat x = unat y \<and> le_value xs = le_value ys"
    using low_byte_unique [of "unat x" "le_value xs" "unat y" "le_value ys"] Cons.prems unat_byte_less by simp
  then show ?case using Cons.IH by (simp add: word_unat_eq_iff)
qed simp

lemma unat_byte_Suc: "b \<noteq> 255 \<Longrightarrow> unat (b + 1 :: byte) = unat b + 1"
proof -
  assume "b \<noteq> 255"
  then have "unat b \<noteq> unat (255 :: byte)" by (metis word_unat_eq_iff)
  then have "unat b + 1 < 256" using unat_byte_less [of b] by simp
  then show ?thesis by (simp add: unat_word_ariths)
qed

lemma length_seq_increment_from [simp]: "length (seq_increment_from bs) = length bs"
  by (induction bs) auto

lemma le_value_increment: "le_value (seq_increment_from bs) = (le_value bs + 1) mod 256 ^ length bs"
proof (induction bs)
  case (Cons b bs)
  show ?case
  proof (cases "b = 255")
    case True
    have "(255 + 256 * le_value bs + 1) mod (256 * 256 ^ length bs) = 256 * ((le_value bs + 1) mod 256 ^ length bs)"
      by (simp add: mult_mod_right)
    then show ?thesis using True Cons by simp
  next
    case False
    have "le_value (b # bs) + 1 < 256 ^ length (b # bs)"
    proof -
      define p where "p = (256::nat) ^ length bs"
      have "unat b + 1 < 256" using unat_byte_Suc [OF False] unat_byte_less [of "b + 1"] by simp
      moreover have "le_value bs < p" using le_value_less [of bs] by (simp add: p_def)
      ultimately have "unat b + 256 * le_value bs + 1 < 256 * p" by linarith
      then show ?thesis by (simp add: p_def)
    qed
    then show ?thesis using False unat_byte_Suc [OF False] by simp
  qed
qed simp

lemma length_seq_increment [simp]: "length (seq_increment bs) = length bs"
  by (simp add: seq_increment_def)

lemma be_value_increment: "be_value (seq_increment bs) = (be_value bs + 1) mod 256 ^ length bs"
  by (simp add: be_value_def seq_increment_def le_value_increment)

definition seq_at :: "nat \<Rightarrow> bytes" where
  "seq_at i = (seq_increment ^^ i) (replicate 12 0)"

lemma length_seq_at [simp]: "length (seq_at i) = 12"
  by (induction i) (simp_all add: seq_at_def)

lemma le_value_zero: "le_value (replicate n 0) = 0"
  by (induction n) simp_all

lemma be_value_seq_at: "be_value (seq_at i) = i mod 2 ^ 96"
proof (induction i)
  case 0
  then show ?case by (simp add: seq_at_def be_value_def le_value_zero)
next
  case (Suc i)
  have "be_value (seq_at (Suc i)) = (i mod 2 ^ 96 + 1) mod 256 ^ 12"
    using be_value_increment [of "seq_at i"] Suc length_seq_at [of i] by (simp add: seq_at_def)
  also have "(256::nat) ^ 12 = 2 ^ 96" by simp
  finally show ?case by (simp add: mod_Suc_eq)
qed

lemma xor_cancel: "a XOR x = a XOR y \<Longrightarrow> x = y" for a :: byte
  by (metis xor.assoc xor_self_eq xor.left_neutral)

lemma map2_xor_inj:
  "length n = length xs \<Longrightarrow> length xs = length ys \<Longrightarrow> map2 (XOR) n xs = map2 (XOR) n ys \<Longrightarrow> xs = ys"
  for n :: bytes
proof (induction n xs ys rule: list_induct3)
  case (Cons a n x xs y ys)
  then show ?case using xor_cancel [of a x y] by simp
qed simp

definition nonce_at :: "bytes \<Rightarrow> nat \<Rightarrow> bytes" where
  "nonce_at nonce i = fst (aesgcm128_record_nonce nonce (seq_at i))"

text \<open>C22: The sequence number of the records is incremented as a 96-bit integer in network order, so that no
  two of the first \<open>2 ^ 96\<close> records of a message are sealed under the same nonce.\<close>

theorem record_nonces_are_distinct:
  assumes "12 \<le> length nonce" "i < 2 ^ 96" "j < 2 ^ 96" "i \<noteq> j"
  shows "be_value (seq_at i) = i \<and>
    nonce_at nonce i \<noteq> nonce_at nonce j"
proof -
  have "seq_at i \<noteq> seq_at j"
    using assms be_value_seq_at [of i] be_value_seq_at [of j] by auto
  moreover have "length (take 12 nonce) = 12" using assms(1) by simp
  ultimately have "nonce_at nonce i \<noteq> nonce_at nonce j"
    using map2_xor_inj [of "take 12 nonce" "seq_at i" "seq_at j"]
    by (auto simp: nonce_at_def aesgcm128_record_nonce_def)
  then show ?thesis using be_value_seq_at [of i] assms(2) by simp
qed

theorem record_nonces_are_distinct_witness:
  "be_value (seq_at 255) = 255 \<and>
   nonce_at (replicate 32 7) 255 \<noteq> nonce_at (replicate 32 7) 256"
  by (rule record_nonces_are_distinct) simp_all

section \<open>The records of a message\<close>

text \<open>The reference: pieces of \<open>k\<close> bytes, and a last one that is shorter, and empty if it has to be.\<close>

function payloads :: "nat \<Rightarrow> bytes \<Rightarrow> bytes list" where
  "payloads k m = (if k = 0 \<or> length m < k then [m] else take k m # payloads k (drop k m))"
  by pat_completeness auto
termination by (relation "measure (\<lambda>(_, m). length m)") auto

declare payloads.simps [simp del]

fun seal_all :: "crypto_lib \<Rightarrow> bool \<Rightarrow> bytes \<Rightarrow> bytes \<Rightarrow> nat \<Rightarrow> bytes list \<Rightarrow> bytes list" where
  "seal_all L has_auth key nonce i [] = []"
| "seal_all L has_auth key nonce i (p # ps) =
     seal_record L key (nonce_at nonce i) (padding_of has_auth @ p) #
     seal_all L has_auth key nonce (i + 1) ps"

abbreviation payload_size :: "bool \<Rightarrow> nat \<Rightarrow> nat" where
  "payload_size has_auth record_size \<equiv> record_size - length (padding_of has_auth)"

lemma padding_length: "length (padding_of has_auth) = (if has_auth then 2 else 1)"
  by (simp add: padding_of_def)

lemma seq_at_Suc: "seq_increment (seq_at i) = seq_at (i + 1)"
  by (simp add: seq_at_def)

lemma record_nonce_at: "aesgcm128_record_nonce nonce (seq_at i) = (nonce_at nonce i, seq_at (i + 1))"
  by (simp add: nonce_at_def aesgcm128_record_nonce_def seq_at_Suc)

lemma encrypt_loop_exact:
  assumes "2 < record_size"
  shows "raw_input \<noteq> [] \<or> padding \<Longrightarrow>
    encrypt_loop L has_auth record_size key nonce (seq_at i) raw_input padding chunks =
      Some (chunks @ seal_all L has_auth key nonce i (payloads (payload_size has_auth record_size) raw_input))"
proof (induction "payload_size has_auth record_size" raw_input arbitrary: i padding chunks rule: payloads.induct)
  case (1 raw_input)
  let ?pad = "padding_of has_auth" and ?k = "payload_size has_auth record_size"
  have k: "0 < ?k" "length ?pad + ?k = record_size" using assms by (auto simp: padding_length)
  show ?case
  proof (cases "length raw_input < ?k")
    case True
    then have "length ?pad + length raw_input < record_size" using k by linarith
    then show ?thesis using 1(2) True
      by (subst encrypt_loop.simps, subst encrypt_loop.simps, subst payloads.simps)
        (simp add: Let_def record_nonce_at split: prod.splits)
  next
    case False
    then have m: "min record_size (length (?pad @ raw_input)) = record_size"
      "take record_size (?pad @ raw_input) = ?pad @ take ?k raw_input"
      "drop record_size (?pad @ raw_input) = drop ?k raw_input"
      using k by auto
    note IH = 1(1) [of "length ?pad + length raw_input \<le> record_size"]
    have "drop ?k raw_input \<noteq> [] \<or> length ?pad + length raw_input \<le> record_size" using k by auto
    note IH = IH [OF _ this]
    show ?thesis using 1(2) False k(1)
      by (subst encrypt_loop.simps, subst payloads.simps)
        (simp add: Let_def record_nonce_at m IH split: prod.splits)
  qed
qed

text \<open>C21: The loop that cuts a message into records ends, and what it makes is the reference: pieces of the size
  of a record without its padding, the last one shorter, each behind its padding and sealed under
  the nonce of its number.\<close>

theorem encryption_is_the_reference:
  assumes "input \<noteq> []" "2 < record_size" "aesgcm128_common L salt shared_key auth = (key, nonce, seq)"
  shows "aesgcm128_encrypt L input shared_key salt auth record_size =
    Done (Some (concat (seal_all L (auth \<noteq> None) key nonce 0 (payloads (payload_size (auth \<noteq> None) record_size) input))))"
proof -
  have "seq = seq_at 0" using assms(3) by (auto simp: aesgcm128_common_def seq_at_def Let_def split: prod.splits option.splits)
  then show ?thesis using assms encrypt_loop_exact [OF assms(2), of input False L "auth \<noteq> None" key nonce 0 "[]"]
    by (simp add: aesgcm128_encrypt_def)
qed

section \<open>A receiver\<close>

text \<open>What the cipher promises.\<close>

definition seal_ok :: "crypto_lib \<Rightarrow> bool" where
  "seal_ok L \<longleftrightarrow> (\<forall>k n p. case cl_seal L k n p of (out, tag) \<Rightarrow>
     length out = length p \<and> length tag = AESGCM_TAG_LEN \<and> cl_open L k n out tag = Some p)"

text \<open>The receiver of the standard: records of the announced size and a tag, the last one shorter.\<close>

definition open_record :: "crypto_lib \<Rightarrow> bool \<Rightarrow> bytes \<Rightarrow> bytes \<Rightarrow> bytes \<Rightarrow> bytes option" where
  "open_record L has_auth key n record =
     (if length record < AESGCM_TAG_LEN then None
      else case cl_open L (take 16 key) n (take (length record - AESGCM_TAG_LEN) record)
                  (drop (length record - AESGCM_TAG_LEN) record) of
        None \<Rightarrow> None
      | Some output \<Rightarrow> (case strip_padding has_auth output of Done p \<Rightarrow> Some p | Panic \<Rightarrow> None))"

function standard_open :: "crypto_lib \<Rightarrow> bool \<Rightarrow> nat \<Rightarrow> bytes \<Rightarrow> bytes \<Rightarrow> nat \<Rightarrow> bytes \<Rightarrow> bytes option" where
  "standard_open L has_auth record_size key nonce i input =
     (let full = record_size + AESGCM_TAG_LEN
      in if length input < full then open_record L has_auth key (nonce_at nonce i) input
         else case open_record L has_auth key (nonce_at nonce i) (take full input) of
           None \<Rightarrow> None
         | Some p \<Rightarrow> map_option ((@) p) (standard_open L has_auth record_size key nonce (i + 1) (drop full input)))"
  by pat_completeness auto
termination
  by (relation "measure (\<lambda>(_, _, _, _, _, _, input). length input)") (auto simp: AESGCM_TAG_LEN_def)

declare standard_open.simps [simp del]

lemma strip_padding_of: "strip_padding has_auth (padding_of has_auth @ p) = Done p"
  by (simp add: strip_padding_def padding_of_def)

lemma seal_okD:
  assumes "seal_ok L" "cl_seal L k n p = (out, tag)"
  shows "length out = length p" "length tag = AESGCM_TAG_LEN" "cl_open L k n out tag = Some p"
proof -
  note assms(1) [unfolded seal_ok_def, rule_format, of p k n]
  with assms(2) show "length out = length p" "length tag = AESGCM_TAG_LEN" "cl_open L k n out tag = Some p"
    by simp_all
qed

lemma length_seal_record:
  assumes "seal_ok L"
  shows "length (seal_record L key n chunk) = length chunk + AESGCM_TAG_LEN"
  by (cases "cl_seal L (take 16 key) n chunk") (simp add: seal_record_def seal_okD [OF assms])

lemma open_seal_record:
  assumes "seal_ok L"
  shows "open_record L has_auth key n (seal_record L key n (padding_of has_auth @ p)) = Some p"
proof (cases "cl_seal L (take 16 key) n (padding_of has_auth @ p)")
  case (Pair out tag)
  from seal_okD [OF assms Pair] show ?thesis using Pair by (simp add: open_record_def seal_record_def strip_padding_of)
qed

lemma standard_open_sealed:
  assumes "seal_ok L" "2 < record_size"
  shows "standard_open L has_auth record_size key nonce i
    (concat (seal_all L has_auth key nonce i (payloads (payload_size has_auth record_size) m))) = Some m"
proof (induction "payload_size has_auth record_size" m arbitrary: i rule: payloads.induct)
  case (1 m)
  let ?k = "payload_size has_auth record_size"
  have k: "0 < ?k" "length (padding_of has_auth) + ?k = record_size" using assms(2) by (auto simp: padding_length)
  let ?first = "seal_record L key (nonce_at nonce i) (padding_of has_auth @ take ?k m)"
  show ?case
  proof (cases "length m < ?k")
    case True
    then have "length ?first < record_size + AESGCM_TAG_LEN"
      using k by (simp add: length_seal_record [OF assms(1)])
    then show ?thesis using True open_seal_record [OF assms(1)]
      by (subst standard_open.simps, subst payloads.simps) (simp add: payloads.simps)
  next
    case False
    then have "length ?first = record_size + AESGCM_TAG_LEN"
      using k by (simp add: length_seal_record [OF assms(1)])
    moreover have "payloads ?k m = take ?k m # payloads ?k (drop ?k m)"
      using False k(1) by (subst payloads.simps) simp
    ultimately show ?thesis using 1 [of "i + 1"] open_seal_record [OF assms(1)] False k(1)
      by (subst standard_open.simps) (simp add: Let_def)
  qed
qed

text \<open>C20: A receiver of the standard, which takes records of the announced size and their tags, gets every
  message back, whatever its length and the size of the records.\<close>

theorem receivers_read_every_message:
  assumes "seal_ok L" "input \<noteq> []" "2 < record_size"
    "aesgcm128_common L salt shared_key auth = (key, nonce, seq)"
  shows "\<exists>output. aesgcm128_encrypt L input shared_key salt auth record_size = Done (Some output) \<and>
    standard_open L (auth \<noteq> None) record_size key nonce 0 output = Some input"
proof -
  have seq: "seq = seq_at 0" using assms(4) by (auto simp: aesgcm128_common_def seq_at_def Let_def split: prod.splits option.splits)
  show ?thesis
    using assms(2,4) encrypt_loop_exact [OF assms(3), of input False L "auth \<noteq> None" key nonce 0 "[]"]
      standard_open_sealed [OF assms(1,3), of "auth \<noteq> None" key nonce 0 input] assms(3) seq
    by (simp add: aesgcm128_encrypt_def)
qed

section \<open>The decryption of the code\<close>

lemma decrypt_single:
  assumes "seal_ok L" "length m + length (padding_of has_auth) + AESGCM_TAG_LEN \<le> record_size" "cl_utf8 L m"
  shows "decrypt_loop L has_auth record_size key nonce (seq_at 0)
      (seal_record L key (nonce_at nonce 0) (padding_of has_auth @ m)) [] = Done (Some [m])"
proof (cases "cl_seal L (take 16 key) (nonce_at nonce 0) (padding_of has_auth @ m)")
  case (Pair out tag)
  note seal = seal_okD [OF assms(1) Pair]
  have "min record_size (length (out @ tag)) = length out + AESGCM_TAG_LEN"
    using assms(2) seal by simp
  moreover have "padding_of has_auth \<noteq> []" by (simp add: padding_of_def)
  moreover have "out \<noteq> []" "tag \<noteq> []" using seal \<open>padding_of has_auth \<noteq> []\<close> by (auto simp: AESGCM_TAG_LEN_def)
  moreover have "length out \<noteq> record_size" using assms(2) seal by (simp add: AESGCM_TAG_LEN_def)
  ultimately show ?thesis
    using Pair seal
    by (subst decrypt_loop.simps)
      (simp add: seal_record_def Let_def record_nonce_at strip_padding_of decrypt_loop.simps)
qed

lemma payloads_single: "length m < k \<Longrightarrow> payloads k m = [m]"
  by (subst payloads.simps) simp

lemma decrypt_inverts_encrypt:
  assumes "seal_ok L" "m \<noteq> []" "cl_utf8 L m" "length m + length (padding_of (auth \<noteq> None)) + AESGCM_TAG_LEN \<le> record_size"
    and out: "aesgcm128_encrypt L m shared_key salt auth record_size = Done (Some output)"
  shows "aesgcm128_decrypt L output shared_key salt auth record_size = Done (Some m)"
proof -
  obtain key nonce seq where c: "aesgcm128_common L salt shared_key auth = (key, nonce, seq)" by (metis prod_cases3)
  then have seq: "seq = seq_at 0" by (auto simp: aesgcm128_common_def seq_at_def Let_def split: prod.splits option.splits)
  have "2 < record_size" using assms(4) by (simp add: AESGCM_TAG_LEN_def)
  moreover have "length m < payload_size (auth \<noteq> None) record_size" using assms(4) by (simp add: AESGCM_TAG_LEN_def)
  ultimately have "output = seal_record L key (nonce_at nonce 0) (padding_of (auth \<noteq> None) @ m)"
    using out assms(2) c seq encrypt_loop_exact [of record_size m False L "auth \<noteq> None" key nonce 0 "[]"]
    by (simp add: aesgcm128_encrypt_def payloads_single)
  then show ?thesis
    using c seq decrypt_single [OF assms(1,4,3), of key nonce] assms(3)
    by (simp add: aesgcm128_decrypt_def Let_def)
qed

text \<open>Both ends derive the same context, with the receiver's key first.\<close>

lemma auth_data_agree:
  assumes "cl_from_base64 L (cx_public_key a) = Some ka" "cl_from_base64 L (cx_public_key b) = Some kb"
  shows "aesgcm128_auth_data L a auth kb True = aesgcm128_auth_data L b auth ka False"
  using assms by (simp add: aesgcm128_auth_data_def split: option.splits)

text \<open>What the encoding promises, and the exchange of keys.\<close>

definition base64_ok :: "crypto_lib \<Rightarrow> bool" where
  "base64_ok L \<longleftrightarrow> (\<forall>x. cl_from_base64 L (cl_to_base64 L x) = Some x \<and>
     cl_from_base64 L (filter (\<lambda>b. b \<noteq> 61) (cl_to_base64 L x)) = Some x)"

definition keys_agree :: "crypto_lib \<Rightarrow> crypto_context \<Rightarrow> crypto_context \<Rightarrow> bool" where
  "keys_agree L a b \<longleftrightarrow>
     (case (cl_from_base64 L (cx_public_key a), cl_from_base64 L (cx_public_key b)) of
        (Some ka, Some kb) \<Rightarrow>
          cl_shared L (cx_public_key a) (cl_to_hex L kb) = cl_shared L (cx_public_key b) (cl_to_hex L ka)
      | _ \<Rightarrow> False)"

text \<open>What one context encrypts for the public key of another, the other decrypts, when the message fits
  in one record with its padding and its tag.\<close>

theorem peers_exchange_messages:
  assumes "seal_ok L" "base64_ok L" "keys_agree L a b"
    "m \<noteq> []" "cl_utf8 L m" "length m + 2 + AESGCM_TAG_LEN \<le> record_size"
    "crypto_encrypt L a (cx_public_key b) m auth record_size salt st = Done (Some e, st')"
    "ecdh_derive_keys (cx_key_pair b) st2 = Done (True, st2')"
  shows "crypto_decrypt L b (cx_public_key a) (ed_output e) (ed_salt e) auth record_size st2 = Done (Some m, st2')"
proof -
  obtain ka kb where k: "cl_from_base64 L (cx_public_key a) = Some ka" "cl_from_base64 L (cx_public_key b) = Some kb"
    "cl_shared L (cx_public_key a) (cl_to_hex L kb) = cl_shared L (cx_public_key b) (cl_to_hex L ka)"
    using assms(3) by (auto simp: keys_agree_def split: option.splits)
  from assms(7) k obtain auth_data where ad: "aesgcm128_auth_data L a auth kb True = Done auth_data"
    and e: "aesgcm128_encrypt L m (cl_shared L (cx_public_key a) (cl_to_hex L kb)) salt auth_data record_size = Done (Some (ed_output e))"
    "ed_salt e = (if auth_data \<noteq> None then filter (\<lambda>b. b \<noteq> 61) (cl_to_base64 L salt) else cl_to_base64 L salt)"
    by (auto simp: crypto_encrypt_def bind_outcome_Done_iff Let_def split: if_splits)
  have "length m + length (padding_of (auth_data \<noteq> None)) + AESGCM_TAG_LEN \<le> record_size"
    using assms(6) by (simp add: padding_length)
  note dec = decrypt_inverts_encrypt [OF assms(1,4,5) this e(1)]
  have "cl_from_base64 L (ed_salt e) = Some salt" using assms(2) e(2) by (simp add: base64_ok_def)
  then show ?thesis
    using dec k ad auth_data_agree [OF k(1,2), of auth] assms(8) by (simp add: crypto_decrypt_def)
qed

section \<open>A library\<close>

text \<open>Each byte is encoded as its two halves; the cipher seals with an empty tag.\<close>

fun halves_decode :: "bytes \<Rightarrow> bytes option" where
  "halves_decode [] = Some []"
| "halves_decode [_] = None"
| "halves_decode (h # l # bs) = map_option ((#) (h * 16 + l)) (halves_decode bs)"

definition sample_lib :: crypto_lib where
  "sample_lib = \<lparr>cl_from_base64 = halves_decode, cl_to_base64 = (\<lambda>bs. concat (map (\<lambda>b. [b div 16, b mod 16]) bs)),
     cl_to_hex = id, cl_hmac = (\<lambda>k i. k @ i), cl_hkdf_extract = (\<lambda>k i. k @ i), cl_hkdf_expand = (\<lambda>k i. k @ i),
     cl_seal = (\<lambda>k n p. (p, replicate AESGCM_TAG_LEN 0)), cl_open = (\<lambda>k n p tag. Some p),
     cl_shared = (\<lambda>_ _. [1, 2, 3]), cl_utf8 = (\<lambda>_. True)\<rparr>"

lemma sample_seal_ok: "seal_ok sample_lib"
  by (simp add: seal_ok_def sample_lib_def)

lemma halves_neq: "b div 16 \<noteq> (61 :: byte)" "b mod 16 \<noteq> (61 :: byte)"
proof -
  have "unat (b div 16) = unat b div 16" "unat (b mod 16) = unat b mod 16"
    by (simp_all add: unat_div unat_mod)
  moreover have "unat b < 256" using unat_byte_less .
  ultimately show "b div 16 \<noteq> (61 :: byte)" "b mod 16 \<noteq> (61 :: byte)" by auto
qed

lemma halves_decode_encode: "halves_decode (concat (map (\<lambda>b. [b div 16, b mod 16]) bs)) = Some bs"
  by (induction bs) (simp_all add: div_mult_mod_eq)

lemma sample_base64_ok: "base64_ok sample_lib"
proof -
  have "filter (\<lambda>b. b \<noteq> 61) (concat (map (\<lambda>b. [b div 16, b mod 16]) bs)) = concat (map (\<lambda>b. [b div 16, b mod 16]) bs)"
    for bs :: bytes
    by (induction bs) (simp_all add: halves_neq)
  then show ?thesis by (simp add: base64_ok_def sample_lib_def halves_decode_encode)
qed

text \<open>Three bytes in records of three, of which one is padding: two records.\<close>

theorem encryption_is_the_reference_witness:
  "case aesgcm128_common sample_lib [2] [1] None of (key, nonce, seq) \<Rightarrow>
     aesgcm128_encrypt sample_lib [104, 105, 106] [1] [2] None 3 =
       Done (Some (concat (seal_all sample_lib False key nonce 0 (payloads 2 [104, 105, 106]))))"
proof (cases "aesgcm128_common sample_lib [2] [1] None")
  case (fields key nonce seq)
  show ?thesis
    using encryption_is_the_reference [OF _ _ fields, of "[104, 105, 106]" 3] fields by (simp add: padding_of_def)
qed

theorem receivers_read_every_message_witness:
  "case aesgcm128_common sample_lib [2] [1] None of (key, nonce, seq) \<Rightarrow>
     \<exists>output. aesgcm128_encrypt sample_lib [104, 105, 106] [1] [2] None 3 = Done (Some output) \<and>
       standard_open sample_lib False 3 key nonce 0 output = Some [104, 105, 106]"
proof (cases "aesgcm128_common sample_lib [2] [1] None")
  case (fields key nonce seq)
  show ?thesis
    using receivers_read_every_message [OF sample_seal_ok _ _ fields, of "[104, 105, 106]" 3] fields by simp
qed

definition alice :: crypto_context where "alice = \<lparr>cx_public_key = [1, 2], cx_key_pair = Some 0\<rparr>"
definition bob :: crypto_context where "bob = \<lparr>cx_public_key = [1, 3], cx_key_pair = Some 0\<rparr>"

lemma derive_succeeds: "ecdh_derive_keys (Some 0) (ffi_start (\<lambda>_. True)) = Done (True, \<lparr>ff_succeeds = \<lambda>_. True, ff_calls = 11, ff_next = 4, ff_live = []\<rparr>)"
  by (simp add: ecdh_derive_keys_def ecdh_import_public_key_def ecdh_derive_shared_key_def ffi_new_def ffi_test_def
      ffi_start_def ffi_free_unless_null_def ffi_free_def)

lemma alice_encrypts:
  "case crypto_encrypt sample_lib alice [1, 3] [104, 105] (Some [0, 1]) 64 [7] (ffi_start (\<lambda>_. True)) of
     Done (Some e, st) \<Rightarrow> True | _ \<Rightarrow> False"
  by code_simp

theorem peers_exchange_messages_witness:
  "case crypto_encrypt sample_lib alice (cx_public_key bob) [104, 105] (Some [0, 1]) 64 [7] (ffi_start (\<lambda>_. True)) of
     Done (Some e, st) \<Rightarrow>
       crypto_decrypt sample_lib bob (cx_public_key alice) (ed_output e) (ed_salt e) (Some [0, 1]) 64 (ffi_start (\<lambda>_. True)) =
         Done (Some [104, 105], \<lparr>ff_succeeds = \<lambda>_. True, ff_calls = 11, ff_next = 4, ff_live = []\<rparr>)
   | _ \<Rightarrow> False"
proof -
  obtain e st where e: "crypto_encrypt sample_lib alice (cx_public_key bob) [104, 105] (Some [0, 1]) 64 [7] (ffi_start (\<lambda>_. True)) =
      Done (Some e, st)"
    using alice_encrypts by (auto simp: bob_def split: outcome.splits option.splits prod.splits)
  have "keys_agree sample_lib alice bob"
    by (simp add: keys_agree_def alice_def bob_def sample_lib_def)
  moreover have "ecdh_derive_keys (cx_key_pair bob) (ffi_start (\<lambda>_. True)) =
      Done (True, \<lparr>ff_succeeds = \<lambda>_. True, ff_calls = 11, ff_next = 4, ff_live = []\<rparr>)"
    using derive_succeeds by (simp add: bob_def)
  ultimately show ?thesis
    using peers_exchange_messages [OF sample_seal_ok sample_base64_ok _ _ _ _ e] e
    by (simp add: sample_lib_def AESGCM_TAG_LEN_def)
qed

end
