(* ===== verification/Webpush_Props.thy ===== *)
theory Webpush_Props
  imports Webpush Webpush_Crypto_Props
begin

text \<open>
  Who is notified: the tables implement the subscriptions and the watched resources of the users. What
  is sent: the size of the body, and its announced encoding. What makes the adapter panic.
\<close>

section \<open>Escaping\<close>

lemma escape_Nil_iff [simp]: "escape s = [] \<longleftrightarrow> s = []" "[] = escape s \<longleftrightarrow> s = []"
  by (cases s; auto)+

lemma escape_inj_aux: "escape s = escape t \<Longrightarrow> s = t"
proof (induction s arbitrary: t)
  case (Cons c cs)
  then show ?case by (cases t) (auto split: if_splits)
qed simp

lemma escape_eq_iff [simp]: "escape s = escape t \<longleftrightarrow> s = t"
  using escape_inj_aux by auto

lemma escape_image_iff [simp]: "escape s \<in> escape ` A \<longleftrightarrow> s \<in> A"
  by auto

lemma escape_subscription_inj [simp]: "escape_subscription s = escape_subscription t \<longleftrightarrow> s = t"
  by (cases s; cases t; simp add: escape_subscription_def escape_option_def)
    (metis escape_eq_iff option.inj_map_strong)

lemma escape_subscription_uri [simp]: "sub_push_uri (escape_subscription s) = escape (sub_push_uri s)"
  by (simp add: escape_subscription_def)

section \<open>The tables\<close>

text \<open>The specification: who owns the subscription of an address, and what each user watches.\<close>

record push_spec =
  ps_subscriptions :: "string \<Rightarrow> (int \<times> subscription) option"
  ps_watched :: "int \<Rightarrow> string set"

datatype push_op =
    OpSubscribe int "subscription list"
  | OpUnsubscribe int "subscription list"
  | OpResources int "string list"
  | OpNotify WebPushNotify

fun spec_subscribe :: "int \<Rightarrow> subscription list \<Rightarrow> push_spec \<Rightarrow> push_spec" where
  "spec_subscribe user [] S = S"
| "spec_subscribe user (sub # subs) S =
     (if ps_subscriptions S (sub_push_uri sub) \<noteq> None then S
      else spec_subscribe user subs (S\<lparr>ps_subscriptions := (ps_subscriptions S)(sub_push_uri sub \<mapsto> (user, sub))\<rparr>))"

fun spec_push :: "push_op \<Rightarrow> push_spec \<Rightarrow> push_spec" where
  "spec_push (OpSubscribe user subs) S = spec_subscribe user subs S"
| "spec_push (OpUnsubscribe user subs) S =
     S\<lparr>ps_subscriptions := (\<lambda>uri. if uri \<in> sub_push_uri ` set subs then None else ps_subscriptions S uri)\<rparr>"
| "spec_push (OpResources user resources) S = S\<lparr>ps_watched := (ps_watched S)(user := set resources)\<rparr>"
| "spec_push (OpNotify setter) S = S"

fun push_step :: "webpush_env \<Rightarrow> push_op \<Rightarrow> webpush_db \<Rightarrow> webpush_db" where
  "push_step E (OpSubscribe user subs) db = snd (set_subscribe user subs db)"
| "push_step E (OpUnsubscribe user subs) db = snd (set_unsubscribe user subs db)"
| "push_step E (OpResources user resources) db = snd (wp_set_resources user resources db)"
| "push_step E (OpNotify setter) db = snd (set_notify E 0 setter db)"

text \<open>The rows of the two tables.\<close>

definition sub_rows :: "push_spec \<Rightarrow> (int \<times> subscription) set" where
  "sub_rows S = {(u, escape_subscription sub) |u sub. ps_subscriptions S (sub_push_uri sub) = Some (u, sub)}"

definition watch_rows :: "push_spec \<Rightarrow> (int \<times> string) set" where
  "watch_rows S = {(u, escape x) |u x. x \<in> ps_watched S u}"

definition keyed :: "push_spec \<Rightarrow> bool" where
  "keyed S \<longleftrightarrow> (\<forall>uri u sub. ps_subscriptions S uri = Some (u, sub) \<longrightarrow> sub_push_uri sub = uri)"

definition push_rel :: "webpush_db \<Rightarrow> push_spec \<Rightarrow> bool" where
  "push_rel db S \<longleftrightarrow> wp_errors db = [] \<and> keyed S \<and>
     set (wp_subscriptions db) = sub_rows S \<and> set (wp_resources db) = watch_rows S \<and>
     distinct (map (sub_push_uri \<circ> snd) (wp_subscriptions db))"

lemma keyedD: "keyed S \<Longrightarrow> ps_subscriptions S uri = Some (u, sub) \<Longrightarrow> sub_push_uri sub = uri"
  unfolding keyed_def by blast

lemma sub_rows_insert:
  assumes "ps_subscriptions S (sub_push_uri sub) = None" "keyed S"
  shows "sub_rows (S\<lparr>ps_subscriptions := (ps_subscriptions S)(sub_push_uri sub \<mapsto> (user, sub))\<rparr>) =
    insert (user, escape_subscription sub) (sub_rows S)"
    and "keyed (S\<lparr>ps_subscriptions := (ps_subscriptions S)(sub_push_uri sub \<mapsto> (user, sub))\<rparr>)"
proof -
  show "keyed (S\<lparr>ps_subscriptions := (ps_subscriptions S)(sub_push_uri sub \<mapsto> (user, sub))\<rparr>)"
    using assms(2) by (simp add: keyed_def)
  have "((ps_subscriptions S)(sub_push_uri sub \<mapsto> (user, sub))) (sub_push_uri s) = Some (u, s) \<longleftrightarrow>
      (u = user \<and> s = sub) \<or> ps_subscriptions S (sub_push_uri s) = Some (u, s)" for u s
    using assms(1) by auto
  then show "sub_rows (S\<lparr>ps_subscriptions := (ps_subscriptions S)(sub_push_uri sub \<mapsto> (user, sub))\<rparr>) =
    insert (user, escape_subscription sub) (sub_rows S)"
    by (simp add: sub_rows_def) blast
qed

lemma sub_rows_remove:
  "sub_rows (S\<lparr>ps_subscriptions := (\<lambda>uri. if uri \<in> A then None else ps_subscriptions S uri)\<rparr>) =
     {(u, row) \<in> sub_rows S. sub_push_uri row \<notin> escape ` A}"
proof -
  have "(if uri \<in> A then None else ps_subscriptions S uri) = Some x \<longleftrightarrow> uri \<notin> A \<and> ps_subscriptions S uri = Some x" for uri x
    by simp
  then show ?thesis by (auto simp: sub_rows_def)
qed

lemma watch_rows_set:
  "watch_rows (S\<lparr>ps_watched := (ps_watched S)(user := R)\<rparr>) =
     {(u, r) \<in> watch_rows S. u \<noteq> user} \<union> (\<lambda>x. (user, escape x)) ` R"
  by (auto simp: watch_rows_def)

lemma wp_call_ok: "wp_errors db = [] \<Longrightarrow> wp_call db = (None, db)"
  by (simp add: wp_call_def)

lemma uri_taken:
  assumes "push_rel db S"
  shows "escape uri \<in> (sub_push_uri \<circ> snd) ` set (wp_subscriptions db) \<longleftrightarrow> ps_subscriptions S uri \<noteq> None"
proof -
  have "escape uri \<in> (sub_push_uri \<circ> snd) ` sub_rows S \<longleftrightarrow> (\<exists>u sub. ps_subscriptions S uri = Some (u, sub) \<and> sub_push_uri sub = uri)"
    by (force simp: sub_rows_def)
  also have "\<dots> \<longleftrightarrow> ps_subscriptions S uri \<noteq> None"
    using assms keyedD [of S uri] by (auto simp: push_rel_def)
  finally show ?thesis using assms by (simp add: push_rel_def)
qed

definition with_subscription :: "int \<Rightarrow> subscription \<Rightarrow> push_spec \<Rightarrow> push_spec" where
  "with_subscription user sub S = S\<lparr>ps_subscriptions := (ps_subscriptions S)(sub_push_uri sub \<mapsto> (user, sub))\<rparr>"

lemma subscribe_free:
  assumes "push_rel db S" "ps_subscriptions S (sub_push_uri sub) = None"
  obtains db' where "wp_subscribe user sub db = (Inr (), db')" "push_rel db' (with_subscription user sub S)"
proof -
  have ok: "wp_errors db = []" "keyed S" using assms(1) by (simp_all add: push_rel_def)
  let ?db = "db\<lparr>wp_subscriptions := wp_subscriptions db @ [(user, escape_subscription sub)]\<rparr>"
  have "wp_subscribe user sub db = (Inr (), ?db)"
    using uri_taken [OF assms(1), of "sub_push_uri sub"] assms(2) ok(1)
    by (simp add: wp_subscribe_def wp_call_ok Let_def)
  moreover have "push_rel ?db (with_subscription user sub S)"
    using assms(1) sub_rows_insert [OF assms(2) ok(2), of user] uri_taken [OF assms(1), of "sub_push_uri sub"] assms(2)
    by (simp add: push_rel_def watch_rows_def with_subscription_def)
  ultimately show ?thesis by (rule that)
qed

lemma subscribe_taken:
  assumes "push_rel db S" "ps_subscriptions S (sub_push_uri sub) \<noteq> None"
  shows "wp_subscribe user sub db = (Inl unique_violation, db)"
  using uri_taken [OF assms(1), of "sub_push_uri sub"] assms
  by (simp add: wp_subscribe_def wp_call_ok Let_def push_rel_def)

lemma spec_subscribe_free:
  "ps_subscriptions S (sub_push_uri sub) = None \<Longrightarrow>
     spec_subscribe user (sub # subs) S = spec_subscribe user subs (with_subscription user sub S)"
  by (simp add: with_subscription_def)

lemma subscribe_rel:
  "push_rel db S \<Longrightarrow> push_rel (snd (set_subscribe user subs db)) (spec_subscribe user subs S)"
proof (induction subs arbitrary: db S)
  case (Cons sub subs)
  show ?case
  proof (cases "ps_subscriptions S (sub_push_uri sub) = None")
    case True
    from subscribe_free [OF Cons.prems True, of user] obtain db'
      where "wp_subscribe user sub db = (Inr (), db')" "push_rel db' (with_subscription user sub S)" .
    then show ?thesis using Cons.IH by (simp add: spec_subscribe_free [OF True] del: spec_subscribe.simps)
  next
    case False
    then show ?thesis using subscribe_taken [OF Cons.prems False] Cons.prems by auto
  qed
qed simp

lemma unsubscribe_result:
  "wp_errors db = [] \<Longrightarrow> set_unsubscribe user subs db =
     (Inr (), db\<lparr>wp_subscriptions := filter (\<lambda>(_, row). sub_push_uri row \<notin> escape ` sub_push_uri ` set subs) (wp_subscriptions db)\<rparr>)"
proof (induction subs arbitrary: db)
  case (Cons sub subs)
  have "filter (\<lambda>(_, row). sub_push_uri row \<notin> escape ` sub_push_uri ` set subs)
      (filter (\<lambda>(_, row). sub_push_uri row \<noteq> escape (sub_push_uri sub)) (wp_subscriptions db)) =
    filter (\<lambda>(_, row). sub_push_uri row \<notin> escape ` sub_push_uri ` set (sub # subs)) (wp_subscriptions db)"
    by (simp add: case_prod_unfold)
  then show ?case using Cons by (simp add: wp_unsubscribe_def wp_execute_def wp_call_ok del: image_insert list.set)
qed simp

lemma insert_resources_result:
  "wp_errors db = [] \<Longrightarrow> wp_insert_resources user rs db =
     (Inr (), db\<lparr>wp_resources := wp_resources db @ map (\<lambda>r. (user, escape r)) rs\<rparr>)"
  by (induction rs arbitrary: db) (simp_all add: wp_execute_def wp_call_ok)

lemma set_resources_result:
  "wp_errors db = [] \<Longrightarrow> wp_set_resources user rs db =
     (Inr (), db\<lparr>wp_resources := filter (\<lambda>(u, _). u \<noteq> user) (wp_resources db) @ map (\<lambda>r. (user, escape r)) rs\<rparr>)"
  by (simp add: wp_set_resources_def wp_execute_def wp_call_ok insert_resources_result)

definition targets :: "string \<Rightarrow> webpush_db \<Rightarrow> subscription list" where
  "targets resource db = map snd (filter (\<lambda>(u, _). (u, escape resource) \<in> set (wp_resources db)) (wp_subscriptions db))"

lemma notify_result:
  "wp_errors db = [] \<Longrightarrow> set_notify E user setter db =
     (Inr (), if targets (wpn_resource setter) db = [] then db
       else db\<lparr>wp_spawned := wp_spawned db @ [(targets (wpn_resource setter) db, we_message_text E (wpn_resource setter) (wpn_message setter))]\<rparr>)"
  by (simp add: set_notify_def wp_get_resource_subscriptions_def wp_query_def wp_call_ok targets_def)

lemma push_step_rel:
  assumes "push_rel db S"
  shows "push_rel (push_step E op db) (spec_push op S)"
proof (cases op)
  case (OpUnsubscribe user subs)
  have "set (filter (\<lambda>(_, row). sub_push_uri row \<notin> escape ` sub_push_uri ` set subs) (wp_subscriptions db)) =
      {(u, row) \<in> sub_rows S. sub_push_uri row \<notin> escape ` sub_push_uri ` set subs}"
    using assms by (auto simp: push_rel_def)
  then show ?thesis using assms OpUnsubscribe
    by (simp add: unsubscribe_result push_rel_def sub_rows_remove watch_rows_def keyed_def distinct_map_filter del: set_filter)
next
  case (OpResources user rs)
  have "set (filter (\<lambda>(u, _). u \<noteq> user) (wp_resources db)) = {(u, r) \<in> watch_rows S. u \<noteq> user}"
    using assms by (auto simp: push_rel_def)
  then show ?thesis using assms OpResources
    by (simp add: set_resources_result push_rel_def watch_rows_set image_image sub_rows_def keyed_def del: set_filter)
next
  case (OpSubscribe user subs)
  then show ?thesis using subscribe_rel [OF assms] by simp
next
  case (OpNotify setter)
  then show ?thesis using assms by (simp add: notify_result push_rel_def)
qed

definition empty_db :: webpush_db where
  "empty_db = \<lparr>wp_subscriptions = [], wp_resources = [], wp_errors = [], wp_spawned = []\<rparr>"

definition empty_spec :: push_spec where
  "empty_spec = \<lparr>ps_subscriptions = Map.empty, ps_watched = (\<lambda>_. {})\<rparr>"

lemma runs_related: "push_rel (fold (push_step E) ops empty_db) (fold spec_push ops empty_spec)"
proof -
  have "push_rel db S \<Longrightarrow> push_rel (fold (push_step E) ops db) (fold spec_push ops S)" for db S
    by (induction ops arbitrary: db S) (simp_all add: push_step_rel)
  moreover have "push_rel empty_db empty_spec"
    by (simp add: push_rel_def empty_db_def empty_spec_def keyed_def sub_rows_def watch_rows_def)
  ultimately show ?thesis .
qed

lemma set_targets:
  assumes "push_rel db S"
  shows "set (targets r db) = escape_subscription `
      {sub. \<exists>u. ps_subscriptions S (sub_push_uri sub) = Some (u, sub) \<and> r \<in> ps_watched S u}"
proof -
  have "(u, escape r) \<in> set (wp_resources db) \<longleftrightarrow> r \<in> ps_watched S u" for u
    using assms by (auto simp: push_rel_def watch_rows_def)
  then have "set (targets r db) = snd ` {(u, row) \<in> sub_rows S. r \<in> ps_watched S u}"
    using assms by (auto simp: targets_def push_rel_def)
  then show ?thesis by (force simp: sub_rows_def)
qed

lemma distinct_targets:
  assumes "push_rel db S"
  shows "distinct (targets r db)"
proof -
  have "distinct (map (sub_push_uri \<circ> snd) (filter P (wp_subscriptions db)))" for P
    using assms by (simp add: push_rel_def distinct_map_filter)
  from this [of "\<lambda>(u, _). (u, escape r) \<in> set (wp_resources db)"]
  have "distinct (map sub_push_uri (targets r db))" by (simp add: targets_def)
  then show ?thesis by (simp add: distinct_map)
qed


section \<open>Panics\<close>

lemma set_subscribe_fails:
  "push_rel db S \<Longrightarrow> (\<exists>e. fst (set_subscribe user subs db) = Inl e) \<longleftrightarrow>
     \<not> distinct (map sub_push_uri subs) \<or> (\<exists>sub \<in> set subs. ps_subscriptions S (sub_push_uri sub) \<noteq> None)"
proof (induction subs arbitrary: db S)
  case (Cons sub subs)
  show ?case
  proof (cases "ps_subscriptions S (sub_push_uri sub) = None")
    case True
    from subscribe_free [OF Cons.prems True, of user] obtain db'
      where "wp_subscribe user sub db = (Inr (), db')" "push_rel db' (with_subscription user sub S)" .
    moreover have "ps_subscriptions (with_subscription user sub S) uri \<noteq> None \<longleftrightarrow>
        uri = sub_push_uri sub \<or> ps_subscriptions S uri \<noteq> None" for uri
      by (simp add: with_subscription_def)
    ultimately have "(\<exists>e. fst (set_subscribe user (sub # subs) db) = Inl e) \<longleftrightarrow> \<not> distinct (map sub_push_uri subs) \<or>
        (\<exists>s \<in> set subs. sub_push_uri s = sub_push_uri sub \<or> ps_subscriptions S (sub_push_uri s) \<noteq> None)"
      using Cons.IH [of db' "with_subscription user sub S"] by (simp del: not_None_eq)
    also have "\<dots> \<longleftrightarrow> \<not> distinct (map sub_push_uri (sub # subs)) \<or>
        (\<exists>s \<in> set (sub # subs). ps_subscriptions S (sub_push_uri s) \<noteq> None)"
      using True by (auto simp del: not_None_eq intro: rev_image_eqI)
    finally show ?thesis .
  next
    case False
    then show ?thesis using subscribe_taken [OF Cons.prems False] by simp
  qed
qed simp

text \<open>Subscribing panics, instead of answering with an error, exactly when an address is subscribed already
  or appears twice in the request.\<close>

theorem subscribing_twice_panics:
  assumes "push_rel db S" "webpush_user E user = Some u" "we_subscriptions_of_json E json = Inr subs"
  shows "fst (webpush_send_one E user setter_subscribe_id (VJson json) db) = Panic \<longleftrightarrow>
    \<not> distinct (map sub_push_uri subs) \<or> (\<exists>sub \<in> set subs. ps_subscriptions S (sub_push_uri sub) \<noteq> None)"
proof -
  have ids: "setter_subscribe_id \<noteq> setter_notify_id" "setter_subscribe_id \<noteq> setter_resource_id"
    by (simp_all add: setter_subscribe_id_def setter_notify_id_def setter_resource_id_def)
  have "fst (webpush_send_one E user setter_subscribe_id (VJson json) db) = Panic \<longleftrightarrow>
      (\<exists>e. fst (set_subscribe u subs db) = Inl e)"
    using assms(2,3) ids
    by (cases "set_subscribe u subs db"; cases "fst (set_subscribe u subs db)")
      (simp_all add: webpush_send_one_def setter_api_def)
  then show ?thesis using set_subscribe_fails [OF assms(1)] by simp
qed

definition sample_env :: webpush_env where
  "sample_env = \<lparr>we_authentication = True, we_subscriptions_to_json = (\<lambda>_. Null), we_resources_to_json = (\<lambda>_. Null),
     we_subscriptions_of_json = (\<lambda>_. Inr [\<lparr>sub_push_uri = ''u'', sub_public_key = ''k'', sub_auth = None\<rparr>]),
     we_resources_of_json = (\<lambda>_. Inr []), we_message_text = (\<lambda>r m. r @ m), we_show_json = (\<lambda>_. [])\<rparr>"

theorem subscribing_twice_panics_witness:
  "fst (webpush_send_one sample_env (UserId 2) setter_subscribe_id (VJson Null)
     (snd (webpush_send_one sample_env (UserId 1) setter_subscribe_id (VJson Null) empty_db))) = Panic"
proof -
  let ?sub = "\<lparr>sub_push_uri = ''u'', sub_public_key = ''k'', sub_auth = None\<rparr>"
  let ?db = "push_step sample_env (OpSubscribe 1 [?sub]) empty_db"
  have "push_rel ?db (spec_push (OpSubscribe 1 [?sub]) empty_spec)"
    using runs_related [of sample_env "[OpSubscribe 1 [?sub]]"] by simp
  from subscribing_twice_panics [OF this, of sample_env "UserId 2" 2 Null "[?sub]"]
  have "fst (webpush_send_one sample_env (UserId 2) setter_subscribe_id (VJson Null) ?db) = Panic"
    by (simp add: sample_env_def webpush_user_def empty_spec_def)
  moreover have "snd (webpush_send_one sample_env (UserId 1) setter_subscribe_id (VJson Null) empty_db) = ?db"
    by (simp add: webpush_send_one_def setter_api_def sample_env_def webpush_user_def empty_db_def wp_subscribe_def
        wp_call_def escape_subscription_def setter_subscribe_id_def setter_notify_id_def setter_resource_id_def)
  ultimately show ?thesis by simp
qed

section \<open>The size of a notification\<close>

lemma length_payloads: "0 < k \<Longrightarrow> length (payloads k m) = length m div k + 1"
proof (induction k m rule: payloads.induct)
  case (1 k m)
  show ?case
  proof (cases "length m < k")
    case True
    then show ?thesis by (simp add: payloads_single)
  next
    case False
    then have "length m div k = (length m - k) div k + 1" using 1(2) by (simp add: le_div_geq)
    then show ?thesis using False 1 by (subst payloads.simps) simp
  qed
qed

lemma sum_payloads: "concat (payloads k m) = m"
proof (induction k m rule: payloads.induct)
  case (1 k m)
  then show ?case by (cases "k = 0 \<or> length m < k"; subst payloads.simps) simp_all
qed

lemma length_sealed:
  assumes "seal_ok L"
  shows "length (concat (seal_all L has_auth key nonce i ps)) =
    length (concat ps) + length ps * (length (padding_of has_auth) + AESGCM_TAG_LEN)"
  by (induction ps arbitrary: i) (simp_all add: length_seal_record [OF assms] algebra_simps)

lemma encrypted_length:
  assumes "seal_ok L" "input \<noteq> []" "2 < record_size"
    "aesgcm128_encrypt L input shared_key salt auth record_size = Done (Some output)"
  shows "length output = length input + (length input div payload_size (auth \<noteq> None) record_size + 1) *
    (length (padding_of (auth \<noteq> None)) + AESGCM_TAG_LEN)"
proof -
  obtain key nonce seq where c: "aesgcm128_common L salt shared_key auth = (key, nonce, seq)" by (metis prod_cases3)
  then have seq: "seq = seq_at 0" by (auto simp: aesgcm128_common_def seq_at_def Let_def split: prod.splits option.splits)
  have "output = concat (seal_all L (auth \<noteq> None) key nonce 0 (payloads (payload_size (auth \<noteq> None) record_size) input))"
    using encrypt_loop_exact [OF assms(3), of input False L "auth \<noteq> None" key nonce 0 "[]"] assms(2,3,4) c seq
    by (simp add: aesgcm128_encrypt_def)
  moreover have "0 < payload_size (auth \<noteq> None) record_size" using assms(3) by (auto simp: padding_length)
  ultimately show ?thesis
    by (simp add: length_sealed [OF assms(1)] sum_payloads length_payloads)
qed

lemma push_length:
  assumes "pad = 1 \<or> pad = (2::nat)" "rs = min 4096 (n + 18)" "len = n + (n div (rs - pad) + 1) * (pad + 16)"
  shows "len \<le> rs \<longleftrightarrow> n + pad \<le> 4080"
proof (cases "n + 18 \<le> 4096")
  case True
  then have "n < rs - pad" using assms(1,2) by auto
  then have "n div (rs - pad) = 0" by simp
  then show ?thesis using True assms by auto
next
  case False
  then have rs: "rs = 4096" using assms(2) by simp
  show ?thesis
  proof (cases "n < rs - pad")
    case True
    then have "n div (rs - pad) = 0" by simp
    then show ?thesis using rs assms(1,3) False by auto
  next
    case big: False
    then have "1 \<le> n div (rs - pad)" using rs assms(1) by (auto simp: div_greater_zero_iff Suc_le_eq)
    then have "2 * (pad + 16) \<le> (n div (rs - pad) + 1) * (pad + 16)" by (intro mult_le_mono1) simp
    then have "4096 < len" using big rs assms(1,3) by auto
    then show ?thesis using rs big assms(1) by auto
  qed
qed

lemma notify_body:
  assumes "subscription_notify L crypto salt message self st = Done (Some req, st')"
  obtains auth_data shared_key where
    "aesgcm128_encrypt L message shared_key salt auth_data (push_record_size message) = Done (Some (pr_body req))"
    "sub_auth self = None \<or> cl_from_base64 L (ascii (the (sub_auth self))) = None \<longrightarrow> auth_data = None"
    "(''Content-Encoding'', if sub_auth self = None then ascii ''aesgcm128'' else ascii ''aesgcm'') \<in> set (pr_headers req)"
proof -
  from assms obtain e where e: "crypto_encrypt L crypto (ascii (sub_public_key self)) message (map_option ascii (sub_auth self))
      (push_record_size message) salt st = Done (Some e, st')" "pr_body req = ed_output e"
    "(''Content-Encoding'', if sub_auth self = None then ascii ''aesgcm128'' else ascii ''aesgcm'') \<in> set (pr_headers req)"
    by (auto simp: subscription_notify_def Let_def bind_outcome_Done_iff split: option.splits if_splits)
  from e(1) obtain kb auth_data where a: "aesgcm128_auth_data L crypto (map_option ascii (sub_auth self)) kb True = Done auth_data"
    and o: "aesgcm128_encrypt L message (cl_shared L (cx_public_key crypto) (cl_to_hex L kb)) salt auth_data (push_record_size message) =
      Done (Some (ed_output e))"
    by (auto simp: crypto_encrypt_def bind_outcome_Done_iff Let_def split: option.splits if_splits)
  have "sub_auth self = None \<or> cl_from_base64 L (ascii (the (sub_auth self))) = None \<longrightarrow> auth_data = None"
    using a by (auto simp: aesgcm128_auth_data_def split: option.splits)
  with o e(2,3) show ?thesis by (intro that) simp_all
qed

text \<open>The body of a notification fits in the record size that is announced for it when the message has at
  most 4078 bytes, and never when it has 4080 or more: the record size is capped at 4096, where it
  should grow with the message.\<close>

theorem announced_record_size_is_capped:
  assumes "seal_ok L" "message \<noteq> []" "subscription_notify L crypto salt message self st = Done (Some req, st')"
  shows "(length message \<le> 4078 \<longrightarrow> length (pr_body req) \<le> push_record_size message) \<and>
    (4080 \<le> length message \<longrightarrow> push_record_size message < length (pr_body req))"
proof -
  from notify_body [OF assms(3)] obtain auth_data shared_key where
    enc: "aesgcm128_encrypt L message shared_key salt auth_data (push_record_size message) = Done (Some (pr_body req))" .
  let ?pad = "length (padding_of (auth_data \<noteq> None))"
  have rs: "2 < push_record_size message" by (simp add: push_record_size_def)
  have pad: "?pad = 1 \<or> ?pad = 2" by (simp add: padding_length)
  have "length (pr_body req) \<le> push_record_size message \<longleftrightarrow> length message + ?pad \<le> 4080"
    using encrypted_length [OF assms(1,2) rs enc]
    by (intro push_length [OF pad]) (simp_all add: push_record_size_def AESGCM_TAG_LEN_def)
  then show ?thesis using pad by auto
qed

text \<open>A subscription whose authentication secret cannot be decoded is sent a body encrypted without it, in
  the older format, announced in the newer one.\<close>

theorem undecodable_secret_is_announced_as_used:
  assumes "sub_auth self = Some secret" "cl_from_base64 L (ascii secret) = None"
    "subscription_notify L crypto salt message self st = Done (Some req, st')"
  shows "(''Content-Encoding'', ascii ''aesgcm'') \<in> set (pr_headers req) \<and>
    (\<exists>shared_key. aesgcm128_encrypt L message shared_key salt None (push_record_size message) = Done (Some (pr_body req)))"
proof -
  from notify_body [OF assms(3)] obtain auth_data shared_key where
    b: "aesgcm128_encrypt L message shared_key salt auth_data (push_record_size message) = Done (Some (pr_body req))"
      "sub_auth self = None \<or> cl_from_base64 L (ascii (the (sub_auth self))) = None \<longrightarrow> auth_data = None"
      "(''Content-Encoding'', if sub_auth self = None then ascii ''aesgcm128'' else ascii ''aesgcm'') \<in> set (pr_headers req)" .
  have "auth_data = None" using b(2) assms(1,2) by simp
  moreover have "(''Content-Encoding'', ascii ''aesgcm'') \<in> set (pr_headers req)"
    using b(3) assms(1) by simp
  ultimately show ?thesis using b(1) by blast
qed

definition sample_subscription :: subscription where
  "sample_subscription = \<lparr>sub_push_uri = ''u'', sub_public_key = [], sub_auth = Some ''x''\<rparr>"

lemma alice_encrypts_again:
  "case crypto_encrypt sample_lib alice [] [104, 105] (Some [120]) 20 [7] (ffi_start (\<lambda>_. True)) of
     Done (Some e, st) \<Rightarrow> True | _ \<Rightarrow> False"
  by code_simp

lemma sample_notifies:
  obtains req st where
    "subscription_notify sample_lib alice [7] [104, 105] sample_subscription (ffi_start (\<lambda>_. True)) = Done (Some req, st)"
proof -
  obtain e st where e: "crypto_encrypt sample_lib alice [] [104, 105] (Some [120]) 20 [7] (ffi_start (\<lambda>_. True)) = Done (Some e, st)"
    using alice_encrypts_again by (auto split: outcome.splits option.splits prod.splits)
  have "push_record_size [104, 105] = 20" "ascii [] = []" "map_option ascii (Some ''x'') = Some [120]"
    by (simp_all add: push_record_size_def ascii_def)
  with e have "\<exists>req. subscription_notify sample_lib alice [7] [104, 105] sample_subscription (ffi_start (\<lambda>_. True)) = Done (Some req, st)"
    by (simp add: subscription_notify_def sample_subscription_def Let_def)
  then show ?thesis using that by blast
qed

theorem announced_record_size_is_capped_witness:
  "\<exists>req st. subscription_notify sample_lib alice [7] [104, 105] sample_subscription (ffi_start (\<lambda>_. True)) = Done (Some req, st) \<and>
     length (pr_body req) \<le> push_record_size [104, 105]"
proof -
  obtain req st where r:
    "subscription_notify sample_lib alice [7] [104, 105] sample_subscription (ffi_start (\<lambda>_. True)) = Done (Some req, st)"
    by (rule sample_notifies)
  show ?thesis using r announced_record_size_is_capped [OF sample_seal_ok _ r] by auto
qed

theorem undecodable_secret_is_announced_as_used_witness:
  "\<exists>req st. subscription_notify sample_lib alice [7] [104, 105] sample_subscription (ffi_start (\<lambda>_. True)) = Done (Some req, st) \<and>
     (''Content-Encoding'', ascii ''aesgcm'') \<in> set (pr_headers req) \<and>
     (\<exists>shared_key. aesgcm128_encrypt sample_lib [104, 105] shared_key [7] None (push_record_size [104, 105]) = Done (Some (pr_body req)))"
proof -
  obtain req st where r:
    "subscription_notify sample_lib alice [7] [104, 105] sample_subscription (ffi_start (\<lambda>_. True)) = Done (Some req, st)"
    by (rule sample_notifies)
  have "sub_auth sample_subscription = Some ''x''" "cl_from_base64 sample_lib (ascii ''x'') = None"
    by (simp_all add: sample_lib_def ascii_def sample_subscription_def)
  from undecodable_secret_is_announced_as_used [OF this r] r show ?thesis by blast
qed

end
