(* ===== verification/Managed_Process.thy ===== *)
theory Managed_Process
  imports Adapter_Setup "HOL-Library.Word"
begin

text \<open>
  \<^verbatim>\<open>src/managed_process.rs\<close>: a thread that starts a process again whenever it ends, and the shutdown
  of both. The system is the two threads beside the table of processes of the kernel; one step is
  what a thread does under its locks, or one system call. Processes of others appear and disappear
  at any time, and may get the identifier of one that is gone. Identifiers fit in 31 bits, so that
  the cast to \<^verbatim>\<open>i32\<close> keeps them. Instants and durations are in nanoseconds.
\<close>

section \<open>The delay before a restart\<close>

definition RESTART_TIME_THRESHOLD :: nat where "RESTART_TIME_THRESHOLD = 5"

definition nanoseconds :: "nat \<Rightarrow> int" where "nanoseconds secs = int secs * 1000000000"

record Backoff =
  bo_restart_count :: "64 word"
  bo_restart_threshold :: int
  bo_start_time :: "int option"
  bo_backoff :: "64 word"

definition backoff_new :: "int \<Rightarrow> Backoff" where
  "backoff_new restart_threshold =
     \<lparr>bo_restart_count = 0, bo_restart_threshold = restart_threshold, bo_start_time = None, bo_backoff = 1\<rparr>"

definition backoff_from_secs :: "nat \<Rightarrow> Backoff" where
  "backoff_from_secs secs = backoff_new (nanoseconds secs)"

text \<open>The clock is read twice: \<open>end_time\<close> at the start and \<open>now\<close> at the end.\<close>

definition next_backoff :: "int \<Rightarrow> int \<Rightarrow> Backoff \<Rightarrow> int \<times> Backoff" where
  "next_backoff end_time now b =
     (let (duration_to_backoff, b) =
        (case bo_start_time b of
           Some start_time \<Rightarrow>
             if end_time - start_time < bo_restart_threshold b then
               (let b = b\<lparr>bo_backoff := bo_backoff b + 1\<rparr>
                in (nanoseconds (unat (drop_bit 1 (bo_backoff b * bo_backoff b))), b))
             else (0, b\<lparr>bo_backoff := 1\<rparr>)
         | None \<Rightarrow> (0, b))
      in (duration_to_backoff, b\<lparr>bo_restart_count := bo_restart_count b + 1, bo_start_time := Some now\<rparr>))"

section \<open>The kernel\<close>

type_synonym pid = nat

text \<open>Whose a process is: started by this manager, another child of the program, or neither.\<close>

datatype owner = This | Sibling | Foreign
datatype pstatus = Running | Zombie

type_synonym processes = "pid \<Rightarrow> (owner \<times> pstatus) option"

text \<open>\<^verbatim>\<open>waitpid\<close> with \<^verbatim>\<open>WNOHANG\<close>: only children can be waited for, and a zombie is taken from the table.\<close>

datatype wait_result = No_Change | Reaped | No_Child

fun os_waitpid :: "pid \<Rightarrow> processes \<Rightarrow> wait_result \<times> processes" where
  "os_waitpid p procs =
     (case procs p of
        Some (Foreign, _) \<Rightarrow> (No_Child, procs)
      | Some (_, Running) \<Rightarrow> (No_Change, procs)
      | Some (_, Zombie) \<Rightarrow> (Reaped, procs(p := None))
      | None \<Rightarrow> (No_Child, procs))"

text \<open>\<^verbatim>\<open>SIGKILL\<close>, to a process that may be killed.\<close>

definition os_kill :: "pid \<Rightarrow> processes \<Rightarrow> bool \<times> processes" where
  "os_kill p procs =
     (case procs p of
        Some (o_p, Running) \<Rightarrow> (True, procs(p \<mapsto> (o_p, Zombie)))
      | Some (_, Zombie) \<Rightarrow> (True, procs)
      | None \<Rightarrow> (False, procs))"

text \<open>The results of the library as values: \<open>c_rv\<close> turns -1 into the last error, and \<open>c_rv_retry\<close>
  tries again as long as a call is interrupted. The calls and their errors are a list; None is a
  call that is still being interrupted at the end of the list.\<close>

datatype io_error = Interrupted | NotFound | OtherError

fun c_rv :: "int \<times> io_error \<Rightarrow> io_error + int" where
  "c_rv (t, last_os_error) = (if t = -1 then Inl last_os_error else Inr t)"

fun c_rv_retry :: "(int \<times> io_error) list \<Rightarrow> (io_error + int) option" where
  "c_rv_retry [] = None"
| "c_rv_retry (f # fs) = (if c_rv f = Inl Interrupted then c_rv_retry fs else Some (c_rv f))"

text \<open>\<open>Inr True\<close>: the process has exited; \<open>Inr False\<close>: it is still alive.\<close>

definition try_wait_result :: "pid \<Rightarrow> io_error + int \<Rightarrow> io_error + bool" where
  "try_wait_result p r =
     (case r of
        Inr n \<Rightarrow> if n = 0 then Inr False else if n = int p then Inr True else Inl NotFound
      | Inl _ \<Rightarrow> Inl OtherError)"

fun wait_code :: "pid \<Rightarrow> wait_result \<Rightarrow> int \<times> io_error" where
  "wait_code p No_Change = (0, OtherError)"
| "wait_code p Reaped = (int p, OtherError)"
| "wait_code p No_Child = (-1, OtherError)"

text \<open>A call that is interrupted any number of times before it is answered.\<close>

definition try_wait :: "nat \<Rightarrow> pid \<Rightarrow> processes \<Rightarrow> ((io_error + bool) \<times> processes) option" where
  "try_wait interruptions p procs =
     (case os_waitpid p procs of (r, procs) \<Rightarrow>
        map_option (\<lambda>res. (try_wait_result p res, procs))
          (c_rv_retry (replicate interruptions (-1, Interrupted) @ [wait_code p r])))"

section \<open>The two threads\<close>

text \<open>The thread of the manager: at the head of its loop, waiting for its child, after that, asleep
  until it restarts the child, or gone, in order or by a panic.\<close>

datatype mp_thread = At_Loop | Waiting pid | Waited | Sleeping int | Finished | Died

text \<open>The caller of \<^verbatim>\<open>shutdown\<close>.\<close>

datatype mp_shutdown =
  Not_Called | Signalled | Has_Pid pid | Must_Kill pid | Joining | Returned | Shutdown_Panic

record managed =
  mp_kill_signal :: "32 word"
  mp_pid :: "pid option"
  mp_poisoned :: bool
  mp_backoff :: Backoff
  mp_thread :: mp_thread
  mp_shutdown :: mp_shutdown
  mp_procs :: processes
  mp_spawned :: "pid list"

definition mp_start :: "processes \<Rightarrow> managed" where
  "mp_start procs =
     \<lparr>mp_kill_signal = 0, mp_pid = None, mp_poisoned = False,
      mp_backoff = backoff_from_secs RESTART_TIME_THRESHOLD, mp_thread = At_Loop,
      mp_shutdown = Not_Called, mp_procs = procs, mp_spawned = []\<rparr>"

definition get_restart_count :: "managed \<Rightarrow> 64 word" where
  "get_restart_count s = bo_restart_count (mp_backoff s)"

text \<open>One step of the thread; the result of \<^verbatim>\<open>spawn\<close> is the identifier the kernel chose, and the
  clock is read when the child has ended. None: the thread cannot do a step.\<close>

definition thread_step :: "pid option \<Rightarrow> int \<Rightarrow> int \<Rightarrow> managed \<Rightarrow> managed option" where
  "thread_step spawn end_time now s =
     (case mp_thread s of
        At_Loop \<Rightarrow>
          if mp_poisoned s then Some (s\<lparr>mp_thread := Died\<rparr>)
          else if mp_kill_signal s = 1 then Some (s\<lparr>mp_pid := None, mp_thread := Finished\<rparr>)
          else (case spawn of
              None \<Rightarrow> Some (s\<lparr>mp_poisoned := True, mp_thread := Died\<rparr>)
            | Some p \<Rightarrow>
                if 0 < p \<and> mp_procs s p = None then
                  Some (s\<lparr>mp_procs := (mp_procs s)(p \<mapsto> (This, Running)), mp_pid := Some p,
                          mp_thread := Waiting p, mp_spawned := p # mp_spawned s\<rparr>)
                else None)
      | Waiting p \<Rightarrow>
          (case os_waitpid p (mp_procs s) of
             (No_Change, _) \<Rightarrow> None
           | (Reaped, procs) \<Rightarrow> Some (s\<lparr>mp_procs := procs, mp_thread := Waited\<rparr>)
           | (No_Child, _) \<Rightarrow> Some (s\<lparr>mp_thread := Died\<rparr>))
      | Waited \<Rightarrow>
          (case next_backoff end_time now (mp_backoff s) of (d, b) \<Rightarrow>
             Some (s\<lparr>mp_backoff := b, mp_thread := Sleeping d\<rparr>))
      | Sleeping d \<Rightarrow> Some (s\<lparr>mp_thread := At_Loop\<rparr>)
      | Finished \<Rightarrow> None
      | Died \<Rightarrow> None)"

definition get_pid :: "managed \<Rightarrow> pid option outcome" where
  "get_pid s = (if mp_poisoned s then Panic else Done (mp_pid s))"

text \<open>One step of \<^verbatim>\<open>shutdown\<close>: the signal, the identifier, the test, the kill, the join.\<close>

definition shutdown_step :: "nat \<Rightarrow> managed \<Rightarrow> managed option" where
  "shutdown_step interruptions s =
     (case mp_shutdown s of
        Not_Called \<Rightarrow>
          if mp_poisoned s then Some (s\<lparr>mp_shutdown := Shutdown_Panic\<rparr>)
          else Some (s\<lparr>mp_kill_signal := 1, mp_shutdown := Signalled\<rparr>)
      | Signalled \<Rightarrow>
          (case get_pid s of
             Panic \<Rightarrow> Some (s\<lparr>mp_shutdown := Shutdown_Panic\<rparr>)
           | Done None \<Rightarrow> Some (s\<lparr>mp_shutdown := Joining\<rparr>)
           | Done (Some p) \<Rightarrow> Some (s\<lparr>mp_shutdown := Has_Pid p\<rparr>))
      | Has_Pid p \<Rightarrow>
          (case try_wait interruptions p (mp_procs s) of None \<Rightarrow> None | Some (status_result, procs) \<Rightarrow>
             let needs_kill = (case status_result of Inr exited \<Rightarrow> \<not> exited | Inl _ \<Rightarrow> False)
             in Some (s\<lparr>mp_procs := procs, mp_shutdown := (if needs_kill then Must_Kill p else Joining)\<rparr>))
      | Must_Kill p \<Rightarrow> Some (s\<lparr>mp_procs := snd (os_kill p (mp_procs s)), mp_shutdown := Joining\<rparr>)
      | Joining \<Rightarrow>
          (case mp_thread s of
             Finished \<Rightarrow> Some (s\<lparr>mp_shutdown := Returned\<rparr>)
           | Died \<Rightarrow> Some (s\<lparr>mp_shutdown := Shutdown_Panic\<rparr>)
           | _ \<Rightarrow> None)
      | Returned \<Rightarrow> None
      | Shutdown_Panic \<Rightarrow> None)"

text \<open>What happens around them: a process ends, a zombie of someone else is waited for, or someone
  else starts a process.\<close>

datatype kernel_event = Exits pid | Gone pid | Appears pid owner

fun kernel_step :: "kernel_event \<Rightarrow> managed \<Rightarrow> managed option" where
  "kernel_step (Exits p) s =
     (case mp_procs s p of
        Some (o_p, Running) \<Rightarrow> Some (s\<lparr>mp_procs := (mp_procs s)(p \<mapsto> (o_p, Zombie))\<rparr>)
      | _ \<Rightarrow> None)"
| "kernel_step (Gone p) s =
     (case mp_procs s p of
        Some (o_p, Zombie) \<Rightarrow> if o_p = This then None else Some (s\<lparr>mp_procs := (mp_procs s)(p := None)\<rparr>)
      | _ \<Rightarrow> None)"
| "kernel_step (Appears p o_p) s =
     (if o_p \<noteq> This \<and> 0 < p \<and> mp_procs s p = None
      then Some (s\<lparr>mp_procs := (mp_procs s)(p \<mapsto> (o_p, Running))\<rparr>) else None)"

datatype mp_event = Thread "pid option" int int | Shutdown nat | Kernel kernel_event

fun mp_step :: "mp_event \<Rightarrow> managed \<Rightarrow> managed option" where
  "mp_step (Thread spawn end_time now) s = thread_step spawn end_time now s"
| "mp_step (Shutdown interruptions) s = shutdown_step interruptions s"
| "mp_step (Kernel e) s = kernel_step e s"

fun mp_run :: "mp_event list \<Rightarrow> managed \<Rightarrow> managed option" where
  "mp_run [] s = Some s"
| "mp_run (e # es) s = Option.bind (mp_step e s) (mp_run es)"

inductive mp_reachable :: "managed \<Rightarrow> bool" where
  mp_start: "(\<And>p st. procs p \<noteq> Some (This, st)) \<Longrightarrow> mp_reachable (mp_start procs)"
| mp_next: "mp_reachable s \<Longrightarrow> mp_step e s = Some s' \<Longrightarrow> mp_reachable s'"

section \<open>The tunnel\<close>

text \<open>\<^verbatim>\<open>src/tunnel_controller.rs\<close>: the process of the tunnel. Reading an address is the work of a
  library, the parameter \<open>parse\<close>; of its result the code uses whether it is relative to a host, the
  domain, the host and the port.\<close>

record url =
  url_relative :: bool
  url_host :: "string option"
  url_domain :: "string option"
  url_port :: "nat option"

record tunnel_config =
  tunnel_url :: url
  tunnel_secret :: string
  local_http_port :: nat
  local_ws_port :: nat
  remote_name :: string

definition tunnel_config_new ::
    "(string \<Rightarrow> url option) \<Rightarrow> string \<Rightarrow> string \<Rightarrow> nat \<Rightarrow> nat \<Rightarrow> string \<Rightarrow> tunnel_config outcome" where
  "tunnel_config_new parse text_url secret http_port ws_port name =
     bind_outcome
       (case parse text_url of
          None \<Rightarrow> Panic
        | Some u \<Rightarrow>
            if url_relative u then Done u
            else (case parse (''http://'' @ text_url) of None \<Rightarrow> Panic | Some u \<Rightarrow> Done u))
       (\<lambda>u. Done \<lparr>tunnel_url = u, tunnel_secret = secret, local_http_port = http_port,
                  local_ws_port = ws_port, remote_name = name\<rparr>)"

text \<open>The command line of the tunnel; \<open>show\<close> writes a port.\<close>

definition tunnel_spawn :: "(nat \<Rightarrow> string) \<Rightarrow> tunnel_config \<Rightarrow> (string \<times> string list) outcome" where
  "tunnel_spawn show c =
     (case url_domain (tunnel_url c) of
        None \<Rightarrow> Panic
      | Some domain \<Rightarrow>
          (case url_port (tunnel_url c) of
             None \<Rightarrow> Panic
           | Some port \<Rightarrow>
               Done (''pagekite.py'',
                 [''--frontend='' @ domain @ '':'' @ show port,
                  ''--service_on=http,https:'' @ remote_name c @ '':localhost:''
                    @ show (local_http_port c) @ '':'' @ tunnel_secret c,
                  ''--service_on=websocket:'' @ remote_name c @ '':localhost:''
                    @ show (local_ws_port c) @ '':'' @ tunnel_secret c])))"

record tunnel =
  tun_config :: tunnel_config
  tun_process :: "managed option"

definition tunnel_new :: "tunnel_config \<Rightarrow> tunnel" where
  "tunnel_new config = \<lparr>tun_config = config, tun_process = None\<rparr>"

definition tunnel_start :: "processes \<Rightarrow> tunnel \<Rightarrow> tunnel" where
  "tunnel_start procs t =
     (case tun_process t of Some _ \<Rightarrow> t | None \<Rightarrow> t\<lparr>tun_process := Some (mp_start procs)\<rparr>)"

text \<open>Stopping hands the process over to \<^verbatim>\<open>shutdown\<close>.\<close>

definition tunnel_stop :: "tunnel \<Rightarrow> managed option \<times> tunnel" where
  "tunnel_stop t = (tun_process t, t\<lparr>tun_process := None\<rparr>)"

definition get_frontend_name :: "tunnel \<Rightarrow> string option" where
  "get_frontend_name t = url_host (tunnel_url (tun_config t))"

end
