(* ===== verification/Managed_Props.thy ===== *)
theory Managed_Props
  imports Managed_Process
begin

text \<open>
  The shutdown of a managed process: what holds in every interleaving of the two threads with each
  other and with the kernel, when it ends, and when it panics; and the delays between restarts.
\<close>

section \<open>System calls\<close>

lemma c_rv_retry_interrupted:
  "c_rv c \<noteq> Inl Interrupted \<Longrightarrow> c_rv_retry (replicate n (-1, Interrupted) @ [c]) = Some (c_rv c)"
  by (induction n) auto

lemma wait_code_not_interrupted: "c_rv (wait_code p r) \<noteq> Inl Interrupted"
  by (cases r) auto

text \<open>The test sees exactly whether a child runs, and takes a zombie with it; of a process that is not
  a child it does not know.\<close>

lemma try_wait_cases:
  "try_wait n p procs =
     Some (case procs p of
       Some (o_p, st) \<Rightarrow>
         if o_p = Foreign then (Inl OtherError, procs)
         else if st = Running then (Inr False, procs)
         else (if p = 0 then Inr False else Inr True, procs(p := None))
     | None \<Rightarrow> (Inl OtherError, procs))"
  by (cases "procs p")
    (auto simp: try_wait_def try_wait_result_def c_rv_retry_interrupted wait_code_not_interrupted
      split: prod.splits owner.splits pstatus.splits elim!: os_waitpid.elims)

section \<open>The steps, one by one\<close>

lemma thread_step_cases:
  assumes "thread_step spawn e n s = Some s'"
  obtains (poisoned) "mp_thread s = At_Loop" "mp_poisoned s" "s' = s\<lparr>mp_thread := Died\<rparr>"
  | (finish) "mp_thread s = At_Loop" "\<not> mp_poisoned s" "mp_kill_signal s = 1"
      "s' = s\<lparr>mp_pid := None, mp_thread := Finished\<rparr>"
  | (fails) "mp_thread s = At_Loop" "\<not> mp_poisoned s" "mp_kill_signal s \<noteq> 1"
      "s' = s\<lparr>mp_poisoned := True, mp_thread := Died\<rparr>"
  | (spawns) p where "mp_thread s = At_Loop" "\<not> mp_poisoned s" "mp_kill_signal s \<noteq> 1" "spawn = Some p"
      "0 < p" "mp_procs s p = None"
      "s' = s\<lparr>mp_procs := (mp_procs s)(p \<mapsto> (This, Running)), mp_pid := Some p,
              mp_thread := Waiting p, mp_spawned := p # mp_spawned s\<rparr>"
  | (reaps) p o_p where "mp_thread s = Waiting p" "mp_procs s p = Some (o_p, Zombie)" "o_p \<noteq> Foreign"
      "s' = s\<lparr>mp_procs := (mp_procs s)(p := None), mp_thread := Waited\<rparr>"
  | (no_child) p where "mp_thread s = Waiting p" "mp_procs s p = None \<or> (\<exists>st. mp_procs s p = Some (Foreign, st))"
      "s' = s\<lparr>mp_thread := Died\<rparr>"
  | (backoff) b d where "mp_thread s = Waited" "s' = s\<lparr>mp_backoff := b, mp_thread := Sleeping d\<rparr>"
      "next_backoff e n (mp_backoff s) = (d, b)"
  | (wakes) d where "mp_thread s = Sleeping d" "s' = s\<lparr>mp_thread := At_Loop\<rparr>"
proof (cases "mp_thread s")
  case At_Loop
  then show thesis using assms poisoned finish fails spawns
    by (auto simp: thread_step_def split: if_splits option.splits)
next
  case (Waiting p)
  then show thesis using assms reaps [of p] no_child [of p]
    by (cases "mp_procs s p") (auto simp: thread_step_def split: owner.splits pstatus.splits elim!: os_waitpid.elims)
next
  case Waited
  then show thesis using assms backoff by (auto simp: thread_step_def split: prod.splits)
qed (use assms wakes in \<open>auto simp: thread_step_def\<close>)

lemma shutdown_step_cases:
  assumes "shutdown_step n s = Some s'"
  obtains (signal) "mp_shutdown s = Not_Called" "\<not> mp_poisoned s" "s' = s\<lparr>mp_kill_signal := 1, mp_shutdown := Signalled\<rparr>"
  | (poison) "mp_poisoned s" "mp_shutdown s = Not_Called \<or> mp_shutdown s = Signalled" "s' = s\<lparr>mp_shutdown := Shutdown_Panic\<rparr>"
  | (no_pid) "mp_shutdown s = Signalled" "mp_pid s = None" "s' = s\<lparr>mp_shutdown := Joining\<rparr>"
  | (has_pid) p where "mp_shutdown s = Signalled" "mp_pid s = Some p" "s' = s\<lparr>mp_shutdown := Has_Pid p\<rparr>"
  | (reaps) p o_p where "mp_shutdown s = Has_Pid p" "mp_procs s p = Some (o_p, Zombie)" "o_p \<noteq> Foreign"
      "s' = s\<lparr>mp_procs := (mp_procs s)(p := None), mp_shutdown := (if p = 0 then Must_Kill p else Joining)\<rparr>"
  | (alive) p o_p where "mp_shutdown s = Has_Pid p" "mp_procs s p = Some (o_p, Running)" "o_p \<noteq> Foreign"
      "s' = s\<lparr>mp_shutdown := Must_Kill p\<rparr>"
  | (unknown) p where "mp_shutdown s = Has_Pid p" "mp_procs s p = None \<or> (\<exists>st. mp_procs s p = Some (Foreign, st))"
      "s' = s\<lparr>mp_shutdown := Joining\<rparr>"
  | (kills) p where "mp_shutdown s = Must_Kill p" "s' = s\<lparr>mp_procs := snd (os_kill p (mp_procs s)), mp_shutdown := Joining\<rparr>"
  | (returns) "mp_shutdown s = Joining" "mp_thread s = Finished" "s' = s\<lparr>mp_shutdown := Returned\<rparr>"
  | (panics) "mp_shutdown s = Joining" "mp_thread s = Died" "s' = s\<lparr>mp_shutdown := Shutdown_Panic\<rparr>"
proof (cases "mp_shutdown s")
  case (Has_Pid p)
  show thesis
  proof (cases "mp_procs s p")
    case None
    then show thesis using assms Has_Pid unknown [of p]
      by (simp add: shutdown_step_def try_wait_cases Let_def)
  next
    case (Some x)
    obtain o_p st where x: "x = (o_p, st)" by (cases x)
    show thesis
    proof (cases "o_p = Foreign")
      case True
      then show thesis using assms Has_Pid Some x unknown [of p]
        by (simp add: shutdown_step_def try_wait_cases)
    next
      case False
      show thesis
      proof (cases st)
        case Zombie
        show thesis
          by (rule reaps [of p o_p])
            (use assms Has_Pid Some x False Zombie in \<open>auto simp: shutdown_step_def try_wait_cases\<close>)
      next
        case Running
        show thesis
          by (rule alive [of p o_p])
            (use assms Has_Pid Some x False Running in \<open>auto simp: shutdown_step_def try_wait_cases\<close>)
      qed
    qed
  qed
next
  case Not_Called
  show thesis
  proof (cases "mp_poisoned s")
    case True
    show thesis by (rule poison) (use assms Not_Called True in \<open>simp_all add: shutdown_step_def\<close>)
  next
    case False
    show thesis by (rule signal) (use assms Not_Called False in \<open>simp_all add: shutdown_step_def\<close>)
  qed
next
  case Signalled
  show thesis
  proof (cases "mp_poisoned s")
    case True
    show thesis by (rule poison) (use assms Signalled True in \<open>simp_all add: shutdown_step_def get_pid_def\<close>)
  next
    case False
    with assms Signalled no_pid has_pid show thesis
      by (cases "mp_pid s") (simp_all add: shutdown_step_def get_pid_def)
  qed
next
  case (Must_Kill p)
  then show thesis using assms kills by (simp add: shutdown_step_def)
next
  case Joining
  then show thesis using assms returns panics by (cases "mp_thread s") (simp_all add: shutdown_step_def)
next
  case Returned
  then have "shutdown_step n s = None" by (simp add: shutdown_step_def)
  with assms show thesis by simp
next
  case Shutdown_Panic
  then have "shutdown_step n s = None" by (simp add: shutdown_step_def)
  with assms show thesis by simp
qed

lemma kernel_step_cases:
  assumes "kernel_step e s = Some s'"
  obtains p x where "s' = s\<lparr>mp_procs := (mp_procs s)(p := x)\<rparr>"
    "\<forall>st. x = Some (This, st) \<longrightarrow> st = Zombie \<and> mp_procs s p = Some (This, Running)"
    "\<forall>o_p. x = Some (o_p, Running) \<longrightarrow> e = Appears p o_p \<and> o_p \<noteq> This"
  using assms by (cases "(e, s)" rule: kernel_step.cases) (auto split: option.splits if_splits pstatus.splits)

section \<open>What every interleaving keeps\<close>

definition mp_inv :: "managed \<Rightarrow> bool" where
  "mp_inv s \<longleftrightarrow>
     (\<forall>p st. mp_procs s p = Some (This, st) \<longrightarrow> mp_thread s = Waiting p)
   \<and> (\<forall>p. mp_thread s = Waiting p \<longrightarrow> mp_pid s = Some p)
   \<and> (mp_poisoned s \<longrightarrow> mp_thread s = Died)
   \<and> (mp_shutdown s \<noteq> Not_Called \<longrightarrow> mp_shutdown s \<noteq> Shutdown_Panic \<longrightarrow> mp_kill_signal s = 1)
   \<and> (\<forall>p. mp_shutdown s = Has_Pid p \<or> mp_shutdown s = Must_Kill p \<longrightarrow> mp_pid s = Some p \<or> mp_thread s = Finished)
   \<and> (mp_shutdown s = Returned \<longrightarrow> mp_thread s = Finished)
   \<and> (\<forall>p. mp_shutdown s = Joining \<longrightarrow> mp_thread s = Waiting p \<longrightarrow> mp_procs s p \<noteq> Some (This, Running))"

lemma thread_step_inv: "mp_inv s \<Longrightarrow> thread_step spawn e n s = Some s' \<Longrightarrow> mp_inv s'"
  by (erule thread_step_cases) (auto simp: mp_inv_def)

lemma os_kill_This: "snd (os_kill p procs) q = Some (This, st) \<Longrightarrow> \<exists>st'. procs q = Some (This, st')"
  by (auto simp: os_kill_def split: option.splits prod.splits pstatus.splits if_splits)

lemma os_kill_stops: "snd (os_kill p procs) p \<noteq> Some (o_p, Running)"
  by (auto simp: os_kill_def split: option.splits prod.splits pstatus.splits)

lemma shutdown_step_inv:
  assumes "mp_inv s" and "shutdown_step n s = Some s'"
  shows "mp_inv s'"
  using assms(2)
proof (cases rule: shutdown_step_cases)
  case (kills p)
  then show ?thesis using assms(1) by (auto simp: mp_inv_def os_kill_stops dest: os_kill_This)
next
  case (reaps p o_p)
  then show ?thesis using assms(1) by (cases "p = 0") (auto simp: mp_inv_def)
qed (use assms(1) in \<open>auto simp: mp_inv_def\<close>)

lemma kernel_step_inv: "mp_inv s \<Longrightarrow> kernel_step e s = Some s' \<Longrightarrow> mp_inv s'"
  by (erule kernel_step_cases) (auto simp: mp_inv_def)

lemma mp_step_inv: "mp_inv s \<Longrightarrow> mp_step e s = Some s' \<Longrightarrow> mp_inv s'"
  by (cases e) (auto intro: thread_step_inv shutdown_step_inv kernel_step_inv)

lemma mp_reachable_inv: "mp_reachable s \<Longrightarrow> mp_inv s"
proof (induction rule: mp_reachable.induct)
  case (mp_start procs)
  then show ?case by (simp add: mp_inv_def mp_start_def)
qed (rule mp_step_inv)

section \<open>Shutdown\<close>

text \<open>What a signal given, a run of any steps, and what it starts.\<close>

lemma signal_step:
  assumes "mp_kill_signal s = 1" and "mp_step e s = Some s'"
  shows "mp_kill_signal s' = 1 \<and> mp_spawned s' = mp_spawned s"
proof (cases e)
  case (Thread spawn e n)
  with assms have "thread_step spawn e n s = Some s'" by simp
  then show ?thesis by (cases rule: thread_step_cases) (simp_all add: assms(1))
next
  case (Shutdown n)
  with assms have "shutdown_step n s = Some s'" by simp
  then show ?thesis by (cases rule: shutdown_step_cases) (simp_all add: assms(1))
next
  case (Kernel e)
  with assms have "kernel_step e s = Some s'" by simp
  then show ?thesis by (cases rule: kernel_step_cases) (simp_all add: assms(1))
qed

lemma signal_run:
  "mp_kill_signal s = 1 \<Longrightarrow> mp_run es s = Some s' \<Longrightarrow> mp_kill_signal s' = 1 \<and> mp_spawned s' = mp_spawned s"
  by (induction es arbitrary: s) (auto simp: bind_eq_Some_conv dest: signal_step)

lemma mp_reachable_run: "mp_reachable s \<Longrightarrow> mp_run es s = Some s' \<Longrightarrow> mp_reachable s'"
  by (induction es arbitrary: s) (auto simp: bind_eq_Some_conv intro: mp_next)

definition gone :: "managed \<Rightarrow> bool" where
  "gone s \<longleftrightarrow> mp_thread s = Finished \<and> (\<forall>p st. mp_procs s p \<noteq> Some (This, st))"

lemma gone_step:
  assumes "gone s" and "mp_step e s = Some s'"
  shows "gone s'"
proof (cases e)
  case (Thread spawn e n)
  with assms have "thread_step spawn e n s = Some s'" by simp
  then show ?thesis using assms(1) by (cases rule: thread_step_cases) (simp_all add: gone_def)
next
  case (Shutdown n)
  with assms have "shutdown_step n s = Some s'" by simp
  then show ?thesis using assms(1)
    by (cases rule: shutdown_step_cases) (auto simp: gone_def dest: os_kill_This)
next
  case (Kernel e)
  with assms have "kernel_step e s = Some s'" by simp
  then show ?thesis using assms(1) by (cases rule: kernel_step_cases) (simp_all add: gone_def)
qed

lemma gone_run: "gone s \<Longrightarrow> mp_run es s = Some s' \<Longrightarrow> gone s'"
  by (induction es arbitrary: s) (auto simp: bind_eq_Some_conv dest: gone_step)

text \<open>C28: Once \<open>shutdown\<close> has returned, no process the manager started is left, its thread has ended, and
  whatever happens later none is started again.\<close>

theorem shutdown_leaves_nothing:
  assumes "mp_reachable s" and "mp_shutdown s = Returned" and "mp_run es s = Some s'"
  shows "mp_thread s' = Finished \<and> mp_spawned s' = mp_spawned s \<and> (\<forall>p st. mp_procs s' p \<noteq> Some (This, st))"
proof -
  have inv: "mp_inv s" using assms(1) by (rule mp_reachable_inv)
  with assms(2) have "gone s" by (auto simp: mp_inv_def gone_def)
  moreover have "mp_kill_signal s = 1" using inv assms(2) by (simp add: mp_inv_def)
  ultimately show ?thesis using gone_run signal_run assms(3) by (metis gone_def)
qed

lemma called_step:
  assumes "mp_step e s = Some s'" and "mp_shutdown s \<noteq> Not_Called"
  shows "mp_shutdown s' \<noteq> Not_Called"
proof (cases e)
  case (Thread spawn e n)
  with assms have "thread_step spawn e n s = Some s'" by simp
  then show ?thesis by (cases rule: thread_step_cases) (simp_all add: assms(2))
next
  case (Shutdown n)
  with assms have "shutdown_step n s = Some s'" by simp
  then show ?thesis by (cases rule: shutdown_step_cases) simp_all
next
  case (Kernel e)
  with assms have "kernel_step e s = Some s'" by simp
  then show ?thesis by (cases rule: kernel_step_cases) (simp_all add: assms(2))
qed

lemma called_run: "mp_run es s = Some s' \<Longrightarrow> mp_shutdown s \<noteq> Not_Called \<Longrightarrow> mp_shutdown s' \<noteq> Not_Called"
  by (induction es arbitrary: s) (auto simp: bind_eq_Some_conv dest: called_step)

text \<open>The steps that are left of the two threads once the signal is given.\<close>

definition thread_left :: "managed \<Rightarrow> nat" where
  "thread_left s =
     (case mp_thread s of Waiting _ \<Rightarrow> 4 | Waited \<Rightarrow> 3 | Sleeping _ \<Rightarrow> 2 | At_Loop \<Rightarrow> 1 | _ \<Rightarrow> 0)"

definition shutdown_left :: "managed \<Rightarrow> nat" where
  "shutdown_left s =
     (case mp_shutdown s of
        Not_Called \<Rightarrow> 5 | Signalled \<Rightarrow> 4 | Has_Pid _ \<Rightarrow> 3 | Must_Kill _ \<Rightarrow> 2 | Joining \<Rightarrow> 1 | _ \<Rightarrow> 0)"

fun own_event :: "mp_event \<Rightarrow> bool" where
  "own_event (Kernel _) = False"
| "own_event _ = True"

lemma own_step_left:
  assumes "mp_kill_signal s = 1" and "mp_step e s = Some s'"
  shows "thread_left s' + shutdown_left s' + (if own_event e then 1 else 0) \<le> thread_left s + shutdown_left s"
proof (cases e)
  case (Thread spawn e n)
  with assms have "thread_step spawn e n s = Some s'" by simp
  then show ?thesis using assms(1) Thread
    by (cases rule: thread_step_cases) (simp_all add: thread_left_def shutdown_left_def)
next
  case (Shutdown n)
  with assms have "shutdown_step n s = Some s'" by simp
  then show ?thesis using Shutdown
    by (cases rule: shutdown_step_cases) (auto simp: thread_left_def shutdown_left_def)
next
  case (Kernel e)
  with assms have "kernel_step e s = Some s'" by simp
  then show ?thesis using Kernel
    by (cases rule: kernel_step_cases) (simp_all add: thread_left_def shutdown_left_def)
qed

lemma own_run_left:
  "mp_kill_signal s = 1 \<Longrightarrow> mp_run es s = Some s' \<Longrightarrow>
   thread_left s' + shutdown_left s' + length (filter own_event es) \<le> thread_left s + shutdown_left s"
proof (induction es arbitrary: s)
  case (Cons e es)
  then obtain t where t: "mp_step e s = Some t" "mp_run es t = Some s'" by (auto simp: bind_eq_Some_conv)
  with Cons own_step_left [OF Cons.prems(1) t(1)] signal_step [OF Cons.prems(1) t(1)]
  show ?case by (fastforce split: if_splits)
qed simp

definition shutdown_over :: "managed \<Rightarrow> bool" where
  "shutdown_over s \<longleftrightarrow> mp_shutdown s = Returned \<or> mp_shutdown s = Shutdown_Panic"

lemma shutdown_progress:
  assumes "mp_inv s" and "mp_kill_signal s = 1" and "mp_shutdown s \<noteq> Not_Called" and "\<not> shutdown_over s"
    and "\<And>p. mp_thread s = Waiting p \<Longrightarrow> mp_procs s p \<noteq> Some (Sibling, Running)"
  shows "(\<exists>s'. shutdown_step 0 s = Some s') \<or> (\<exists>s'. thread_step None 0 0 s = Some s')"
proof (cases "mp_shutdown s")
  case Joining
  show ?thesis
  proof (cases "mp_thread s")
    case (Waiting p)
    then have "mp_procs s p \<noteq> Some (This, Running)" using assms(1) Joining by (simp add: mp_inv_def)
    with assms(5) [OF Waiting] Waiting have "\<exists>s'. thread_step None 0 0 s = Some s'"
      by (cases "mp_procs s p") (auto simp: thread_step_def split: owner.splits pstatus.splits
          elim!: os_waitpid.elims)
    then show ?thesis ..
  qed (auto simp: thread_step_def shutdown_step_def Joining assms(2) split: prod.splits)
next
  case Signalled
  then show ?thesis by (auto simp: shutdown_step_def get_pid_def split: option.splits)
next
  case (Has_Pid p)
  then show ?thesis by (simp add: shutdown_step_def try_wait_cases split: option.splits prod.splits)
next
  case (Must_Kill p)
  then show ?thesis by (simp add: shutdown_step_def)
qed (use assms in \<open>simp_all add: shutdown_over_def\<close>)



text \<open>The test and the kill are two calls: in between the thread may wait for the child that has ended, and
  its identifier may be given to a process of someone else, which is then killed.\<close>

definition stranger_run :: "mp_event list" where
  "stranger_run =
     [Thread (Some 7) 0 0, Shutdown 0, Shutdown 0, Shutdown 1, Kernel (Exits 7), Thread None 9 9,
      Kernel (Appears 7 Foreign), Shutdown 0]"

lemma shutdown_kills_a_stranger:
  "map_option (\<lambda>s. mp_procs s 7) (mp_run (butlast stranger_run) (mp_start (\<lambda>_. None))) = Some (Some (Foreign, Running))
   \<and> map_option (\<lambda>s. mp_procs s 7) (mp_run stranger_run (mp_start (\<lambda>_. None))) = Some (Some (Foreign, Zombie))"
  by code_simp

text \<open>A child that cannot be started takes the thread down while it holds the locks, and \<open>shutdown\<close> after it.\<close>

lemma failed_spawn_poisons_shutdown:
  assumes "mp_thread s = At_Loop" and "\<not> mp_poisoned s" and "mp_kill_signal s \<noteq> 1" and "mp_shutdown s = Not_Called"
  shows "Option.bind (mp_run [Thread None e n, Shutdown k] s) (Some \<circ> mp_shutdown) = Some Shutdown_Panic"
  using assms by (simp add: thread_step_def shutdown_step_def)

definition race_start :: managed where
  "race_start = the (mp_run [Thread (Some 7) 0 0, Shutdown 0, Shutdown 0, Kernel (Exits 7)] (mp_start (\<lambda>_. None)))"

lemma race_start_phases:
  "mp_shutdown race_start = Has_Pid 7 \<and> mp_thread race_start = Waiting 7
   \<and> mp_procs race_start 7 = Some (This, Zombie)
   \<and> map_option mp_shutdown (mp_run [Shutdown 0, Thread None 0 0, Shutdown 0] race_start) = Some Shutdown_Panic"
  by code_simp

lemma the_run: "\<not> Option.is_none (mp_run es s) \<Longrightarrow> mp_run es s = Some (the (mp_run es s))"
  by (cases "mp_run es s") auto

lemma race_start_reachable: "mp_reachable race_start"
  unfolding race_start_def
  by (rule mp_reachable_run [OF mp_reachable.mp_start the_run]) (simp, code_simp)

lemma race_step:
  obtains t where "shutdown_step 0 race_start = Some t" "mp_run [Thread None 0 0, Shutdown 0] t \<noteq> None"
proof -
  have "mp_run [Shutdown 0, Thread None 0 0, Shutdown 0] race_start \<noteq> None"
    using race_start_phases by auto
  then show thesis using that by (auto simp: bind_eq_Some_conv)
qed


text \<open>An ordinary shutdown: the child is killed, waited for, and the thread ends.\<close>

definition orderly_run :: "mp_event list" where
  "orderly_run = [Shutdown 2, Shutdown 0, Thread None 1 1, Thread None 0 0, Thread None 0 0, Thread None 0 0, Shutdown 0]"

definition signalled :: managed where
  "signalled = the (mp_run [Thread (Some 7) 0 0, Shutdown 0] (mp_start (\<lambda>_. None)))"

lemma signalled_reachable: "mp_reachable signalled \<and> mp_shutdown signalled = Signalled"
proof
  show "mp_reachable signalled" unfolding signalled_def
    by (rule mp_reachable_run [OF mp_reachable.mp_start the_run]) (simp, code_simp)
  show "mp_shutdown signalled = Signalled" by code_simp
qed

lemma orderly_returns: "map_option mp_shutdown (mp_run (Shutdown 0 # orderly_run) signalled) = Some Returned"
  by code_simp

theorem shutdown_leaves_nothing_witness:
  "\<exists>s'. mp_run (Shutdown 0 # orderly_run) signalled = Some s' \<and> mp_thread s' = Finished
     \<and> (\<forall>p st. mp_procs s' p \<noteq> Some (This, st))"
proof -
  obtain s' where s': "mp_run (Shutdown 0 # orderly_run) signalled = Some s'" "mp_shutdown s' = Returned"
    using orderly_returns by (cases "mp_run (Shutdown 0 # orderly_run) signalled") auto
  with shutdown_leaves_nothing [OF mp_reachable_run [OF conjunct1 [OF signalled_reachable] s'(1)] s'(2), of "[]" s']
  show ?thesis by simp
qed


section \<open>The delays\<close>

text \<open>The delays after the ends of a sequence of runs of the child, each an instant it ended and the
  instant the clock is read again.\<close>

fun backoffs :: "(int \<times> int) list \<Rightarrow> Backoff \<Rightarrow> int list" where
  "backoffs [] b = []"
| "backoffs ((end_time, now) # es) b =
     (case next_backoff end_time now b of (d, b) \<Rightarrow> d # backoffs es b)"

text \<open>Every run is shorter than the threshold.\<close>

fun quick_ends :: "int \<Rightarrow> int \<Rightarrow> (int \<times> int) list \<Rightarrow> bool" where
  "quick_ends thr start [] = True"
| "quick_ends thr start ((end_time, now) # es) = (end_time - start < thr \<and> quick_ends thr now es)"

lemma half_square:
  assumes "unat (b :: 64 word) < 2 ^ 32"
  shows "unat (drop_bit 1 (b * b)) = unat b ^ 2 div 2"
proof -
  have "unat b * unat b < 2 ^ 32 * 2 ^ 32" using assms by (intro mult_strict_mono) auto
  then have sq: "unat (b * b) = unat b ^ 2" by (simp add: unat_mult_lem [THEN iffD1] power2_eq_square)
  show ?thesis by (subst unat_drop_bit_eq) (simp only: drop_bit_eq_div sq power_one_right)
qed

lemma backoffs_from:
  assumes "quick_ends (bo_restart_threshold b) start es" and "bo_start_time b = Some start"
    and "unat (bo_backoff b) + length es < 2 ^ 32"
  shows "backoffs es b = map (\<lambda>i. nanoseconds ((unat (bo_backoff b) + i + 1) ^ 2 div 2)) [0..<length es]"
  using assms
proof (induction es arbitrary: b start)
  case (Cons x es)
  obtain end_time now where x: "x = (end_time, now)" by (cases x)
  define c where "c = bo_backoff b + 1"
  have c: "unat c = Suc (unat (bo_backoff b))" unfolding c_def using Cons.prems(3)
    by (subst unat_add_lem [THEN iffD1]) (auto simp: power_def)
  let ?b = "b\<lparr>bo_backoff := c, bo_restart_count := bo_restart_count b + 1, bo_start_time := Some now\<rparr>"
  have half: "unat (drop_bit 1 (c * c)) = unat c ^ 2 div 2" using c Cons.prems(3) by (intro half_square) simp
  have "next_backoff end_time now b = (nanoseconds (unat c ^ 2 div 2), ?b)"
    using Cons.prems x by (simp add: next_backoff_def half [simplified] flip: c_def)
  moreover have "backoffs es ?b = map (\<lambda>i. nanoseconds ((unat c + i + 1) ^ 2 div 2)) [0..<length es]"
    using Cons.IH [of ?b now] Cons.prems x c by simp
  ultimately show ?case using x c by (simp add: upt_conv_Cons map_Suc_upt [symmetric] del: upt_Suc)
qed simp

text \<open>A child that keeps ending within the threshold is restarted at once the first time and then
  after half the square of 2, 3, 4 and so on seconds, rounded down; up to four thousand million restarts
  the arithmetic of 64 bits does not wrap around. The delays have no upper bound.\<close>

theorem restart_delays_are_half_squares:
  assumes "quick_ends (nanoseconds secs) (snd e) es" and "length es < 2 ^ 32 - 1"
  shows "backoffs (e # es) (backoff_from_secs secs) =
    0 # map (\<lambda>i. nanoseconds ((i + 2) ^ 2 div 2)) [0..<length es]"
  using backoffs_from [of "\<lparr>bo_restart_count = 1, bo_restart_threshold = nanoseconds secs,
      bo_start_time = Some (snd e), bo_backoff = 1\<rparr>" "snd e" es] assms
  by (cases e) (simp add: backoff_from_secs_def backoff_new_def next_backoff_def)

theorem restart_delays_are_half_squares_witness:
  "backoffs (replicate 7 (1, 1)) (backoff_from_secs 1) = map nanoseconds [0, 2, 4, 8, 12, 18, 24]"
proof -
  have "backoffs ((1, 1) # replicate 6 (1, 1)) (backoff_from_secs 1)
    = 0 # map (\<lambda>i. nanoseconds ((i + 2) ^ 2 div 2)) [0..<length (replicate 6 (1 :: int, 1 :: int))]"
    by (rule restart_delays_are_half_squares) (code_simp, simp)
  moreover have "0 # map (\<lambda>i. nanoseconds ((i + 2) ^ 2 div 2)) [0..<length (replicate 6 (1 :: int, 1 :: int))]
    = map nanoseconds [0, 2, 4, 8, 12, 18, 24]" by code_simp
  moreover have "replicate 7 (1, 1) = (1, 1) # replicate 6 (1 :: int, 1 :: int)" by (simp add: numeral_eq_Suc)
  ultimately show ?thesis by simp
qed

text \<open>A run that reaches the threshold makes the next restart immediate and starts the delays over.\<close>

lemma long_run_resets:
  assumes "bo_start_time b = Some start" and "bo_restart_threshold b \<le> end_time - start"
  shows "fst (next_backoff end_time now b) = 0 \<and> bo_backoff (snd (next_backoff end_time now b)) = 1"
  using assms by (simp add: next_backoff_def)

section \<open>The tunnel\<close>

text \<open>Starting twice is starting once; after stopping, a start begins anew.\<close>

lemma tunnel_start_twice: "tunnel_start procs' (tunnel_start procs t) = tunnel_start procs t"
  by (simp add: tunnel_start_def split: option.splits)

lemma tunnel_stop_start:
  "tun_process (tunnel_start procs (snd (tunnel_stop t))) = Some (mp_start procs)"
  by (simp add: tunnel_start_def tunnel_stop_def)

end
