(* ===== verification/Utils.thy ===== *)
theory Utils
  imports Config_Store
begin

text \<open>
  \<^verbatim>\<open>src/utils.rs\<close>: the escaping of separators, which \<^verbatim>\<open>src/main.rs\<close> uses to read the overrides of the
  configuration from the command line, and the flattening of an XML document to the texts of its
  elements by path. The parser of XML is a library; its events, or errors, are the input here.
\<close>

section \<open>Escaping\<close>

abbreviation backslash :: char where "backslash \<equiv> CHR 0x5C"

fun escape_chars :: "string \<Rightarrow> char list \<Rightarrow> string" where
  "escape_chars [] to_escape = []"
| "escape_chars (c # cs) to_escape =
     (if c = backslash \<or> c \<in> set to_escape then [backslash, c] else [c]) @ escape_chars cs to_escape"

fun unescape_from :: "bool \<Rightarrow> string \<Rightarrow> string" where
  "unescape_from flag [] = []"
| "unescape_from flag (c # cs) =
     (if flag then c # unescape_from False cs
      else if c = backslash then unescape_from True cs
      else c # unescape_from False cs)"

definition unescape :: "string \<Rightarrow> string" where
  "unescape s = unescape_from False s"

fun split_from :: "char \<Rightarrow> bool \<Rightarrow> string \<Rightarrow> string \<Rightarrow> string list" where
  "split_from sep flag section_text [] = [section_text]"
| "split_from sep flag section_text (c # cs) =
     (if flag then split_from sep False (section_text @ [c]) cs
      else if c = backslash then split_from sep True section_text cs
      else if c = sep then section_text # split_from sep False [] cs
      else split_from sep False (section_text @ [c]) cs)"

definition split_escaped :: "string \<Rightarrow> char \<Rightarrow> string list" where
  "split_escaped s sep = split_from sep False [] s"

text \<open>\<^verbatim>\<open>join\<close> of the standard library.\<close>

fun join_with :: "string \<Rightarrow> string list \<Rightarrow> string" where
  "join_with sep [] = []"
| "join_with sep [s] = s"
| "join_with sep (s # t # ts) = s @ sep @ join_with sep (t # ts)"

text \<open>One \<^verbatim>\<open>--config\<close> of the command line: a namespace, a key and a value, which may hold the separator.\<close>

definition apply_override :: "string \<Rightarrow> config_store \<Rightarrow> config_store" where
  "apply_override flag config =
     (let items = split_escaped flag (CHR '';'')
      in if 3 \<le> length items
         then config_set_override (items ! 0) (items ! 1) (join_with '';'' (drop 2 items)) config
         else config)"

subsection \<open>What is escaped is read back\<close>

lemma unescape_escape_append: "unescape_from False (escape_chars s cs @ t) = s @ unescape_from False t"
  by (induction s) auto

text \<open>Unescaping undoes escaping, whichever characters are escaped.\<close>

theorem unescape_escape: "unescape (escape_chars s cs) = s"
  using unescape_escape_append [of s cs "[]"] by (simp add: unescape_def)

lemma split_escape_append:
  "sep \<in> set cs \<Longrightarrow> split_from sep False acc (escape_chars s cs @ t) = split_from sep False (acc @ s) t"
  by (induction s arbitrary: acc) auto

lemma split_join_from:
  assumes "sep \<in> set cs" and "sep \<noteq> backslash"
  shows "split_from sep False acc (join_with [sep] (map (\<lambda>s. escape_chars s cs) (s # ss))) = (acc @ s) # ss"
proof (induction ss arbitrary: acc s)
  case Nil
  then show ?case using split_escape_append [OF assms(1), of acc s "[]"] by simp
next
  case (Cons t ss)
  have "split_from sep False acc (join_with [sep] (map (\<lambda>s. escape_chars s cs) (s # t # ss)))
    = split_from sep False (acc @ s) (sep # join_with [sep] (map (\<lambda>s. escape_chars s cs) (t # ss)))"
    using split_escape_append [OF assms(1)] by simp
  also have "\<dots> = (acc @ s) # split_from sep False [] (join_with [sep] (map (\<lambda>s. escape_chars s cs) (t # ss)))"
    using assms(2) by simp
  finally show ?case using Cons.IH [of "[]" t] by simp
qed

text \<open>Texts of any characters that are escaped, joined by a separator and split again are the texts.\<close>

theorem split_joined_escapes:
  assumes "sep \<in> set cs" and "sep \<noteq> backslash" and "ss \<noteq> []"
  shows "split_escaped (join_with [sep] (map (\<lambda>s. escape_chars s cs) ss)) sep = ss"
  using split_join_from [OF assms(1,2), of "[]"] assms(3) by (cases ss) (simp_all add: split_escaped_def)

theorem split_joined_escapes_witness:
  "split_escaped (join_with '';'' (map (\<lambda>s. escape_chars s '';'') [''foo;foo'', ''ba'' @ [backslash], []])) (CHR '';'')
    = [''foo;foo'', ''ba'' @ [backslash], []]"
  by (rule split_joined_escapes) simp_all

lemma tree_gets_what_was_set: "tree_get n p (tree_set n p v t) = Some v"
  by (auto simp: tree_get_def tree_set_def hm_has_def Let_def bt_get_insert split: option.splits)

text \<open>An override given on the command line with its three parts escaped is the one that is read from then
  on, whatever characters its namespace, key and value have.\<close>

theorem override_reaches_config:
  "config_get n k (apply_override
     (escape_chars n '';'' @ '';'' @ escape_chars k '';'' @ '';'' @ escape_chars v '';'') config) = Some v"
proof -
  have "split_escaped (join_with '';'' (map (\<lambda>s. escape_chars s '';'') [n, k, v])) (CHR '';'') = [n, k, v]"
    by (rule split_joined_escapes) simp_all
  then have "apply_override (escape_chars n '';'' @ '';'' @ escape_chars k '';'' @ '';'' @ escape_chars v '';'') config
    = config_set_override n k v config" by (simp add: apply_override_def)
  then show ?thesis by (simp add: config_get_def config_get_override_def config_set_override_def tree_gets_what_was_set)
qed

section \<open>XML\<close>

datatype XmlEvent = StartElement string | EndElement string | Characters string | CData string | OtherEvent

record xml_state =
  xs_values :: "(string, string) hashmap"
  xs_ignore :: "(string, bool) hashmap"
  xs_key :: string

text \<open>\<^verbatim>\<open>rfind\<close> and \<^verbatim>\<open>truncate\<close>: the text before the last separator.\<close>

fun before_last :: "char \<Rightarrow> string \<Rightarrow> string option" where
  "before_last c [] = None"
| "before_last c (d # s) =
     (case before_last c s of Some t \<Rightarrow> Some (d # t) | None \<Rightarrow> if c = d then Some [] else None)"

definition add_text :: "string \<Rightarrow> xml_state \<Rightarrow> xml_state" where
  "add_text x s =
     (if hm_has (xs_ignore s) (xs_key s) then s
      else s\<lparr>xs_values := hm_insert (xs_key s) (case hm_get (xs_values s) (xs_key s) of None \<Rightarrow> x | Some t \<Rightarrow> t @ x) (xs_values s)\<rparr>)"

definition xml_event :: "XmlEvent \<Rightarrow> xml_state \<Rightarrow> string + xml_state" where
  "xml_event e s =
     (case e of
        StartElement name \<Rightarrow>
          (let key = xs_key s @ ''/'' @ name; s = s\<lparr>xs_key := key\<rparr>
           in if \<not> hm_has (xs_ignore s) key \<and> hm_has (xs_values s) key
              then Inr (s\<lparr>xs_ignore := hm_insert key True (xs_ignore s), xs_values := hm_remove key (xs_values s)\<rparr>)
              else Inr s)
      | EndElement name \<Rightarrow>
          (case before_last (CHR ''/'') (xs_key s) of
             Some key \<Rightarrow> Inr (s\<lparr>xs_key := key\<rparr>)
           | None \<Rightarrow> Inl (''broken key '' @ xs_key s @ '' at ending element '' @ name))
      | Characters x \<Rightarrow> Inr (add_text x s)
      | CData x \<Rightarrow> Inr (add_text x s)
      | OtherEvent \<Rightarrow> Inr s)"

fun xml_loop :: "(string + XmlEvent) list \<Rightarrow> xml_state \<Rightarrow> string + xml_state" where
  "xml_loop [] s = Inr s"
| "xml_loop (Inl e # es) s = Inl (''parse error '' @ e)"
| "xml_loop (Inr e # es) s = (case xml_event e s of Inl err \<Rightarrow> Inl err | Inr s \<Rightarrow> xml_loop es s)"

definition parse_simple_xml :: "(string + XmlEvent) list \<Rightarrow> string + (string, string) hashmap" where
  "parse_simple_xml parser =
     (case xml_loop parser \<lparr>xs_values = [], xs_ignore = [], xs_key = []\<rparr> of
        Inl e \<Rightarrow> Inl e | Inr s \<Rightarrow> Inr (xs_values s))"

subsection \<open>Documents\<close>

datatype xml = Element string "xml list" | Text string

fun xml_events :: "xml \<Rightarrow> XmlEvent list" where
  "xml_events (Element name children) = StartElement name # concat (map xml_events children) @ [EndElement name]"
| "xml_events (Text s) = [Characters s]"

fun own_texts :: "xml list \<Rightarrow> string list" where
  "own_texts [] = []"
| "own_texts (Text s # xs) = s # own_texts xs"
| "own_texts (Element _ _ # xs) = own_texts xs"

text \<open>The elements of a path, in the order of the document, each with the pieces of its own text.\<close>

fun occurrences :: "string \<Rightarrow> string \<Rightarrow> xml \<Rightarrow> string list list" where
  "occurrences p key (Element name children) =
     (let key = key @ ''/'' @ name
      in (if key = p then [own_texts children] else []) @ concat (map (occurrences p key) children))"
| "occurrences p key (Text s) = []"

fun names_ok :: "xml \<Rightarrow> bool" where
  "names_ok (Element name children) \<longleftrightarrow> CHR ''/'' \<notin> set name \<and> list_all names_ok children"
| "names_ok (Text s) \<longleftrightarrow> True"

text \<open>What the parser knows of one path, and what an element of this path and a text in it make of it.\<close>

type_synonym path_state = "bool \<times> string option"

definition path_view :: "string \<Rightarrow> xml_state \<Rightarrow> path_state" where
  "path_view p s = (hm_has (xs_ignore s) p, hm_get (xs_values s) p)"

fun open_at :: "path_state \<Rightarrow> path_state" where
  "open_at (ign, v) = (if \<not> ign \<and> v \<noteq> None then (True, None) else (ign, v))"

fun text_at :: "string \<Rightarrow> path_state \<Rightarrow> path_state" where
  "text_at x (ign, v) = (if ign then (ign, v) else (ign, Some (case v of None \<Rightarrow> x | Some t \<Rightarrow> t @ x)))"

definition occurrence_at :: "string list \<Rightarrow> path_state \<Rightarrow> path_state" where
  "occurrence_at ts a = fold text_at ts (open_at a)"

fun tree_at :: "string \<Rightarrow> string \<Rightarrow> xml \<Rightarrow> path_state \<Rightarrow> path_state" where
  "tree_at p key (Element name children) a =
     (let key = key @ ''/'' @ name in fold (tree_at p key) children (if key = p then open_at a else a))"
| "tree_at p key (Text x) a = (if key = p then text_at x a else a)"

lemma before_last_append: "c \<notin> set t \<Longrightarrow> before_last c (s @ c # t) = Some s"
proof (induction s)
  case Nil
  have "c \<notin> set t \<Longrightarrow> before_last c t = None" by (induction t) auto
  with Nil show ?case by simp
qed auto

lemma xml_event_text:
  obtains s' where "xml_event (Characters x) s = Inr s'" "xs_key s' = xs_key s"
    "\<And>p. path_view p s' = (if xs_key s = p then text_at x (path_view p s) else path_view p s)"
proof
  show "xml_event (Characters x) s = Inr (add_text x s)" by (simp add: xml_event_def)
qed (auto simp: add_text_def path_view_def hm_has_def update_conv)

lemma xml_event_start:
  obtains s' where "xml_event (StartElement n) s = Inr s'" "xs_key s' = xs_key s @ ''/'' @ n"
    "\<And>p. path_view p s' = (if xs_key s @ ''/'' @ n = p then open_at (path_view p s) else path_view p s)"
proof -
  define k where "k = xs_key s @ ''/'' @ n"
  have kd: "xs_key s @ CHR ''/'' # n = k" by (simp add: k_def)
  let ?s = "s\<lparr>xs_key := k\<rparr>"
  show thesis
  proof (cases "\<not> hm_has (xs_ignore s) k \<and> hm_has (xs_values s) k")
    case True
    let ?s' = "?s\<lparr>xs_ignore := hm_insert k True (xs_ignore s), xs_values := hm_remove k (xs_values s)\<rparr>"
    show thesis
    proof (rule that [of ?s'])
      show "xml_event (StartElement n) s = Inr ?s'" using True by (simp add: xml_event_def k_def Let_def)
      show "path_view p ?s' = (if xs_key s @ ''/'' @ n = p then open_at (path_view p s) else path_view p s)" for p
        using True by (auto simp: path_view_def hm_has_def update_conv delete_conv kd)
    qed (simp add: k_def)
  next
    case False
    show thesis
    proof (rule that [of ?s])
      show "xml_event (StartElement n) s = Inr ?s" using False by (auto simp: xml_event_def k_def)
      show "path_view p ?s = (if xs_key s @ ''/'' @ n = p then open_at (path_view p s) else path_view p s)" for p
        using False by (auto simp: path_view_def hm_has_def kd)
    qed (simp add: k_def)
  qed
qed

lemma xml_event_end:
  assumes "xs_key s = k @ ''/'' @ n" and "CHR ''/'' \<notin> set n"
  shows "xml_event (EndElement n) s = Inr (s\<lparr>xs_key := k\<rparr>)"
  using assms by (simp add: xml_event_def before_last_append)

text \<open>The events of a tree do to every path what the tree does, and come back to the path they started at.\<close>

lemma xml_loop_tree:
  "names_ok x \<Longrightarrow> \<exists>s'. (\<forall>rest. xml_loop (map Inr (xml_events x) @ rest) s = xml_loop rest s')
     \<and> xs_key s' = xs_key s \<and> (\<forall>p. path_view p s' = tree_at p (xs_key s) x (path_view p s))"
proof (induction x arbitrary: s)
  case (Text x)
  obtain s' where "xml_event (Characters x) s = Inr s'" "xs_key s' = xs_key s"
    "\<And>p. path_view p s' = (if xs_key s = p then text_at x (path_view p s) else path_view p s)"
    by (rule xml_event_text [of x s]) (rule that)
  then show ?case by (intro exI [of _ s']) simp
next
  case (Element n cs)
  obtain s1 where s1: "xml_event (StartElement n) s = Inr s1" "xs_key s1 = xs_key s @ ''/'' @ n"
    "\<And>p. path_view p s1 = (if xs_key s @ ''/'' @ n = p then open_at (path_view p s) else path_view p s)"
    by (rule xml_event_start [of n s]) (rule that)
  have children: "\<exists>s'. (\<forall>rest. xml_loop (map Inr (concat (map xml_events ds)) @ rest) t = xml_loop rest s')
      \<and> xs_key s' = xs_key t \<and> (\<forall>p. path_view p s' = fold (tree_at p (xs_key t)) ds (path_view p t))"
    if "set ds \<subseteq> set cs" for ds t
    using that
  proof (induction ds arbitrary: t)
    case Nil
    then show ?case by auto
  next
    case (Cons d ds)
    from Cons.prems Element.prems have "names_ok d" by (auto simp: list_all_iff)
    with Element.IH [of d t] Cons.prems obtain u where
      u: "\<And>rest. xml_loop (map Inr (xml_events d) @ rest) t = xml_loop rest u" "xs_key u = xs_key t"
        "\<And>p. path_view p u = tree_at p (xs_key t) d (path_view p t)" by auto
    from Cons.IH [of u] Cons.prems obtain s' where
      s': "\<And>rest. xml_loop (map Inr (concat (map xml_events ds)) @ rest) u = xml_loop rest s'"
        "xs_key s' = xs_key u" "\<And>p. path_view p s' = fold (tree_at p (xs_key u)) ds (path_view p u)" by auto
    show ?case using u s' by (intro exI [of _ s']) simp
  qed
  from children [OF subset_refl, of s1] obtain s2 where
    s2: "\<And>rest. xml_loop (map Inr (concat (map xml_events cs)) @ rest) s1 = xml_loop rest s2"
      "xs_key s2 = xs_key s1" "\<And>p. path_view p s2 = fold (tree_at p (xs_key s1)) cs (path_view p s1)" by blast
  have "xml_event (EndElement n) s2 = Inr (s2\<lparr>xs_key := xs_key s\<rparr>)"
    by (rule xml_event_end) (use s1(2) s2(2) Element.prems in auto)
  then show ?case using s1 s2
    by (intro exI [of _ "s2\<lparr>xs_key := xs_key s\<rparr>"]) (simp add: path_view_def)
qed

text \<open>A tree acts on a path through the elements of this path.\<close>

lemma longer_path:
  "length p < length key \<or> (length p = length key \<and> (p \<noteq> key \<or> (\<exists>n cs. x = Element n cs))) \<Longrightarrow>
   occurrences p key x = [] \<and> tree_at p key x a = a"
proof (induction p key x arbitrary: a rule: occurrences.induct)
  case (1 p key n cs)
  let ?k = "key @ ''/'' @ n"
  have "length p < length ?k" using 1 by auto
  then have "occurrences p ?k c = [] \<and> (\<forall>a. tree_at p ?k c a = a)" if "c \<in> set cs" for c
    using 1(1) [OF refl that] by blast
  moreover from this have "fold (tree_at p ?k) cs a = a" for a by (induction cs arbitrary: a) auto
  ultimately show ?case using \<open>length p < length ?k\<close> by auto
qed auto

lemma tree_at_occurrences:
  "key \<noteq> p \<Longrightarrow> tree_at p key x a = fold occurrence_at (occurrences p key x) a"
proof (induction p key x arbitrary: a rule: occurrences.induct)
  case (1 p key n cs)
  let ?k = "key @ ''/'' @ n"
  show ?case
  proof (cases "?k = p")
    case True
    have "fold (tree_at p p) cs a = fold text_at (own_texts cs) a \<and> concat (map (occurrences p p) cs) = []" for a
    proof (induction cs arbitrary: a rule: own_texts.induct)
      case (3 m ds xs)
      then show ?case using longer_path [of p p "Element m ds"] by (simp del: tree_at.simps occurrences.simps)
    qed auto
    then have "\<And>a. fold (tree_at p p) cs a = fold text_at (own_texts cs) a" "concat (map (occurrences p p) cs) = []"
      by blast+
    with True show ?thesis
      by (simp only: tree_at.simps occurrences.simps Let_def simp_thms if_True append_Nil2 fold_simps occurrence_at_def)
  next
    case False
    have "fold (tree_at p ?k) ds a = fold occurrence_at (concat (map (occurrences p ?k) ds)) a"
      if "set ds \<subseteq> set cs" for ds a
      using that 1(1) [OF refl _ False] by (induction ds arbitrary: a) auto
    from this [OF subset_refl] False show ?thesis by simp
  qed
qed simp

text \<open>The text of a path: that of its last element, if no other has any.\<close>

definition unique_text :: "string list list \<Rightarrow> string option" where
  "unique_text occs =
     (if occs \<noteq> [] \<and> last occs \<noteq> [] \<and> list_all (\<lambda>ts. ts = []) (butlast occs)
      then Some (concat (last occs)) else None)"

lemma fold_text_at: "fold text_at ts (False, Some t) = (False, Some (t @ concat ts))"
  by (induction ts arbitrary: t) auto

lemma fold_text_at_ignored: "fold text_at ts (True, v) = (True, v)"
  by (induction ts) auto

lemma fold_occurrences:
  "fold occurrence_at occs (False, None) =
     (if list_all (\<lambda>ts. ts = []) occs then (False, None)
      else if list_all (\<lambda>ts. ts = []) (butlast occs) then (False, Some (concat (last occs)))
      else (True, None))"
proof (induction occs rule: rev_induct)
  case (snoc ts occs)
  have new: "fold text_at ts (False, None) = (if ts = [] then (False, None) else (False, Some (concat ts)))"
    by (cases ts) (simp_all add: fold_text_at)
  have last: "\<not> list_all (\<lambda>ts. ts = []) occs \<Longrightarrow> list_all (\<lambda>ts. ts = []) (butlast occs) \<Longrightarrow> occs \<noteq> []" by auto
  show ?case using snoc new last
    by (auto simp: occurrence_at_def fold_text_at_ignored)
qed simp

lemma unique_text_fold: "snd (fold occurrence_at occs (False, None)) = unique_text occs"
  unfolding fold_occurrences unique_text_def by (cases occs rule: rev_cases) auto


definition sample_description :: xml where
  "sample_description =
     Element ''root'' [Element ''device'' [Element ''modelName'' [Text ''DCS-'', Text ''5020L''],
       Element ''service'' [Text ''a''], Element ''service'' [Text ''b'']]]"


end
