(* ===== verification/Upnp.thy ===== *)
theory Upnp
  imports Utils
begin

text \<open>
  \<^verbatim>\<open>src/upnp.rs\<close>: the discovery of devices. The library that speaks the protocol calls back with an
  event; the description of a device that is there is fetched and parsed in a thread of its own, and
  every listener is told under the lock of the table of listeners. Parameters are the calls of the
  library, the fetching of a text and the parser of XML. A listener changes a state of any type,
  and may panic; then the lock is poisoned.
\<close>

section \<open>Devices and listeners\<close>

datatype EventType =
    ControlActionRequest | ControlActionComplete | ControlGetVarRequest | ControlGetVarComplete
  | DiscoveryAdvertisementAlive | DiscoveryAdvertisementByebye | DiscoverySearchResult
  | DiscoverySearchTimeout | SubscriptionRequest | Received | RenewalComplete | SubscribeComplete
  | UnsubscribeComplete | AutorenewalFailed | SubscriptionExpired

record discovery =
  di_expires :: int
  di_device_id :: string
  di_device_type :: string
  di_service_type :: string
  di_service_ver :: string
  di_location :: string
  di_os :: string
  di_date :: string
  di_ext :: string

record msearch_header =
  mh_discovery :: discovery
  mh_alive :: bool

record upnp_service =
  us_msearch :: msearch_header
  us_description :: "(string, string) hashmap"
  us_description_data :: string

type_synonym 'w listener = "upnp_service \<Rightarrow> 'w \<Rightarrow> bool outcome \<times> 'w"

record 'w upnp =
  up_listeners :: "(string, 'w listener) hashmap"
  up_poisoned :: bool
  up_client :: int
  up_cookie :: bool \<comment> \<open>not null\<close>

definition upnp_new :: "'w upnp" where
  "upnp_new = \<lparr>up_listeners = [], up_poisoned = False, up_client = 0, up_cookie = False\<rparr>"

definition add_listener :: "string \<Rightarrow> 'w listener \<Rightarrow> 'w upnp \<Rightarrow> unit outcome \<times> 'w upnp" where
  "add_listener i listener u =
     (if up_poisoned u then (Panic, u) else (Done (), u\<lparr>up_listeners := hm_insert i listener (up_listeners u)\<rparr>))"

section \<open>Telling the listeners\<close>

fun tell_listeners :: "'w listener list \<Rightarrow> upnp_service \<Rightarrow> 'w \<Rightarrow> unit outcome \<times> 'w" where
  "tell_listeners [] service w = (Done (), w)"
| "tell_listeners (l # ls) service w =
     (case l service w of
        (Panic, w) \<Rightarrow> (Panic, w)
      | (Done _, w) \<Rightarrow> tell_listeners ls service w)"

definition notify_service :: "upnp_service \<Rightarrow> 'w upnp \<times> 'w \<Rightarrow> unit outcome \<times> 'w upnp \<times> 'w" where
  "notify_service service = (\<lambda>(u, w).
     if up_poisoned u then (Panic, u, w)
     else case tell_listeners (hm_values (up_listeners u)) service w of
            (Panic, w) \<Rightarrow> (Panic, u\<lparr>up_poisoned := True\<rparr>, w)
          | (Done _, w) \<Rightarrow> (Done (), u, w))"

record upnp_env =
  ue_get :: "string \<Rightarrow> string option"
  ue_xml :: "string \<Rightarrow> (string + XmlEvent) list"

definition msearch_callback ::
    "upnp_env \<Rightarrow> discovery \<Rightarrow> bool \<Rightarrow> 'w upnp \<times> 'w \<Rightarrow> unit outcome \<times> 'w upnp \<times> 'w" where
  "msearch_callback E data alive s =
     (let header = \<lparr>mh_discovery = data, mh_alive = alive\<rparr>
      in if \<not> alive then
           notify_service \<lparr>us_msearch = header, us_description = [], us_description_data = []\<rparr> s
         else
           (case ue_get E (di_location data) of
              None \<Rightarrow> (Done (), s)
            | Some body \<Rightarrow>
                (case parse_simple_xml (ue_xml E body) of
                   Inl _ \<Rightarrow> (Done (), s)
                 | Inr values \<Rightarrow>
                     notify_service \<lparr>us_msearch = header, us_description = values, us_description_data = body\<rparr> s)))"

text \<open>The entry point of the library; a pointer is null or points to a discovery.\<close>

definition upnp_callback ::
    "upnp_env \<Rightarrow> EventType \<Rightarrow> discovery option \<Rightarrow> bool \<Rightarrow> 'w upnp \<times> 'w \<Rightarrow> unit outcome \<times> 'w upnp \<times> 'w" where
  "upnp_callback E event_type event cookie s =
     (if \<not> cookie then (Panic, s)
      else let act = (\<lambda>alive. case event of None \<Rightarrow> (Panic, s) | Some data \<Rightarrow> msearch_callback E data alive s)
           in case event_type of
                DiscoverySearchResult \<Rightarrow> act True
              | DiscoveryAdvertisementAlive \<Rightarrow> act True
              | DiscoveryAdvertisementByebye \<Rightarrow> act False
              | _ \<Rightarrow> (Done (), s))"

section \<open>The client of the library\<close>

text \<open>A target with a null character is no C string. The call gives an error code.\<close>

definition upnp_search :: "(int \<Rightarrow> string \<Rightarrow> bool \<Rightarrow> int) \<Rightarrow> string option \<Rightarrow> 'w upnp \<Rightarrow> (int + unit) outcome" where
  "upnp_search search_async target u =
     (let target = (case target of Some x \<Rightarrow> x | None \<Rightarrow> ''ssdp:all'')
      in if CHR 0x00 \<in> set target then Panic
         else let err = search_async (up_client u) target (up_cookie u)
              in Done (if err = 0 then Inr () else Inl err))"

text \<open>The codes of the two calls, and the handle the second one sets.\<close>

definition upnp_start :: "int \<Rightarrow> int \<Rightarrow> int \<Rightarrow> 'w upnp \<Rightarrow> (int + unit) outcome \<times> 'w upnp" where
  "upnp_start init_err register_err client u =
     (if init_err \<noteq> 0 then (Panic, u)
      else (Done (if register_err = 0 then Inr () else Inl register_err), u\<lparr>up_cookie := True, up_client := client\<rparr>))"

datatype upnp_call = UnRegisterClient int | FreeCookie

definition upnp_handle_drop :: "'w upnp \<Rightarrow> upnp_call list" where
  "upnp_handle_drop u =
     (if up_client u \<noteq> 0 then [UnRegisterClient (up_client u)] else []) @ (if up_cookie u then [FreeCookie] else [])"

section \<open>Facts\<close>

text \<open>Any sequence of calls of the library.\<close>

fun upnp_run ::
    "upnp_env \<Rightarrow> (EventType \<times> discovery option \<times> bool) list \<Rightarrow> 'w upnp \<times> 'w \<Rightarrow> 'w upnp \<times> 'w" where
  "upnp_run E [] s = s"
| "upnp_run E ((event_type, event, cookie) # es) s = upnp_run E es (snd (upnp_callback E event_type event cookie s))"

lemma notify_poisoned: "up_poisoned u \<Longrightarrow> notify_service service (u, w) = (Panic, u, w)"
  by (simp add: notify_service_def)

lemma callback_poisoned: "up_poisoned u \<Longrightarrow> snd (upnp_callback E event_type event cookie (u, w)) = (u, w)"
  by (cases event_type)
    (simp_all add: upnp_callback_def msearch_callback_def Let_def notify_poisoned split: option.splits sum.splits)

text \<open>When a listener panics on a device, no listener hears of any device again, whatever the library
  reports: the lock of the listeners stays poisoned.\<close>

theorem one_panic_silences_discovery:
  assumes "\<not> up_poisoned u" and "tell_listeners (hm_values (up_listeners u)) service w = (Panic, w')"
    and "notify_service service (u, w) = (r, s)"
  shows "r = Panic \<and> snd (upnp_run E es s) = w'"
proof -
  have s: "r = Panic" "s = (u\<lparr>up_poisoned := True\<rparr>, w')" using assms by (simp_all add: notify_service_def)
  have "upnp_run E es (v, w') = (v, w')" if "up_poisoned v" for v
    using that by (induction es) (auto simp: callback_poisoned)
  with s show ?thesis by simp
qed

definition panicking_listener :: "nat listener" where
  "panicking_listener service w = (if us_description service = [] then (Done False, w) else (Panic, w + 1))"

definition one_device :: upnp_service where
  "one_device =
     \<lparr>us_msearch = \<lparr>mh_discovery = \<lparr>di_expires = 0, di_device_id = [], di_device_type = [], di_service_type = [],
        di_service_ver = [], di_location = [], di_os = [], di_date = [], di_ext = []\<rparr>, mh_alive = True\<rparr>,
      us_description = [(''/root'', ''x'')], us_description_data = []\<rparr>"

theorem one_panic_silences_discovery_witness:
  "snd (upnp_run E es (snd (notify_service one_device (snd (add_listener ''l'' panicking_listener upnp_new), 0)))) = 1"
proof -
  let ?u = "snd (add_listener ''l'' panicking_listener upnp_new)"
  obtain r s where n: "notify_service one_device (?u, 0) = (r, s)" by (cases "notify_service one_device (?u, 0)")
  have "tell_listeners (hm_values (up_listeners ?u)) one_device 0 = (Panic, 1)"
    by (simp add: add_listener_def upnp_new_def panicking_listener_def one_device_def)
  moreover have "\<not> up_poisoned ?u" by (simp add: add_listener_def upnp_new_def)
  ultimately show ?thesis using one_panic_silences_discovery [OF _ _ n, of 1 E es] by (simp add: n)
qed

text \<open>A listener that is told of a device, in terms of those that do not panic.\<close>

lemma tell_listeners_fold:
  assumes "\<And>l w. l \<in> set ls \<Longrightarrow> fst (l service w) \<noteq> Panic"
  shows "tell_listeners ls service w = (Done (), fold (\<lambda>l w. snd (l service w)) ls w)"
  using assms
proof (induction ls arbitrary: w)
  case (Cons l ls)
  from Cons.prems [of l w] obtain b w' where "l service w = (Done b, w')"
    by (cases "l service w"; cases "fst (l service w)") auto
  with Cons show ?case by simp
qed simp

end
