(* ===== verification/Ip_Camera.thy ===== *)
theory Ip_Camera
  imports Adapter_Setup Upnp
begin

text \<open>
  \<^verbatim>\<open>src/adapters/ip_camera\<close>: cameras found by UPnP. A camera has a directory for its snapshots and its
  credentials in the configuration. Directories are lists of files in the order the system lists
  them; requests to the camera, the calls that may fail and the encodings of the password are
  parameters. Names of files are text, and a file that is there can be examined.
\<close>

section \<open>Files\<close>

record snapshot_file =
  sf_name :: string
  sf_ctime :: int
  sf_regular :: bool
  sf_bytes :: "nat list option" \<comment> \<open>None: cannot be read\<close>

type_synonym directories = "(string, snapshot_file list) hashmap"

text \<open>What \<^verbatim>\<open>create_dir_all\<close> does; \<open>MkdirExists\<close> is a file in the way.\<close>

datatype mkdir_result = MkdirOk | MkdirExists | MkdirFails

section \<open>A camera\<close>

definition ip_camera_service_id :: "string \<Rightarrow> ServiceId" where
  "ip_camera_service_id udn = ''service:'' @ udn @ ''@link.mozilla.org''"

definition create_io_mechanism_id :: "string \<Rightarrow> string \<Rightarrow> string \<Rightarrow> string" where
  "create_io_mechanism_id prefix_text operation udn =
     prefix_text @ '':'' @ operation @ ''.'' @ udn @ ''@link.mozilla.org''"

definition ip_camera_setter_id :: "string \<Rightarrow> string \<Rightarrow> SetterId" where
  "ip_camera_setter_id = create_io_mechanism_id ''setter''"

definition ip_camera_getter_id :: "string \<Rightarrow> string \<Rightarrow> GetterId" where
  "ip_camera_getter_id = create_io_mechanism_id ''getter''"

record ip_camera =
  cam_udn :: string
  cam_url :: string
  cam_snapshot_dir :: string
  cam_upnp_name :: string
  cam_image_list_id :: GetterId
  cam_image_newest_id :: GetterId
  cam_snapshot_id :: SetterId
  cam_get_username_id :: GetterId
  cam_set_username_id :: SetterId
  cam_get_password_id :: GetterId
  cam_set_password_id :: SetterId

definition snapshot_dir_of :: "string \<Rightarrow> string \<Rightarrow> string" where
  "snapshot_dir_of root_dir udn = root_dir @ ''/'' @ udn"

definition ip_camera_new ::
    "(string \<Rightarrow> mkdir_result) \<Rightarrow> string \<Rightarrow> string \<Rightarrow> string \<Rightarrow> string \<Rightarrow> directories \<Rightarrow>
     (Error + ip_camera) \<times> directories" where
  "ip_camera_new mkdir udn url upnp_name root_dir dirs =
     (let dir = snapshot_dir_of root_dir udn;
          camera = \<lparr>cam_udn = udn, cam_url = url, cam_snapshot_dir = dir, cam_upnp_name = upnp_name,
             cam_image_list_id = ip_camera_getter_id ''image_list'' udn,
             cam_image_newest_id = ip_camera_getter_id ''image_newest'' udn,
             cam_snapshot_id = ip_camera_setter_id ''snapshot'' udn,
             cam_get_username_id = ip_camera_getter_id ''username'' udn,
             cam_set_username_id = ip_camera_setter_id ''username'' udn,
             cam_get_password_id = ip_camera_getter_id ''password'' udn,
             cam_set_password_id = ip_camera_setter_id ''password'' udn\<rparr>
      in case mkdir dir of
           MkdirOk \<Rightarrow> (Inr camera, if hm_has dirs dir then dirs else hm_insert dir [] dirs)
         | MkdirExists \<Rightarrow> (Inr camera, dirs)
         | MkdirFails \<Rightarrow> (Inl (ErrInternal (GenericError (''cannot create '' @ dir))), dirs))"

section \<open>Credentials\<close>

text \<open>The encodings: base 64, and text as bytes.\<close>

record password_codec =
  pc_to_base64 :: "nat list \<Rightarrow> string"
  pc_from_base64 :: "string \<Rightarrow> nat list option"
  pc_as_bytes :: "string \<Rightarrow> nat list"
  pc_from_utf8 :: "nat list \<Rightarrow> string option"

definition camera_config_key :: "string \<Rightarrow> ip_camera \<Rightarrow> string" where
  "camera_config_key key camera = cam_udn camera @ ''.'' @ key"

definition camera_get_config :: "string \<Rightarrow> ip_camera \<Rightarrow> config_store \<Rightarrow> string option" where
  "camera_get_config key camera config = config_get ''ip_camera'' (camera_config_key key camera) config"

definition camera_set_config ::
    "'b codec \<Rightarrow> save_io \<Rightarrow> string \<Rightarrow> string \<Rightarrow> ip_camera \<Rightarrow> config_store \<times> 'b files \<Rightarrow> config_store \<times> 'b files" where
  "camera_set_config codec io key val camera = config_set codec io ''ip_camera'' (camera_config_key key camera) val"

definition get_username :: "ip_camera \<Rightarrow> config_store \<Rightarrow> string" where
  "get_username camera config =
     (case camera_get_config ''username'' camera config of Some username \<Rightarrow> username | None \<Rightarrow> '''')"

definition set_username ::
    "'b codec \<Rightarrow> save_io \<Rightarrow> string \<Rightarrow> ip_camera \<Rightarrow> config_store \<times> 'b files \<Rightarrow> config_store \<times> 'b files" where
  "set_username codec io username = camera_set_config codec io ''username'' username"

definition get_password :: "password_codec \<Rightarrow> ip_camera \<Rightarrow> config_store \<Rightarrow> string" where
  "get_password P camera config =
     (case camera_get_config ''password'' camera config of
        None \<Rightarrow> ''''
      | Some password \<Rightarrow>
          (case pc_from_base64 P password of
             None \<Rightarrow> ''''
           | Some password_bytes \<Rightarrow>
               (case pc_from_utf8 P password_bytes of None \<Rightarrow> '''' | Some password_str \<Rightarrow> password_str)))"

definition set_password ::
    "password_codec \<Rightarrow> 'b codec \<Rightarrow> save_io \<Rightarrow> string \<Rightarrow> ip_camera \<Rightarrow> config_store \<times> 'b files \<Rightarrow> config_store \<times> 'b files" where
  "set_password P codec io password =
     camera_set_config codec io ''password'' (pc_to_base64 P (pc_as_bytes P password))"

section \<open>Snapshots\<close>

definition get_image_list :: "ip_camera \<Rightarrow> directories \<Rightarrow> string list" where
  "get_image_list camera dirs =
     (case hm_get dirs (cam_snapshot_dir camera) of
        None \<Rightarrow> []
      | Some files \<Rightarrow> map sf_name (filter sf_regular files))"

definition read_image :: "string \<Rightarrow> string \<Rightarrow> directories \<Rightarrow> Error + nat list" where
  "read_image dir filename dirs =
     (case hm_get dirs dir of
        None \<Rightarrow> Inl (ErrInternal InvalidInitialService)
      | Some files \<Rightarrow>
          (case List.find (\<lambda>f. sf_name f = filename) files of
             None \<Rightarrow> Inl (ErrInternal InvalidInitialService)
           | Some f \<Rightarrow>
               (case sf_bytes f of
                  None \<Rightarrow> Inl (ErrInternal InvalidInitialService)
                | Some img \<Rightarrow> Inr img)))"

definition get_image :: "string \<Rightarrow> ip_camera \<Rightarrow> directories \<Rightarrow> Error + nat list" where
  "get_image filename camera dirs = read_image (cam_snapshot_dir camera) filename dirs"

fun newest_file :: "snapshot_file list \<Rightarrow> int \<times> string option \<Rightarrow> int \<times> string option" where
  "newest_file [] acc = acc"
| "newest_file (f # fs) (newest_image_time, newest_image) =
     newest_file fs
       (if sf_regular f \<and> newest_image_time \<le> sf_ctime f then (sf_ctime f, Some (sf_name f))
        else (newest_image_time, newest_image))"

definition get_newest_image :: "ip_camera \<Rightarrow> directories \<Rightarrow> Error + nat list" where
  "get_newest_image camera dirs =
     (let files = (case hm_get dirs (cam_snapshot_dir camera) of None \<Rightarrow> [] | Some files \<Rightarrow> files)
      in case snd (newest_file files (0, None)) of
           None \<Rightarrow> Inl (ErrInternal InvalidInitialService)
         | Some newest_image \<Rightarrow> get_image newest_image camera dirs)"

text \<open>The names that are tried, and the first that is not taken.\<close>

definition snapshot_name :: "string \<Rightarrow> nat \<Rightarrow> string" where
  "snapshot_name filename_base loop_count =
     (if loop_count = 0 then filename_base else filename_base @ ''-'' @ show_nat loop_count) @ ''.jpg''"

lemma snapshot_name_inject: "snapshot_name b m = snapshot_name b n \<Longrightarrow> m = n"
  by (auto simp: snapshot_name_def show_nat_inject split: if_splits)

function snapshot_loop :: "string list \<Rightarrow> string \<Rightarrow> nat \<Rightarrow> string" where
  "snapshot_loop names filename_base loop_count =
     (if snapshot_name filename_base loop_count \<in> set names
      then snapshot_loop names filename_base (Suc loop_count)
      else snapshot_name filename_base loop_count)"
  by pat_completeness auto
termination
proof (relation "measure (\<lambda>(names, b, k). card {n. k \<le> n \<and> snapshot_name b n \<in> set names})")
  fix names b k
  assume taken: "snapshot_name b k \<in> set names"
  have "finite (snapshot_name b -` set names)"
    by (rule finite_vimageI) (simp, rule injI, erule snapshot_name_inject)
  then have "finite {n. k \<le> n \<and> snapshot_name b n \<in> set names}" by (rule rev_finite_subset) auto
  moreover have "{n. Suc k \<le> n \<and> snapshot_name b n \<in> set names} \<subset> {n. k \<le> n \<and> snapshot_name b n \<in> set names}"
    (is "?B \<subset> ?A")
  proof (rule psubsetI)
    show "?B \<subseteq> ?A" by auto
    have "k \<in> ?A" "k \<notin> ?B" using taken by simp_all
    then show "?B \<noteq> ?A" by blast
  qed
  ultimately show "((names, b, Suc k), names, b, k)
      \<in> measure (\<lambda>(names, b, k). card {n. k \<le> n \<and> snapshot_name b n \<in> set names})"
    by (simp add: psubset_card_mono)
qed simp

declare snapshot_loop.simps [simp del]

text \<open>The calls of one snapshot: whether the file could be opened, what was written before an error, the
  size of the buffer of the writer, and the time. A buffer that is not full is written when the writer
  is dropped, and an error is lost.\<close>

record snapshot_io =
  so_open :: bool
  so_write :: "nat option"
  so_buffer :: nat
  so_base :: string
  so_now :: int

definition take_snapshot ::
    "(string \<Rightarrow> string \<Rightarrow> string \<Rightarrow> nat list option) \<Rightarrow> snapshot_io \<Rightarrow> password_codec \<Rightarrow> ip_camera \<Rightarrow> config_store \<Rightarrow>
     directories \<Rightarrow> (Error + string) \<times> directories" where
  "take_snapshot get_bytes io P camera config dirs =
     (case get_bytes (cam_url camera @ ''/image/jpeg.cgi'') (get_username camera config) (get_password P camera config) of
        None \<Rightarrow> (Inl (ErrInternal InvalidInitialService), dirs)
      | Some img \<Rightarrow>
          (case hm_get dirs (cam_snapshot_dir camera) of
             None \<Rightarrow> (Inl (ErrInternal InvalidInitialService), dirs)
           | Some files \<Rightarrow>
               (let filename = snapshot_loop (map sf_name files) (so_base io) 0
                in if \<not> so_open io then (Inl (ErrInternal InvalidInitialService), dirs)
                   else
                     let written = (case so_write io of None \<Rightarrow> img | Some n \<Rightarrow> take n img);
                         file = \<lparr>sf_name = filename, sf_ctime = so_now io, sf_regular = True, sf_bytes = Some written\<rparr>;
                         dirs = hm_insert (cam_snapshot_dir camera) (files @ [file]) dirs
                     in if so_write io = None \<or> length img < so_buffer io then (Inr filename, dirs)
                        else (Inl (ErrInternal InvalidInitialService), dirs))))"

section \<open>The adapter\<close>

definition ip_camera_adapter_id :: AdapterId where "ip_camera_adapter_id = ''ip-camera@link.mozilla.org''"

record ip_cameras =
  ic_getters :: "(GetterId, ip_camera) hashmap"
  ic_setters :: "(SetterId, ip_camera) hashmap"
  ic_snapshot_root :: string

record ip_world =
  iw_manager :: manager
  iw_cameras :: ip_cameras
  iw_dirs :: directories

definition ip_camera_service :: "string \<Rightarrow> string \<Rightarrow> string \<Rightarrow> string \<Rightarrow> string \<Rightarrow> service" where
  "ip_camera_service udn url name manufacturer model_name =
     (service_empty (ip_camera_service_id udn) ip_camera_adapter_id)
       \<lparr>svc_properties := [(''manufacturer'', manufacturer), (''model'', model_name), (''name'', name),
          (''url'', url), (''udn'', udn)],
        svc_tags := [''name:'' @ name]\<rparr>"

definition ip_camera_kind :: "KindId \<Rightarrow> Type \<Rightarrow> ChannelKind" where
  "ip_camera_kind kind typ = KExtension ''foxlink@mozilla.com'' ''IPCam Adapter'' kind typ"

definition ip_camera_channels :: "string \<Rightarrow> registration list" where
  "ip_camera_channels udn =
     (let channel = new_channel ip_camera_adapter_id (ip_camera_service_id udn)
      in [AddGetter (channel (ip_camera_getter_id ''image_list'' udn) (ip_camera_kind ''image_list'' TyJson)),
          AddGetter (channel (ip_camera_getter_id ''image_newest'' udn) (ip_camera_kind ''latest image'' TyBinary)),
          AddSetter (channel (ip_camera_setter_id ''snapshot'' udn) KTakeSnapshot),
          AddGetter (channel (ip_camera_getter_id ''username'' udn) KUsername),
          AddSetter (channel (ip_camera_setter_id ''username'' udn) KUsername),
          AddGetter (channel (ip_camera_getter_id ''password'' udn) KPassword),
          AddSetter (channel (ip_camera_setter_id ''password'' udn) KPassword)])"

text \<open>The tables of the adapter, after the channels of a camera.\<close>

definition add_camera :: "ip_camera \<Rightarrow> ip_cameras \<Rightarrow> ip_cameras" where
  "add_camera camera serv =
     serv\<lparr>ic_getters := hm_extend (ic_getters serv)
            [(cam_image_list_id camera, camera), (cam_image_newest_id camera, camera),
             (cam_get_username_id camera, camera), (cam_get_password_id camera, camera)],
          ic_setters := hm_extend (ic_setters serv)
            [(cam_snapshot_id camera, camera), (cam_set_username_id camera, camera),
             (cam_set_password_id camera, camera)]\<rparr>"

text \<open>A panic leaves what was done before it; of a panic of the manager no more is known.\<close>

definition ip_camera_init_service ::
    "(string \<Rightarrow> mkdir_result) \<Rightarrow> string \<Rightarrow> string \<Rightarrow> string \<Rightarrow> string \<Rightarrow> string \<Rightarrow> ip_world \<Rightarrow>
     (Error + unit) outcome \<times> ip_world" where
  "ip_camera_init_service mkdir udn url name manufacturer model_name w =
     (case manager_add_service (ip_camera_service udn url name manufacturer model_name) (iw_manager w) of
        Panic \<Rightarrow> (Panic, w)
      | Done (Inl (ErrInternal (DuplicateService _)), m) \<Rightarrow> (Done (Inr ()), w\<lparr>iw_manager := m\<rparr>)
      | Done (Inl _, m) \<Rightarrow> (Panic, w\<lparr>iw_manager := m\<rparr>)
      | Done (Inr _, m) \<Rightarrow>
          (case run_setup (ip_camera_channels udn) m of
             Panic \<Rightarrow> (Panic, w\<lparr>iw_manager := m\<rparr>)
           | Done (Inl e, m) \<Rightarrow> (Done (Inl e), w\<lparr>iw_manager := m\<rparr>)
           | Done (Inr _, m) \<Rightarrow>
               (case ip_camera_new mkdir udn url name (ic_snapshot_root (iw_cameras w)) (iw_dirs w) of
                  (Inl e, dirs) \<Rightarrow> (Done (Inl e), w\<lparr>iw_manager := m, iw_dirs := dirs\<rparr>)
                | (Inr camera, dirs) \<Rightarrow>
                    (Done (Inr ()),
                     w\<lparr>iw_manager := m, iw_dirs := dirs, iw_cameras := add_camera camera (iw_cameras w)\<rparr>))))"

definition known_models :: "string list" where
  "known_models = [''DCS-5010L'', ''DCS-5020L'', ''DCS-5025L'', ''Link-IpCamera'']"

definition ip_camera_udn :: "string \<Rightarrow> string" where
  "ip_camera_udn udn = (if take 5 udn = ''uuid:'' then drop 5 udn else udn)"

text \<open>The listener: \<^verbatim>\<open>try_get\<close> of a field that is not there answers \<open>False\<close>; an error of the
  initialization is unwrapped.\<close>

definition ip_camera_discover :: "(string \<Rightarrow> mkdir_result) \<Rightarrow> ip_world listener" where
  "ip_camera_discover mkdir service w =
     (let field = hm_get (us_description service)
      in case field ''/root/device/modelName'' of
           None \<Rightarrow> (Done False, w)
         | Some model_name \<Rightarrow>
             if model_name \<notin> set known_models then (Done False, w)
             else (case (field ''/root/device/presentationURL'', field ''/root/device/UDN'',
                         field ''/root/device/friendlyName'', field ''/root/device/manufacturer'') of
                 (Some url, Some udn, Some name, Some manufacturer) \<Rightarrow>
                   (case ip_camera_init_service mkdir (ip_camera_udn udn) url name manufacturer model_name w of
                      (Done (Inr _), w) \<Rightarrow> (Done True, w)
                    | (_, w) \<Rightarrow> (Panic, w))
               | _ \<Rightarrow> (Done False, w)))"

definition ip_camera_fetch_one ::
    "password_codec \<Rightarrow> ip_cameras \<Rightarrow> config_store \<Rightarrow> directories \<Rightarrow> GetterId \<Rightarrow> Error + Value option" where
  "ip_camera_fetch_one P cameras config dirs i =
     (case hm_get (ic_getters cameras) i of
        None \<Rightarrow> Inl (ErrInternal (NoSuchGetter i))
      | Some camera \<Rightarrow>
          if i = cam_get_username_id camera then Inr (Some (VString (get_username camera config)))
          else if i = cam_get_password_id camera then Inr (Some (VString (get_password P camera config)))
          else if i = cam_image_list_id camera then
            Inr (Some (VJson (JArray (map JString (get_image_list camera dirs)))))
          else if i = cam_image_newest_id camera then
            (case get_newest_image camera dirs of
               Inr rsp \<Rightarrow> Inr (Some (VBinary (Binary rsp ''image/jpeg'')))
             | Inl err \<Rightarrow> Inl err)
          else Inl (ErrInternal (NoSuchGetter i)))"

definition ip_camera_fetch_values ::
    "password_codec \<Rightarrow> ip_cameras \<Rightarrow> config_store \<Rightarrow> directories \<Rightarrow> GetterId list \<Rightarrow>
     (GetterId, Value option, Error) ResultMap" where
  "ip_camera_fetch_values P cameras config dirs ids =
     hm_extend [] (map (\<lambda>i. (i, ip_camera_fetch_one P cameras config dirs i)) ids)"

definition ip_camera_send_one ::
    "(string \<Rightarrow> string \<Rightarrow> string \<Rightarrow> nat list option) \<Rightarrow> snapshot_io \<Rightarrow> password_codec \<Rightarrow> 'b codec \<Rightarrow> save_io \<Rightarrow> ip_cameras \<Rightarrow>
     SetterId \<Rightarrow> Value \<Rightarrow> (config_store \<times> 'b files) \<times> directories \<Rightarrow>
     (Error + unit) \<times> (config_store \<times> 'b files) \<times> directories" where
  "ip_camera_send_one get_bytes sio P codec io cameras i val = (\<lambda>(conf, dirs).
     case hm_get (ic_setters cameras) i of
       None \<Rightarrow> (Inl (ErrInternal InvalidInitialService), conf, dirs)
     | Some camera \<Rightarrow>
         if i = cam_set_username_id camera then
           (case val of
              VString username \<Rightarrow> (Inr (), set_username codec io username camera conf, dirs)
            | _ \<Rightarrow> (Inl (ErrType (TypeError TyString (value_type val))), conf, dirs))
         else if i = cam_set_password_id camera then
           (case val of
              VString password \<Rightarrow> (Inr (), set_password P codec io password camera conf, dirs)
            | _ \<Rightarrow> (Inl (ErrType (TypeError TyString (value_type val))), conf, dirs))
         else if i = cam_snapshot_id camera then
           (case take_snapshot get_bytes sio P camera (fst conf) dirs of
              (Inr _, dirs) \<Rightarrow> (Inr (), conf, dirs)
            | (Inl err, dirs) \<Rightarrow> (Inl err, conf, dirs))
         else (Inl (ErrInternal (NoSuchSetter i)), conf, dirs))"

end
