(* ===== verification/Ip_Camera_Props.thy ===== *)
theory Ip_Camera_Props
  imports Ip_Camera
begin

text \<open>
  What a client gets from a camera: snapshots never overwrite a file and are the newest image at once,
  credentials are read back as they were set, a camera that announces itself again is left alone; and
  what happens to a camera whose directory cannot be made.
\<close>

section \<open>Snapshots\<close>

lemma snapshot_loop_fresh: "snapshot_loop names b k \<notin> set names"
  by (induction names b k rule: snapshot_loop.induct) (subst snapshot_loop.simps, simp)

lemma snapshot_loop_name: "\<exists>n. snapshot_loop names b k = snapshot_name b n \<and> k \<le> n
    \<and> (\<forall>j. k \<le> j \<longrightarrow> j < n \<longrightarrow> snapshot_name b j \<in> set names)"
proof (induction names b k rule: snapshot_loop.induct)
  case (1 names b k)
  show ?case
  proof (cases "snapshot_name b k \<in> set names")
    case True
    from 1 [OF True] obtain n where n: "snapshot_loop names b (Suc k) = snapshot_name b n" "Suc k \<le> n"
      "\<forall>j. Suc k \<le> j \<longrightarrow> j < n \<longrightarrow> snapshot_name b j \<in> set names" by blast
    moreover have "\<forall>j. k \<le> j \<longrightarrow> j < n \<longrightarrow> snapshot_name b j \<in> set names"
      using n(3) True by (metis Suc_leI le_neq_implies_less)
    ultimately show ?thesis using True by (intro exI [of _ n]) (simp add: snapshot_loop.simps [of names b k])
  next
    case False
    then show ?thesis by (intro exI [of _ k]) (simp add: snapshot_loop.simps [of names b k])
  qed
qed


lemma newest_file_append: "newest_file (fs @ gs) acc = newest_file gs (newest_file fs acc)"
  by (induction fs acc rule: newest_file.induct) auto

lemma newest_file_time:
  "0 \<le> t \<Longrightarrow> \<forall>f \<in> set fs. sf_ctime f \<le> now \<Longrightarrow> t \<le> now \<Longrightarrow> fst (newest_file fs (t, n)) \<le> now"
  by (induction fs "(t, n)" arbitrary: t n rule: newest_file.induct) auto

lemma find_append_new: "\<forall>g \<in> set gs. \<not> Q g \<Longrightarrow> Q f \<Longrightarrow> List.find Q (gs @ [f]) = Some f"
  by (induction gs) auto

text \<open>A snapshot that was written is the newest image, when no file of the directory is from the future.\<close>

theorem snapshot_is_newest:
  assumes "take_snapshot get_bytes io P camera config dirs = (Inr name, dirs')" and "so_write io = None"
    and "hm_get dirs (cam_snapshot_dir camera) = Some files" and "0 \<le> so_now io"
    and "\<forall>f \<in> set files. sf_ctime f \<le> so_now io"
  shows "map_option Inr (get_bytes (cam_url camera @ ''/image/jpeg.cgi'') (get_username camera config) (get_password P camera config))
    = Some (get_newest_image camera dirs')"
proof -
  let ?name = "snapshot_loop (map sf_name files) (so_base io) 0"
  obtain img where img:
    "get_bytes (cam_url camera @ ''/image/jpeg.cgi'') (get_username camera config) (get_password P camera config) = Some img"
    using assms(1) by (auto simp: take_snapshot_def split: option.splits)
  define f where "f = \<lparr>sf_name = ?name, sf_ctime = so_now io, sf_regular = True, sf_bytes = Some img\<rparr>"
  have dirs': "hm_get dirs' (cam_snapshot_dir camera) = Some (files @ [f])"
    using assms(1,2,3) img by (auto simp: take_snapshot_def Let_def f_def update_conv split: if_splits)
  have "fst (newest_file files (0, None)) \<le> so_now io" using assms(4,5) by (intro newest_file_time) auto
  then have newest: "snd (newest_file (files @ [f]) (0, None)) = Some ?name"
    by (cases "newest_file files (0, None)") (simp add: newest_file_append f_def)
  have "?name \<notin> sf_name ` set files" using snapshot_loop_fresh [of "map sf_name files"] by simp
  then have fresh: "\<forall>g \<in> set files. sf_name g \<noteq> ?name" by (metis image_eqI)
  then have "List.find (\<lambda>g. sf_name g = ?name) (files @ [f]) = Some f"
    by (intro find_append_new) (simp_all add: f_def)
  then have "get_newest_image camera dirs' = Inr img"
    by (simp add: get_newest_image_def dirs' newest get_image_def read_image_def) (simp add: f_def)
  then show ?thesis by (simp add: img)
qed

definition sample_codec_io :: snapshot_io where
  "sample_codec_io = \<lparr>so_open = True, so_write = None, so_buffer = 65536, so_base = ''2016'', so_now = 9\<rparr>"

definition plain_passwords :: password_codec where
  "plain_passwords = \<lparr>pc_to_base64 = map char_of, pc_from_base64 = (\<lambda>s. Some (map of_char s)),
     pc_as_bytes = map of_char, pc_from_utf8 = (\<lambda>b. Some (map char_of b))\<rparr>"

definition sample_camera :: ip_camera where
  "sample_camera =
     (case ip_camera_new (\<lambda>_. MkdirOk) ''u'' ''http://cam'' ''cam'' ''s'' [] of (Inr c, _) \<Rightarrow> c)"

definition sample_dirs :: directories where
  "sample_dirs = [(''s/u'', [\<lparr>sf_name = ''2016.jpg'', sf_ctime = 9, sf_regular = True, sf_bytes = Some [1]\<rparr>])]"

lemma digit_one: "digit_char (Suc 0) = CHR ''1''"
  by code_simp

lemma sample_dir: "cam_snapshot_dir sample_camera = ''s/u''"
  by (simp add: sample_camera_def ip_camera_new_def snapshot_dir_of_def Let_def)

lemma sample_snapshot:
  "take_snapshot (\<lambda>_ _ _. Some [2, 3]) sample_codec_io plain_passwords sample_camera (config_new sample_codec [] ''c'') sample_dirs
   = (Inr ''2016-1.jpg'', [(''s/u'', [\<lparr>sf_name = ''2016.jpg'', sf_ctime = 9, sf_regular = True, sf_bytes = Some [1]\<rparr>,
        \<lparr>sf_name = ''2016-1.jpg'', sf_ctime = 9, sf_regular = True, sf_bytes = Some [2, 3]\<rparr>])])"
  by (simp add: take_snapshot_def sample_codec_io_def sample_camera_def sample_dirs_def ip_camera_new_def Let_def
      snapshot_dir_of_def snapshot_loop.simps snapshot_name_def show_nat_small digit_one)


theorem snapshot_is_newest_witness:
  "get_newest_image sample_camera (snd (take_snapshot (\<lambda>_ _ _. Some [2, 3]) sample_codec_io plain_passwords sample_camera
      (config_new sample_codec [] ''c'') sample_dirs)) = Inr [2, 3]"
  unfolding sample_snapshot snd_conv
  using snapshot_is_newest [OF sample_snapshot, of "[\<lparr>sf_name = ''2016.jpg'', sf_ctime = 9, sf_regular = True, sf_bytes = Some [1]\<rparr>]"]
  by (simp add: sample_codec_io_def sample_dirs_def sample_dir)

text \<open>An image that fits in the buffer is lost without an error when it cannot be written.\<close>

lemma small_image_lost:
  assumes "get_bytes (cam_url camera @ ''/image/jpeg.cgi'') (get_username camera config) (get_password P camera config) = Some img"
    and "hm_get dirs (cam_snapshot_dir camera) = Some files" and "so_open io" and "length img < so_buffer io"
    and "so_write io = Some 0"
  shows "\<exists>name dirs'. take_snapshot get_bytes io P camera config dirs = (Inr name, dirs')
    \<and> List.find (\<lambda>f. sf_name f = name) (the (hm_get dirs' (cam_snapshot_dir camera)))
       = Some \<lparr>sf_name = name, sf_ctime = so_now io, sf_regular = True, sf_bytes = Some []\<rparr>"
proof -
  let ?name = "snapshot_loop (map sf_name files) (so_base io) 0"
  have "?name \<notin> sf_name ` set files" using snapshot_loop_fresh [of "map sf_name files"] by simp
  then have "\<forall>g \<in> set files. sf_name g \<noteq> ?name" by (metis image_eqI)
  then show ?thesis using assms by (simp add: take_snapshot_def Let_def update_conv find_append_new)
qed

section \<open>Credentials\<close>

definition password_codec_ok :: "password_codec \<Rightarrow> bool" where
  "password_codec_ok P \<longleftrightarrow>
     (\<forall>s. pc_from_base64 P (pc_to_base64 P (pc_as_bytes P s)) = Some (pc_as_bytes P s)
        \<and> pc_from_utf8 P (pc_as_bytes P s) = Some s)"

lemma config_get_set:
  "config_get n p (fst (config_set codec io n' p' v (config, files))) =
     (if (n, p) = (n', p') \<and> config_get_override n p config = None then Some v else config_get n p config)"
  by (auto simp: config_get_def config_get_override_def config_get_no_override_def config_set_def Let_def
      tree_get_def tree_set_def hm_has_def split: option.splits)

lemma last_neq: "last a \<noteq> last b \<Longrightarrow> a \<noteq> [] \<Longrightarrow> b \<noteq> [] \<Longrightarrow> x @ a \<noteq> y @ b"
  by (metis last_appendR)

lemma camera_keys:
  "camera_config_key ''username'' c = camera_config_key ''username'' d \<longleftrightarrow> cam_udn c = cam_udn d"
  "camera_config_key ''password'' c = camera_config_key ''password'' d \<longleftrightarrow> cam_udn c = cam_udn d"
  "camera_config_key ''username'' c \<noteq> camera_config_key ''password'' d"
  "camera_config_key ''password'' c \<noteq> camera_config_key ''username'' d"
  unfolding camera_config_key_def by (simp_all add: last_neq)

text \<open>Without an override on the command line, a password that is set is the one that is read, by the
  camera it was set for and no other, and no user name changes.\<close>

theorem password_roundtrip:
  assumes "password_codec_ok P"
    and "config_get_override ''ip_camera'' (camera_config_key ''password'' camera) config = None"
  shows "(let config' = fst (set_password P codec io password camera (config, files)) in
    (\<forall>c. get_password P c config' = (if cam_udn c = cam_udn camera then password else get_password P c config))
    \<and> (\<forall>c. get_username c config' = get_username c config))"
  using assms
  by (auto simp: Let_def get_password_def set_password_def camera_set_config_def camera_get_config_def config_get_set
      get_username_def camera_keys password_codec_ok_def)
    (auto simp: camera_config_key_def)

theorem password_roundtrip_witness:
  "get_password plain_passwords sample_camera
     (fst (set_password plain_passwords sample_codec good_io ''secret'' sample_camera (config_new sample_codec [] ''c'', [])))
   = ''secret''"
proof -
  have "password_codec_ok plain_passwords" by (simp add: password_codec_ok_def plain_passwords_def comp_def)
  then show ?thesis
    using password_roundtrip [of plain_passwords sample_camera "config_new sample_codec [] ''c''" sample_codec good_io "''secret''" "[]"]
    by (simp add: Let_def config_get_override_def tree_get_def config_new_def)
qed

section \<open>Discovery\<close>

text \<open>A camera that is registered: its service is one of the services of the adapter.\<close>

definition camera_registered :: "string \<Rightarrow> manager \<Rightarrow> bool" where
  "camera_registered udn m \<longleftrightarrow>
     (case hm_get (adapter_by_id (mg_backend m)) ip_camera_adapter_id of
        None \<Rightarrow> False
      | Some ad \<Rightarrow> hm_has (ad_services ad) (ip_camera_service_id udn))"

lemma readd_camera_service:
  assumes "camera_registered udn m" and "manager_add_service (ip_camera_service udn url name manufacturer model) m = Done (r, m')"
  shows "(\<exists>e. r = Inl e) \<and> (\<exists>db. m' = m\<lparr>mg_backend := (mg_backend m)\<lparr>st_db := db\<rparr>\<rparr>)"
proof -
  let ?s = "ip_camera_service udn url name manufacturer model"
  have s: "svc_getters ?s = []" "svc_setters ?s = []" "svc_adapter ?s = ip_camera_adapter_id" "svc_id ?s = ip_camera_service_id udn"
    by (simp_all add: ip_camera_service_def service_empty_def)
  obtain ad where ad: "hm_get (adapter_by_id (mg_backend m)) ip_camera_adapter_id = Some ad"
    "hm_has (ad_services ad) (ip_camera_service_id udn)"
    using assms(1) by (auto simp: camera_registered_def split: option.splits)
  have inst0: "install_service tags ?s (mg_backend m)
      = (Inl (ErrInternal (DuplicateService (ip_camera_service_id udn))), mg_backend m)" for tags
    using ad by (simp add: install_service_def s)
  have inst: "install_service tags ?s (mg_backend m\<lparr>st_db := db\<rparr>)
      = (Inl (ErrInternal (DuplicateService (ip_camera_service_id udn))), mg_backend m\<lparr>st_db := db\<rparr>)" for tags db
    using ad by (simp add: install_service_def s)
  show ?thesis
  proof (cases "st_db (mg_backend m)")
    case None
    then have "m = m\<lparr>mg_backend := (mg_backend m)\<lparr>st_db := None\<rparr>\<rparr>" by simp
    then show ?thesis using assms(2) ad inst0 None
      by (auto simp: manager_add_service_def with_lock_run_def add_service_result s hm_has_def intro!: exI [of _ None])
  next
    case (Some db)
    obtain tags store where tags: "get_tags_for (ip_camera_service_id udn) (tag_storage_new db) = Done (tags, store)"
      using assms(2) ad(1) Some
      by (auto simp: manager_add_service_def with_lock_run_def add_service_result s hm_has_def bind_outcome_Done_iff)
    show ?thesis
    proof (cases tags)
      case (Inl err)
      then show ?thesis using assms(2) ad(1) Some tags
        by (auto simp: manager_add_service_def with_lock_run_def add_service_result s hm_has_def)
    next
      case (Inr ts)
      then show ?thesis using assms(2) ad(1) Some tags inst
        by (auto simp: manager_add_service_def with_lock_run_def add_service_result s hm_has_def)
    qed
  qed
qed

text \<open>The fields of a description that the listener needs, and its answer then.\<close>

definition camera_description ::
    "string \<Rightarrow> string \<Rightarrow> string \<Rightarrow> string \<Rightarrow> string \<Rightarrow> (string, string) hashmap \<Rightarrow> bool" where
  "camera_description udn url name manufacturer model d \<longleftrightarrow>
     hm_get d ''/root/device/modelName'' = Some model \<and> model \<in> set known_models
     \<and> hm_get d ''/root/device/presentationURL'' = Some url \<and> hm_get d ''/root/device/UDN'' = Some udn
     \<and> hm_get d ''/root/device/friendlyName'' = Some name \<and> hm_get d ''/root/device/manufacturer'' = Some manufacturer"

lemma discover_camera:
  assumes "camera_description udn url name manufacturer model (us_description service)"
  shows "ip_camera_discover mkdir service w =
    (case ip_camera_init_service mkdir (ip_camera_udn udn) url name manufacturer model w of
       (Done (Inr _), w) \<Rightarrow> (Done True, w) | (_, w) \<Rightarrow> (Panic, w))"
  using assms by (simp add: ip_camera_discover_def camera_description_def Let_def)

lemma discover_other:
  assumes "\<And>udn url name manufacturer model.
    \<not> camera_description udn url name manufacturer model (us_description service)"
  shows "ip_camera_discover mkdir service w = (Done False, w)"
  using assms by (auto simp: ip_camera_discover_def camera_description_def Let_def split: option.splits) blast

text \<open>A camera that announces itself again, at the same address or another, changes neither what the adapter
  serves nor the registry of the manager (nor the directories); a device that does not describe
  itself as a camera, or says goodbye, changes nothing at all.\<close>

theorem rediscovery_changes_nothing:
  assumes "\<And>udn url name manufacturer model.
      camera_description udn url name manufacturer model (us_description service) \<Longrightarrow>
      camera_registered (ip_camera_udn udn) (iw_manager w)"
    and "ip_camera_discover mkdir service w = (r, w')"
  shows "\<exists>db. w' = w\<lparr>iw_manager := (iw_manager w)\<lparr>mg_backend := (mg_backend (iw_manager w))\<lparr>st_db := db\<rparr>\<rparr>\<rparr>"
proof (cases "\<exists>udn url name manufacturer model.
    camera_description udn url name manufacturer model (us_description service)")
  case False
  then have "w' = w" using discover_other assms(2) by (metis prod.inject)
  then show ?thesis by (intro exI [of _ "st_db (mg_backend (iw_manager w))"]) simp
next
  case True
  then obtain udn url name manufacturer model where
    d: "camera_description udn url name manufacturer model (us_description service)" by blast
  let ?udn = "ip_camera_udn udn"
  show ?thesis
  proof (cases "manager_add_service (ip_camera_service ?udn url name manufacturer model) (iw_manager w)")
    case Panic
    then have "w' = w" using assms(2) by (simp add: discover_camera [OF d] ip_camera_init_service_def)
    then show ?thesis by (intro exI [of _ "st_db (mg_backend (iw_manager w))"]) simp
  next
    case (Done x)
    obtain a m' where x: "x = (a, m')" by (cases x)
    from readd_camera_service [OF assms(1) [OF d] Done [unfolded x]] obtain e db where
      e: "a = Inl e" "m' = (iw_manager w)\<lparr>mg_backend := (mg_backend (iw_manager w))\<lparr>st_db := db\<rparr>\<rparr>" by blast
    have "w' = w\<lparr>iw_manager := m'\<rparr>"
      using assms(2) by (auto simp: discover_camera [OF d] ip_camera_init_service_def Done x e(1)
          split: Error.splits InternalError.splits)
    then show ?thesis using e(2) by blast
  qed
qed

lemma added_service_registered:
  assumes "manager_add_service (ip_camera_service udn url name manufacturer model) m = Done (Inr (), m')"
  shows "camera_registered udn m'"
proof -
  let ?s = "ip_camera_service udn url name manufacturer model"
  have s: "svc_getters ?s = []" "svc_setters ?s = []" "svc_adapter ?s = ip_camera_adapter_id" "svc_id ?s = ip_camera_service_id udn"
    by (simp_all add: ip_camera_service_def service_empty_def)
  have inst: "camera_registered udn (m\<lparr>mg_backend := st'\<rparr>)" if "install_service tags ?s st = (Inr (), st')" for tags st st'
    using that by (auto simp: install_service_def s camera_registered_def hm_has_def update_conv split: option.splits if_splits)
  obtain st where st: "add_service ?s (mg_backend m) = Done (Inr (), st)" "m' = m\<lparr>mg_backend := st\<rparr>"
    using assms by (auto simp: manager_add_service_def with_lock_run_def bind_outcome_Done_iff)
  show ?thesis
  proof (cases "st_db (mg_backend m)")
    case None
    then show ?thesis using st inst by (auto simp: add_service_result s split: if_splits)
  next
    case (Some db)
    obtain tags store where tags: "get_tags_for (ip_camera_service_id udn) (tag_storage_new db) = Done (tags, store)"
      using st(1) Some by (auto simp: add_service_result s bind_outcome_Done_iff split: if_splits)
    show ?thesis using st inst Some tags
      by (cases tags) (auto simp: add_service_result s split: if_splits)
  qed
qed

text \<open>When the directory of a new camera cannot be made, the listener panics after it registered the camera:
  the manager knows its service, the adapter has no camera behind it.\<close>

theorem camera_without_directory_is_registered:
  assumes "camera_description udn url name manufacturer model (us_description service)"
    and "manager_add_service (ip_camera_service (ip_camera_udn udn) url name manufacturer model) (iw_manager w)
      = Done (Inr (), m)"
    and "run_setup (ip_camera_channels (ip_camera_udn udn)) m = Done (Inr (), m')"
    and "mkdir (snapshot_dir_of (ic_snapshot_root (iw_cameras w)) (ip_camera_udn udn)) = MkdirFails"
  shows "ip_camera_discover mkdir service w = (Panic, w\<lparr>iw_manager := m'\<rparr>)
    \<and> camera_registered (ip_camera_udn udn) m"
proof
  have "ip_camera_init_service mkdir (ip_camera_udn udn) url name manufacturer model w =
      (Done (Inl (ErrInternal (GenericError (''cannot create '' @ snapshot_dir_of (ic_snapshot_root (iw_cameras w)) (ip_camera_udn udn))))),
       w\<lparr>iw_manager := m', iw_dirs := iw_dirs w\<rparr>)"
    using assms(2-4) by (simp add: ip_camera_init_service_def ip_camera_new_def Let_def)
  then show "ip_camera_discover mkdir service w = (Panic, w\<lparr>iw_manager := m'\<rparr>)"
    by (simp add: discover_camera [OF assms(1)])
qed (rule added_service_registered [OF assms(2)])

definition camera_field :: "string \<Rightarrow> string \<Rightarrow> string \<times> string" where
  "camera_field name val = (''/root/device/'' @ name, val)"

definition sample_announcement :: upnp_service where
  "sample_announcement = one_device\<lparr>us_description :=
     [camera_field ''modelName'' ''DCS-5020L'', camera_field ''presentationURL'' ''http://cam'',
      camera_field ''UDN'' ''uuid:u'', camera_field ''friendlyName'' ''cam'', camera_field ''manufacturer'' ''D-Link'']\<rparr>"

definition camera_world :: ip_world where
  "camera_world =
     \<lparr>iw_manager = snd (manager_add_adapter (Adapter ip_camera_adapter_id 0) (manager_new None)),
      iw_cameras = \<lparr>ic_getters = [], ic_setters = [], ic_snapshot_root = ''s''\<rparr>, iw_dirs = []\<rparr>"

lemma sample_description_fields:
  "camera_description ''uuid:u'' ''http://cam'' ''cam'' ''D-Link'' ''DCS-5020L'' (us_description sample_announcement)"
  by code_simp

lemma sample_discovered:
  "map_option (\<lambda>b. b) (case ip_camera_discover (\<lambda>_. MkdirOk) sample_announcement camera_world of (Done b, _) \<Rightarrow> Some b | (Panic, _) \<Rightarrow> None)
    = Some True"
  by code_simp


definition found_world :: ip_world where
  "found_world = snd (ip_camera_discover (\<lambda>_. MkdirOk) sample_announcement camera_world)"

lemma sample_description_unique:
  "camera_description udn url name manufacturer model (us_description sample_announcement) \<Longrightarrow> udn = ''uuid:u''"
  using sample_description_fields by (simp add: camera_description_def)

theorem rediscovery_changes_nothing_witness:
  "iw_cameras (snd (ip_camera_discover mkdir sample_announcement found_world)) = iw_cameras found_world"
proof -
  have "camera_registered (ip_camera_udn ''uuid:u'') (iw_manager found_world)" by code_simp
  then have reg: "camera_registered (ip_camera_udn udn) (iw_manager found_world)"
    if "camera_description udn url name manufacturer model (us_description sample_announcement)"
    for udn url name manufacturer model using sample_description_unique [OF that] by simp
  obtain r w' where d: "ip_camera_discover mkdir sample_announcement found_world = (r, w')"
    by (cases "ip_camera_discover mkdir sample_announcement found_world")
  have "\<exists>db. w' = found_world\<lparr>iw_manager := (iw_manager found_world)
      \<lparr>mg_backend := (mg_backend (iw_manager found_world))\<lparr>st_db := db\<rparr>\<rparr>\<rparr>"
    by (rule rediscovery_changes_nothing [OF _ d]) (rule reg)
  then show ?thesis by (auto simp: d)
qed

fun setup_ok :: "((Error + unit) \<times> manager) outcome \<Rightarrow> bool" where
  "setup_ok (Done (Inr _, _)) = True"
| "setup_ok _ = False"

lemma setup_okD: "setup_ok X \<Longrightarrow> \<exists>m. X = Done (Inr (), m)"
  by (cases X rule: setup_ok.cases) auto

theorem camera_without_directory_is_registered_witness:
  "\<exists>m'. ip_camera_discover (\<lambda>_. MkdirFails) sample_announcement camera_world
     = (Panic, camera_world\<lparr>iw_manager := m'\<rparr>)"
proof -
  let ?s = "ip_camera_service (ip_camera_udn ''uuid:u'') ''http://cam'' ''cam'' ''D-Link'' ''DCS-5020L''"
  have "setup_ok (manager_add_service ?s (iw_manager camera_world))" by code_simp
  then obtain m where m: "manager_add_service ?s (iw_manager camera_world) = Done (Inr (), m)" by (blast dest: setup_okD)
  have "setup_ok (bind_outcome (manager_add_service ?s (iw_manager camera_world))
      (\<lambda>(_, m). run_setup (ip_camera_channels (ip_camera_udn ''uuid:u'')) m))" by code_simp
  then have "setup_ok (run_setup (ip_camera_channels (ip_camera_udn ''uuid:u'')) m)" by (simp add: m)
  then obtain m' where m': "run_setup (ip_camera_channels (ip_camera_udn ''uuid:u'')) m = Done (Inr (), m')"
    by (blast dest: setup_okD)
  from camera_without_directory_is_registered [OF sample_description_fields m m', of "\<lambda>_. MkdirFails"]
  show ?thesis by blast
qed

end
