(* ===== verification/Hue_Color.thy ===== *)
theory Hue_Color
  imports F64
begin

text \<open>
  The colors of \<^verbatim>\<open>src/adapters/philips_hue/lights.rs\<close>. A bridge counts the hue from 0 to 65535 and
  saturation and brightness from 0 to 254; the taxonomy has degrees and fractions. The arithmetic
  is that of \<^verbatim>\<open>f64\<close>: besides the operations of \<open>F64\<close> the sum, the remainder, the two that pick
  one of their arguments, and the cast \<open>as u32\<close>.
\<close>

section \<open>More operations\<close>

fun f64_add :: "f64 \<Rightarrow> f64 \<Rightarrow> f64" where
  "f64_add (Fin a) (Fin b) = round_f64 (a + b)"
| "f64_add NaN _ = NaN"
| "f64_add _ NaN = NaN"
| "f64_add (Inf s) (Fin b) = Inf s"
| "f64_add (Fin a) (Inf s) = Inf s"
| "f64_add (Inf s) (Inf t) = (if s = t then Inf s else NaN)"

text \<open>The remainder by a positive finite number, with the sign of the dividend; it is exact.\<close>

fun f64_rem_rat :: "f64 \<Rightarrow> rat \<Rightarrow> f64" where
  "f64_rem_rat (Fin a) b = Fin (a - b * of_int (trunc_rat (a / b)))"
| "f64_rem_rat _ b = NaN"

text \<open>\<^verbatim>\<open>max\<close> and \<^verbatim>\<open>min\<close> prefer a number to \<open>NaN\<close>.\<close>

definition f64_max :: "f64 \<Rightarrow> f64 \<Rightarrow> f64" where
  "f64_max x y = (if x = NaN then y else if f64_lt x y then y else x)"

definition f64_min :: "f64 \<Rightarrow> f64 \<Rightarrow> f64" where
  "f64_min x y = (if x = NaN then y else if f64_lt y x then y else x)"

definition u32_max :: int where "u32_max = 2 ^ 32 - 1"

fun f64_as_u32 :: "f64 \<Rightarrow> int" where
  "f64_as_u32 (Fin q) = max 0 (min u32_max (trunc_rat q))"
| "f64_as_u32 (Inf s) = (if s then 0 else u32_max)"
| "f64_as_u32 NaN = 0"

section \<open>The conversions\<close>

text \<open>What \<^verbatim>\<open>get_color\<close> makes of the state of a light, and what \<^verbatim>\<open>set_color\<close> sends to the bridge.\<close>

definition color_of_state :: "int \<times> int \<times> int \<Rightarrow> f64 \<times> f64 \<times> f64" where
  "color_of_state = (\<lambda>(hue, sat, bri).
     (f64_mult (f64_div_rat (f64_of_int hue) 65536) (f64_of_int 360),
      f64_div_rat (f64_of_int sat) 254,
      f64_div_rat (f64_of_int bri) 254))"

definition hue_in_circle :: "f64 \<Rightarrow> f64" where
  "hue_in_circle hue = f64_rem_rat (f64_add (f64_rem_rat hue 360) (f64_of_int 360)) 360"

definition in_unit :: "f64 \<Rightarrow> f64" where
  "in_unit x = f64_min (f64_max x (Fin 0)) (Fin 1)"

definition state_of_color :: "f64 \<times> f64 \<times> f64 \<Rightarrow> int \<times> int \<times> int" where
  "state_of_color = (\<lambda>(hue, sat, val).
     (f64_as_u32 (f64_div_rat (f64_mult (hue_in_circle hue) (f64_of_int 65536)) 360),
      f64_as_u32 (f64_mult (in_unit sat) (f64_of_int 254)),
      f64_as_u32 (f64_mult (in_unit val) (f64_of_int 254))))"

section \<open>Exact results\<close>

text \<open>A dyadic rational of at most 53 bits is a value of the type.\<close>

lemma round_f64_dyadic_pos:
  assumes "0 < i" and "i < 2 ^ 53" and "k \<le> 1000"
  shows "round_f64 (of_int i / 2 ^ k) = Fin (of_int i / 2 ^ k)"
proof -
  define l where "l = ilog2 (nat i)"
  have "2 ^ l \<le> nat i \<and> nat i < 2 * 2 ^ l" using ilog2_bound [of "nat i"] assms(1) by (simp add: l_def)
  then have "int (2 ^ l) \<le> int (nat i) \<and> int (nat i) < int (2 * 2 ^ l)" by (simp only: of_nat_le_iff of_nat_less_iff)
  then have l: "2 ^ l \<le> i" "i < 2 * 2 ^ l" using assms(1) by simp_all
  have l52: "l \<le> 52"
  proof (rule ccontr)
    assume "\<not> ?thesis"
    then have "(2 :: int) ^ 53 \<le> 2 ^ l" by (intro power_increasing) auto
    with l assms(2) show False by linarith
  qed
  define e where "e = int l - int k - 52"
  have ulp: "ulp_exp (of_int i / 2 ^ k) = e"
  proof (rule ulp_expI)
    show "- 1074 \<le> e" using assms(3) by (simp add: e_def)
    have ri: "(2 :: rat) ^ l \<le> of_int i" "(of_int i :: rat) < 2 * 2 ^ l"
      using l by (metis of_int_le_iff of_int_numeral of_int_power)
        (use l in \<open>metis of_int_less_iff of_int_mult of_int_numeral of_int_power\<close>)
    have "pow2 (e + 52) = 2 ^ l / 2 ^ k" by (simp add: e_def pow2_diff pow2_nat)
    then show "pow2 (e + 52) \<le> of_int i / 2 ^ k" using ri(1) by (simp add: divide_right_mono)
    have "pow2 (e + 53) = 2 * 2 ^ l / 2 ^ k"
      by (simp add: e_def pow2_diff pow2_add pow2_nat pow2_one add.commute [of _ 1] diff_add_eq)
    then show "of_int i / 2 ^ k < pow2 (e + 53)" using ri(2) by (simp add: divide_strict_right_mono)
  qed
  show ?thesis
  proof (rule round_f64_posI [OF _ ulp])
    show "0 < of_int i / (2 :: rat) ^ k" using assms(1) by simp
    let ?m = "i * 2 ^ (52 - l)"
    have pe: "pow2 e = 2 ^ l / (2 ^ k * 2 ^ 52)" by (simp add: e_def pow2_diff pow2_nat pow2_def [of 52])
    have m: "of_int i / 2 ^ k / pow2 e = of_int ?m"
    proof -
      have "(2 :: rat) ^ 52 = 2 ^ l * 2 ^ (52 - l)" using l52 by (simp flip: power_add)
      then show ?thesis by (simp add: pe field_simps)
    qed
    show "\<bar>of_int i / 2 ^ k / pow2 e - of_int ?m\<bar> < (1 / 2 :: rat)" by (simp only: m)
    show "of_int ?m * pow2 e = of_int i / 2 ^ k" using pow2_pos [of e] by (simp only: m [symmetric]) simp
    have "of_int i / 2 ^ k \<le> (of_int i :: rat)" using assms(1) by (simp add: divide_le_eq mult_le_cancel_left1)
    also have "\<dots> < of_int (2 ^ 53)" using assms(2) by (subst of_int_less_iff)
    finally show "of_int i / 2 ^ k < pow2 1024" by (intro pow2_large) simp
  qed
qed

lemma round_f64_dyadic:
  assumes "0 \<le> i" and "i < 2 ^ 53" and "k \<le> 1000"
  shows "round_f64 (of_int i / 2 ^ k) = Fin (of_int i / 2 ^ k)"
  using round_f64_dyadic_pos [OF _ assms(2,3)] assms(1) by (cases "i = 0") (simp_all add: round_f64_def)


text \<open>A quotient of positive integers, rounded: the exponent and the significand are checked in integers.\<close>

definition rounds_to :: "int \<Rightarrow> int \<Rightarrow> nat \<Rightarrow> int \<Rightarrow> bool" where
  "rounds_to a b k m \<longleftrightarrow>
     2 ^ 52 * b \<le> a * 2 ^ k \<and> a * 2 ^ k < 2 ^ 53 * b \<and> 2 * \<bar>a * 2 ^ k - m * b\<bar> < b"

lemma of_int_two_power: "of_int (2 ^ n) = (2 :: rat) ^ n"
  by simp

lemma rounds_to_round:
  assumes "rounds_to a b k m" and "0 < a" and "0 < b" and "k \<le> 1000"
  shows "round_f64 (of_int a / of_int b) = Fin (of_int m / 2 ^ k)"
proof -
  have i: "2 ^ 52 * b \<le> a * 2 ^ k" "a * 2 ^ k < 2 ^ 53 * b" "2 * \<bar>a * 2 ^ k - m * b\<bar> < b"
    using assms(1) by (simp_all only: rounds_to_def)
  have b: "(0 :: rat) < of_int b" using assms(3) by simp
  have r1: "2 ^ 52 * of_int b \<le> (of_int a * 2 ^ k :: rat)"
    using i(1) by (simp only: of_int_le_iff of_int_mult of_int_two_power flip: of_int_le_iff [where 'a = rat])
  have r2: "(of_int a * 2 ^ k :: rat) < 2 ^ 53 * of_int b"
    using i(2) by (simp only: of_int_mult of_int_two_power flip: of_int_less_iff [where 'a = rat])
  have "of_int (2 * \<bar>a * 2 ^ k - m * b\<bar>) < (of_int b :: rat)" using i(3) by (simp only: of_int_less_iff)
  then have r3: "2 * \<bar>of_int a * 2 ^ k - of_int m * of_int b\<bar> < (of_int b :: rat)" by simp
  have pe: "pow2 (- int k) = 1 / 2 ^ k" by (simp add: pow2_def)
  have p52: "pow2 (52 - int k) = 2 ^ 52 / 2 ^ k" "pow2 (53 - int k) = 2 ^ 53 / 2 ^ k"
    by (simp_all only: pow2_diff pow2_nat) (simp_all add: pow2_def)
  have scaled: "of_int a / of_int b / pow2 (- int k) = of_int a * 2 ^ k / (of_int b :: rat)" by (simp add: pe)
  have "of_int a * 2 ^ k / of_int b - of_int m = (of_int a * 2 ^ k - of_int m * of_int b) / (of_int b :: rat)"
    using b by (simp add: field_simps)
  then have near: "\<bar>of_int a * 2 ^ k / of_int b - of_int m\<bar> < (1 / 2 :: rat)"
    using r3 b by (simp add: abs_divide divide_less_eq)
  show ?thesis
  proof (rule round_f64_posI)
    show "0 < of_int a / (of_int b :: rat)" using assms(2) b by simp
    show "ulp_exp (of_int a / of_int b) = - int k"
    proof (rule ulp_expI)
      show "- 1074 \<le> - int k" using assms(4) by simp
      show "pow2 (- int k + 52) \<le> of_int a / of_int b" using r1 b by (simp add: p52 field_simps)
      show "of_int a / of_int b < pow2 (- int k + 53)" using r2 b by (simp add: p52 field_simps)
    qed
    show "\<bar>of_int a / of_int b / pow2 (- int k) - of_int m\<bar> < (1 / 2 :: rat)" using near by (simp only: scaled)
    show "of_int m * pow2 (- int k) = of_int m / 2 ^ k" by (simp add: pe)
    have "of_int m < (2 :: rat) ^ 53 + 1"
    proof -
      have "of_int a * 2 ^ k / of_int b < (2 :: rat) ^ 53" using r2 b by (simp add: divide_less_eq)
      with near show ?thesis by linarith
    qed
    moreover have "of_int m / 2 ^ k \<le> max (0 :: rat) (of_int m)"
      by (cases "0 \<le> m") (auto simp: divide_le_eq mult_le_cancel_left1 divide_nonpos_pos max_def)
    moreover have "(2 :: rat) ^ 53 + 1 < pow2 1024" by (rule less_trans [of _ "2 ^ 54"]) (simp_all add: pow2_def)
    ultimately show "of_int m / 2 ^ k < pow2 1024" using pow2_pos [of 1024] by (auto simp: max_def split: if_splits)
  qed
qed

text \<open>One byte, divided by 254 and multiplied again; the exponents of the two results are known from the
  position of its leading bit.\<close>

definition byte_ok :: "int \<Rightarrow> bool" where
  "byte_ok s \<longleftrightarrow>
     (let i = ilog2 (nat s);
          k = (if s = 127 \<or> s = 254 then 59 - i else 60 - i);
          j = (if s = 2 ^ i then 53 - i else 52 - i);
          m = (2 * s * 2 ^ k + 254) div 508;
          n = (2 * m * 254 * 2 ^ j + 2 ^ k) div (2 * 2 ^ k)
      in rounds_to s 254 k m \<and> m \<le> 2 ^ k \<and> 0 < m \<and> rounds_to (m * 254) (2 ^ k) j n \<and> n div 2 ^ j = s)"

lemma low_bytes_ok: "list_all byte_ok [1..85]"
  by code_simp

lemma middle_bytes_ok: "list_all byte_ok [86..170]"
  by code_simp

lemma high_bytes_ok: "list_all byte_ok [171..254]"
  by code_simp

lemma all_bytes_ok: "1 \<le> s \<Longrightarrow> s \<le> 254 \<Longrightarrow> byte_ok s"
proof -
  assume "1 \<le> s" "s \<le> 254"
  then consider "s \<in> set [1..85]" | "s \<in> set [86..170]" | "s \<in> set [171..254]"
    unfolding set_upto atLeastAtMost_iff by linarith
  then show "byte_ok s"
    using low_bytes_ok middle_bytes_ok high_bytes_ok by cases (simp_all only: list_all_iff)
qed

lemma in_unit_id: "0 \<le> q \<Longrightarrow> q \<le> 1 \<Longrightarrow> in_unit (Fin q) = Fin q"
  by (simp add: in_unit_def f64_max_def f64_min_def)

lemma if_both: "(x :: nat) \<le> n \<Longrightarrow> y \<le> n \<Longrightarrow> (if b then x else y) \<le> n"
  by simp

lemma byte_okE:
  assumes "byte_ok s"
  obtains k m j n where "k \<le> 60" "rounds_to s 254 k m" "m \<le> 2 ^ k" "0 < m"
    "j \<le> 53" "rounds_to (m * 254) (2 ^ k) j n" "n div 2 ^ j = s"
proof -
  define i where "i = ilog2 (nat s)"
  define k where "k = (if s = 127 \<or> s = 254 then 59 - i else 60 - i)"
  define j where "j = (if s = 2 ^ i then 53 - i else 52 - i)"
  define m where "m = (2 * s * 2 ^ k + 254) div 508"
  define n where "n = (2 * m * 254 * 2 ^ j + 2 ^ k) div (2 * 2 ^ k)"
  have bounds: "59 - i \<le> 60" "60 - i \<le> 60" "53 - i \<le> 53" "52 - i \<le> 53" by linarith+
  have "k \<le> 60" unfolding k_def using bounds(1,2) by (rule if_both)
  moreover have "j \<le> 53" unfolding j_def using bounds(3,4) by (rule if_both)
  moreover have "rounds_to s 254 k m \<and> m \<le> 2 ^ k \<and> 0 < m \<and> rounds_to (m * 254) (2 ^ k) j n \<and> n div 2 ^ j = s"
    using assms unfolding byte_ok_def Let_def n_def m_def k_def j_def i_def .
  ultimately show thesis using that by blast
qed

lemma byte_roundtrip:
  assumes "0 \<le> s" and "s \<le> 254"
  shows "f64_as_u32 (f64_mult (in_unit (f64_div_rat (f64_of_int s) 254)) (f64_of_int 254)) = s"
proof (cases "s = 0")
  case True
  then show ?thesis by (simp add: f64_of_int_exact round_f64_def in_unit_def f64_max_def f64_min_def trunc_rat_def u32_max_def)
next
  case False
  with assms have "byte_ok s" by (intro all_bytes_ok) linarith+
  then obtain k m j n where
    k: "k \<le> 60" "rounds_to s 254 k m" "m \<le> 2 ^ k" "0 < m"
    and j: "j \<le> 53" "rounds_to (m * 254) (2 ^ k) j n" "n div 2 ^ j = s"
    by (rule byte_okE)
  have "round_f64 (of_int s / of_int 254) = Fin (of_int m / 2 ^ k)"
    by (rule rounds_to_round [OF k(2)]) (use assms False k(1) in auto)
  then have 1: "f64_div_rat (f64_of_int s) 254 = Fin (of_int m / 2 ^ k)"
    using assms by (simp add: f64_of_int_exact)
  have "(of_int m :: rat) \<le> of_int (2 ^ k)" using k(3) by (simp only: of_int_le_iff)
  then have 2: "in_unit (Fin (of_int m / 2 ^ k)) = Fin (of_int m / 2 ^ k)"
    using k(4) by (intro in_unit_id) (simp_all add: divide_le_eq)
  have "round_f64 (of_int (m * 254) / of_int (2 ^ k)) = Fin (of_int n / 2 ^ j)"
    by (rule rounds_to_round [OF j(2)]) (use k(4) j(1) in auto)
  then have 3: "f64_mult (Fin (of_int m / 2 ^ k)) (f64_of_int 254) = Fin (of_int n / 2 ^ j)"
    by (simp add: f64_of_int_exact)
  have "trunc_rat (of_int n / of_int (2 ^ j)) = n div 2 ^ j"
    using j(3) assms floor_divide_of_int_eq [of n "2 ^ j", where ?'a = rat]
    by (auto simp: trunc_rat_def zero_le_divide_iff pos_imp_zdiv_nonneg_iff)
  then show ?thesis using assms j(3) by (simp add: 1 2 3 u32_max_def)
qed

lemma hue_roundtrip:
  assumes "0 \<le> h" and "h \<le> 65535"
  shows "f64_as_u32 (f64_div_rat (f64_mult (hue_in_circle
     (f64_mult (f64_div_rat (f64_of_int h) 65536) (f64_of_int 360))) (f64_of_int 65536)) 360) = h"
proof -
  have 1: "f64_div_rat (f64_of_int h) 65536 = Fin (of_int h / 2 ^ 16)"
    using round_f64_dyadic [of h 16] assms by (simp add: f64_of_int_exact)
  have 2: "f64_mult (Fin (of_int h / 2 ^ 16)) (f64_of_int 360) = Fin (of_int (h * 360) / 2 ^ 16)"
    using round_f64_dyadic [of "h * 360" 16] assms by (simp add: f64_of_int_exact)
  have h: "(0 :: rat) \<le> of_int h" "(of_int h :: rat) < 65536"
    using assms by simp (use assms of_int_less_iff [of h 65536, where ?'a = rat] in simp)
  let ?x = "of_int (h * 360) / 2 ^ 16 :: rat"
  have "trunc_rat (?x / 360) = 0" using h by (simp add: trunc_rat_def floor_eq_iff)
  then have 3: "f64_rem_rat (Fin ?x) 360 = Fin ?x" by simp
  have 4: "f64_add (Fin ?x) (f64_of_int 360) = Fin (?x + 360)"
    using round_f64_dyadic [of "h * 360 + 360 * 65536" 16] assms by (simp add: f64_of_int_exact add_divide_distrib)
  have "trunc_rat ((?x + 360) / 360) = 1" using h by (simp add: trunc_rat_def floor_eq_iff)
  then have 5: "f64_rem_rat (Fin (?x + 360)) 360 = Fin ?x" by simp
  have 6: "f64_mult (Fin ?x) (f64_of_int 65536) = Fin (of_int (h * 360))"
    using round_f64_int [of "h * 360"] assms by (simp add: f64_of_int_exact mult.commute)
  have 7: "f64_div_rat (Fin (of_int (h * 360))) 360 = Fin (of_int h)"
    using round_f64_int [of h] assms by simp
  show ?thesis unfolding 1 2 hue_in_circle_def 3 4 5 6 7 using assms by (simp add: trunc_rat_def u32_max_def)
qed

text \<open>C32: The color that is read from a bridge and sent back is the state it was read from: no rounding of the
  conversions to degrees and fractions and back ever changes hue, saturation or brightness.\<close>

theorem hue_color_roundtrip:
  assumes "0 \<le> hue" "hue \<le> 65535" "0 \<le> sat" "sat \<le> 254" "0 \<le> bri" "bri \<le> 254"
  shows "state_of_color (color_of_state (hue, sat, bri)) = (hue, sat, bri)"
  unfolding state_of_color_def color_of_state_def prod.case
  using assms by (simp add: byte_roundtrip hue_roundtrip del: f64_as_u32.simps f64_mult.simps f64_div_rat.simps)

theorem hue_color_roundtrip_witness:
  "state_of_color (color_of_state (46920, 253, 1)) = (46920, 253, 1)"
  by (rule hue_color_roundtrip) simp_all

section \<open>Bounds\<close>

lemma ulp_exp_small:
  assumes "0 < q" and "q < pow2 (e + 53)" and "- 1074 \<le> e"
  shows "ulp_exp q \<le> e"
proof -
  obtain a b where q: "quotient_of q = (a, b)" by (cases "quotient_of q")
  let ?k = "int (ilog2 (nat a)) - int (ilog2 (nat b))"
  have "pow2 (?k - 1) < pow2 (e + 53)" using ilog2_quotient(1) [OF assms(1) q] assms(2) by linarith
  then have k: "?k < e + 54" by (simp add: pow2_less_iff)
  have "(if q < pow2 ?k then ?k - 1 else ?k) \<le> e + 52"
  proof (cases "q < pow2 ?k")
    case False
    with assms(2) have "pow2 ?k < pow2 (e + 53)" by linarith
    with False show ?thesis by (simp add: pow2_less_iff)
  qed (use k in simp)
  with assms(3) q show ?thesis by (simp add: ulp_exp_def Let_def split: if_splits)
qed

lemma ulp_exp_large:
  assumes "pow2 (e + 52) \<le> q"
  shows "e \<le> ulp_exp q"
proof -
  have "0 < q" using assms pow2_pos [of "e + 52"] by linarith
  obtain a b where q: "quotient_of q = (a, b)" by (cases "quotient_of q")
  let ?k = "int (ilog2 (nat a)) - int (ilog2 (nat b))"
  have "pow2 (e + 52) < pow2 (?k + 1)" using ilog2_quotient(2) [OF \<open>0 < q\<close> q] assms by linarith
  then have k: "e + 51 < ?k" by (simp add: pow2_less_iff)
  have "e + 52 \<le> (if q < pow2 ?k then ?k - 1 else ?k)"
  proof (cases "q < pow2 ?k")
    case True
    with assms have "pow2 (e + 52) < pow2 ?k" by linarith
    with True show ?thesis by (simp add: pow2_less_iff)
  qed (use k in simp)
  with q show ?thesis by (simp add: ulp_exp_def Let_def split: if_splits)
qed

lemma round_half_even_mono_int: "x \<le> of_int i \<Longrightarrow> round_half_even x \<le> i"
  by (auto simp: round_half_even_def Let_def floor_le_iff le_floor_iff)

lemma round_half_even_nonneg: "0 \<le> x \<Longrightarrow> 0 \<le> round_half_even x"
  by (auto simp: round_half_even_def Let_def)

text \<open>Rounding does not pass an integer of the type.\<close>

lemma round_f64_le_int:
  assumes "0 \<le> q" and "q \<le> of_int i" and "i < 2 ^ 53"
  obtains v where "round_f64 q = Fin v" "0 \<le> v" "v \<le> of_int i"
proof (cases "q = 0")
  case True
  with assms(2) that [of 0] show thesis by (simp add: round_f64_def)
next
  case False
  with assms(1) have q: "0 < q" by simp
  have "of_int i < (of_int (2 ^ 53) :: rat)" using assms(3) by (subst of_int_less_iff)
  then have i53: "of_int i < (2 :: rat) ^ 53" by simp
  let ?e = "ulp_exp q"
  have e: "?e \<le> 0" using q assms(2) i53 by (intro ulp_exp_small) (simp_all add: pow2_def)
  let ?m = "round_half_even (q / pow2 ?e)"
  have "q / pow2 ?e \<le> of_int i / pow2 ?e" using assms(2) pow2_pos [of ?e] by (simp add: divide_right_mono)
  then have "q / pow2 ?e \<le> of_int (i * 2 ^ nat (- ?e))" by (simp only: pow2_neg_int [OF e])
  then have m: "?m \<le> i * 2 ^ nat (- ?e)" by (rule round_half_even_mono_int)
  have m0: "0 \<le> ?m" using q pow2_pos [of ?e] by (intro round_half_even_nonneg) simp
  have "(of_int ?m :: rat) \<le> of_int (i * 2 ^ nat (- ?e))" using m by (simp only: of_int_le_iff)
  then have "of_int ?m \<le> (of_int i / pow2 ?e :: rat)" by (simp only: pow2_neg_int [OF e])
  then have v: "of_int ?m * pow2 ?e \<le> (of_int i :: rat)" using pow2_pos [of ?e] by (simp add: pos_le_divide_eq)
  moreover have "of_int i < pow2 1024" using i53 by (rule pow2_large)
  ultimately have "round_f64 q = Fin (of_int ?m * pow2 ?e)"
    using q by (simp add: round_f64_def Let_def)
  moreover have "0 \<le> of_int ?m * pow2 ?e" using m0 pow2_pos [of ?e] by simp
  ultimately show thesis using v that by blast
qed

lemma f64_le_int_as_u32:
  assumes "0 \<le> q" and "q \<le> of_int i" and "i < 2 ^ 32"
  shows "0 \<le> f64_as_u32 (round_f64 q) \<and> f64_as_u32 (round_f64 q) \<le> i"
proof -
  obtain v where v: "round_f64 q = Fin v" "0 \<le> v" "v \<le> of_int i"
    by (rule round_f64_le_int [OF assms(1,2)]) (use assms(3) in auto)
  then have "trunc_rat v \<le> i" "0 \<le> trunc_rat v" by (simp_all add: trunc_rat_def floor_le_iff less_le_trans)
  then show ?thesis by (auto simp: v u32_max_def)
qed

lemma in_unit_range: obtains q where "in_unit x = Fin q" "0 \<le> q" "q \<le> 1"
proof (cases x)
  case (Fin r)
  show thesis
  proof (cases "0 \<le> r")
    case True
    then show thesis using that [of r] that [of 1] Fin
      by (cases "r \<le> 1") (auto simp: in_unit_def f64_max_def f64_min_def)
  next
    case False
    then show thesis using that [of 0] Fin by (auto simp: in_unit_def f64_max_def f64_min_def)
  qed
next
  case (Inf s)
  then show thesis using that [of 0] that [of 1] by (cases s) (simp_all add: in_unit_def f64_max_def f64_min_def)
next
  case NaN
  then show thesis using that [of 0] by (simp add: in_unit_def f64_max_def f64_min_def)
qed

lemma byte_bounds:
  "0 \<le> f64_as_u32 (f64_mult (in_unit x) (f64_of_int 254)) \<and> f64_as_u32 (f64_mult (in_unit x) (f64_of_int 254)) \<le> 254"
proof -
  obtain q where q: "in_unit x = Fin q" "0 \<le> q" "q \<le> 1" by (rule in_unit_range)
  then show ?thesis using f64_le_int_as_u32 [of "q * 254" 254] by (simp add: f64_of_int_exact)
qed

text \<open>The angle after the reduction: a number below 360, and on the grid of the type from 256 on.\<close>

lemma round_f64_grid:
  assumes "256 \<le> v" and "round_f64 q = Fin v" and "0 \<le> q" and "q \<le> 720"
  obtains i where "v = of_int i / 2 ^ 44"
proof -
  have q: "0 < q" using assms by (cases "q = 0") (auto simp: round_f64_def)
  have "256 \<le> q \<or> q < 256" by linarith
  then show thesis
  proof
    assume "256 \<le> q"
    then have e: "- 44 \<le> ulp_exp q" by (intro ulp_exp_large) (simp add: pow2_def)
    let ?m = "round_half_even (q / pow2 (ulp_exp q))"
    have "v = of_int ?m * pow2 (ulp_exp q)"
      using assms(2) q by (auto simp: round_f64_def Let_def split: if_splits)
    also have "\<dots> = of_int (?m * 2 ^ nat (ulp_exp q + 44)) / 2 ^ 44"
      using e pow2_add [of "- 44" "ulp_exp q + 44"] by (simp add: pow2_def [of "- 44"] pow2_nonneg_exp)
    finally show thesis by (rule that)
  next
    assume "q < 256"
    obtain w where "round_f64 q = Fin w" "w \<le> of_int 256"
      by (rule round_f64_le_int [OF assms(3), of 256]) (use \<open>q < 256\<close> in auto)
    with assms(1,2) have "v = 256" by simp
    then have "v = of_int (256 * 2 ^ 44) / 2 ^ 44" by simp
    then show thesis by (rule that)
  qed
qed

lemma rem_360: "\<bar>a - 360 * of_int (trunc_rat (a / 360))\<bar> < 360"
proof (cases "0 \<le> a")
  case True
  have "of_int \<lfloor>a / 360\<rfloor> \<le> a / 360" "a / 360 < of_int \<lfloor>a / 360\<rfloor> + 1" by linarith+
  then have "0 \<le> a - 360 * of_int \<lfloor>a / 360\<rfloor>" "a - 360 * of_int \<lfloor>a / 360\<rfloor> < 360" by linarith+
  with True show ?thesis by (simp add: trunc_rat_def)
next
  case False
  have "of_int \<lceil>a / 360\<rceil> - 1 < a / 360" "a / 360 \<le> of_int \<lceil>a / 360\<rceil>" by linarith+
  then have "a - 360 * of_int \<lceil>a / 360\<rceil> \<le> 0" "- 360 < a - 360 * of_int \<lceil>a / 360\<rceil>" by linarith+
  with False show ?thesis by (simp add: trunc_rat_def)
qed

lemma hue_in_circle_range:
  assumes "hue = Fin h"
  obtains x where "hue_in_circle hue = Fin x" "0 \<le> x" "x < 360" "x < 256 \<or> (\<exists>i. x = of_int i / 2 ^ 44)"
proof -
  define a where "a = h - 360 * of_int (trunc_rat (h / 360))"
  have a: "\<bar>a\<bar> < 360" unfolding a_def by (rule rem_360)
  then have nn: "0 \<le> a + 360" "a + 360 \<le> of_int 720" by simp_all
  obtain y where y: "round_f64 (a + 360) = Fin y" "0 \<le> y" "y \<le> 720"
    by (rule round_f64_le_int [OF nn]) auto
  define x where "x = y - 360 * of_int \<lfloor>y / 360\<rfloor>"
  have "hue_in_circle hue = Fin x"
  proof -
    have "f64_rem_rat hue 360 = Fin a" by (simp add: assms a_def)
    moreover have "trunc_rat (y / 360) = \<lfloor>y / 360\<rfloor>" using y(2) by (simp add: trunc_rat_def)
    ultimately show ?thesis using y(1) by (simp add: hue_in_circle_def f64_of_int_exact x_def)
  qed
  moreover have "0 \<le> x" "x < 360"
  proof -
    have "of_int \<lfloor>y / 360\<rfloor> \<le> y / 360" "y / 360 < of_int \<lfloor>y / 360\<rfloor> + 1" by linarith+
    then show "0 \<le> x" "x < 360" by (simp_all add: x_def)
  qed
  moreover have "x < 256 \<or> (\<exists>i. x = of_int i / 2 ^ 44)"
  proof (cases "y < 256")
    case True
    then have "\<lfloor>y / 360\<rfloor> = 0" using y(2) by (simp add: floor_eq_iff)
    with True show ?thesis by (simp add: x_def)
  next
    case False
    then obtain i where "y = of_int i / 2 ^ 44" using round_f64_grid [OF _ y(1)] nn by auto
    then have "x = of_int (i - 360 * \<lfloor>y / 360\<rfloor> * 2 ^ 44) / 2 ^ 44" by (simp add: x_def diff_divide_distrib)
    then show ?thesis by blast
  qed
  ultimately show thesis by (rule that)
qed

lemma hue_bounds:
  assumes "hue = Fin h"
  shows "0 \<le> f64_as_u32 (f64_div_rat (f64_mult (hue_in_circle hue) (f64_of_int 65536)) 360)
    \<and> f64_as_u32 (f64_div_rat (f64_mult (hue_in_circle hue) (f64_of_int 65536)) 360) \<le> 65535"
proof -
  obtain x where x: "hue_in_circle hue = Fin x" "0 \<le> x" "x < 360" "x < 256 \<or> (\<exists>i. x = of_int i / 2 ^ 44)"
    by (rule hue_in_circle_range [OF assms])
  show ?thesis
  proof (cases "x < 256")
    case True
    obtain v where v: "round_f64 (x * 65536) = Fin v" "0 \<le> v" "v \<le> of_int (256 * 65536)"
      by (rule round_f64_le_int [of "x * 65536" "256 * 65536"]) (use x(2) True in auto)
    from v(2,3) have "0 \<le> v / 360" "v / 360 \<le> of_int 65535" by simp_all
    from f64_le_int_as_u32 [OF this] show ?thesis by (simp add: x(1) v(1) f64_of_int_exact)
  next
    case False
    with x(4) obtain i where i: "x = of_int i / 2 ^ 44" by blast
    have "(of_int i :: rat) < of_int (360 * 2 ^ 44)" using x(3) by (simp add: i divide_less_eq)
    then have i1: "i \<le> 360 * 2 ^ 44 - 1" by (simp only: of_int_less_iff)
    have i0: "0 \<le> i" using x(2) by (simp add: i)
    have 1: "round_f64 (x * 65536) = Fin (of_int i / 2 ^ 28)"
      using round_f64_dyadic [OF i0, of 28] i1 by (simp add: i)
    define q where "q = (of_int i / 2 ^ 28 / 360 :: rat)"
    have "(of_int i :: rat) \<le> of_int (360 * 2 ^ 44 - 1)" using i1 by (simp only: of_int_le_iff)
    then have q: "q \<le> (360 * 2 ^ 44 - 1) / 2 ^ 28 / 360" by (simp add: q_def)
    have q0: "0 \<le> q" using i0 by (simp add: q_def)
    have "f64_as_u32 (round_f64 q) \<le> 65535"
    proof (cases "q \<le> of_int 65535")
      case True
      from f64_le_int_as_u32 [OF q0 this] show ?thesis by simp
    next
      case False
      have "q < pow2 16" using q by (simp add: pow2_def)
      then have e: "ulp_exp q = - 37" using False by (intro ulp_expI) (simp_all add: pow2_def)
      have "q / pow2 (- 37) \<le> of_int (2 ^ 53 - 1)" using q by (simp add: pow2_def)
      then have m: "round_half_even (q / pow2 (- 37)) \<le> 2 ^ 53 - 1" by (rule round_half_even_mono_int)
      let ?m = "round_half_even (q / pow2 (- 37))"
      have "(of_int ?m :: rat) \<le> of_int (2 ^ 53 - 1)" using m by (simp only: of_int_le_iff)
      then have v: "of_int ?m * pow2 (- 37) < 65536" by (simp add: pow2_def)
      moreover have "0 \<le> ?m" using q0 by (intro round_half_even_nonneg) (simp add: pow2_def)
      ultimately have "round_f64 q = Fin (of_int ?m * pow2 (- 37))"
        using False e by (simp add: round_f64_def Let_def) (simp add: pow2_def)
      moreover have "trunc_rat (of_int ?m * pow2 (- 37)) \<le> 65535"
        using v \<open>0 \<le> ?m\<close> by (simp add: trunc_rat_def floor_le_iff pow2_def)
      ultimately show ?thesis by simp
    qed
    moreover have "0 \<le> f64_as_u32 (round_f64 q)"
    proof -
      have "q \<le> of_int 65536" using q by simp
      from f64_le_int_as_u32 [OF q0 this] show ?thesis by simp
    qed
    ultimately show ?thesis by (simp add: x(1) f64_of_int_exact 1 q_def)
  qed
qed

text \<open>Whatever color is asked for, a finite hue of any size and any saturation and brightness, infinite
  and not a number included, what is sent is in the ranges of the bridge: no rounding takes the hue to 65536.\<close>

theorem sent_color_is_in_range:
  assumes "state_of_color (Fin h, sat, val) = (hue', sat', bri')"
  shows "0 \<le> hue' \<and> hue' \<le> 65535 \<and> 0 \<le> sat' \<and> sat' \<le> 254 \<and> 0 \<le> bri' \<and> bri' \<le> 254"
  using assms hue_bounds [of "Fin h" h, OF refl] byte_bounds [of sat] byte_bounds [of val]
  unfolding state_of_color_def prod.case by blast

theorem sent_color_is_in_range_witness:
  "\<exists>hue' sat' bri'. state_of_color (Fin (- 7), NaN, Inf False) = (hue', sat', bri')
     \<and> hue' \<le> 65535 \<and> sat' \<le> 254 \<and> bri' \<le> 254"
proof -
  obtain hue' sat' bri' where s: "state_of_color (Fin (- 7), NaN, Inf False) = (hue', sat', bri')"
    by (metis prod_cases3)
  with sent_color_is_in_range [OF s] show ?thesis by blast
qed

end
