(* ===== verification/Philips_Hue.thy ===== *)
theory Philips_Hue
  imports Adapter_Setup Hue_Color Upnp "HOL-Library.Sublist"
begin

text \<open>
  \<^verbatim>\<open>src/adapters/philips_hue\<close>: bridges and their lights. A bridge is found by its announcements
  or by a server, a thread of its own waits until it is paired and tells its lights to the main
  thread of the adapter, which offers them as services. Objects shared between threads are in a store:
  the connection to a bridge (\<^verbatim>\<open>Arc<Mutex<HubApi>>\<close>) is an index into \<open>hu_apis\<close>, with the flag of its
  mutex. Requests to the network and the derived reading of JSON are parameters.
\<close>

section \<open>State\<close>

record hub_api =
  ha_id :: string
  ha_ip :: string
  ha_token :: string
  ha_poisoned :: bool

record hue_light =
  hl_api :: nat
  hl_hub_id :: string
  hl_light_id :: string
  hl_service_id :: ServiceId
  hl_get_available_id :: GetterId
  hl_get_power_id :: GetterId
  hl_set_power_id :: SetterId
  hl_get_color_id :: GetterId
  hl_set_color_id :: SetterId

record hue_hub =
  hb_id :: string
  hb_ip :: string
  hb_api :: nat

datatype HueAction =
    TriggerDiscovery
  | AddHub string string
  | AddLight string string
  | RemoveHub string
  | RemoveLight string string
  | StopAdapter

text \<open>The threads of the hubs.\<close>

datatype hub_phase =
    HubCheck | HubIsPaired | HubPairing nat | HubNewToken string | HubPaired | HubConnect | HubLights
  | HubTelling "string list" | HubMonitor | HubDied

record hub_thread =
  ht_id :: string
  ht_api :: nat
  ht_phase :: hub_phase

datatype main_thread = MainRunning | MainStopped | MainDied

record 'b hue_state =
  hu_manager :: manager
  hu_config :: "config_store \<times> 'b files"
  hu_getters :: "(GetterId, hue_light) hashmap"
  hu_setters :: "(SetterId, hue_light) hashmap"
  hu_hubs :: "(string, hue_hub) hashmap"
  hu_lights :: "(string, hue_light) hashmap"
  hu_apis :: "hub_api list"
  hu_queue :: "HueAction list"
  hu_main :: main_thread
  hu_threads :: "hub_thread list"
  hu_puts :: "(string \<times> JSON) list"
  hu_notifications :: "(string \<times> string) list"
  hu_searches :: nat

text \<open>The state of a light, as a bridge reports it.\<close>

record light_entry =
  le_lighttype :: string
  le_manufacturername :: string
  le_modelid :: string
  le_name :: string
  le_on :: bool
  le_reachable :: bool
  le_bri :: int
  le_hue :: "int option"
  le_sat :: "int option"

record pairing_response =
  pr_success :: "string option"
  pr_error :: "string option" \<comment> \<open>its description\<close>

record 'b hue_env =
  he_codec :: "'b codec"
  he_io :: save_io
  he_get :: "string \<Rightarrow> string option"
  he_post :: "string \<Rightarrow> JSON \<Rightarrow> string option"
  he_light :: "string \<Rightarrow> light_entry option"
  he_lights :: "string \<Rightarrow> string list option" \<comment> \<open>the keys\<close>
  he_settings :: "string \<Rightarrow> bool" \<comment> \<open>can be read\<close>
  he_pairing :: "string \<Rightarrow> pairing_response list option"
  he_nupnp :: "string \<Rightarrow> (string \<times> string) list option"
  he_search_ok :: bool

section \<open>The interface of a bridge\<close>

definition hub_api_new :: "string \<Rightarrow> string \<Rightarrow> string \<Rightarrow> hub_api" where
  "hub_api_new i ip token = \<lparr>ha_id = i, ha_ip = ip, ha_token = token, ha_poisoned = False\<rparr>"

definition update_token :: "string \<Rightarrow> hub_api \<Rightarrow> hub_api" where
  "update_token token api = api\<lparr>ha_token := token\<rparr>"

definition api_url :: "string \<Rightarrow> hub_api \<Rightarrow> string" where
  "api_url cmd api = ''http://'' @ ha_ip api @ ''/api/'' @ ha_token api @ ''/'' @ cmd"

definition api_get :: "'b hue_env \<Rightarrow> string \<Rightarrow> hub_api \<Rightarrow> string option" where
  "api_get E cmd api = he_get E (api_url cmd api)"

definition post_unauth :: "'b hue_env \<Rightarrow> string \<Rightarrow> JSON \<Rightarrow> hub_api \<Rightarrow> string option" where
  "post_unauth E cmd data api = he_post E (''http://'' @ ha_ip api @ ''/'' @ cmd) data"

definition is_available :: "'b hue_env \<Rightarrow> hub_api \<Rightarrow> bool" where
  "is_available E api =
     (case he_get E (''http://'' @ ha_ip api @ ''/'') of
        Some val \<Rightarrow> sublist ''hue personal wireless lighting'' val
      | None \<Rightarrow> False)"

definition get_settings :: "'b hue_env \<Rightarrow> hub_api \<Rightarrow> string" where
  "get_settings E api = (case api_get E '''' api of Some s \<Rightarrow> s | None \<Rightarrow> '''')"

definition is_paired :: "'b hue_env \<Rightarrow> hub_api \<Rightarrow> bool" where
  "is_paired E api \<longleftrightarrow> \<not> sublist ''unauthorized user'' (get_settings E api)"

definition try_pairing :: "'b hue_env \<Rightarrow> hub_api \<Rightarrow> unit + string option" where
  "try_pairing E api =
     (let req = JObject [(''devicetype'', JString ''foxbox_hub'')];
          response = (case post_unauth E ''api'' req api of Some r \<Rightarrow> r | None \<Rightarrow> ''[]'');
          response = (case he_pairing E response of Some r \<Rightarrow> r | None \<Rightarrow> [])
      in case response of
           [response] \<Rightarrow>
             (case pr_success response of
                Some username \<Rightarrow> Inr (Some username)
              | None \<Rightarrow>
                  (case pr_error response of
                     Some description \<Rightarrow>
                       if sublist ''link button not pressed'' description then Inr None else Inl ()
                   | None \<Rightarrow> Inl ()))
         | _ \<Rightarrow> Inl ())"

definition get_lights :: "'b hue_env \<Rightarrow> hub_api \<Rightarrow> string list outcome" where
  "get_lights E api =
     (case api_get E ''lights'' api of
        None \<Rightarrow> Panic
      | Some res \<Rightarrow> (case he_lights E res of None \<Rightarrow> Panic | Some keys \<Rightarrow> Done keys))"

definition get_light_status :: "'b hue_env \<Rightarrow> string \<Rightarrow> hub_api \<Rightarrow> light_entry outcome" where
  "get_light_status E i api =
     (case api_get E (''lights/'' @ i) api of
        None \<Rightarrow> Panic
      | Some res \<Rightarrow> (case he_light E res of None \<Rightarrow> Panic | Some entry \<Rightarrow> Done entry))"

definition light_state_url :: "string \<Rightarrow> string" where
  "light_state_url light_id = ''lights/'' @ light_id @ ''/state''"

definition power_command :: "bool \<Rightarrow> JSON" where
  "power_command on = JObject [(''on'', Bool on)]"

definition color_command :: "int \<times> int \<times> int \<Rightarrow> JSON" where
  "color_command = (\<lambda>(hue, sat, val). JObject [(''bri'', U64 (nat val)), (''hue'', U64 (nat hue)), (''sat'', U64 (nat sat))])"

definition brightness_command :: "int \<Rightarrow> JSON" where
  "brightness_command bri = JObject [(''bri'', U64 (nat bri))]"

text \<open>Under the lock of a connection: \<^verbatim>\<open>unwrap\<close> of a poisoned lock panics, and a panic poisons it.\<close>

definition with_api :: "nat \<Rightarrow> (hub_api \<Rightarrow> 'a outcome) \<Rightarrow> 'b hue_state \<Rightarrow> 'a outcome \<times> 'b hue_state" where
  "with_api a f self =
     (let api = hu_apis self ! a in
      if ha_poisoned api then (Panic, self)
      else case f api of
             Done x \<Rightarrow> (Done x, self)
           | Panic \<Rightarrow> (Panic, self\<lparr>hu_apis := (hu_apis self)[a := api\<lparr>ha_poisoned := True\<rparr>]\<rparr>))"

definition put_command :: "nat \<Rightarrow> string \<Rightarrow> JSON \<Rightarrow> 'b hue_state \<Rightarrow> unit outcome \<times> 'b hue_state" where
  "put_command a cmd data self =
     (let api = hu_apis self ! a in
      if ha_poisoned api then (Panic, self)
      else (Done (), self\<lparr>hu_puts := hu_puts self @ [(api_url cmd api, data)]\<rparr>))"

section \<open>Lights\<close>

definition hue_adapter_id :: AdapterId where "hue_adapter_id = ''philips_hue@link.mozilla.org''"

definition create_light_id :: "string \<Rightarrow> string \<Rightarrow> ServiceId" where
  "create_light_id hub_id light_id = ''service:'' @ light_id @ ''.'' @ hub_id @ ''.'' @ hue_adapter_id"

definition hue_getter_id :: "string \<Rightarrow> string \<Rightarrow> string \<Rightarrow> GetterId" where
  "hue_getter_id op hub_id light_id =
     ''getter:'' @ op @ ''.'' @ light_id @ ''.'' @ hub_id @ ''.'' @ hue_adapter_id"

definition hue_setter_id :: "string \<Rightarrow> string \<Rightarrow> string \<Rightarrow> SetterId" where
  "hue_setter_id op hub_id light_id =
     ''setter:'' @ op @ ''.'' @ light_id @ ''.'' @ hub_id @ ''.'' @ hue_adapter_id"

definition light_new :: "nat \<Rightarrow> string \<Rightarrow> string \<Rightarrow> hue_light" where
  "light_new api hub_id light_id =
     \<lparr>hl_api = api, hl_hub_id = hub_id, hl_light_id = light_id,
      hl_service_id = create_light_id hub_id light_id,
      hl_get_available_id = hue_getter_id ''available'' hub_id light_id,
      hl_get_power_id = hue_getter_id ''power'' hub_id light_id,
      hl_set_power_id = hue_setter_id ''power'' hub_id light_id,
      hl_get_color_id = hue_getter_id ''color'' hub_id light_id,
      hl_set_color_id = hue_setter_id ''color'' hub_id light_id\<rparr>"

definition hue_kind :: "KindId \<Rightarrow> Type \<Rightarrow> ChannelKind" where
  "hue_kind kind typ = KExtension ''foxlink@mozilla.com'' ''Philips Hue Adapter'' kind typ"

definition light_service :: "string \<Rightarrow> light_entry \<Rightarrow> hue_light \<Rightarrow> service" where
  "light_service type_text status self =
     (service_empty (hl_service_id self) hue_adapter_id)
       \<lparr>svc_properties := [(''manufacturer'', le_manufacturername status), (''model'', le_modelid status),
          (''name'', le_name status), (''type'', type_text)],
        svc_tags := [''type:'' @ type_text]\<rparr>"

definition power_channels :: "hue_light \<Rightarrow> registration list" where
  "power_channels self =
     (let channel = new_channel hue_adapter_id (hl_service_id self)
      in [AddGetter (channel (hl_get_available_id self) (hue_kind ''available'' TyOnOff)),
          AddGetter (channel (hl_get_power_id self) KLightOn),
          AddSetter (channel (hl_set_power_id self) KLightOn)])"

definition color_channels :: "hue_light \<Rightarrow> registration list" where
  "color_channels self =
     (let channel = new_channel hue_adapter_id (hl_service_id self)
      in [AddGetter (channel (hl_get_color_id self) (hue_kind ''Color'' TyColor)),
          AddSetter (channel (hl_set_color_id self) (hue_kind ''Color'' TyColor))])"

definition serve_light :: "bool \<Rightarrow> hue_light \<Rightarrow> 'b hue_state \<Rightarrow> 'b hue_state" where
  "serve_light color light self =
     self\<lparr>hu_getters := hm_extend (hu_getters self)
            ([(hl_get_available_id light, light), (hl_get_power_id light, light)]
             @ (if color then [(hl_get_color_id light, light)] else [])),
          hu_setters := hm_extend (hu_setters self)
            ([(hl_set_power_id light, light)] @ (if color then [(hl_set_color_id light, light)] else []))\<rparr>"

text \<open>The registrations of a light, and whether it has a color; an unknown type has none.\<close>

definition light_setup :: "hue_light \<Rightarrow> light_entry \<Rightarrow> (bool \<times> registration list) option" where
  "light_setup self status =
     (if le_lighttype status = ''Extended color light'' then
        Some (True, AddService (light_service ''Light/ColorLight'' status self)
           # power_channels self @ color_channels self)
      else if le_lighttype status = ''Dimmable light'' then
        Some (False, AddService (light_service ''Light/DimmerLight'' status self) # power_channels self)
      else None)"

definition light_init_service :: "'b hue_env \<Rightarrow> hue_light \<Rightarrow> 'b hue_state \<Rightarrow> (Error + unit) outcome \<times> 'b hue_state" where
  "light_init_service E light self =
     (case with_api (hl_api light) (get_light_status E (hl_light_id light)) self of
        (Panic, self) \<Rightarrow> (Panic, self)
      | (Done status, self) \<Rightarrow>
          (case light_setup light status of
             None \<Rightarrow> (Done (Inr ()), self)
           | Some (color, steps) \<Rightarrow>
               (case run_setup steps (hu_manager self) of
                  Panic \<Rightarrow> (Panic, self)
                | Done (Inl e, m) \<Rightarrow> (Done (Inl e), self\<lparr>hu_manager := m\<rparr>)
                | Done (Inr _, m) \<Rightarrow> (Done (Inr ()), serve_light color light (self\<lparr>hu_manager := m\<rparr>)))))"

definition light_get :: "'b hue_env \<Rightarrow> hue_light \<Rightarrow> (light_entry \<Rightarrow> 'a) \<Rightarrow> 'b hue_state \<Rightarrow> 'a outcome \<times> 'b hue_state" where
  "light_get E light f self =
     (case with_api (hl_api light) (get_light_status E (hl_light_id light)) self of
        (Panic, self) \<Rightarrow> (Panic, self)
      | (Done status, self) \<Rightarrow> (Done (f status), self))"

definition get_available :: "'b hue_env \<Rightarrow> hue_light \<Rightarrow> 'b hue_state \<Rightarrow> bool outcome \<times> 'b hue_state" where
  "get_available E light = light_get E light le_reachable"

definition get_power :: "'b hue_env \<Rightarrow> hue_light \<Rightarrow> 'b hue_state \<Rightarrow> bool outcome \<times> 'b hue_state" where
  "get_power E light = light_get E light le_on"

definition get_color :: "'b hue_env \<Rightarrow> hue_light \<Rightarrow> 'b hue_state \<Rightarrow> (f64 \<times> f64 \<times> f64) outcome \<times> 'b hue_state" where
  "get_color E light = light_get E light (\<lambda>ls.
     color_of_state (case le_hue ls of Some h \<Rightarrow> h | None \<Rightarrow> 0, case le_sat ls of Some s \<Rightarrow> s | None \<Rightarrow> 0, le_bri ls))"

definition set_power :: "bool \<Rightarrow> hue_light \<Rightarrow> 'b hue_state \<Rightarrow> unit outcome \<times> 'b hue_state" where
  "set_power on light = put_command (hl_api light) (light_state_url (hl_light_id light)) (power_command on)"

definition get_brightness :: "'b hue_env \<Rightarrow> hue_light \<Rightarrow> 'b hue_state \<Rightarrow> f64 outcome \<times> 'b hue_state" where
  "get_brightness E light = light_get E light (\<lambda>ls. f64_div_rat (f64_of_int (le_bri ls)) 254)"

definition set_brightness :: "f64 \<Rightarrow> hue_light \<Rightarrow> 'b hue_state \<Rightarrow> unit outcome \<times> 'b hue_state" where
  "set_brightness bri light =
     put_command (hl_api light) (light_state_url (hl_light_id light))
       (brightness_command (f64_as_u32 (f64_mult (in_unit bri) (f64_of_int 254))))"

definition set_color :: "f64 \<times> f64 \<times> f64 \<Rightarrow> hue_light \<Rightarrow> 'b hue_state \<Rightarrow> unit outcome \<times> 'b hue_state" where
  "set_color hsv light =
     put_command (hl_api light) (light_state_url (hl_light_id light)) (color_command (state_of_color hsv))"

section \<open>The requests of the adapter\<close>

text \<open>A request for many channels is a sequence of these; a panic ends it.\<close>

definition map_done :: "('a \<Rightarrow> 'c) \<Rightarrow> 'a outcome \<times> 's \<Rightarrow> 'c outcome \<times> 's" where
  "map_done f = (\<lambda>(r, s). (case r of Done x \<Rightarrow> Done (f x) | Panic \<Rightarrow> Panic, s))"

definition hue_fetch_one :: "'b hue_env \<Rightarrow> GetterId \<Rightarrow> 'b hue_state \<Rightarrow> (Error + Value option) outcome \<times> 'b hue_state" where
  "hue_fetch_one E i self =
     (case hm_get (hu_getters self) i of
        None \<Rightarrow> (Done (Inl (ErrInternal (NoSuchGetter i))), self)
      | Some light \<Rightarrow>
          (let onoff = (\<lambda>on. Inr (Some (VOnOff (if on then On else Off))))
           in if i = hl_get_available_id light then map_done onoff (get_available E light self)
              else if i = hl_get_power_id light then map_done onoff (get_power E light self)
              else if i = hl_get_color_id light then
                map_done (\<lambda>(h, s, v). Inr (Some (VColor (HSV h s v)))) (get_color E light self)
              else (Done (Inl (ErrInternal (NoSuchGetter i))), self)))"

definition hue_send_one :: "SetterId \<Rightarrow> Value \<Rightarrow> 'b hue_state \<Rightarrow> (Error + unit) outcome \<times> 'b hue_state" where
  "hue_send_one i val self =
     (case hm_get (hu_setters self) i of
        None \<Rightarrow> (Done (Inl (ErrInternal (NoSuchSetter i))), self)
      | Some light \<Rightarrow>
          if i = hl_set_power_id light then
            (case val of
               VOnOff onoff \<Rightarrow> map_done Inr (set_power (onoff = On) light self)
             | _ \<Rightarrow> (Done (Inl (ErrType (TypeError TyOnOff (value_type val)))), self))
          else if i = hl_set_color_id light then
            (case val of
               VColor (HSV h s v) \<Rightarrow> map_done Inr (set_color (h, s, v) light self)
             | _ \<Rightarrow> (Done (Inl (ErrType (TypeError TyColor (value_type val)))), self))
          else (Done (Inl (ErrInternal (NoSuchSetter i))), self))"

fun hue_fetch_values ::
    "'b hue_env \<Rightarrow> GetterId list \<Rightarrow> 'b hue_state \<Rightarrow> (GetterId \<times> (Error + Value option)) list outcome \<times> 'b hue_state" where
  "hue_fetch_values E [] self = (Done [], self)"
| "hue_fetch_values E (i # ids) self =
     (case hue_fetch_one E i self of
        (Panic, self) \<Rightarrow> (Panic, self)
      | (Done r, self) \<Rightarrow> map_done (\<lambda>rs. (i, r) # rs) (hue_fetch_values E ids self))"

fun hue_send_values ::
    "(SetterId, Value) hashmap \<Rightarrow> 'b hue_state \<Rightarrow> (SetterId \<times> (Error + unit)) list outcome \<times> 'b hue_state" where
  "hue_send_values [] self = (Done [], self)"
| "hue_send_values ((i, val) # values) self =
     (case hue_send_one i val self of
        (Panic, self) \<Rightarrow> (Panic, self)
      | (Done r, self) \<Rightarrow> map_done (\<lambda>rs. (i, r) # rs) (hue_send_values values self))"

end
