(* ===== verification/Hue_Threads.thy ===== *)
theory Hue_Threads
  imports Philips_Hue
begin

text \<open>
  The threads of \<^verbatim>\<open>src/adapters/philips_hue\<close>: the management of a hub (\<^verbatim>\<open>hub.rs\<close>), the main thread
  of the adapter (\<^verbatim>\<open>mod.rs\<close>) and the discovery (\<^verbatim>\<open>discovery.rs\<close>), and their interleavings.
  Between two steps of a thread of a hub it sleeps or takes a lock anew.
\<close>

section \<open>Hubs\<close>

definition token_key :: "string \<Rightarrow> string" where
  "token_key hub_id = ''token_'' @ hub_id"

text \<open>A new hub has a new connection, with the token of the configuration.\<close>

definition hub_new :: "'b hue_env \<Rightarrow> string \<Rightarrow> string \<Rightarrow> 'b hue_state \<Rightarrow> hue_hub \<times> 'b hue_state" where
  "hub_new E hub_id ip self =
     (case config_get_or_set_default (he_codec E) (he_io E) ''philips_hue'' (token_key hub_id) ''unauthorized''
             (hu_config self) of
        (token, config) \<Rightarrow>
          (\<lparr>hb_id = hub_id, hb_ip = ip, hb_api = length (hu_apis self)\<rparr>,
           self\<lparr>hu_config := config, hu_apis := hu_apis self @ [hub_api_new hub_id ip token]\<rparr>))"

definition hub_start :: "hue_hub \<Rightarrow> 'b hue_state \<Rightarrow> 'b hue_state" where
  "hub_start hub self =
     self\<lparr>hu_threads := hu_threads self @ [\<lparr>ht_id = hb_id hub, ht_api = hb_api hub, ht_phase = HubCheck\<rparr>]\<rparr>"

definition update_ip :: "string \<Rightarrow> hue_hub \<Rightarrow> hue_hub" where
  "update_ip new_ip hub = hub\<lparr>hb_ip := new_ip\<rparr>"

definition hue_tell :: "HueAction \<Rightarrow> 'b hue_state \<Rightarrow> 'b hue_state" where
  "hue_tell action self = self\<lparr>hu_queue := hu_queue self @ [action]\<rparr>"

definition hue_notify :: "string \<Rightarrow> string \<Rightarrow> 'b hue_state \<Rightarrow> 'b hue_state" where
  "hue_notify message hub self = self\<lparr>hu_notifications := hu_notifications self @ [(message, hub)]\<rparr>"

text \<open>One step of the thread of a hub, up to the next lock it takes or message it sends.\<close>

definition hub_phase_step :: "'b hue_env \<Rightarrow> hub_thread \<Rightarrow> 'b hue_state \<Rightarrow> hub_phase \<times> 'b hue_state" where
  "hub_phase_step E t self =
     (let api = hu_apis self ! ht_api t; i = ht_id t; poisoned = ha_poisoned api in
      case ht_phase t of
        HubCheck \<Rightarrow> (if poisoned then HubDied else if is_available E api then HubIsPaired else HubCheck, self)
      | HubIsPaired \<Rightarrow> (if poisoned then HubDied else if is_paired E api then HubConnect else HubPairing 120, self)
      | HubPairing 0 \<Rightarrow> (HubPaired, self)
      | HubPairing (Suc n) \<Rightarrow>
          (let self = hue_notify ''NeedsPairing'' i self
           in if poisoned then (HubDied, self)
              else case try_pairing E api of
                Inr (Some new_token) \<Rightarrow>
                  (HubNewToken new_token,
                   self\<lparr>hu_config := config_set (he_codec E) (he_io E) ''philips_hue'' (token_key i) new_token (hu_config self)\<rparr>)
              | Inr None \<Rightarrow> (HubPairing n, self)
              | Inl _ \<Rightarrow> (HubPairing n, self))
      | HubNewToken new_token \<Rightarrow>
          if poisoned then (HubDied, self)
          else (HubPaired, self\<lparr>hu_apis := (hu_apis self)[ht_api t := update_token new_token api]\<rparr>)
      | HubPaired \<Rightarrow>
          if poisoned then (HubDied, self)
          else if is_paired E api then (HubConnect, hue_notify ''PairingSuccess'' i self)
          else (HubCheck, hue_notify ''PairingTimeout'' i self)
      | HubConnect \<Rightarrow>
          (if poisoned then HubDied else if he_settings E (get_settings E api) then HubLights else HubDied, self)
      | HubLights \<Rightarrow>
          (case with_api (ht_api t) (get_lights E) self of
             (Panic, self) \<Rightarrow> (HubDied, self)
           | (Done light_ids, self) \<Rightarrow> (HubTelling light_ids, self))
      | HubTelling [] \<Rightarrow> (HubMonitor, self)
      | HubTelling (l # ls) \<Rightarrow> (HubTelling ls, hue_tell (AddLight i l) self)
      | HubMonitor \<Rightarrow> (HubMonitor, self)
      | HubDied \<Rightarrow> (HubDied, self))"

definition hub_step :: "'b hue_env \<Rightarrow> nat \<Rightarrow> 'b hue_state \<Rightarrow> 'b hue_state" where
  "hub_step E k self =
     (if k < length (hu_threads self) then
        (case hub_phase_step E (hu_threads self ! k) self of
           (phase, self) \<Rightarrow> self\<lparr>hu_threads := (hu_threads self)[k := (hu_threads self ! k)\<lparr>ht_phase := phase\<rparr>]\<rparr>)
      else self)"

section \<open>Discovery\<close>

text \<open>The thread that asks the server; its default URL.\<close>

definition nupnp_query :: "'b hue_env \<Rightarrow> string \<Rightarrow> (string \<times> string) list" where
  "nupnp_query E server_url =
     (case he_get E server_url of
        None \<Rightarrow> []
      | Some content \<Rightarrow> (case he_nupnp E content of None \<Rightarrow> [] | Some entries \<Rightarrow> entries))"

definition do_nupnp_discovery :: "'b hue_env \<Rightarrow> 'b hue_state \<Rightarrow> 'b hue_state" where
  "do_nupnp_discovery E self =
     (case config_get_or_set_default (he_codec E) (he_io E) ''philips_hue'' ''nupnp_enabled'' ''true'' (hu_config self) of
        (nupnp_enabled, config) \<Rightarrow>
          if nupnp_enabled \<noteq> ''true'' then self\<lparr>hu_config := config\<rparr>
          else (case config_get_or_set_default (he_codec E) (he_io E) ''philips_hue'' ''nupnp_url''
                       ''https://www.meethue.com/api/nupnp'' config of
                  (nupnp_url, config) \<Rightarrow>
                    fold (\<lambda>(i, ip). hue_tell (AddHub i ip)) (nupnp_query E nupnp_url) (self\<lparr>hu_config := config\<rparr>)))"

text \<open>The last piece of \<^verbatim>\<open>rsplit("//")\<close>.\<close>

fun after_slashes :: "string \<Rightarrow> string option" where
  "after_slashes [] = None"
| "after_slashes (c # cs) =
     (case after_slashes cs of
        Some t \<Rightarrow> Some t
      | None \<Rightarrow> if take 2 (c # cs) = ''//'' then Some (drop 2 (c # cs)) else None)"

definition hue_ip_of_url :: "string \<Rightarrow> string" where
  "hue_ip_of_url url =
     takeWhile (\<lambda>c. c \<noteq> CHR '':'') (case after_slashes url of Some t \<Rightarrow> t | None \<Rightarrow> url)"

definition hue_id_of_serial :: "string \<Rightarrow> string" where
  "hue_id_of_serial serial =
     (if length serial = 12 then take 6 serial @ ''fffe'' @ drop 6 serial else serial)"

definition starts_with :: "string \<Rightarrow> string \<Rightarrow> bool" where
  "starts_with p s \<longleftrightarrow> take (length p) s = p"

definition ends_with :: "string \<Rightarrow> string \<Rightarrow> bool" where
  "ends_with p s \<longleftrightarrow> length p \<le> length s \<and> drop (length s - length p) s = p"

text \<open>The length of the address is looked at, but nothing depends on it.\<close>

definition hue_discover :: "'b hue_state listener" where
  "hue_discover service self =
     (let field = hm_get (us_description service) in
      case field ''/root/device/modelName'' of
        None \<Rightarrow> (Done False, self)
      | Some model_name \<Rightarrow>
          if \<not> starts_with ''Philips hue bridge'' model_name then (Done False, self)
          else (case (field ''/root/device/serialNumber'', field ''/root/URLBase'', field ''/root/device/modelNumber'') of
              (Some serial, Some url, Some _) \<Rightarrow>
                if \<not> starts_with ''http://'' url then (Done False, self)
                else if \<not> ends_with '':80/'' url then (Done False, self)
                else (Done True, hue_tell (AddHub (hue_id_of_serial serial) (hue_ip_of_url url)) self)
            | _ \<Rightarrow> (Done False, self)))"

section \<open>The main thread\<close>

definition light_key :: "string \<Rightarrow> string \<Rightarrow> string" where
  "light_key hub_id light_id = hub_id @ ''::'' @ light_id"

text \<open>Discovery starts the thread that asks the server, and a search, which is unwrapped.\<close>

definition handle_hue_action :: "'b hue_env \<Rightarrow> HueAction \<Rightarrow> 'b hue_state \<Rightarrow> unit outcome \<times> 'b hue_state" where
  "handle_hue_action E action self =
     (case action of
        TriggerDiscovery \<Rightarrow>
          (let self = self\<lparr>hu_searches := hu_searches self + 1\<rparr>
           in (if he_search_ok E then Done () else Panic, self))
      | AddHub hub_id hub_ip \<Rightarrow>
          (case hm_get (hu_hubs self) hub_id of
             Some hub \<Rightarrow> (Done (), self\<lparr>hu_hubs := hm_insert hub_id (update_ip hub_ip hub) (hu_hubs self)\<rparr>)
           | None \<Rightarrow>
               (case hub_new E hub_id hub_ip self of (new_hub, self) \<Rightarrow>
                  (Done (), (hub_start new_hub self)\<lparr>hu_hubs := hm_insert hub_id new_hub (hu_hubs self)\<rparr>)))
      | AddLight hub_id light_id \<Rightarrow>
          (let i = light_key hub_id light_id in
           if hm_has (hu_lights self) i then (Done (), self)
           else (case hm_get (hu_hubs self) hub_id of
               None \<Rightarrow> (Panic, self)
             | Some hub \<Rightarrow>
                 (let new_light = light_new (hb_api hub) hub_id light_id
                  in case light_init_service E new_light self of
                       (Panic, self) \<Rightarrow> (Panic, self)
                     | (Done _, self) \<Rightarrow> (Done (), self\<lparr>hu_lights := hm_insert i new_light (hu_lights self)\<rparr>))))
      | RemoveHub hub_id \<Rightarrow> (Done (), self\<lparr>hu_hubs := hm_remove hub_id (hu_hubs self)\<rparr>)
      | RemoveLight hub_id light_id \<Rightarrow>
          (Done (), self\<lparr>hu_lights := hm_remove (light_key hub_id light_id) (hu_lights self)\<rparr>)
      | StopAdapter \<Rightarrow> (Done (), self\<lparr>hu_main := MainStopped, hu_lights := [], hu_hubs := []\<rparr>))"

text \<open>A turn; messages to a thread that has gone are dropped with its queue.\<close>

definition hue_turn :: "'b hue_env \<Rightarrow> 'b hue_state \<Rightarrow> 'b hue_state" where
  "hue_turn E self =
     (case hu_main self of
        MainRunning \<Rightarrow>
          (case hu_queue self of
             [] \<Rightarrow> self
           | action # queue \<Rightarrow>
               (case handle_hue_action E action (self\<lparr>hu_queue := queue\<rparr>) of
                  (Done _, self) \<Rightarrow> self
                | (Panic, self) \<Rightarrow> self\<lparr>hu_main := MainDied\<rparr>))
      | _ \<Rightarrow> self\<lparr>hu_queue := []\<rparr>)"

definition hue_init :: "nat \<Rightarrow> manager \<Rightarrow> config_store \<times> 'b files \<Rightarrow> (Error + unit) \<times> 'b hue_state" where
  "hue_init inst m config =
     (let hue0 = \<lparr>hu_manager = m, hu_config = config, hu_getters = [], hu_setters = [], hu_hubs = [], hu_lights = [],
                  hu_apis = [], hu_queue = [], hu_main = MainRunning, hu_threads = [], hu_puts = [],
                  hu_notifications = [], hu_searches = 0\<rparr>
      in case manager_add_adapter (Adapter hue_adapter_id inst) m of
           (Inl e, m) \<Rightarrow> (Inl e, hue0\<lparr>hu_manager := m\<rparr>)
         | (Inr _, m) \<Rightarrow> (Inr (), hue_tell TriggerDiscovery (hue0\<lparr>hu_manager := m\<rparr>)))"

section \<open>Interleavings\<close>

text \<open>What may happen next, in an environment that may be different each time: a turn, a step of a hub, the
  answer of the server, an announcement, a request, or anything that others do with the manager.\<close>

datatype 'b hue_event =
    MainTurn "'b hue_env"
  | HubTurn "'b hue_env" nat
  | ServerAnswers "'b hue_env"
  | Announced upnp_service
  | FetchOne "'b hue_env" GetterId
  | SendOne SetterId Value
  | OthersUse manager
  | Configured "config_store \<times> 'b files"
  | StopRequested

fun hue_event_step :: "'b hue_event \<Rightarrow> 'b hue_state \<Rightarrow> 'b hue_state" where
  "hue_event_step (MainTurn E) self = hue_turn E self"
| "hue_event_step (HubTurn E k) self = hub_step E k self"
| "hue_event_step (ServerAnswers E) self = do_nupnp_discovery E self"
| "hue_event_step (Announced service) self = snd (hue_discover service self)"
| "hue_event_step (FetchOne E i) self = snd (hue_fetch_one E i self)"
| "hue_event_step (SendOne i val) self = snd (hue_send_one i val self)"
| "hue_event_step (OthersUse m) self = self\<lparr>hu_manager := m\<rparr>"
| "hue_event_step (Configured config) self = self\<lparr>hu_config := config\<rparr>"
| "hue_event_step StopRequested self = hue_tell StopAdapter self"

definition hue_run :: "'b hue_event list \<Rightarrow> 'b hue_state \<Rightarrow> 'b hue_state" where
  "hue_run = fold hue_event_step"

inductive hue_reachable :: "'b hue_state \<Rightarrow> bool" where
  hue_start: "hue_init inst m config = (r, self) \<Longrightarrow> hue_reachable self"
| hue_next: "hue_reachable self \<Longrightarrow> hue_reachable (hue_event_step e self)"

end
