(* ===== verification/Hue_Props.thy ===== *)
theory Hue_Props
  imports Hue_Threads
begin

text \<open>
  The Philips Hue adapter in every interleaving of its threads: the objects it shares refer to each
  other as they should, its main thread has few ways to die, a request reaches the light it is for;
  and what one unreadable answer or a changed address does to it.
\<close>

section \<open>The store of connections\<close>

text \<open>What no step of any thread takes back: a connection keeps its hub, its address, and its poison.\<close>

definition apis_grow :: "hub_api list \<Rightarrow> hub_api list \<Rightarrow> bool" where
  "apis_grow as bs \<longleftrightarrow> length as \<le> length bs \<and>
     (\<forall>a < length as. ha_id (bs ! a) = ha_id (as ! a) \<and> ha_ip (bs ! a) = ha_ip (as ! a)
        \<and> (ha_poisoned (as ! a) \<longrightarrow> bs ! a = as ! a))"

lemma apis_grow_refl [simp]: "apis_grow as as"
  by (simp add: apis_grow_def)

lemma apis_grow_trans: "apis_grow as bs \<Longrightarrow> apis_grow bs cs \<Longrightarrow> apis_grow as cs"
  unfolding apis_grow_def by (metis order_trans less_le_trans)

lemma apis_grow_append: "apis_grow as (as @ bs)"
  by (simp add: apis_grow_def nth_append)

lemma apis_grow_update:
  "\<not> ha_poisoned (as ! a) \<Longrightarrow> ha_id api = ha_id (as ! a) \<Longrightarrow> ha_ip api = ha_ip (as ! a) \<Longrightarrow> apis_grow as (as[a := api])"
  by (cases "a < length as") (auto simp: apis_grow_def nth_list_update)

text \<open>The steps that only read a light, or send a command.\<close>

lemma with_api_cases:
  obtains (poisoned) "ha_poisoned (hu_apis self ! a)" "with_api a f self = (Panic, self)"
  | (fails) "\<not> ha_poisoned (hu_apis self ! a)" "f (hu_apis self ! a) = Panic"
      "with_api a f self = (Panic, self\<lparr>hu_apis := (hu_apis self)[a := (hu_apis self ! a)\<lparr>ha_poisoned := True\<rparr>]\<rparr>)"
  | (works) x where "\<not> ha_poisoned (hu_apis self ! a)" "f (hu_apis self ! a) = Done x" "with_api a f self = (Done x, self)"
proof (cases "ha_poisoned (hu_apis self ! a)")
  case True
  with poisoned show thesis by (simp add: with_api_def)
next
  case False
  then show thesis using fails works by (cases "f (hu_apis self ! a)") (simp_all add: with_api_def Let_def)
qed

text \<open>\<open>same_but_apis\<close>: nothing changed but the flags of connections.\<close>

definition same_but_apis :: "'b hue_state \<Rightarrow> 'b hue_state \<Rightarrow> bool" where
  "same_but_apis s t \<longleftrightarrow> apis_grow (hu_apis s) (hu_apis t) \<and> length (hu_apis t) = length (hu_apis s)
     \<and> t = s\<lparr>hu_apis := hu_apis t\<rparr>"

lemma with_api_same: "with_api a f s = (r, t) \<Longrightarrow> same_but_apis s t"
  by (rule with_api_cases [of s a f]) (auto simp: same_but_apis_def intro!: apis_grow_update)

lemma same_refl [simp]: "same_but_apis s s"
  by (simp add: same_but_apis_def)

lemma light_get_same: "light_get E light f s = (r, t) \<Longrightarrow> same_but_apis s t"
  using with_api_same by (auto simp: light_get_def split: prod.splits outcome.splits)

lemma hue_fetch_one_same: "same_but_apis s (snd (hue_fetch_one E i s))"
proof -
  have l: "same_but_apis s (snd (map_done f (light_get E light g s)))" for f g light
    using light_get_same by (cases "light_get E light g s") (auto simp: map_done_def)
  show ?thesis
    by (auto simp: hue_fetch_one_def Let_def get_available_def get_power_def get_color_def l split: option.splits)
qed

lemma put_command_apis: "hu_apis (snd (put_command a cmd data s)) = hu_apis s"
  by (simp add: put_command_def Let_def)

lemma put_command_same: "snd (put_command a cmd data s) = s\<lparr>hu_puts := hu_puts (snd (put_command a cmd data s))\<rparr>"
  by (simp add: put_command_def Let_def)

lemma hue_send_one_same: "snd (hue_send_one i val s) = s\<lparr>hu_puts := hu_puts (snd (hue_send_one i val s))\<rparr>"
proof -
  have l: "snd (map_done f (put_command a cmd data s)) = snd (put_command a cmd data s)" for f a cmd data
    by (simp add: map_done_def split_beta)
  show ?thesis
    by (auto simp: hue_send_one_def set_power_def set_color_def l split: option.splits Value.splits Color.splits)
      (auto intro: put_command_same)
qed

section \<open>The objects refer to each other\<close>

definition light_ok :: "hub_api list \<Rightarrow> hue_light \<Rightarrow> bool" where
  "light_ok apis l \<longleftrightarrow> hl_api l < length apis \<and> ha_id (apis ! hl_api l) = hl_hub_id l
     \<and> l = light_new (hl_api l) (hl_hub_id l) (hl_light_id l)"

definition getter_of :: "GetterId \<Rightarrow> hue_light \<Rightarrow> bool" where
  "getter_of i l \<longleftrightarrow> i = hl_get_available_id l \<or> i = hl_get_power_id l \<or> i = hl_get_color_id l"

definition setter_of :: "SetterId \<Rightarrow> hue_light \<Rightarrow> bool" where
  "setter_of i l \<longleftrightarrow> i = hl_set_power_id l \<or> i = hl_set_color_id l"

definition action_ok :: "'b hue_state \<Rightarrow> HueAction \<Rightarrow> bool" where
  "action_ok s a \<longleftrightarrow>
     (case a of
        AddLight h l \<Rightarrow> hu_main s = MainRunning \<longrightarrow> hm_has (hu_hubs s) h
      | RemoveHub h \<Rightarrow> False
      | _ \<Rightarrow> True)"

definition thread_ok :: "'b hue_state \<Rightarrow> string \<times> nat \<Rightarrow> bool" where
  "thread_ok s = (\<lambda>(h, a). a < length (hu_apis s) \<and> ha_id (hu_apis s ! a) = h
     \<and> (hu_main s = MainRunning \<longrightarrow> hm_has (hu_hubs s) h))"

abbreviation thread_ref :: "hub_thread \<Rightarrow> string \<times> nat" where
  "thread_ref t \<equiv> (ht_id t, ht_api t)"

definition hub_ok :: "hub_api list \<Rightarrow> string \<Rightarrow> hue_hub \<Rightarrow> bool" where
  "hub_ok apis h hub \<longleftrightarrow> hb_id hub = h \<and> hb_api hub < length apis \<and> ha_id (apis ! hb_api hub) = h"

definition hue_inv :: "'b hue_state \<Rightarrow> bool" where
  "hue_inv s \<longleftrightarrow>
     (\<forall>i l. hm_get (hu_getters s) i = Some l \<longrightarrow> light_ok (hu_apis s) l \<and> getter_of i l)
   \<and> (\<forall>i l. hm_get (hu_setters s) i = Some l \<longrightarrow> light_ok (hu_apis s) l \<and> setter_of i l)
   \<and> (\<forall>h hub. hm_get (hu_hubs s) h = Some hub \<longrightarrow> hub_ok (hu_apis s) h hub)
   \<and> (\<forall>r \<in> thread_ref ` set (hu_threads s). thread_ok s r)
   \<and> (\<forall>a \<in> set (hu_queue s). action_ok s a)"

lemma light_ok_grow: "apis_grow as bs \<Longrightarrow> light_ok as l \<Longrightarrow> light_ok bs l"
  by (auto simp: apis_grow_def light_ok_def)

lemma hub_ok_grow: "apis_grow as bs \<Longrightarrow> hub_ok as h hub \<Longrightarrow> hub_ok bs h hub"
  by (auto simp: apis_grow_def hub_ok_def)

lemma thread_ok_grow:
  "apis_grow (hu_apis s) (hu_apis t) \<Longrightarrow> (hu_main t = MainRunning \<Longrightarrow> hu_main s = MainRunning) \<Longrightarrow>
   (\<And>h. hu_main t = MainRunning \<Longrightarrow> hm_has (hu_hubs s) h \<Longrightarrow> hm_has (hu_hubs t) h) \<Longrightarrow> thread_ok s r \<Longrightarrow> thread_ok t r"
  by (auto simp: apis_grow_def thread_ok_def)

lemma action_ok_grow:
  "(hu_main t = MainRunning \<Longrightarrow> hu_main s = MainRunning) \<Longrightarrow>
   (\<And>h. hu_main t = MainRunning \<Longrightarrow> hm_has (hu_hubs s) h \<Longrightarrow> hm_has (hu_hubs t) h) \<Longrightarrow> action_ok s a \<Longrightarrow> action_ok t a"
  by (auto simp: action_ok_def split: HueAction.splits)

text \<open>A step that keeps the tables, lets the connections grow and the hubs too, and adds proper messages.\<close>

lemma hue_inv_step:
  assumes "hue_inv s" and "apis_grow (hu_apis s) (hu_apis t)"
    and "hu_getters t = hu_getters s" and "hu_setters t = hu_setters s"
    and "hu_main t = MainRunning \<Longrightarrow> hu_main s = MainRunning"
    and "\<And>h hub. hm_get (hu_hubs t) h = Some hub \<Longrightarrow> hm_get (hu_hubs s) h = Some hub \<or> hub_ok (hu_apis t) h hub"
    and "\<And>h. hu_main t = MainRunning \<Longrightarrow> hm_has (hu_hubs s) h \<Longrightarrow> hm_has (hu_hubs t) h"
    and "\<And>r. r \<in> thread_ref ` set (hu_threads t) \<Longrightarrow> r \<in> thread_ref ` set (hu_threads s) \<or> thread_ok t r"
    and "\<And>a. a \<in> set (hu_queue t) \<Longrightarrow> a \<in> set (hu_queue s) \<or> action_ok t a"
  shows "hue_inv t"
  unfolding hue_inv_def
proof (intro conjI allI ballI impI)
  fix r assume "r \<in> thread_ref ` set (hu_threads t)"
  from assms(8) [OF this] show "thread_ok t r"
  proof
    assume "r \<in> thread_ref ` set (hu_threads s)"
    then have r: "thread_ok s r" using assms(1) by (simp only: hue_inv_def)
    show ?thesis by (rule thread_ok_grow [OF assms(2) _ _ r]) (erule assms(5), erule (1) assms(7))
  qed
next
  fix a assume "a \<in> set (hu_queue t)"
  from assms(9) [OF this] show "action_ok t a"
  proof
    assume "a \<in> set (hu_queue s)"
    then have a: "action_ok s a" using assms(1) by (simp only: hue_inv_def)
    show ?thesis by (rule action_ok_grow [OF _ _ a]) (erule assms(5), erule (1) assms(7))
  qed
next
  fix h hub assume "hm_get (hu_hubs t) h = Some hub"
  from assms(6) [OF this] show "hub_ok (hu_apis t) h hub"
  proof
    assume "hm_get (hu_hubs s) h = Some hub"
    then have "hub_ok (hu_apis s) h hub" using assms(1) by (simp only: hue_inv_def)
    then show ?thesis by (rule hub_ok_grow [OF assms(2)])
  qed
qed (use assms(1) light_ok_grow [OF assms(2)] in \<open>simp_all only: hue_inv_def assms(3,4)\<close>)

lemma tell_inv: "hue_inv s \<Longrightarrow> action_ok s a \<Longrightarrow> hue_inv (hue_tell a s)"
  by (erule hue_inv_step) (auto simp: hue_tell_def action_ok_def split: HueAction.splits)

lemma same_inv: "hue_inv s \<Longrightarrow> same_but_apis s t \<Longrightarrow> hue_inv t"
proof -
  assume s: "hue_inv s" and st: "same_but_apis s t"
  then obtain apis where t: "t = s\<lparr>hu_apis := apis\<rparr>" "apis_grow (hu_apis s) apis"
    by (auto simp: same_but_apis_def)
  show "hue_inv t" by (rule hue_inv_step [OF s]) (auto simp: t)
qed

section \<open>Every step keeps the invariant\<close>

definition hub_effect :: "string \<Rightarrow> 'b hue_state \<Rightarrow> 'b hue_state \<Rightarrow> bool" where
  "hub_effect i s t \<longleftrightarrow> apis_grow (hu_apis s) (hu_apis t) \<and> hu_getters t = hu_getters s \<and> hu_setters t = hu_setters s
     \<and> hu_hubs t = hu_hubs s \<and> hu_main t = hu_main s \<and> hu_threads t = hu_threads s
     \<and> (\<exists>new. hu_queue t = hu_queue s @ new \<and> set new \<subseteq> range (AddLight i))"

lemma hub_effect_refl [simp]: "hub_effect i s s"
  by (simp add: hub_effect_def)

lemma hub_effect_notify [simp]: "hub_effect i s (hue_notify msg h s)"
  by (simp add: hub_effect_def hue_notify_def)

lemma hub_effect_same: "same_but_apis s t \<Longrightarrow> hub_effect i s t"
proof -
  assume "same_but_apis s t"
  then obtain apis where "t = s\<lparr>hu_apis := apis\<rparr>" "apis_grow (hu_apis s) apis" by (auto simp: same_but_apis_def)
  then show ?thesis by (simp add: hub_effect_def)
qed

lemma hub_effect_tell: "hub_effect i s (hue_tell (AddLight i l) s)"
  by (auto simp: hub_effect_def hue_tell_def)

lemma hub_effect_config: "hub_effect i s t \<Longrightarrow> hub_effect i s (t\<lparr>hu_config := c\<rparr>)"
  by (simp add: hub_effect_def)

lemma hub_effect_token:
  assumes "\<not> ha_poisoned (hu_apis s ! a)"
  shows "hub_effect i s (s\<lparr>hu_apis := (hu_apis s)[a := update_token x (hu_apis s ! a)]\<rparr>)"
  using apis_grow_update [OF assms, of "update_token x (hu_apis s ! a)"]
  by (simp add: hub_effect_def update_token_def)

lemma hub_phase_effect:
  assumes "hub_phase_step E t s = (phase, s')"
  shows "hub_effect (ht_id t) s s'"
proof (cases "ht_phase t")
  case (HubPairing n)
  then show ?thesis
    using assms by (cases n)
      (auto simp: hub_phase_step_def Let_def intro: hub_effect_config split: if_splits sum.splits option.splits)
next
  case (HubNewToken x)
  then show ?thesis
    using assms by (auto simp: hub_phase_step_def Let_def hub_effect_token split: if_splits)
next
  case HubLights
  obtain r u where w: "with_api (ht_api t) (get_lights E) s = (r, u)" by (cases "with_api (ht_api t) (get_lights E) s")
  from hub_effect_same [OF with_api_same [OF w]] show ?thesis
    using assms HubLights w by (cases r) (auto simp: hub_phase_step_def Let_def)
next
  case (HubTelling ls)
  then show ?thesis using assms by (cases ls) (auto simp: hub_phase_step_def Let_def hub_effect_tell)
qed (use assms in \<open>auto simp: hub_phase_step_def Let_def split: if_splits\<close>)

lemma hub_effect_inv:
  assumes "hue_inv s" and "hub_effect i s t" and "hu_main s = MainRunning \<Longrightarrow> hm_has (hu_hubs s) i"
  shows "hue_inv t"
proof (rule hue_inv_step [OF assms(1)])
  fix a assume "a \<in> set (hu_queue t)"
  then show "a \<in> set (hu_queue s) \<or> action_ok t a"
    using assms(2,3) by (auto simp: hub_effect_def action_ok_def)
qed (use assms(2) in \<open>auto simp: hub_effect_def\<close>)

lemma map_thread_ref_phase:
  "k < length ts \<Longrightarrow> map thread_ref (ts[k := (ts ! k)\<lparr>ht_phase := p\<rparr>]) = map thread_ref ts"
  by (rule nth_equalityI) (auto simp: nth_list_update)

lemma thread_refs_phase:
  "k < length ts \<Longrightarrow> thread_ref ` set (ts[k := (ts ! k)\<lparr>ht_phase := p\<rparr>]) = thread_ref ` set ts"
  by (drule map_thread_ref_phase [of _ _ p, THEN arg_cong [of _ _ set]]) (simp only: set_map)

lemma hub_step_inv:
  assumes "hue_inv s"
  shows "hue_inv (hub_step E k s)"
proof (cases "k < length (hu_threads s)")
  case True
  let ?t = "hu_threads s ! k"
  obtain phase u where u: "hub_phase_step E ?t s = (phase, u)" by (cases "hub_phase_step E ?t s")
  have eff: "hub_effect (ht_id ?t) s u" by (rule hub_phase_effect [OF u])
  have ref: "thread_ref ?t \<in> thread_ref ` set (hu_threads s)" using True by auto
  then have "thread_ok s (thread_ref ?t)" using assms unfolding hue_inv_def by blast
  then have inv: "hue_inv u" using hub_effect_inv [OF assms eff] by (simp add: thread_ok_def)
  have th: "hu_threads u = hu_threads s" using eff by (simp add: hub_effect_def)
  have "hub_step E k s = u\<lparr>hu_threads := (hu_threads u)[k := (hu_threads u ! k)\<lparr>ht_phase := phase\<rparr>]\<rparr>"
    using True u th by (simp add: hub_step_def)
  moreover have "thread_ref ` set ((hu_threads u)[k := (hu_threads u ! k)\<lparr>ht_phase := phase\<rparr>]) = thread_ref ` set (hu_threads u)"
    by (rule thread_refs_phase) (simp add: True th)
  moreover have "hue_inv (u\<lparr>hu_threads := ts\<rparr>)" if "thread_ref ` set ts = thread_ref ` set (hu_threads u)" for ts
    by (rule hue_inv_step [OF inv]) (simp_all add: that)
  ultimately show ?thesis by (simp only:)
next
  case False
  then show ?thesis using assms by (simp add: hub_step_def)
qed

lemma light_new_ok:
  "a < length apis \<Longrightarrow> ha_id (apis ! a) = h \<Longrightarrow> light_ok apis (light_new a h l)"
  by (simp add: light_ok_def light_new_def)

lemma hm_extend_get: "hm_get (hm_extend m kvs) k = Some v \<Longrightarrow> (k, v) \<in> set kvs \<or> hm_get m k = Some v"
  by (induction m kvs rule: hm_extend.induct) (auto simp: update_conv split: if_splits)

lemma serve_light_inv:
  assumes "hue_inv s" and "light_ok (hu_apis s) light"
  shows "hue_inv (serve_light color light s)"
proof -
  have "light_ok (hu_apis s) l \<and> getter_of i l" if "hm_get (hu_getters (serve_light color light s)) i = Some l" for i l
    using hm_extend_get [OF that [unfolded serve_light_def, simplified]] assms
    by (auto simp: hue_inv_def getter_of_def split: if_splits)
  moreover have "light_ok (hu_apis s) l \<and> setter_of i l" if "hm_get (hu_setters (serve_light color light s)) i = Some l" for i l
    using hm_extend_get [OF that [unfolded serve_light_def, simplified]] assms
    by (auto simp: hue_inv_def setter_of_def split: if_splits)
  moreover have "hu_hubs (serve_light color light s) = hu_hubs s" "hu_apis (serve_light color light s) = hu_apis s"
    "hu_threads (serve_light color light s) = hu_threads s" "hu_queue (serve_light color light s) = hu_queue s"
    "hu_main (serve_light color light s) = hu_main s"
    by (simp_all add: serve_light_def)
  ultimately show ?thesis using assms(1)
    by (simp add: hue_inv_def thread_ok_def action_ok_def cong: HueAction.case_cong)
qed

lemma hue_inv_manager: "hue_inv s \<Longrightarrow> hue_inv (s\<lparr>hu_manager := m\<rparr>)"
  by (erule hue_inv_step) simp_all

text \<open>Initializing a light: at most the flags, the manager and the tables of channels change.\<close>

lemma light_init_inv:
  assumes "light_init_service E light s = (r, t)" and "hue_inv s" and "light_ok (hu_apis s) light"
  shows "hue_inv t \<and> hu_hubs t = hu_hubs s \<and> hu_main t = hu_main s"
proof -
  obtain r1 u where w: "with_api (hl_api light) (get_light_status E (hl_light_id light)) s = (r1, u)"
    by (cases "with_api (hl_api light) (get_light_status E (hl_light_id light)) s")
  note same = with_api_same [OF w]
  have u: "hue_inv u" by (rule same_inv [OF assms(2) same])
  from same obtain apis where us: "u = s\<lparr>hu_apis := apis\<rparr>" "apis_grow (hu_apis s) apis"
    by (auto simp: same_but_apis_def)
  have ok: "light_ok (hu_apis u) light" using light_ok_grow [OF us(2) assms(3)] us(1) by simp
  have served: "hue_inv (serve_light color light (u\<lparr>hu_manager := m\<rparr>))" for color m
    by (rule serve_light_inv [OF hue_inv_manager [OF u]]) (simp add: ok)
  have keep: "hu_hubs (serve_light color light v) = hu_hubs v" "hu_main (serve_light color light v) = hu_main v"
    for color and v :: "'b hue_state" by (simp_all add: serve_light_def)
  show ?thesis
  proof (cases r1)
    case Panic
    then have "t = u" using assms(1) w by (simp add: light_init_service_def)
    then show ?thesis using u us(1) by simp
  next
    case (Done status)
    show ?thesis
    proof (cases "light_setup light status")
      case None
      then have "t = u" using assms(1) w Done by (simp add: light_init_service_def)
      then show ?thesis using u us(1) by simp
    next
      case (Some cs)
      obtain color steps where cs: "cs = (color, steps)" by (cases cs)
      have t: "(case run_setup steps (hu_manager u) of
                  Panic \<Rightarrow> (Panic, u)
                | Done (Inl e, m) \<Rightarrow> (Done (Inl e), u\<lparr>hu_manager := m\<rparr>)
                | Done (Inr _, m) \<Rightarrow> (Done (Inr ()), serve_light color light (u\<lparr>hu_manager := m\<rparr>))) = (r, t)"
        using assms(1) by (simp add: light_init_service_def w Done Some cs)
      show ?thesis
      proof (cases "run_setup steps (hu_manager u)")
        case Panic
        then have "t = u" using t by simp
        then show ?thesis using u us(1) by simp
      next
        case (Done x)
        obtain y m where x: "x = (y, m)" by (cases x)
        show ?thesis
        proof (cases y)
          case (Inl e)
          then have "t = u\<lparr>hu_manager := m\<rparr>" using t Done x by simp
          then show ?thesis using hue_inv_manager [OF u] us(1) by simp
        next
          case (Inr e)
          then have "t = serve_light color light (u\<lparr>hu_manager := m\<rparr>)" using t Done x by simp
          then show ?thesis using served us(1) by (simp add: keep)
        qed
      qed
    qed
  qed
qed

lemma add_hub_inv:
  assumes "hue_inv s" and "hm_get (hu_hubs s) h = None"
  shows "hue_inv (snd (handle_hue_action E (AddHub h ip) s))"
proof -
  obtain token config where c: "config_get_or_set_default (he_codec E) (he_io E) ''philips_hue'' (token_key h) ''unauthorized''
      (hu_config s) = (token, config)"
    by (cases "config_get_or_set_default (he_codec E) (he_io E) ''philips_hue'' (token_key h) ''unauthorized'' (hu_config s)")
  show ?thesis
    by (rule hue_inv_step [OF assms(1)])
      (auto simp: handle_hue_action_def assms(2) hub_new_def hub_start_def c hub_api_new_def apis_grow_append update_conv
        hub_ok_def thread_ok_def hm_has_def nth_append split: if_splits)
qed

lemma handle_hue_action_inv:
  assumes "hue_inv s" and "action_ok s action"
  shows "hue_inv (snd (handle_hue_action E action s))"
proof (cases action)
  case TriggerDiscovery
  then show ?thesis by (auto simp: handle_hue_action_def Let_def intro!: hue_inv_step [OF assms(1)])
next
  case (AddHub h ip)
  show ?thesis
  proof (cases "hm_get (hu_hubs s) h")
    case None
    then show ?thesis using add_hub_inv [OF assms(1)] AddHub by simp
  next
    case (Some hub)
    have hub: "hub_ok (hu_apis s) h hub" using assms(1) Some by (simp add: hue_inv_def)
    show ?thesis
      by (rule hue_inv_step [OF assms(1)])
        (use hub in \<open>auto simp: AddHub handle_hue_action_def Some update_conv update_ip_def hub_ok_def hm_has_def split: if_splits\<close>)
  qed
next
  case (AddLight h l)
  show ?thesis
  proof (cases "hm_has (hu_lights s) (light_key h l)")
    case True
    then show ?thesis using assms(1) by (simp add: AddLight handle_hue_action_def)
  next
    case False
    show ?thesis
    proof (cases "hm_get (hu_hubs s) h")
      case None
      then show ?thesis using assms(1) False by (simp add: AddLight handle_hue_action_def)
    next
      case (Some hub)
      let ?l = "light_new (hb_api hub) h l"
      have "hub_ok (hu_apis s) h hub" using assms(1) Some by (simp add: hue_inv_def)
      then have ok: "light_ok (hu_apis s) ?l" by (simp add: hub_ok_def light_new_ok)
      obtain r t where t: "light_init_service E ?l s = (r, t)" by (cases "light_init_service E ?l s")
      have inv: "hue_inv t" using light_init_inv [OF t assms(1) ok] by simp
      have "hue_inv (t\<lparr>hu_lights := ls\<rparr>)" for ls by (rule hue_inv_step [OF inv]) simp_all
      then show ?thesis using inv False Some t by (cases r) (simp_all add: AddLight handle_hue_action_def)
    qed
  qed
next
  case (RemoveHub h)
  with assms(2) show ?thesis by (simp add: action_ok_def)
next
  case (RemoveLight h l)
  then show ?thesis by (auto simp: handle_hue_action_def intro!: hue_inv_step [OF assms(1)])
next
  case StopAdapter
  then show ?thesis by (auto simp: handle_hue_action_def intro!: hue_inv_step [OF assms(1)])
qed

lemma hue_inv_die: "hue_inv s \<Longrightarrow> hue_inv (s\<lparr>hu_main := MainDied\<rparr>)"
  by (erule hue_inv_step) (auto simp: action_ok_def thread_ok_def split: HueAction.splits)

lemma hue_turn_inv:
  assumes "hue_inv s"
  shows "hue_inv (hue_turn E s)"
proof -
  have drop_queue: "hue_inv (s\<lparr>hu_queue := []\<rparr>)" by (rule hue_inv_step [OF assms]) simp_all
  show ?thesis
  proof (cases "hu_queue s")
    case Nil
    then show ?thesis using assms drop_queue by (cases "hu_main s") (simp_all add: hue_turn_def)
  next
    case (Cons a q)
    let ?s = "s\<lparr>hu_queue := q\<rparr>"
    have s: "hue_inv ?s" by (rule hue_inv_step [OF assms]) (simp_all add: Cons)
    have "action_ok s a" using assms Cons by (simp add: hue_inv_def)
    then have a: "action_ok ?s a" by (simp add: action_ok_def cong: HueAction.case_cong)
    obtain r t where t: "handle_hue_action E a ?s = (r, t)" by (cases "handle_hue_action E a ?s")
    have "hue_inv t" using handle_hue_action_inv [OF s a, of E] t by simp
    then show ?thesis using drop_queue Cons t hue_inv_die
      by (cases "hu_main s"; cases r) (simp_all add: hue_turn_def)
  qed
qed

lemma nupnp_inv: "hue_inv s \<Longrightarrow> hue_inv (do_nupnp_discovery E s)"
proof -
  assume s: "hue_inv s"
  have c: "hue_inv (s\<lparr>hu_config := config\<rparr>)" for config by (rule hue_inv_step [OF s]) simp_all
  have "hue_inv (fold (\<lambda>(i, ip). hue_tell (AddHub i ip)) es t)" if "hue_inv t" for es and t :: "'a hue_state"
    using that by (induction es arbitrary: t) (auto simp: tell_inv action_ok_def)
  with c show ?thesis by (auto simp: do_nupnp_discovery_def split: prod.splits)
qed

lemma discover_inv: "hue_inv s \<Longrightarrow> hue_inv (snd (hue_discover service s))"
  by (auto simp: hue_discover_def Let_def tell_inv action_ok_def split: option.splits)

lemma send_inv: "hue_inv s \<Longrightarrow> hue_inv (snd (hue_send_one i val s))"
proof -
  assume s: "hue_inv s"
  have "hue_inv (s\<lparr>hu_puts := puts\<rparr>)" for puts by (rule hue_inv_step [OF s]) simp_all
  then show ?thesis using hue_send_one_same [of i val s] by metis
qed

lemma hue_event_inv: "hue_inv s \<Longrightarrow> hue_inv (hue_event_step e s)"
proof (cases e)
  case (Configured config)
  assume "hue_inv s"
  then show ?thesis unfolding Configured by (rule hue_inv_step) simp_all
qed (simp_all add: hue_turn_inv hub_step_inv nupnp_inv discover_inv send_inv hue_inv_manager tell_inv action_ok_def
    same_inv [OF _ hue_fetch_one_same])

lemma hue_reachable_inv: "hue_reachable s \<Longrightarrow> hue_inv s"
proof (induction rule: hue_reachable.induct)
  case (hue_start inst m config r self)
  then show ?case
    by (auto simp: hue_init_def Let_def hue_tell_def hue_inv_def action_ok_def split: prod.splits sum.splits)
qed (rule hue_event_inv)

section \<open>What does not come back\<close>

lemma light_init_same:
  assumes "light_init_service E light s = (r, t)"
  shows "apis_grow (hu_apis s) (hu_apis t)"
proof -
  obtain r1 u where w: "with_api (hl_api light) (get_light_status E (hl_light_id light)) s = (r1, u)"
    by (cases "with_api (hl_api light) (get_light_status E (hl_light_id light)) s")
  have u: "apis_grow (hu_apis s) (hu_apis u)" using with_api_same [OF w] by (simp add: same_but_apis_def)
  have "hu_apis t = hu_apis u"
    using assms by (auto simp: light_init_service_def w serve_light_def split: outcome.splits option.splits sum.splits)
  then show ?thesis using u by simp
qed

lemma handle_hue_action_grow: "apis_grow (hu_apis s) (hu_apis (snd (handle_hue_action E action s)))"
proof (cases action)
  case (AddHub h ip)
  then show ?thesis
    by (auto simp: handle_hue_action_def hub_new_def hub_start_def apis_grow_append split: option.splits prod.splits)
next
  case (AddLight h l)
  have l: "apis_grow (hu_apis s) (hu_apis (snd (case light_init_service E x s of
      (Panic, self) \<Rightarrow> (Panic, self) | (Done _, self) \<Rightarrow> (Done (), self\<lparr>hu_lights := f self\<rparr>))))" for x f
    using light_init_same [of E x s] by (cases "light_init_service E x s") (auto split: outcome.splits)
  show ?thesis using l by (simp add: AddLight handle_hue_action_def Let_def split: option.split)
qed (simp_all add: handle_hue_action_def Let_def)

lemma hue_turn_grow: "apis_grow (hu_apis s) (hu_apis (hue_turn E s))"
proof (cases "hu_queue s")
  case Nil
  then show ?thesis by (cases "hu_main s") (simp_all add: hue_turn_def)
next
  case (Cons a q)
  obtain r t where t: "handle_hue_action E a (s\<lparr>hu_queue := q\<rparr>) = (r, t)"
    by (cases "handle_hue_action E a (s\<lparr>hu_queue := q\<rparr>)")
  have "apis_grow (hu_apis s) (hu_apis t)" using handle_hue_action_grow [of "s\<lparr>hu_queue := q\<rparr>" E a] t by simp
  then show ?thesis by (cases "hu_main s"; cases r) (simp_all add: hue_turn_def Cons t)
qed

lemma nupnp_apis: "hu_apis (do_nupnp_discovery E s) = hu_apis s"
proof -
  have "hu_apis (fold (\<lambda>(i, ip). hue_tell (AddHub i ip)) es t) = hu_apis t" for es and t :: "'a hue_state"
    by (induction es arbitrary: t) (auto simp: hue_tell_def)
  then show ?thesis by (simp add: do_nupnp_discovery_def split: prod.splits)
qed

lemma hub_step_grow: "apis_grow (hu_apis s) (hu_apis (hub_step E k s))"
proof (cases "hub_phase_step E (hu_threads s ! k) s")
  case (Pair phase t)
  have "apis_grow (hu_apis s) (hu_apis t)" using hub_phase_effect [OF Pair] by (simp only: hub_effect_def)
  then show ?thesis by (simp add: hub_step_def Pair)
qed

lemma hue_send_one_apis: "hu_apis (snd (hue_send_one i val s)) = hu_apis s"
proof -
  obtain u where u: "u = snd (hue_send_one i val s)" by simp
  have "u = s\<lparr>hu_puts := hu_puts u\<rparr>" using hue_send_one_same [of i val s] by (simp only: u)
  then show ?thesis unfolding u [symmetric] by (cases u; cases s) simp
qed

lemma hue_event_grow: "apis_grow (hu_apis s) (hu_apis (hue_event_step e s))"
proof (cases e)
  case (SendOne i val)
  then show ?thesis by (simp add: hue_send_one_apis)
next
  case (FetchOne E i)
  then show ?thesis using hue_fetch_one_same [of s E i] by (simp add: same_but_apis_def)
next
  case (Announced service)
  then show ?thesis by (simp add: hue_discover_def Let_def hue_tell_def split: option.splits)
qed (simp_all add: hue_turn_grow nupnp_apis hub_step_grow hue_tell_def)

lemma hue_run_grow: "apis_grow (hu_apis s) (hu_apis (hue_run es s))"
  by (induction es arbitrary: s) (auto simp: hue_run_def intro: apis_grow_trans hue_event_grow)

lemma hue_reachable_run: "hue_reachable s \<Longrightarrow> hue_reachable (hue_run es s)"
  by (induction es arbitrary: s) (auto simp: hue_run_def intro: hue_next)

lemma hue_run_poisoned:
  "a < length (hu_apis s) \<Longrightarrow> ha_poisoned (hu_apis s ! a) \<Longrightarrow> ha_poisoned (hu_apis (hue_run es s) ! a)"
  using hue_run_grow [of s es] by (simp add: apis_grow_def)

text \<open>A request that panics leaves the connection of its light poisoned.\<close>

lemma with_api_panic:
  assumes "with_api a f s = (Panic, t)" and "a < length (hu_apis s)"
  shows "ha_poisoned (hu_apis t ! a) \<and> length (hu_apis t) = length (hu_apis s)"
  using assms by (cases rule: with_api_cases [of s a f]) auto

lemma light_get_panic:
  assumes "light_get E l f s = (Panic, t)" and "hl_api l < length (hu_apis s)"
  shows "ha_poisoned (hu_apis t ! hl_api l) \<and> length (hu_apis t) = length (hu_apis s)"
proof (cases "with_api (hl_api l) (get_light_status E (hl_light_id l)) s")
  case (Pair r u)
  then show ?thesis using assms with_api_panic
    by (cases r) (simp_all add: light_get_def)
qed

lemma light_get_poisoned:
  "ha_poisoned (hu_apis s ! hl_api l) \<Longrightarrow> light_get E l f s = (Panic, s)"
  by (simp add: light_get_def with_api_def)

lemma map_done_panic: "fst (map_done f p) = Panic \<longleftrightarrow> fst p = Panic"
  by (cases p; cases "fst p") (simp_all add: map_done_def)

lemma map_light_get_panic:
  assumes "hl_api l < length (hu_apis s)" and "fst (map_done f (light_get E l g s)) = Panic"
  shows "ha_poisoned (hu_apis (snd (map_done f (light_get E l g s))) ! hl_api l)
     \<and> length (hu_apis (snd (map_done f (light_get E l g s)))) = length (hu_apis s)"
  using assms light_get_panic [OF _ assms(1), of E g]
  by (cases "light_get E l g s") (auto simp: map_done_def split: outcome.splits)

lemma hue_fetch_one_gets:
  assumes "hm_get (hu_getters s) i = Some l" and "getter_of i l"
  obtains (onoff) f g where "hue_fetch_one E i s = map_done f (light_get E l (g :: light_entry \<Rightarrow> bool) s)"
  | (color) f g where "hue_fetch_one E i s = map_done f (light_get E l (g :: light_entry \<Rightarrow> f64 \<times> f64 \<times> f64) s)"
proof -
  consider "i = hl_get_available_id l" | "i \<noteq> hl_get_available_id l" "i = hl_get_power_id l"
    | "i \<noteq> hl_get_available_id l" "i \<noteq> hl_get_power_id l" "i = hl_get_color_id l"
    using assms(2) unfolding getter_of_def by blast
  then show thesis
  proof cases
    case 1
    have "hue_fetch_one E i s = map_done (\<lambda>on. Inr (Some (VOnOff (if on then On else Off)))) (get_available E l s)"
      unfolding hue_fetch_one_def assms(1) Let_def option.case if_P [OF 1] ..
    then show thesis unfolding get_available_def by (rule onoff)
  next
    case 2
    have "hue_fetch_one E i s = map_done (\<lambda>on. Inr (Some (VOnOff (if on then On else Off)))) (get_power E l s)"
      unfolding hue_fetch_one_def assms(1) Let_def option.case if_not_P [OF 2(1)] if_P [OF 2(2)] ..
    then show thesis unfolding get_power_def by (rule onoff)
  next
    case 3
    have "hue_fetch_one E i s = map_done (\<lambda>(h, s, v). Inr (Some (VColor (HSV h s v)))) (get_color E l s)"
      unfolding hue_fetch_one_def assms(1) Let_def option.case if_not_P [OF 3(1)] if_not_P [OF 3(2)] if_P [OF 3(3)] ..
    then show thesis unfolding get_color_def by (rule color)
  qed
qed

lemma hue_fetch_one_panic:
  assumes "hm_get (hu_getters s) i = Some l" and "getter_of i l" and "fst (hue_fetch_one E i s) = Panic"
    and "hl_api l < length (hu_apis s)"
  shows "ha_poisoned (hu_apis (snd (hue_fetch_one E i s)) ! hl_api l)
     \<and> length (hu_apis (snd (hue_fetch_one E i s))) = length (hu_apis s)"
proof (rule hue_fetch_one_gets [OF assms(1,2), of E])
  fix f and g :: "light_entry \<Rightarrow> bool"
  assume e: "hue_fetch_one E i s = map_done f (light_get E l g s)"
  show ?thesis using assms(3) unfolding e by (rule map_light_get_panic [OF assms(4)])
next
  fix f and g :: "light_entry \<Rightarrow> f64 \<times> f64 \<times> f64"
  assume e: "hue_fetch_one E i s = map_done f (light_get E l g s)"
  show ?thesis using assms(3) unfolding e by (rule map_light_get_panic [OF assms(4)])
qed

lemma hue_fetch_one_poisoned:
  assumes "hm_get (hu_getters s) i = Some l" and "getter_of i l" and "ha_poisoned (hu_apis s ! hl_api l)"
  shows "hue_fetch_one E i s = (Panic, s)"
  by (rule hue_fetch_one_gets [OF assms(1,2), of E]) (simp_all add: light_get_poisoned [where s = s, OF assms(3)] map_done_def)

lemma hue_send_one_poisoned:
  assumes "hm_get (hu_setters s) i = Some l" and "ha_poisoned (hu_apis s ! hl_api l)"
  shows "snd (hue_send_one i val s) = s \<and> fst (hue_send_one i val s) \<noteq> Done (Inr ())"
proof -
  have p: "put_command (hl_api l) cmd data s = (Panic, s)" for cmd data
    using assms(2) by (simp add: put_command_def)
  show ?thesis
    by (simp add: hue_send_one_def assms(1) set_power_def set_color_def p map_done_def split: Value.split Color.split)
qed

section \<open>Properties\<close>

text \<open>C39: One answer of a bridge that cannot be read while a getter is served ends the use of that bridge:
  whatever happens next in any thread, and whatever the bridge answers from then on, every request for a
  value of any light on the same connection panics, and no command is sent to any of them.\<close>

theorem one_panic_silences_bridge:
  assumes "hue_reachable s" and "hm_get (hu_getters s) i = Some l" and "fst (hue_fetch_one E i s) = Panic"
    and "t = hue_run es (snd (hue_fetch_one E i s))"
    and "hm_get (hu_getters t) j = Some l'" and "hl_api l' = hl_api l"
    and "hm_get (hu_setters t) k = Some l''" and "hl_api l'' = hl_api l"
  shows "hue_fetch_one E' j t = (Panic, t) \<and> snd (hue_send_one k val t) = t
    \<and> fst (hue_send_one k val t) \<noteq> Done (Inr ())"
proof -
  have l: "hl_api l < length (hu_apis s)"
    and i: "getter_of i l"
    using hue_reachable_inv [OF assms(1)] assms(2) by (simp_all add: hue_inv_def light_ok_def)
  have t: "hue_reachable t"
    unfolding assms(4) using hue_reachable_run [OF hue_next [OF assms(1), of "FetchOne E i"]] by simp
  have "ha_poisoned (hu_apis t ! hl_api l)"
    unfolding assms(4) using hue_fetch_one_panic [OF assms(2) i assms(3) l] l by (auto intro: hue_run_poisoned)
  moreover have "getter_of j l'"
    using hue_reachable_inv [OF t] assms(5) by (simp add: hue_inv_def)
  ultimately show ?thesis
    using hue_fetch_one_poisoned [OF assms(5)] hue_send_one_poisoned [OF assms(7)] assms(6,8) by auto
qed

lemma hue_turn_action:
  assumes "hu_main s = MainRunning" and "hu_queue s = a # q"
  shows "hue_turn E s = (case handle_hue_action E a (s\<lparr>hu_queue := q\<rparr>) of
    (Done _, t) \<Rightarrow> t | (Panic, t) \<Rightarrow> t\<lparr>hu_main := MainDied\<rparr>)"
  by (simp add: hue_turn_def assms)

lemma light_action_main:
  assumes "hue_inv s" and "hm_get (hu_hubs s) h = Some hub" and "\<not> hm_has (hu_lights s) (light_key h l)"
    and "handle_hue_action E (AddLight h l) s = (r, t)"
  shows "(case r of Panic \<Rightarrow> fst (light_init_service E (light_new (hb_api hub) h l) s) = Panic
     | Done _ \<Rightarrow> hu_main t = hu_main s)"
proof -
  let ?l = "light_new (hb_api hub) h l"
  have "hub_ok (hu_apis s) h hub" using assms(1,2) by (simp add: hue_inv_def)
  then have ok: "light_ok (hu_apis s) ?l" by (simp add: hub_ok_def light_new_ok)
  obtain r' u where u: "light_init_service E ?l s = (r', u)" by (cases "light_init_service E ?l s")
  have "hu_main u = hu_main s" using light_init_inv [OF u assms(1) ok] by simp
  then show ?thesis using assms(4)
    by (cases r') (auto simp: handle_hue_action_def assms(2,3) u)
qed

text \<open>C30: The main thread of the adapter dies only of a search that fails or of a new light: one whose state
  its bridge does not answer in a readable way, or one that the manager panics about. In particular a
  message about a light is never one of a hub that the thread does not know.\<close>

theorem main_thread_dies_only_of:
  assumes "hue_reachable s" and "hu_main s = MainRunning" and "hu_main (hue_turn E s) = MainDied"
  shows "(\<exists>q. hu_queue s = TriggerDiscovery # q \<and> \<not> he_search_ok E)
    \<or> (\<exists>h l q hub. hu_queue s = AddLight h l # q \<and> \<not> hm_has (hu_lights s) (light_key h l)
        \<and> hm_get (hu_hubs s) h = Some hub
        \<and> fst (light_init_service E (light_new (hb_api hub) h l) (s\<lparr>hu_queue := q\<rparr>)) = Panic)"
proof (cases "hu_queue s")
  case Nil
  then show ?thesis using assms(2,3) by (simp add: hue_turn_def)
next
  case (Cons a q)
  let ?s = "s\<lparr>hu_queue := q\<rparr>"
  have inv: "hue_inv s" by (rule hue_reachable_inv [OF assms(1)])
  have ok: "action_ok s a" using inv Cons by (simp add: hue_inv_def)
  obtain r t where t: "handle_hue_action E a ?s = (r, t)" by (cases "handle_hue_action E a ?s")
  have dies: "r = Panic \<or> hu_main t = MainDied"
    using assms(3) by (cases r) (simp_all add: hue_turn_action [OF assms(2) Cons] t)
  show ?thesis
  proof (cases a)
    case TriggerDiscovery
    then show ?thesis using dies t assms(2) Cons by (auto simp: handle_hue_action_def Let_def split: if_splits)
  next
    case (AddHub h ip)
    then show ?thesis using dies t assms(2)
      by (auto simp: handle_hue_action_def hub_new_def hub_start_def split: option.splits prod.splits)
  next
    case (AddLight h l)
    obtain hub where hub: "hm_get (hu_hubs s) h = Some hub"
      using ok assms(2) AddLight by (auto simp: action_ok_def hm_has_def)
    have "hue_inv ?s" by (rule hue_inv_step [OF inv]) (simp_all add: Cons)
    note main = light_action_main [OF this _ _ t [unfolded AddLight], of hub]
    show ?thesis
    proof (cases "hm_has (hu_lights s) (light_key h l)")
      case True
      then show ?thesis using dies t assms(2) by (auto simp: AddLight handle_hue_action_def)
    next
      case False
      then have "fst (light_init_service E (light_new (hb_api hub) h l) ?s) = Panic"
        using dies main hub assms(2) by (cases r) auto
      then show ?thesis using AddLight Cons False hub by blast
    qed
  next
    case (RemoveHub h)
    then show ?thesis using ok by (simp add: action_ok_def)
  next
    case (RemoveLight h l)
    then show ?thesis using dies t assms(2) by (auto simp: handle_hue_action_def)
  next
    case StopAdapter
    then show ?thesis using dies t by (auto simp: handle_hue_action_def)
  qed
qed


text \<open>When a known bridge is found under a new address, only the record of the hub changes: whatever happens
  next, the connection that every request goes through has the address it had before.\<close>

theorem moved_bridge_is_asked_at_its_old_address:
  assumes "hue_reachable s" and "hu_main s = MainRunning" and "hu_queue s = AddHub h ip # q"
    and "hm_get (hu_hubs s) h = Some hub"
  shows "hm_get (hu_hubs (hue_turn E s)) h = Some (hub\<lparr>hb_ip := ip\<rparr>)
    \<and> ha_ip (hu_apis (hue_run es (hue_turn E s)) ! hb_api hub) = ha_ip (hu_apis s ! hb_api hub)"
proof
  have t: "hue_turn E s = s\<lparr>hu_queue := q, hu_hubs := hm_insert h (update_ip ip hub) (hu_hubs s)\<rparr>"
    by (simp add: hue_turn_action [OF assms(2,3)] handle_hue_action_def assms(4))
  then show "hm_get (hu_hubs (hue_turn E s)) h = Some (hub\<lparr>hb_ip := ip\<rparr>)"
    by (simp add: update_ip_def update_conv)
  have "hb_api hub < length (hu_apis s)"
    using hue_reachable_inv [OF assms(1)] assms(4) by (simp add: hue_inv_def hub_ok_def)
  then show "ha_ip (hu_apis (hue_run es (hue_turn E s)) ! hb_api hub) = ha_ip (hu_apis s ! hb_api hub)"
    using hue_run_grow [of "hue_turn E s" es] by (simp add: t apis_grow_def)
qed

lemma no_slashes: "CHR ''/'' \<notin> set xs \<Longrightarrow> after_slashes (xs @ '':80/'') = None"
  by (induction xs) (auto split: list.split simp: take_Cons')

text \<open>A bridge that announces itself under its name, with a plain address on port 80 and a serial number of
  twelve characters, becomes a message with that address and with the identifier that its server reports too.\<close>

theorem announced_bridge_is_added:
  assumes "hm_get (us_description service) ''/root/device/modelName'' = Some (''Philips hue bridge'' @ model)"
    and "hm_get (us_description service) ''/root/device/modelNumber'' = Some number"
    and "hm_get (us_description service) ''/root/device/serialNumber'' = Some (oui @ nic)"
    and "length oui = 6" and "length nic = 6"
    and "hm_get (us_description service) ''/root/URLBase'' = Some (''http://'' @ ip @ '':80/'')"
    and "CHR ''/'' \<notin> set ip" and "CHR '':'' \<notin> set ip"
  shows "hue_discover service s = (Done True, hue_tell (AddHub (oui @ ''fffe'' @ nic) ip) s)"
proof -
  have "after_slashes (''http://'' @ ip @ '':80/'') = Some (ip @ '':80/'')"
    using no_slashes [OF assms(7)] assms(7) by (cases ip) auto
  then have ip: "hue_ip_of_url (''http://'' @ ip @ '':80/'') = ip"
    using assms(8) by (simp add: hue_ip_of_url_def takeWhile_append)
  have i: "hue_id_of_serial (oui @ nic) = oui @ ''fffe'' @ nic"
    using assms(4,5) by (simp add: hue_id_of_serial_def)
  have "starts_with ''Philips hue bridge'' (''Philips hue bridge'' @ model)"
    "starts_with ''http://'' (''http://'' @ ip @ '':80/'')" "ends_with '':80/'' (''http://'' @ ip @ '':80/'')"
    by (simp_all add: starts_with_def ends_with_def)
  then show ?thesis by (simp add: hue_discover_def assms(1,2,3,6) ip i del: append.simps)
qed

section \<open>A home with one bridge\<close>

definition sample_light :: light_entry where
  "sample_light = \<lparr>le_lighttype = ''Dimmable light'', le_manufacturername = ''Philips'', le_modelid = ''LWB004'',
     le_name = ''desk'', le_on = True, le_reachable = True, le_bri = 254, le_hue = None, le_sat = None\<rparr>"

text \<open>Everything answers, or nothing does.\<close>

definition good_env :: "((string \<times> string btree) option) hue_env" where
  "good_env = \<lparr>he_codec = sample_codec, he_io = good_io, he_get = (\<lambda>_. Some ''hue personal wireless lighting''),
     he_post = (\<lambda>_ _. None), he_light = (\<lambda>_. Some sample_light), he_lights = (\<lambda>_. Some [''1'']),
     he_settings = (\<lambda>_. True), he_pairing = (\<lambda>_. None), he_nupnp = (\<lambda>_. None), he_search_ok = True\<rparr>"

definition bad_env :: "((string \<times> string btree) option) hue_env" where
  "bad_env = good_env\<lparr>he_get := (\<lambda>_. None), he_search_ok := False\<rparr>"

definition hue_field :: "string \<Rightarrow> string \<Rightarrow> string \<times> string" where
  "hue_field name val = (''/root/'' @ name, val)"

definition bridge_announcement :: upnp_service where
  "bridge_announcement = one_device\<lparr>us_description :=
     [hue_field ''device/modelName'' ''Philips hue bridge 2015'', hue_field ''device/modelNumber'' ''BSB002'',
      hue_field ''device/serialNumber'' ''001788abcdef'', hue_field ''URLBase'' ''http://10.0.0.2:80/'']\<rparr>"

definition hue_began :: "((string \<times> string btree) option) hue_state" where
  "hue_began = snd (hue_init 0 (manager_new None) (config_new sample_codec [] ''f'', []))"

definition hue_home :: "((string \<times> string btree) option) hue_state" where
  "hue_home = hue_run [MainTurn good_env, Announced bridge_announcement, MainTurn good_env, HubTurn good_env 0,
     HubTurn good_env 0, HubTurn good_env 0, HubTurn good_env 0, HubTurn good_env 0, MainTurn good_env] hue_began"

lemma began_reachable: "hue_reachable hue_began"
  unfolding hue_began_def by (rule hue_start [OF surjective_pairing])

lemma hue_home_reachable: "hue_reachable hue_home"
  unfolding hue_home_def by (rule hue_reachable_run [OF began_reachable])

lemma home_facts:
  "hu_main hue_began = MainRunning" "hu_queue hue_began = [TriggerDiscovery]"
  "map fst (hu_getters hue_home) = [hue_getter_id ''available'' ''001788fffeabcdef'' ''1'', hue_getter_id ''power'' ''001788fffeabcdef'' ''1'']"
  "map fst (hu_setters hue_home) = [hue_setter_id ''power'' ''001788fffeabcdef'' ''1'']"
  "map fst (hu_hubs hue_home) = [''001788fffeabcdef'']"
  "hu_main hue_home = MainRunning"
  "hu_queue hue_home = []"
  by code_simp+

definition sample_getter :: GetterId where "sample_getter = hue_getter_id ''power'' ''001788fffeabcdef'' ''1''"
definition sample_setter :: SetterId where "sample_setter = hue_setter_id ''power'' ''001788fffeabcdef'' ''1''"

definition hue_later :: "((string \<times> string btree) option) hue_state" where
  "hue_later = hue_run [HubTurn good_env 0] (snd (hue_fetch_one bad_env sample_getter hue_home))"

lemma sample_light_apis:
  "map_option hl_api (hm_get (hu_getters hue_home) sample_getter) = Some 0"
  "map_option hl_api (hm_get (hu_getters hue_later) sample_getter) = Some 0"
  "map_option hl_api (hm_get (hu_setters hue_later) sample_setter) = Some 0"
  by code_simp+

theorem one_panic_silences_bridge_witness:
  "hue_fetch_one good_env sample_getter hue_later = (Panic, hue_later)"
proof -
  obtain l l' l'' where l: "hm_get (hu_getters hue_home) sample_getter = Some l" "hl_api l = 0"
      "hm_get (hu_getters hue_later) sample_getter = Some l'" "hl_api l' = 0"
      "hm_get (hu_setters hue_later) sample_setter = Some l''" "hl_api l'' = 0"
    using sample_light_apis by fastforce
  have "(case fst (hue_fetch_one bad_env sample_getter hue_home) of Panic \<Rightarrow> True | Done _ \<Rightarrow> False)" by code_simp
  then have "fst (hue_fetch_one bad_env sample_getter hue_home) = Panic" by (simp split: outcome.splits)
  from one_panic_silences_bridge [OF hue_home_reachable l(1) this hue_later_def l(3) _ l(5)]
  show ?thesis by (simp add: l)
qed

theorem main_thread_dies_only_of_witness:
  "\<exists>q. hu_queue hue_began = TriggerDiscovery # q \<and> \<not> he_search_ok bad_env"
proof -
  have "hu_main (hue_turn bad_env hue_began) = MainDied" by code_simp
  from main_thread_dies_only_of [OF began_reachable home_facts(1) this]
  show ?thesis by (simp add: home_facts(2))
qed


definition moved_home :: "((string \<times> string btree) option) hue_state" where
  "moved_home = hue_run [Announced (bridge_announcement\<lparr>us_description :=
     (''/root/URLBase'', ''http://10.0.0.9:80/'') # us_description bridge_announcement\<rparr>)] hue_home"

theorem moved_bridge_is_asked_at_its_old_address_witness:
  "\<exists>hub. hm_get (hu_hubs (hue_turn good_env moved_home)) ''001788fffeabcdef'' = Some hub \<and> hb_ip hub = ''10.0.0.9''
     \<and> ha_ip (hu_apis (hue_turn good_env moved_home) ! hb_api hub) = ''10.0.0.2''"
proof -
  have r: "hue_reachable moved_home" unfolding moved_home_def by (rule hue_reachable_run [OF hue_home_reachable])
  have m: "hu_main moved_home = MainRunning" by code_simp
  have q: "hu_queue moved_home = [AddHub ''001788fffeabcdef'' ''10.0.0.9'']" by code_simp
  have "map_option hb_api (hm_get (hu_hubs moved_home) ''001788fffeabcdef'') = Some 0" by code_simp
  then obtain hub where hub: "hm_get (hu_hubs moved_home) ''001788fffeabcdef'' = Some hub" "hb_api hub = 0" by auto
  have ip: "ha_ip (hu_apis moved_home ! 0) = ''10.0.0.2''" by code_simp
  note new = moved_bridge_is_asked_at_its_old_address [OF r m q hub(1), of good_env "[]"]
  have "ha_ip (hu_apis (hue_turn good_env moved_home) ! 0) = ''10.0.0.2''"
    using new ip hub(2)
    by (simp add: hue_run_def)
  then show ?thesis using new hub(2) by simp
qed

theorem announced_bridge_is_added_witness:
  "hue_discover bridge_announcement hue_home = (Done True, hue_tell (AddHub ''001788fffeabcdef'' ''10.0.0.2'') hue_home)"
  using announced_bridge_is_added [of bridge_announcement "'' 2015''" "''BSB002''" "''001788''" "''abcdef''" "''10.0.0.2''" hue_home]
  by (simp add: bridge_announcement_def hue_field_def one_device_def)

end
