(* ===== verification/Spec2Isabelle.thy ===== *)
theory Spec2Isabelle
  imports Manager_Watch TB_Props TB_Manager_Props Router_Props Think_Props Openzwave_Props
    Clock_Props Console_Tts Config_Store Webpush_Props Managed_Props Utils Ip_Camera_Props
    Hue_Props
begin

text \<open>
  Foxbox, the server of a connected home: a taxonomy of devices, services and channels behind an HTTP
  interface, adapters that bring the devices, and Thinkerbell, which runs the rules of the users.
  This development models the Rust code of the server under \<^verbatim>\<open>src/\<close>. Paths below are
  relative to that directory: \<^verbatim>\<open>components/\<close> are its libraries, \<^verbatim>\<open>src/\<close> its binary.

  \<^bold>\<open>How the code is translated.\<close> A struct is a record, an enum a datatype, a function or method a
  definition of the same name (with a prefix where two types have a method of the same name). What a
  method mutates is taken and returned. A panic is the value \<open>Panic\<close> of type \<open>outcome\<close>, a
  \<^verbatim>\<open>Result\<close> a sum whose left side is the error. A \<^verbatim>\<open>HashMap\<close> is an association list with distinct
  keys, whose order is the iteration order; nothing is assumed of that order. A \<^verbatim>\<open>BTreeMap\<close> is a
  sorted association list. Shared cells (\<^verbatim>\<open>Arc<SubCell<_>>\<close>) are addresses into a store. Threads are
  step relations: an operation under a lock, or a message handled, is one step. Code that is not in the
  repository (the database, the devices, cryptography, HTTP, the calendar) is a parameter or an argument
  of the definitions that use it, and what the code relies on is a hypothesis of the properties that
  need it, each shown to be satisfiable by a witness.

  \<^bold>\<open>The theories and what they model.\<close>
  \<^item> \<open>Foxbox_Prelude\<close>: outcomes, the sequencing of fallible steps, the containers of the standard
    library with the locale \<open>key_map\<close> as their contract. \<open>F64\<close>: floating-point numbers with rounding.
  \<^item> \<open>Json\<close> (\<^verbatim>\<open>components/taxonomy/src/parse.rs\<close>), \<open>Taxonomy_Util\<close> (\<^verbatim>\<open>util.rs\<close>), \<open>Values\<close>
    (\<^verbatim>\<open>values.rs\<close>: values, types, ranges, their JSON form), \<open>Services\<close> (\<^verbatim>\<open>services.rs\<close>), \<open>Selector\<close>
    (\<^verbatim>\<open>selector.rs\<close>), \<open>Api\<close> (\<^verbatim>\<open>api.rs\<close>), \<open>Transact\<close> (\<^verbatim>\<open>transact.rs\<close>), \<open>Tag_Storage\<close>
    (\<^verbatim>\<open>tag_storage.rs\<close>): the data of the taxonomy. Values are read back as they were written; a range
    with a type contains only values of it; selectors form conjunctions; insertion of several keys is
    all or nothing; the tag database implements a relation.
  \<^item> \<open>Backend_State\<close>, \<open>Backend\<close>, \<open>Backend_Requests\<close> (\<^verbatim>\<open>backend.rs\<close>): the registry of adapters,
    services, getters, setters and watchers, and what is prepared under its lock. \<open>Backend_Inv\<close> states
    the consistency of its five tables and proves that every operation keeps it; \<open>Backend_Safety\<close> that
    no operation panics in a consistent state; \<open>Backend_Props\<close>, \<open>Backend_Calls\<close>, \<open>Backend_Watch\<close>,
    \<open>Backend_Events\<close> the behaviour of registration, of requests to adapters (typed and exact), of
    watches and of the events a client gets, the last with the locales \<open>watch_policy\<close> and
    \<open>event_policy\<close>, interpreted on the operations. \<open>Sample_Home\<close> is the installation of the witnesses.
  \<^item> \<open>Manager\<close> (\<^verbatim>\<open>manager.rs\<close>): the adapter manager, the back-end under a lock with a thread that
    registers and releases watches. \<open>Manager_Calls\<close> proves what reading and sending return,
    \<open>Manager_Watch\<close> that every interleaving is a run of the back-end, that nothing is sent after a
    guard is dropped, and that dropped watches are released.
  \<^item> \<open>TB_Compile\<close> (\<^verbatim>\<open>components/thinkerbell/src/ast.rs, compile.rs, util.rs\<close>), \<open>TB_Run\<close>
    (\<^verbatim>\<open>run.rs\<close>), \<open>TB_Manager\<close> (\<^verbatim>\<open>manager.rs\<close>) with \<open>TB_Props\<close> and \<open>TB_Manager_Props\<close>: scripts are
    compiled, run as a thread of conditions, statements and timers, and managed in a database beside
    the running ones. Shown: what compiles, that statements are typed, that the thread is safe and comes
    to rest, that updates are edge-triggered, and that the manager implements two tables.
  \<^item> \<open>Router\<close> (\<^verbatim>\<open>src/taxonomy_router.rs\<close>) with \<open>Router_Props\<close>: the dispatch of HTTP requests.
  \<^item> \<open>Think_Adapter\<close> (\<^verbatim>\<open>src/adapters/thinkerbell/mod.rs\<close>) with \<open>Think_Props\<close>: the scripts as
    services of the taxonomy, and the thread that owns them.
  \<^item> \<open>Openzwave\<close> (\<^verbatim>\<open>components/openzwave-adapter/src\<close>) with \<open>Openzwave_Props\<close>: the Z-Wave adapter,
    its watchers and its thread.
  \<^item> \<open>Clock\<close> (\<^verbatim>\<open>src/adapters/clock/mod.rs\<close>) with \<open>Clock_Props\<close>: watches as daily, single and
    repeating timers; what a watcher of a time of day knows is true.
  \<^item> \<open>Adapter_Setup\<close>: the registration of an adapter, shared by those of \<^verbatim>\<open>src/adapters\<close>;
    \<open>Console_Tts\<close> (\<^verbatim>\<open>src/adapters/console/mod.rs, tts/mod.rs\<close>): two adapters that only send.
  \<^item> \<open>Config_Store\<close> (\<^verbatim>\<open>src/config_store.rs\<close>): properties, overrides and their file, whose operations
    may fail; it implements two partial maps and survives a restart.
  \<^item> \<open>Webpush_Ffi\<close> and \<open>Webpush_Crypto\<close> (\<^verbatim>\<open>src/adapters/webpush/crypto.rs\<close>) with
    \<open>Webpush_Crypto_Props\<close>: who owns which object of OpenSSL, whatever calls fail; a message is cut into
    records sealed under different nonces, and a receiver gets it back. \<open>Webpush\<close> (\<^verbatim>\<open>mod.rs, db.rs\<close>)
    with \<open>Webpush_Props\<close>: who is notified, with what, and when the adapter panics.
  \<^item> \<open>Managed_Process\<close> (\<^verbatim>\<open>src/managed_process.rs, tunnel_controller.rs\<close>) with \<open>Managed_Props\<close>: a
    process that is restarted, and its shutdown, beside the processes of a kernel: shutdown ends and leaves
    nothing behind, unless the process ends at the wrong moment.
  \<^item> \<open>Utils\<close> (\<^verbatim>\<open>src/utils.rs\<close> and the overrides of \<^verbatim>\<open>main.rs\<close>): escaping and its inverse, and what the
    flattening of XML keeps of a document.
  \<^item> \<open>Upnp\<close> (\<^verbatim>\<open>src/upnp.rs\<close>): the discovery of devices and its listeners. \<open>Ip_Camera\<close>
    (\<^verbatim>\<open>src/adapters/ip_camera\<close>) with \<open>Ip_Camera_Props\<close>: cameras, whose snapshots overwrite nothing, whose
    newest one is found and whose repeated announcements change nothing.
  \<^item> \<open>Hue_Color\<close>, \<open>Philips_Hue\<close>, \<open>Hue_Threads\<close> (\<^verbatim>\<open>src/adapters/philips_hue\<close>) with \<open>Hue_Props\<close>:
    bridges and lights, a thread for each bridge and one for the adapter, and their interleavings; the
    conversion of colors, which a round trip does not change; the connections as a store that only grows.

  \<^bold>\<open>Interaction.\<close> The router and Thinkerbell call the manager; the manager calls the back-end under
  its lock and the adapters outside of it; adapters register their channels with the manager (\<open>run_setup\<close>)
  and send events to the watchers registered in the back-end. The models are stacked in the same way: the
  state of the Thinkerbell adapter holds a manager, that of a manager a back-end, that of a back-end a
  tag database.

  \<^bold>\<open>Bounds and fuel.\<close> No definition uses fuel. The loops that are not structural have termination
  proofs (\<open>handle_watches\<close> by the length of its queue, the loops over text and records by what is left).
  Threads are not run to completion by a function; that they come to rest is a property over steps.
  Machine integers are bounded where the code depends on it: \<open>i64\<close> and \<open>f64\<close> in \<open>Values\<close>, bytes and
  their sequence numbers in \<open>Webpush_Crypto\<close>, \<open>u32\<close> and \<open>u64\<close> where they are counted in.

  \<^bold>\<open>Not modelled.\<close>
  \<^item> The glue of the process: \<^verbatim>\<open>src/main.rs\<close> (but for its overrides), \<^verbatim>\<open>controller.rs\<close>,
    \<^verbatim>\<open>http_server.rs\<close>, \<^verbatim>\<open>ws_server.rs\<close>, \<^verbatim>\<open>static_router.rs\<close>, \<^verbatim>\<open>profile_service.rs\<close>, \<^verbatim>\<open>traits.rs\<close>,
    \<^verbatim>\<open>adapters/mod.rs\<close>: they start threads and mount handlers of the HTTP library, whose types are their
    whole content.
  \<^item> \<^verbatim>\<open>src/registration.rs\<close>, \<^verbatim>\<open>components/tls\<close>, \<^verbatim>\<open>bin/\<close>: requests to remote servers, external programs and
    OpenSSL are nearly all of what they do.
  \<^item> \<^verbatim>\<open>components/taxonomy/src/adapter.rs, adapter_utils.rs, lock.rs\<close>: the traits of adapters, which the
    models of the adapters implement, and locks.
  \<^item> \<^verbatim>\<open>src/transact.rs\<close> is an unused copy; \<^verbatim>\<open>iron-fork/\<close> is a copy of a third-party HTTP framework; the
    bindings \<^verbatim>\<open>adapters/tts/espeak.rs\<close> and \<^verbatim>\<open>adapters/philips_hue/http.rs\<close> only call libraries.
  \<^item> Test doubles (\<^verbatim>\<open>fake_adapter.rs\<close>, \<^verbatim>\<open>fake_env.rs\<close>, \<^verbatim>\<open>stubs/\<close>), tests and examples.
\<close>

end
